(* ===== verification/Prelude.thy ===== *)
theory Prelude
  imports Main "HOL-Library.Word"
begin

unbundle bit_operations_syntax

text \<open>
  What every component shares: the integer types of the C++ code as words, the number
  formatting that the code does through \<^verbatim>\<open>stdsprintf\<close>, \<^verbatim>\<open>std::to_string\<close> and
  \<^verbatim>\<open>std::stringstream\<close>, the named collections of rules, and generic lemmas on words, lists
  and strings.
\<close>

section \<open>Machine integers\<close>

type_synonym u8 = "8 word"
type_synonym u16 = "16 word"
type_synonym u32 = "32 word"
type_synonym u64 = "64 word"

text \<open>
  Rules that run a program (\<open>prog_simps\<close>), rules of the transition calculus (\<open>keeps\<close>), of the
  termination calculus (\<open>returning\<close>), and
  the definitions of straight-line register sequences (\<open>seq_defs\<close>).
\<close>

named_theorems prog_simps "equations that execute a program"
named_theorems keeps "rules: every transition of the program is in the relation"
named_theorems returning "rules: the program returns, normally or not, from every state"
named_theorems seq_defs "definitions of straight-line register sequences"

section \<open>Number formatting\<close>

definition digit_char :: "nat \<Rightarrow> char" where
  "digit_char d = ''0123456789abcdef'' ! d"

text \<open>The digits of \<open>n\<close> in base \<open>b\<close>, most significant first, without leading zeros.\<close>

function fmt_nat :: "nat \<Rightarrow> nat \<Rightarrow> string" where
  "fmt_nat b n = (if n < b \<or> b < 2 then [digit_char n] else fmt_nat b (n div b) @ [digit_char (n mod b)])"
  by pat_completeness auto
termination
  by (relation "measure snd") (auto simp: div_less_dividend)

declare fmt_nat.simps [simp del]

definition dec :: "nat \<Rightarrow> string" where
  "dec n = fmt_nat 10 n"

definition hex :: "nat \<Rightarrow> string" where
  "hex n = fmt_nat 16 n"

text \<open>\<^verbatim>\<open>%u\<close>, \<^verbatim>\<open>%i\<close>/\<^verbatim>\<open>%d\<close>, \<^verbatim>\<open>%x\<close>, \<^verbatim>\<open>%hu\<close> and \<^verbatim>\<open>%hhu\<close> of a 32-bit argument.\<close>

definition fmt_u :: "u32 \<Rightarrow> string" where
  "fmt_u w = dec (unat w)"

definition fmt_i :: "u32 \<Rightarrow> string" where
  "fmt_i w = (if sint w < 0 then CHR ''-'' # dec (nat (- sint w)) else dec (nat (sint w)))"

definition fmt_x :: "u32 \<Rightarrow> string" where
  "fmt_x w = hex (unat w)"

definition fmt_hu :: "u32 \<Rightarrow> string" where
  "fmt_hu w = dec (unat (ucast w :: u16))"

definition fmt_hhu :: "u8 \<Rightarrow> string" where
  "fmt_hhu w = dec (unat w)"

text \<open>The part of a \<^verbatim>\<open>std::string\<close> that \<^verbatim>\<open>c_str()\<close> shows: everything before the first NUL.\<close>

definition c_str :: "string \<Rightarrow> string" where
  "c_str s = takeWhile (\<lambda>c. c \<noteq> CHR 0x00) s"

lemma digit_char_inj:
  assumes "i < 16" "j < 16" "digit_char i = digit_char j"
  shows "i = j"
proof -
  have "distinct ''0123456789abcdef''" by simp
  moreover have "length ''0123456789abcdef'' = 16" by simp
  ultimately show ?thesis
    using assms by (auto simp: digit_char_def nth_eq_iff_index_eq)
qed

lemma digit_char_in: "d < 16 \<Longrightarrow> digit_char d \<in> set ''0123456789abcdef''"
  unfolding digit_char_def by (rule nth_mem) simp

lemma fmt_nat_small: "n < b \<Longrightarrow> fmt_nat b n = [digit_char n]"
  by (simp add: fmt_nat.simps)

lemma fmt_nat_big:
  "b \<le> n \<Longrightarrow> 2 \<le> b \<Longrightarrow> fmt_nat b n = fmt_nat b (n div b) @ [digit_char (n mod b)]"
  by (subst fmt_nat.simps) simp

lemma fmt_nat_nonempty: "fmt_nat b n \<noteq> []"
  by (subst fmt_nat.simps) simp

lemma mod_lt_16:
  assumes "2 \<le> (b::nat)" "b \<le> 16"
  shows "n mod b < 16"
proof -
  have "n mod b < b" using assms by (intro mod_less_divisor) simp
  with assms show ?thesis by linarith
qed

lemma set_fmt_nat:
  assumes "2 \<le> b" "b \<le> 16"
  shows "set (fmt_nat b n) \<subseteq> set ''0123456789abcdef''"
proof (induction n rule: less_induct)
  case (less n)
  show ?case
  proof (cases "n < b")
    case True
    with assms have "digit_char n \<in> set ''0123456789abcdef''" by (intro digit_char_in) simp
    with True show ?thesis by (simp add: fmt_nat_small)
  next
    case False
    have dm: "n mod b < 16" using assms by (intro mod_lt_16) simp_all
    have "n div b < n" using False assms by (intro div_less_dividend) auto
    then have "set (fmt_nat b (n div b)) \<subseteq> set ''0123456789abcdef''" by (rule less.IH)
    moreover have "digit_char (n mod b) \<in> set ''0123456789abcdef''"
      using dm by (rule digit_char_in)
    ultimately show ?thesis using False assms by (simp add: fmt_nat_big)
  qed
qed

lemma fmt_nat_inj:
  assumes "2 \<le> b" "b \<le> 16"
  shows "fmt_nat b m = fmt_nat b n \<Longrightarrow> m = n"
proof (induction m arbitrary: n rule: less_induct)
  case (less m)
  show ?case
  proof (cases "m < b")
    case True
    then have one: "length (fmt_nat b n) = 1"
      using less.prems by (metis One_nat_def fmt_nat_small length_Cons list.size(3))
    have "n < b"
    proof (rule ccontr)
      assume "\<not> n < b"
      then have "fmt_nat b (n div b) = []" using one assms by (simp add: fmt_nat_big)
      then show False by (simp add: fmt_nat_nonempty)
    qed
    with True less.prems assms show ?thesis
      by (auto simp: fmt_nat_small intro: digit_char_inj)
  next
    case False
    have "\<not> n < b"
    proof
      assume "n < b"
      then have "fmt_nat b (m div b) = []"
        using less.prems False assms by (simp add: fmt_nat_small fmt_nat_big)
      then show False by (simp add: fmt_nat_nonempty)
    qed
    with False less.prems assms
    have tails: "fmt_nat b (m div b) = fmt_nat b (n div b)"
      and digits: "digit_char (m mod b) = digit_char (n mod b)"
      by (simp_all add: fmt_nat_big)
    have "m div b < m" using False assms by (intro div_less_dividend) auto
    then have d: "m div b = n div b" using tails by (rule less.IH)
    have bnd: "x mod b < 16" for x :: nat
      using assms by (intro mod_lt_16) simp_all
    have r: "m mod b = n mod b"
      by (rule digit_char_inj) (use bnd digits in auto)
    from d r show ?thesis by (metis div_mult_mod_eq)
  qed
qed

lemma dec_inj: "dec m = dec n \<longleftrightarrow> m = n"
  unfolding dec_def using fmt_nat_inj [of 10 m n] by auto

lemma hex_inj: "hex m = hex n \<longleftrightarrow> m = n"
  unfolding hex_def using fmt_nat_inj [of 16 m n] by auto

lemma set_hex: "set (hex n) \<subseteq> set ''0123456789abcdef''"
  unfolding hex_def by (rule set_fmt_nat) simp_all

lemma hex_nonempty: "hex n \<noteq> []"
  by (simp add: hex_def fmt_nat_nonempty)

lemma dec_nonempty: "dec n \<noteq> []"
  by (simp add: dec_def fmt_nat_nonempty)

lemma dec_no_nul: "CHR 0x00 \<notin> set (dec n)"
  using set_fmt_nat [of 10 n] by (auto simp: dec_def)

lemma fmt_u_inj: "fmt_u v = fmt_u w \<longleftrightarrow> v = w"
  by (auto simp: fmt_u_def dec_inj intro: unsigned_word_eqI)

section \<open>Lists and strings\<close>

lemma takeWhile_all: "(\<And>c. c \<in> set s \<Longrightarrow> P c) \<Longrightarrow> takeWhile P s = s"
  by simp

lemma c_str_id: "CHR 0x00 \<notin> set s \<Longrightarrow> c_str s = s"
  unfolding c_str_def by (rule takeWhile_all) auto

section \<open>Words\<close>

lemma bit_u32_out: "32 \<le> n \<Longrightarrow> \<not> bit (w :: u32) n"
  using bit_imp_le_length [of w n] by auto

lemma unat_small: "n < 2 ^ 32 \<Longrightarrow> unat (of_nat n :: u32) = n"
  by (simp add: unsigned_of_nat take_bit_nat_eq_self)

lemma word_bit_eqI:
  fixes v w :: "'a::len word"
  shows "(\<And>n. n < LENGTH('a) \<Longrightarrow> bit v n = bit w n) \<Longrightarrow> v = w"
  by (rule bit_word_eqI)

lemma of_nat_plus_neq:
  fixes a :: u32
  assumes "i < 2 ^ 32" "j < 2 ^ 32" "i \<noteq> j"
  shows "a + of_nat i \<noteq> a + of_nat j"
proof
  assume "a + of_nat i = a + of_nat j"
  then have "unat (of_nat i :: u32) = unat (of_nat j :: u32)" by simp
  with assms show False by (simp add: unsigned_of_nat take_bit_nat_eq_self)
qed

end
