(* ===== verification/Machine.thy ===== *)
theory Machine
  imports Prelude
begin

text \<open>
  The machine every RPC method runs on. A method of the modules reads and writes words through
  the memory service, sleeps, reads the clock, and fills the fields of its response message; it
  may throw a C++ exception, run into undefined behaviour, trap, or never return.

  The memory service, the LMDB address table, the clock and the file system are not part of the
  repository: they are the fields of the record \<open>localArgs\<close>, functions of everything that has
  happened before (the history), so that any deterministic device is one of them. The state is
  the history and the response. A program maps a state to an outcome and a new state, or to
  \<open>None\<close> when it never returns.
\<close>

section \<open>State and environment\<close>

text \<open>An entry of the history: a call of the memory service with its result, a sleep, a look at the clock.\<close>

datatype event =
    MemRead u32 nat "u32 list option"
  | MemWrite u32 "u32 list" bool
  | Sleep nat
  | ClockRead int

text \<open>The values an \<^verbatim>\<open>RPCMsg\<close> carries (\<^verbatim>\<open>include/wiscRPCMsg.h\<close>).\<close>

datatype rpc_val =
    RWord u32
  | RWords "u32 list"
  | RStr string
  | RStrs "string list"
  | RBin "u8 list"

record mach =
  hist :: "event list"
  resp :: "string \<Rightarrow> rpc_val option"

text \<open>
  What a method gets from outside: the read transaction on the address table, the memory
  service and its last error message, the clock, the contents of uninitialised stack memory, the
  lines of the configuration files, and the order in which a \<^verbatim>\<open>std::unordered_map\<close> with the keys
  inserted in a given order goes through them.
\<close>

record localArgs =
  db_get :: "string \<Rightarrow> string option"
  mem_rd :: "event list \<Rightarrow> u32 \<Rightarrow> nat \<Rightarrow> (nat \<Rightarrow> u32) option"
  mem_wr :: "event list \<Rightarrow> u32 \<Rightarrow> u32 list \<Rightarrow> bool"
  mem_err :: "event list \<Rightarrow> string"
  time_now :: "event list \<Rightarrow> int"
  stack_junk :: "nat \<Rightarrow> u32"
  file_lines :: "string \<Rightarrow> string list option"
  map_order :: "u32 list \<Rightarrow> u32 list"

datatype exn =
    Invalid_argument
  | Out_of_range
  | Range_error string
  | Runtime_error string
  | Rpc_exception string

text \<open>How a call can fail to return normally: an exception, undefined behaviour, a trap (SIGFPE).\<close>

datatype abort = Throw exn | Undefined | Trap

datatype 'a outcome = Val 'a | Abort abort

type_synonym 'a prog = "mach \<Rightarrow> ('a outcome \<times> mach) option"

section \<open>Programs\<close>

definition ret :: "'a \<Rightarrow> 'a prog" where
  "ret x s = Some (Val x, s)"

definition abortM :: "abort \<Rightarrow> 'a prog" where
  "abortM e s = Some (Abort e, s)"

definition throwM :: "exn \<Rightarrow> 'a prog" where
  "throwM e = abortM (Throw e)"

definition bindM :: "'a prog \<Rightarrow> ('a \<Rightarrow> 'b prog) \<Rightarrow> 'b prog" where
  "bindM m k s = Option.bind (m s)
     (\<lambda>(r, t). case r of Val x \<Rightarrow> k x t | Abort e \<Rightarrow> Some (Abort e, t))"

definition thenM :: "unit prog \<Rightarrow> 'a prog \<Rightarrow> 'a prog" where
  "thenM m n = bindM m (\<lambda>_. n)"

text \<open>A statement sequence, a conditional statement, a loop over a list of indices.\<close>

fun seqM :: "unit prog list \<Rightarrow> unit prog" where
  "seqM [] = ret ()"
| "seqM (m # ms) = thenM m (seqM ms)"

definition whenM :: "bool \<Rightarrow> unit prog \<Rightarrow> unit prog" where
  "whenM b m = (if b then m else ret ())"

fun forM :: "'x list \<Rightarrow> ('x \<Rightarrow> unit prog) \<Rightarrow> unit prog" where
  "forM [] f = ret ()"
| "forM (x # xs) f = thenM (f x) (forM xs f)"

text \<open>A loop that gathers one value per index, and a loop over an accumulator.\<close>

fun collectM :: "'x list \<Rightarrow> ('x \<Rightarrow> 'a prog) \<Rightarrow> 'a list prog" where
  "collectM [] f = ret []"
| "collectM (x # xs) f = bindM (f x) (\<lambda>y. bindM (collectM xs f) (\<lambda>ys. ret (y # ys)))"

fun foldM :: "('x \<Rightarrow> 'a \<Rightarrow> 'a prog) \<Rightarrow> 'x list \<Rightarrow> 'a \<Rightarrow> 'a prog" where
  "foldM f [] a = ret a"
| "foldM f (x # xs) a = bindM (f x a) (foldM f xs)"

text \<open>A loop whose body may leave the function: \<open>Some r\<close> is \<^verbatim>\<open>return r\<close>.\<close>

fun loopM :: "'x list \<Rightarrow> ('x \<Rightarrow> 'r option prog) \<Rightarrow> 'r option prog" where
  "loopM [] f = ret None"
| "loopM (x # xs) f = bindM (f x) (\<lambda>r. case r of None \<Rightarrow> loopM xs f | Some v \<Rightarrow> ret (Some v))"

text \<open>\<^verbatim>\<open>try { m } catch (std::runtime_error& e) { h(e.what()) }\<close>: \<^verbatim>\<open>range_error\<close> is a \<^verbatim>\<open>runtime_error\<close>.\<close>

definition catch_runtime :: "'a prog \<Rightarrow> (string \<Rightarrow> 'a prog) \<Rightarrow> 'a prog" where
  "catch_runtime m h s = Option.bind (m s)
     (\<lambda>(r, t). case r of
        Abort (Throw (Runtime_error w)) \<Rightarrow> h w t
      | Abort (Throw (Range_error w)) \<Rightarrow> h w t
      | _ \<Rightarrow> Some (r, t))"

text \<open>A library function that may throw, applied to values.\<close>

definition liftE :: "exn + 'a \<Rightarrow> 'a prog" where
  "liftE r = (case r of Inl e \<Rightarrow> throwM e | Inr x \<Rightarrow> ret x)"

section \<open>Primitive actions\<close>

definition emit :: "event \<Rightarrow> unit prog" where
  "emit e s = Some (Val (), s\<lparr>hist := hist s @ [e]\<rparr>)"

definition get_hist :: "event list prog" where
  "get_hist s = Some (Val (hist s), s)"

text \<open>\<^verbatim>\<open>std::this_thread::sleep_for\<close>, \<^verbatim>\<open>usleep\<close> and \<^verbatim>\<open>sleep\<close>; the argument in nanoseconds.\<close>

definition sleep_ns :: "nat \<Rightarrow> unit prog" where
  "sleep_ns n = emit (Sleep n)"

definition sleep_us :: "nat \<Rightarrow> unit prog" where
  "sleep_us n = sleep_ns (1000 * n)"

definition sleep_ms :: "nat \<Rightarrow> unit prog" where
  "sleep_ms n = sleep_us (1000 * n)"

text \<open>\<^verbatim>\<open>time(NULL)\<close>.\<close>

definition clock :: "localArgs \<Rightarrow> int prog" where
  "clock la s = Some (Val (time_now la (hist s)), s\<lparr>hist := hist s @ [ClockRead (time_now la (hist s))]\<rparr>)"

definition set_key :: "string \<Rightarrow> rpc_val \<Rightarrow> unit prog" where
  "set_key k v s = Some (Val (), s\<lparr>resp := (resp s)(k \<mapsto> v)\<rparr>)"

definition set_string :: "string \<Rightarrow> string \<Rightarrow> unit prog" where
  "set_string k v = set_key k (RStr v)"

definition set_word :: "string \<Rightarrow> u32 \<Rightarrow> unit prog" where
  "set_word k v = set_key k (RWord v)"

definition set_word_array :: "string \<Rightarrow> u32 list \<Rightarrow> unit prog" where
  "set_word_array k v = set_key k (RWords v)"

abbreviation set_error :: "string \<Rightarrow> unit prog" where
  "set_error msg \<equiv> set_string ''error'' msg"

text \<open>Reading and writing a C array of words: an index out of range is undefined behaviour.\<close>

definition arr_get :: "u32 list \<Rightarrow> nat \<Rightarrow> u32 prog" where
  "arr_get xs i = (if i < length xs then ret (xs ! i) else abortM Undefined)"

definition arr_set :: "u32 list \<Rightarrow> nat \<Rightarrow> u32 \<Rightarrow> u32 list prog" where
  "arr_set xs i v = (if i < length xs then ret (xs[i := v]) else abortM Undefined)"

text \<open>An array of \<open>n\<close> words on the stack, before anything is written to it.\<close>

definition stack_array :: "localArgs \<Rightarrow> nat \<Rightarrow> u32 list" where
  "stack_array la n = map (stack_junk la) [0..<n]"

section \<open>Requests\<close>

text \<open>
  The request message: what each accessor of \<^verbatim>\<open>RPCMsg\<close> (the class is in the RPC service, not in the
  repository) returns for a key, or the exception it throws. The size accessors return the
  length of what the array accessors deliver.
\<close>

record rpc_request =
  rq_exists :: "string \<Rightarrow> bool"
  rq_word :: "string \<Rightarrow> exn + u32"
  rq_words :: "string \<Rightarrow> exn + u32 list"
  rq_string :: "string \<Rightarrow> exn + string"
  rq_strings :: "string \<Rightarrow> exn + string list"
  rq_bin :: "string \<Rightarrow> exn + u8 list"

definition get_word :: "rpc_request \<Rightarrow> string \<Rightarrow> u32 prog" where
  "get_word rq k = liftE (rq_word rq k)"

definition get_word_array :: "rpc_request \<Rightarrow> string \<Rightarrow> u32 list prog" where
  "get_word_array rq k = liftE (rq_words rq k)"

definition get_string :: "rpc_request \<Rightarrow> string \<Rightarrow> string prog" where
  "get_string rq k = liftE (rq_string rq k)"

definition get_string_array :: "rpc_request \<Rightarrow> string \<Rightarrow> string list prog" where
  "get_string_array rq k = liftE (rq_strings rq k)"

definition get_binarydata :: "rpc_request \<Rightarrow> string \<Rightarrow> u8 list prog" where
  "get_binarydata rq k = liftE (rq_bin rq k)"

text \<open>Copying an array of the request into a C array of fixed size: a longer one overruns it.\<close>

definition copy_into :: "u32 list \<Rightarrow> u32 list \<Rightarrow> u32 list prog" where
  "copy_into buf xs = (if length xs \<le> length buf then ret (xs @ drop (length xs) buf) else abortM Undefined)"

section \<open>Running programs\<close>

lemma bindM_cases:
  "bindM m k s = (case m s of None \<Rightarrow> None | Some (Val x, t) \<Rightarrow> k x t | Some (Abort e, t) \<Rightarrow> Some (Abort e, t))"
  by (auto simp: bindM_def split: option.splits outcome.splits)

lemma bindM_Val [prog_simps]: "m s = Some (Val x, t) \<Longrightarrow> bindM m k s = k x t"
  by (simp add: bindM_def)

lemma bindM_Abort [prog_simps]: "m s = Some (Abort e, t) \<Longrightarrow> bindM m k s = Some (Abort e, t)"
  by (simp add: bindM_def)

lemma bindM_None [prog_simps]: "m s = None \<Longrightarrow> bindM m k s = None"
  by (simp add: bindM_def)

lemma bindM_ret [simp]: "bindM (ret x) k = k x"
  by (simp add: bindM_def ret_def fun_eq_iff)

lemma bindM_abortM [simp]: "bindM (abortM e) k = abortM e"
  by (simp add: bindM_def abortM_def fun_eq_iff)

lemma bindM_throwM [simp]: "bindM (throwM e) k = throwM e"
  by (simp add: throwM_def)

lemma bindM_assoc [simp]: "bindM (bindM m k) l = bindM m (\<lambda>x. bindM (k x) l)"
  by (auto simp: bindM_cases fun_eq_iff split: option.splits outcome.splits)

lemma bindM_ret_right [simp]: "bindM m ret = m"
  by (rule ext) (auto simp: bindM_cases ret_def split: option.split outcome.split)

lemma ret_unit: "(\<lambda>_. ret ()) = ret"
  by (rule ext) simp

lemma bindM_ret_unit [simp]: "bindM m (\<lambda>_. ret ()) = m"
  unfolding ret_unit by simp

lemma thenM_ret [simp]: "thenM (ret ()) n = n"
  by (simp add: thenM_def)

lemma thenM_Val [prog_simps]: "m s = Some (Val (), t) \<Longrightarrow> thenM m n s = n t"
  by (simp add: thenM_def bindM_Val)

lemma thenM_assoc [simp]: "thenM (thenM l m) n = thenM l (thenM m n)"
  by (simp add: thenM_def)

lemma seqM_append: "seqM (ms @ ns) = thenM (seqM ms) (seqM ns)"
  by (induction ms) simp_all

lemma forM_append: "forM (xs @ ys) f = thenM (forM xs f) (forM ys f)"
  by (induction xs) simp_all

lemma seqM_map: "seqM (map f xs) = forM xs f"
  by (induction xs) simp_all

lemma ret_run [prog_simps]: "ret x s = Some (Val x, s)"
  by (simp add: ret_def)

lemma abortM_run [prog_simps]: "abortM e s = Some (Abort e, s)"
  by (simp add: abortM_def)

lemma throwM_run [prog_simps]: "throwM e s = Some (Abort (Throw e), s)"
  by (simp add: throwM_def abortM_def)

lemma emit_run [prog_simps]: "emit e s = Some (Val (), s\<lparr>hist := hist s @ [e]\<rparr>)"
  by (simp add: emit_def)

lemma set_key_run [prog_simps]: "set_key k v s = Some (Val (), s\<lparr>resp := (resp s)(k \<mapsto> v)\<rparr>)"
  by (simp add: set_key_def)

lemma bindM_SomeD:
  assumes "bindM m k s = Some (r, u)"
  shows "(\<exists>x t. m s = Some (Val x, t) \<and> k x t = Some (r, u))
       \<or> (\<exists>e. r = Abort e \<and> m s = Some (Abort e, u))"
  using assms by (auto simp: bindM_cases split: option.splits outcome.splits)

lemma bindM_ValE:
  assumes "bindM m k s = Some (Val y, u)"
  obtains x t where "m s = Some (Val x, t)" and "k x t = Some (Val y, u)"
  using bindM_SomeD [OF assms] by auto

text \<open>A poll loop may run forever; \<open>partial_function\<close> accepts the recursive call under \<open>bindM\<close>.\<close>

lemma bindM_mono [partial_function_mono]:
  assumes "\<And>s. mono_option (\<lambda>f. m f s)"
    and "\<And>x s. mono_option (\<lambda>f. k x f s)"
  shows "mono_option (\<lambda>f. bindM (m f) (\<lambda>x. k x f) s)"
  unfolding bindM_def
proof (rule bind_mono [OF assms(1)])
  fix y :: "'c outcome \<times> mach"
  obtain r t where y: "y = (r, t)" by (cases y)
  show "mono_option (\<lambda>f. case y of (r, t) \<Rightarrow>
      (case r of Val x \<Rightarrow> k x f t | Abort e \<Rightarrow> Some (Abort e, t)))"
    by (cases r) (simp_all add: y assms(2) option.const_mono)
qed

section \<open>The transition calculus\<close>

text \<open>
  \<open>preserves R m\<close>: whatever \<open>m\<close> does, normal return or not, the step it makes from its first
  to its last state is in \<open>R\<close>. For a reflexive and transitive \<open>R\<close> each combinator has a rule.
\<close>

definition preserves :: "(mach \<Rightarrow> mach \<Rightarrow> bool) \<Rightarrow> 'a prog \<Rightarrow> bool" where
  "preserves R m \<longleftrightarrow> (\<forall>s r t. m s = Some (r, t) \<longrightarrow> R s t)"

lemma preservesI: "(\<And>s r t. m s = Some (r, t) \<Longrightarrow> R s t) \<Longrightarrow> preserves R m"
  by (simp add: preserves_def)

lemma preservesD: "preserves R m \<Longrightarrow> m s = Some (r, t) \<Longrightarrow> R s t"
  by (simp add: preserves_def)

locale step_rel =
  fixes R :: "mach \<Rightarrow> mach \<Rightarrow> bool"
  assumes refl: "R s s"
    and trans: "R s t \<Longrightarrow> R t u \<Longrightarrow> R s u"
begin

lemma keep_ret [keeps]: "preserves R (ret x)"
  by (rule preservesI) (simp add: ret_def refl)

lemma keep_abort [keeps]: "preserves R (abortM e)"
  by (rule preservesI) (simp add: abortM_def refl)

lemma keep_throw [keeps]: "preserves R (throwM e)"
  by (simp add: throwM_def keep_abort)

lemma keep_bind [keeps]:
  assumes "preserves R m" and "\<And>x. preserves R (k x)"
  shows "preserves R (bindM m k)"
proof (rule preservesI)
  fix s r u
  assume "bindM m k s = Some (r, u)"
  then show "R s u"
    using bindM_SomeD [of m k s r u] assms by (auto dest: preservesD intro: trans)
qed

lemma keep_then [keeps]: "preserves R m \<Longrightarrow> preserves R n \<Longrightarrow> preserves R (thenM m n)"
  by (simp add: thenM_def keep_bind)

lemma keep_seq [keeps]: "(\<And>m. m \<in> set ms \<Longrightarrow> preserves R m) \<Longrightarrow> preserves R (seqM ms)"
  by (induction ms) (auto intro: keep_ret keep_then)

lemma keep_when [keeps]: "(b \<Longrightarrow> preserves R m) \<Longrightarrow> preserves R (whenM b m)"
  by (simp add: whenM_def keep_ret)

lemma keep_for [keeps]: "(\<And>x. x \<in> set xs \<Longrightarrow> preserves R (f x)) \<Longrightarrow> preserves R (forM xs f)"
  by (induction xs) (auto intro: keep_ret keep_then)

lemma keep_collect [keeps]:
  "(\<And>x. x \<in> set xs \<Longrightarrow> preserves R (f x)) \<Longrightarrow> preserves R (collectM xs f)"
  by (induction xs) (auto intro!: keep_ret keep_bind)

lemma keep_fold [keeps]:
  "(\<And>x a. x \<in> set xs \<Longrightarrow> preserves R (f x a)) \<Longrightarrow> preserves R (foldM f xs a)"
  by (induction xs arbitrary: a) (auto intro!: keep_ret keep_bind)

lemma keep_loop [keeps]:
  "(\<And>x. x \<in> set xs \<Longrightarrow> preserves R (f x)) \<Longrightarrow> preserves R (loopM xs f)"
  by (induction xs) (auto intro!: keep_ret keep_bind split: option.split)

lemma keep_if [keeps]:
  "(b \<Longrightarrow> preserves R m) \<Longrightarrow> (\<not> b \<Longrightarrow> preserves R n) \<Longrightarrow> preserves R (if b then m else n)"
  by simp

lemma keep_case_option [keeps]:
  "preserves R m \<Longrightarrow> (\<And>x. preserves R (k x)) \<Longrightarrow> preserves R (case v of None \<Rightarrow> m | Some x \<Rightarrow> k x)"
  by (cases v) simp_all

lemma keep_case_sum [keeps]:
  "(\<And>x. preserves R (h x)) \<Longrightarrow> (\<And>x. preserves R (k x)) \<Longrightarrow> preserves R (case v of Inl x \<Rightarrow> h x | Inr x \<Rightarrow> k x)"
  by (cases v) simp_all

lemma keep_case_prod [keeps]:
  "(\<And>x y. preserves R (k x y)) \<Longrightarrow> preserves R (case p of (x, y) \<Rightarrow> k x y)"
  by (cases p) simp

lemma keep_copy_into [keeps]: "preserves R (copy_into xs ys)"
  by (simp add: copy_into_def keep_ret keep_abort)

lemma keep_liftE [keeps]: "preserves R (liftE v)"
  by (cases v) (simp_all add: liftE_def keep_ret keep_throw)

lemma keep_get_hist [keeps]: "preserves R get_hist"
  by (rule preservesI) (simp add: get_hist_def refl)

lemma keep_arr_get [keeps]: "preserves R (arr_get xs i)"
  by (simp add: arr_get_def keep_ret keep_abort)

lemma keep_arr_set [keeps]: "preserves R (arr_set xs i v)"
  by (simp add: arr_set_def keep_ret keep_abort)

lemma keep_catch [keeps]:
  assumes "preserves R m" and "\<And>w. preserves R (h w)"
  shows "preserves R (catch_runtime m h)"
proof (rule preservesI)
  fix s r u
  assume run: "catch_runtime m h s = Some (r, u)"
  then obtain q t where q: "m s = Some (q, t)"
    by (auto simp: catch_runtime_def bind_eq_Some_conv)
  then have st: "R s t" using assms(1) by (blast dest: preservesD)
  from run q have "u = t \<or> (\<exists>w. h w t = Some (r, u))"
    by (auto simp: catch_runtime_def split: outcome.splits abort.splits exn.splits)
  then show "R s u"
    using st assms(2) by (blast dest: preservesD intro: trans)
qed

end

text \<open>
  The one family of relations used: only events in \<open>P\<close> were added to the history, and only
  response keys in \<open>K\<close> were touched.
\<close>

definition extends :: "(event \<Rightarrow> bool) \<Rightarrow> (string \<Rightarrow> bool) \<Rightarrow> mach \<Rightarrow> mach \<Rightarrow> bool" where
  "extends P K s t \<longleftrightarrow>
     (\<exists>h. hist t = hist s @ h \<and> (\<forall>e \<in> set h. P e)) \<and> (\<forall>k. \<not> K k \<longrightarrow> resp t k = resp s k)"

lemma extends_refl: "extends P K s s"
  by (simp add: extends_def)

lemma extends_trans: "extends P K s t \<Longrightarrow> extends P K t u \<Longrightarrow> extends P K s u"
  by (force simp: extends_def)

interpretation ext: step_rel "extends P K"
  by unfold_locales (fact extends_refl, fact extends_trans)

lemma keep_request:
  "preserves (extends P K) (get_word rq k)" "preserves (extends P K) (get_word_array rq k)"
  "preserves (extends P K) (get_string rq k)" "preserves (extends P K) (get_string_array rq k)"
  "preserves (extends P K) (get_binarydata rq k)"
  by (simp_all add: get_word_def get_word_array_def get_string_def get_string_array_def
      get_binarydata_def ext.keep_liftE)

declare keep_request [keeps]

lemma extends_mono:
  "extends P K s t \<Longrightarrow> (\<And>e. P e \<Longrightarrow> P' e) \<Longrightarrow> (\<And>k. K k \<Longrightarrow> K' k) \<Longrightarrow> extends P' K' s t"
  by (force simp: extends_def)

lemma keep_emit [keeps]: "P e \<Longrightarrow> preserves (extends P K) (emit e)"
  by (rule preservesI) (auto simp: emit_def extends_def)

lemma keep_set_key [keeps]: "K k \<Longrightarrow> preserves (extends P K) (set_key k v)"
  by (rule preservesI) (auto simp: set_key_def extends_def)

lemma keep_set_string [keeps]: "K k \<Longrightarrow> preserves (extends P K) (set_string k v)"
  by (simp add: set_string_def keep_set_key)

lemma keep_set_word [keeps]: "K k \<Longrightarrow> preserves (extends P K) (set_word k v)"
  by (simp add: set_word_def keep_set_key)

lemma keep_set_word_array [keeps]: "K k \<Longrightarrow> preserves (extends P K) (set_word_array k v)"
  by (simp add: set_word_array_def keep_set_key)

lemma keep_sleep_ns [keeps]: "P (Sleep n) \<Longrightarrow> preserves (extends P K) (sleep_ns n)"
  by (simp add: sleep_ns_def keep_emit)

lemma keep_sleep_us [keeps]: "P (Sleep (1000 * n)) \<Longrightarrow> preserves (extends P K) (sleep_us n)"
  by (simp add: sleep_us_def keep_sleep_ns)

lemma keep_sleep_ms [keeps]: "P (Sleep (1000 * (1000 * n))) \<Longrightarrow> preserves (extends P K) (sleep_ms n)"
  by (simp add: sleep_ms_def keep_sleep_us)

lemma keep_clock [keeps]: "(\<And>t. P (ClockRead t)) \<Longrightarrow> preserves (extends P K) (clock la)"
  by (rule preservesI) (auto simp: clock_def extends_def)

fun no_write :: "event \<Rightarrow> bool" where
  "no_write (MemWrite a ws ok) = False"
| "no_write _ = True"

definition no_key :: "string \<Rightarrow> bool" where
  "no_key k = False"

lemma no_key_simps [simp]: "\<not> no_key k"
  by (simp add: no_key_def)

section \<open>Termination\<close>

text \<open>The program ends from every state: it returns a value, throws, traps, or is undefined.\<close>

definition returns :: "'a prog \<Rightarrow> bool" where
  "returns m \<longleftrightarrow> (\<forall>s. m s \<noteq> None)"

lemma returnsI: "(\<And>s. \<exists>r t. m s = Some (r, t)) \<Longrightarrow> returns m"
  by (force simp: returns_def)

lemma returnsD: "returns m \<Longrightarrow> \<exists>r t. m s = Some (r, t)"
  by (simp add: returns_def)

lemma returns_ret [returning]: "returns (ret x)"
  by (simp add: returns_def ret_def)

lemma returns_abort [returning]: "returns (abortM e)" "returns (throwM x)"
  by (simp_all add: returns_def abortM_def throwM_def)

lemma returns_bind [returning]: "returns m \<Longrightarrow> (\<And>x. returns (k x)) \<Longrightarrow> returns (bindM m k)"
  by (auto simp: returns_def bindM_cases split: option.splits outcome.splits)

lemma returns_then [returning]: "returns m \<Longrightarrow> returns n \<Longrightarrow> returns (thenM m n)"
  by (simp add: thenM_def returns_bind)

lemma returns_seq [returning]: "(\<And>m. m \<in> set ms \<Longrightarrow> returns m) \<Longrightarrow> returns (seqM ms)"
  by (induction ms) (auto intro: returns_ret returns_then)

lemma returns_when [returning]: "(b \<Longrightarrow> returns m) \<Longrightarrow> returns (whenM b m)"
  by (simp add: whenM_def returns_ret)

lemma returns_for [returning]: "(\<And>x. x \<in> set xs \<Longrightarrow> returns (f x)) \<Longrightarrow> returns (forM xs f)"
  by (induction xs) (auto intro: returns_ret returns_then)

lemma returns_collect [returning]: "(\<And>x. x \<in> set xs \<Longrightarrow> returns (f x)) \<Longrightarrow> returns (collectM xs f)"
  by (induction xs) (auto intro!: returns_ret returns_bind)

lemma returns_fold [returning]: "(\<And>x a. x \<in> set xs \<Longrightarrow> returns (f x a)) \<Longrightarrow> returns (foldM f xs a)"
  by (induction xs arbitrary: a) (auto intro!: returns_ret returns_bind)

lemma returns_loop [returning]: "(\<And>x. x \<in> set xs \<Longrightarrow> returns (f x)) \<Longrightarrow> returns (loopM xs f)"
  by (induction xs) (auto intro!: returns_ret returns_bind split: option.split)

lemma returns_if [returning]: "(b \<Longrightarrow> returns m) \<Longrightarrow> (\<not> b \<Longrightarrow> returns n) \<Longrightarrow> returns (if b then m else n)"
  by simp

lemma returns_case_option [returning]:
  "returns m \<Longrightarrow> (\<And>x. returns (k x)) \<Longrightarrow> returns (case v of None \<Rightarrow> m | Some x \<Rightarrow> k x)"
  by (cases v) simp_all

lemma returns_case_sum [returning]:
  "(\<And>x. returns (h x)) \<Longrightarrow> (\<And>x. returns (k x)) \<Longrightarrow> returns (case v of Inl x \<Rightarrow> h x | Inr x \<Rightarrow> k x)"
  by (cases v) simp_all

lemma returns_case_prod [returning]: "(\<And>x y. returns (k x y)) \<Longrightarrow> returns (case p of (x, y) \<Rightarrow> k x y)"
  by (cases p) simp

lemma returns_primitive [returning]:
  "returns (liftE v)" "returns (emit e)" "returns get_hist" "returns (sleep_ns n)" "returns (sleep_us n)"
  "returns (sleep_ms n)" "returns (clock la)" "returns (set_key k w)" "returns (set_string k u)"
  "returns (set_word k x)" "returns (set_word_array k xs)" "returns (arr_get xs i)" "returns (arr_set xs i x)"
  "returns (copy_into xs ys)"
  "returns (get_word rq k)" "returns (get_word_array rq k)" "returns (get_string rq k)"
  "returns (get_string_array rq k)" "returns (get_binarydata rq k)"
  by (auto simp: returns_def liftE_def emit_def get_hist_def sleep_ns_def sleep_us_def sleep_ms_def clock_def
      set_key_def set_string_def set_word_def set_word_array_def arr_get_def arr_set_def copy_into_def
      get_word_def get_word_array_def get_string_def get_string_array_def get_binarydata_def
      ret_def abortM_def throwM_def split: sum.split)

lemma returns_catch [returning]:
  assumes "returns m" and "\<And>w. returns (h w)"
  shows "returns (catch_runtime m h)"
proof (rule returnsI)
  fix s
  obtain r t where m: "m s = Some (r, t)" using returnsD [OF assms(1)] by blast
  have h: "\<exists>r u. h w t = Some (r, u)" for w using returnsD [OF assms(2)] .
  show "\<exists>r u. catch_runtime m h s = Some (r, u)"
    using h by (auto simp: catch_runtime_def m split: outcome.split abort.split exn.split)
qed

section \<open>Memory-like words of the device\<close>

text \<open>The word at \<open>a\<close> after a history, when it was \<open>v0\<close> before: the last successful write wins.\<close>

fun wr_at :: "u32 \<Rightarrow> event \<Rightarrow> u32 option" where
  "wr_at a (MemWrite b ws True) =
     (if unat (a - b) < length ws then Some (ws ! unat (a - b)) else None)"
| "wr_at a _ = None"

fun cell :: "u32 \<Rightarrow> u32 \<Rightarrow> event list \<Rightarrow> u32" where
  "cell a v [] = v"
| "cell a v (e # h) = cell a (case wr_at a e of None \<Rightarrow> v | Some w \<Rightarrow> w) h"

text \<open>
  The device behaves as memory on the addresses \<open>A\<close>, which held \<open>v0\<close> at first: accesses inside
  \<open>A\<close> succeed and reads see the last write.
\<close>

definition ram_on :: "localArgs \<Rightarrow> u32 set \<Rightarrow> (u32 \<Rightarrow> u32) \<Rightarrow> bool" where
  "ram_on la A v0 \<longleftrightarrow>
     (\<forall>h b n. (\<forall>i<n. b + of_nat i \<in> A) \<longrightarrow>
        (\<exists>f. mem_rd la h b n = Some f \<and> (\<forall>i<n. f i = cell (b + of_nat i) (v0 (b + of_nat i)) h))) \<and>
     (\<forall>h b ws. (\<forall>i<length ws. b + of_nat i \<in> A) \<longrightarrow> mem_wr la h b ws)"

lemma cell_append: "cell a v (g @ h) = cell a (cell a v g) h"
  by (induction g arbitrary: v) simp_all

lemma cell_snoc: "cell a v (h @ [e]) = (case wr_at a e of None \<Rightarrow> cell a v h | Some w \<Rightarrow> w)"
  by (simp add: cell_append)

lemma wr_at_one: "wr_at a (MemWrite b [w] True) = (if a = b then Some w else None)"
  by (simp add: unat_eq_0)

lemma cell_no_write: "(\<And>e. e \<in> set h \<Longrightarrow> wr_at a e = None) \<Longrightarrow> cell a v h = v"
  by (induction h arbitrary: v) simp_all

lemma ram_on_read1:
  assumes "ram_on la A v0" and "a \<in> A"
  shows "\<exists>f. mem_rd la h a 1 = Some f \<and> f 0 = cell a (v0 a) h"
proof -
  have "\<forall>i<1. a + of_nat i \<in> A" using assms(2) by simp
  then obtain f where "mem_rd la h a 1 = Some f"
    and "\<forall>i<1. f i = cell (a + of_nat i) (v0 (a + of_nat i)) h"
    using assms(1) unfolding ram_on_def by blast
  then show ?thesis by auto
qed

lemma ram_on_write1:
  assumes "ram_on la A v0" and "a \<in> A"
  shows "mem_wr la h a [w]"
proof -
  have "\<forall>i<length [w]. a + of_nat i \<in> A" using assms(2) by simp
  with assms(1) show ?thesis unfolding ram_on_def by blast
qed

lemma ram_on_subset: "ram_on la A v0 \<Longrightarrow> B \<subseteq> A \<Longrightarrow> ram_on la B v0"
  unfolding ram_on_def by blast

end
