(* ===== verification/Memhub.thy ===== *)
theory Memhub
  imports Machine
begin

text \<open>
  \<^verbatim>\<open>src/memhub.cpp\<close>: the thin layer around the memory service that every module uses. First the
  calls as one client sees them (\<^verbatim>\<open>memhub_read\<close>, \<^verbatim>\<open>memhub_write\<close>), with the interface \<open>word_bus\<close>
  that the register layer relies on; then the protocol between the client processes: the named
  semaphore, the \<^verbatim>\<open>busy\<close> flag of each process and the signal handler \<^verbatim>\<open>die\<close>, as a step
  function over a system of processes.
\<close>

section \<open>The calls\<close>

text \<open>\<open>Some ws\<close>: the call returned 0 and stored \<open>ws\<close>; \<open>None\<close>: it returned an error.\<close>

definition memhub_read :: "localArgs \<Rightarrow> u32 \<Rightarrow> nat \<Rightarrow> u32 list option prog" where
  "memhub_read la addr words s =
     (let ws = map_option (\<lambda>f. map f [0..<words]) (mem_rd la (hist s) addr words)
      in Some (Val ws, s\<lparr>hist := hist s @ [MemRead addr words ws]\<rparr>))"

text \<open>\<open>True\<close>: the call returned 0.\<close>

definition memhub_write :: "localArgs \<Rightarrow> u32 \<Rightarrow> u32 list \<Rightarrow> bool prog" where
  "memhub_write la addr ws s =
     (let ok = mem_wr la (hist s) addr ws
      in Some (Val ok, s\<lparr>hist := hist s @ [MemWrite addr ws ok]\<rparr>))"

text \<open>\<^verbatim>\<open>memsvc_get_last_error\<close> of the memory service.\<close>

definition last_error :: "localArgs \<Rightarrow> string prog" where
  "last_error la s = Some (Val (mem_err la (hist s)), s)"

text \<open>
  What the register layer and the memory modules rely on: the calls return, a successful read
  delivers as many words as asked for, and a call leaves exactly its own entry in the history.
\<close>

locale word_bus =
  fixes rd :: "u32 \<Rightarrow> nat \<Rightarrow> u32 list option prog"
    and wr :: "u32 \<Rightarrow> u32 list \<Rightarrow> bool prog"
  assumes rd_returns: "\<exists>r. rd a n s = Some (Val r, s\<lparr>hist := hist s @ [MemRead a n r]\<rparr>)"
    and rd_length: "rd a n s = Some (Val (Some ws), t) \<Longrightarrow> length ws = n"
    and wr_returns: "\<exists>ok. wr a ws s = Some (Val ok, s\<lparr>hist := hist s @ [MemWrite a ws ok]\<rparr>)"
begin

lemma keep_rd: "(\<And>r. P (MemRead a n r)) \<Longrightarrow> preserves (extends P K) (rd a n)"
proof (rule preservesI)
  fix s q t
  assume P: "\<And>r. P (MemRead a n r)" and run: "rd a n s = Some (q, t)"
  obtain r where "rd a n s = Some (Val r, s\<lparr>hist := hist s @ [MemRead a n r]\<rparr>)"
    using rd_returns by blast
  with run P show "extends P K s t" by (auto simp: extends_def)
qed

lemma keep_wr: "(\<And>ok. P (MemWrite a ws ok)) \<Longrightarrow> preserves (extends P K) (wr a ws)"
proof (rule preservesI)
  fix s q t
  assume P: "\<And>ok. P (MemWrite a ws ok)" and run: "wr a ws s = Some (q, t)"
  obtain ok where "wr a ws s = Some (Val ok, s\<lparr>hist := hist s @ [MemWrite a ws ok]\<rparr>)"
    using wr_returns by blast
  with run P show "extends P K s t" by (auto simp: extends_def)
qed

lemma rd_resp: "rd a n s = Some (r, t) \<Longrightarrow> resp t = resp s"
  using rd_returns [of a n s] by auto

lemma wr_resp: "wr a ws s = Some (r, t) \<Longrightarrow> resp t = resp s"
  using wr_returns [of a ws s] by auto

end

interpretation bus: word_bus "memhub_read la" "memhub_write la"
  by unfold_locales (auto simp: memhub_read_def memhub_write_def Let_def)

declare bus.keep_rd [keeps] bus.keep_wr [keeps]

lemma keep_last_error [keeps]: "preserves (extends P K) (last_error la)"
  by (rule preservesI) (simp add: last_error_def extends_refl)

lemma memhub_read_run [prog_simps]:
  "memhub_read la a n s =
     Some (Val (map_option (\<lambda>f. map f [0..<n]) (mem_rd la (hist s) a n)),
       s\<lparr>hist := hist s @ [MemRead a n (map_option (\<lambda>f. map f [0..<n]) (mem_rd la (hist s) a n))]\<rparr>)"
  by (simp add: memhub_read_def Let_def)

lemma memhub_write_run [prog_simps]:
  "memhub_write la a ws s =
     Some (Val (mem_wr la (hist s) a ws),
       s\<lparr>hist := hist s @ [MemWrite a ws (mem_wr la (hist s) a ws)]\<rparr>)"
  by (simp add: memhub_write_def Let_def)

lemma last_error_run [prog_simps]: "last_error la s = Some (Val (mem_err la (hist s)), s)"
  by (simp add: last_error_def)

section \<open>Opening the hub\<close>

text \<open>
  \<^verbatim>\<open>sem_open\<close> with \<^verbatim>\<open>O_CREAT\<close> either fails or yields a semaphore with the value it already had,
  1 if it was new. The value is read before the check for \<^verbatim>\<open>SEM_FAILED\<close>.
\<close>

datatype sem_open_result = Sem_Failed | Sem_Opened nat

datatype open_outcome = Open_Undefined | Open_Exits int | Open_Returns int

definition memhub_open :: "bool \<Rightarrow> sem_open_result \<Rightarrow> int \<Rightarrow> open_outcome" where
  "memhub_open opened_before sem memsvc_open_result =
     (if opened_before then Open_Returns memsvc_open_result
      else case sem of
        Sem_Failed \<Rightarrow> Open_Undefined
      | Sem_Opened semval \<Rightarrow>
          if semval > 1 then Open_Exits 1 else Open_Returns memsvc_open_result)"

text \<open>The check \<^verbatim>\<open>semaphore == SEM_FAILED\<close> is never reached with a failed semaphore: it was used before.\<close>

lemma memhub_open_failed: "memhub_open False Sem_Failed r = Open_Undefined"
  by (simp add: memhub_open_def)

section \<open>The protocol between processes\<close>

text \<open>
  Where a process stands inside \<^verbatim>\<open>memhub_read\<close> or \<^verbatim>\<open>memhub_write\<close>: outside, or blocked in
  \<^verbatim>\<open>sem_wait\<close> (\<open>Idle\<close>); after \<^verbatim>\<open>sem_wait\<close> (\<open>Acquired\<close>); after \<^verbatim>\<open>busy = true\<close>, in the
  memory service (\<open>Calling\<close>); after the service returned (\<open>Returned\<close>); after \<^verbatim>\<open>sem_post\<close>, before
  \<^verbatim>\<open>busy = false\<close> (\<open>Posted\<close>); in the handler \<^verbatim>\<open>die\<close> after \<^verbatim>\<open>sem_getvalue\<close> (\<open>Dying\<close>, with the
  value read); exited (\<open>Dead\<close>).
\<close>

datatype pc = Idle | Acquired | Calling | Returned | Posted | Dying nat | Dead

record proc =
  at :: pc
  busy :: bool

record sem_sys =
  semval :: nat
  procs :: "nat \<Rightarrow> proc"

text \<open>The atomic actions, each by one process.\<close>

datatype act =
    Sem_wait nat | Set_busy nat | Service nat | Sem_post nat | Clear_busy nat
  | Signal nat | Die nat

definition put_proc :: "sem_sys \<Rightarrow> nat \<Rightarrow> proc \<Rightarrow> sem_sys" where
  "put_proc s i p = s\<lparr>procs := (procs s)(i := p)\<rparr>"

fun memhub_act :: "act \<Rightarrow> sem_sys \<Rightarrow> sem_sys option" where
  "memhub_act (Sem_wait i) s =
     (if at (procs s i) = Idle \<and> semval s > 0
      then Some ((put_proc s i ((procs s i)\<lparr>at := Acquired\<rparr>))\<lparr>semval := semval s - 1\<rparr>) else None)"
| "memhub_act (Set_busy i) s =
     (if at (procs s i) = Acquired
      then Some (put_proc s i ((procs s i)\<lparr>at := Calling, busy := True\<rparr>)) else None)"
| "memhub_act (Service i) s =
     (if at (procs s i) = Calling
      then Some (put_proc s i ((procs s i)\<lparr>at := Returned\<rparr>)) else None)"
| "memhub_act (Sem_post i) s =
     (if at (procs s i) = Returned
      then Some ((put_proc s i ((procs s i)\<lparr>at := Posted\<rparr>))\<lparr>semval := semval s + 1\<rparr>) else None)"
| "memhub_act (Clear_busy i) s =
     (if at (procs s i) = Posted
      then Some (put_proc s i ((procs s i)\<lparr>at := Idle, busy := False\<rparr>)) else None)"
| "memhub_act (Signal i) s =
     (case at (procs s i) of
        Dead \<Rightarrow> None
      | Dying v \<Rightarrow> None
      | _ \<Rightarrow> Some (put_proc s i ((procs s i)\<lparr>at := Dying (semval s)\<rparr>)))"
| "memhub_act (Die i) s =
     (case at (procs s i) of
        Dying v \<Rightarrow>
          (let s' = put_proc s i ((procs s i)\<lparr>at := Dead\<rparr>)
           in Some (if busy (procs s i) \<and> v = 0 then s'\<lparr>semval := semval s + 1\<rparr> else s'))
      | _ \<Rightarrow> None)"

fun memhub_run :: "act list \<Rightarrow> sem_sys \<Rightarrow> sem_sys option" where
  "memhub_run [] s = Some s"
| "memhub_run (a # as) s = Option.bind (memhub_act a s) (memhub_run as)"

definition init_sys :: sem_sys where
  "init_sys = \<lparr>semval = 1, procs = (\<lambda>_. \<lparr>at = Idle, busy = False\<rparr>)\<rparr>"

text \<open>Signals that the handler can cope with: outside the call, or between the two assignments to \<^verbatim>\<open>busy\<close> and before \<^verbatim>\<open>sem_post\<close>.\<close>

fun calm :: "sem_sys \<Rightarrow> act \<Rightarrow> bool" where
  "calm s (Signal i) = (at (procs s i) \<in> {Idle, Calling, Returned})"
| "calm s _ = True"

text \<open>The states reached from the start by actions that \<open>ok\<close> admits.\<close>

inductive reachable :: "(sem_sys \<Rightarrow> act \<Rightarrow> bool) \<Rightarrow> sem_sys \<Rightarrow> bool" for ok where
  start: "reachable ok init_sys"
| step: "reachable ok s \<Longrightarrow> ok s a \<Longrightarrow> memhub_act a s = Some t \<Longrightarrow> reachable ok t"

inductive_cases reachable_cases: "reachable ok s"

text \<open>A process holds the semaphore from \<^verbatim>\<open>sem_wait\<close> to \<^verbatim>\<open>sem_post\<close>, or until \<^verbatim>\<open>die\<close> has given it back.\<close>

definition holds :: "proc \<Rightarrow> bool" where
  "holds p \<longleftrightarrow> (case at p of
      Acquired \<Rightarrow> True | Calling \<Rightarrow> True | Returned \<Rightarrow> True
    | Dying v \<Rightarrow> busy p | _ \<Rightarrow> False)"

lemma holds_at:
  "at p = Idle \<Longrightarrow> \<not> holds p" "at p = Acquired \<Longrightarrow> holds p" "at p = Calling \<Longrightarrow> holds p"
  "at p = Returned \<Longrightarrow> holds p" "at p = Posted \<Longrightarrow> \<not> holds p"
  "at p = Dying v \<Longrightarrow> holds p = busy p" "at p = Dead \<Longrightarrow> \<not> holds p"
  by (simp_all add: holds_def)

text \<open>The flag agrees with the place in the code, and a dying holder has seen the value 0.\<close>

definition proc_ok :: "proc \<Rightarrow> bool" where
  "proc_ok p \<longleftrightarrow> (case at p of
      Idle \<Rightarrow> \<not> busy p | Acquired \<Rightarrow> \<not> busy p | Calling \<Rightarrow> busy p | Returned \<Rightarrow> busy p
    | Posted \<Rightarrow> busy p | Dying v \<Rightarrow> busy p \<longrightarrow> v = 0 | Dead \<Rightarrow> True)"

definition sem_inv :: "sem_sys \<Rightarrow> bool" where
  "sem_inv s \<longleftrightarrow> (\<forall>i. proc_ok (procs s i)) \<and>
     (semval s = 1 \<and> (\<forall>i. \<not> holds (procs s i)) \<or>
      semval s = 0 \<and> (\<exists>i. holds (procs s i) \<and> (\<forall>j. holds (procs s j) \<longrightarrow> j = i)))"

lemma sem_inv_init: "sem_inv init_sys"
  by (simp add: sem_inv_def init_sys_def proc_ok_def holds_def)

lemma put_proc_simps [simp]:
  "semval (put_proc s i p) = semval s"
  "procs (put_proc s i p) = (procs s)(i := p)"
  by (simp_all add: put_proc_def)

text \<open>
  The three ways the invariant is kept: the semaphore is taken by a process that did not hold
  it, given back by the holder, or untouched.
\<close>

lemma sem_inv_free: "sem_inv s \<Longrightarrow> semval s > 0 \<Longrightarrow> semval s = 1 \<and> (\<forall>i. \<not> holds (procs s i))"
  by (auto simp: sem_inv_def)

lemma sem_inv_held:
  "sem_inv s \<Longrightarrow> holds (procs s i) \<Longrightarrow> semval s = 0 \<and> (\<forall>j. holds (procs s j) \<longrightarrow> j = i)"
  by (auto simp: sem_inv_def)

lemma sem_inv_oks:
  "sem_inv s \<Longrightarrow> procs t = (procs s)(i := p) \<Longrightarrow> proc_ok p \<Longrightarrow> \<forall>j. proc_ok (procs t j)"
  by (simp add: sem_inv_def)

lemma sem_inv_take:
  assumes "sem_inv s" "semval s > 0" "semval t = semval s - 1"
    and "procs t = (procs s)(i := p)" "proc_ok p" "holds p"
  shows "sem_inv t"
proof -
  have "\<forall>j. holds (procs t j) \<longrightarrow> j = i"
    using sem_inv_free [OF assms(1,2)] assms(4) by simp
  moreover have "holds (procs t i)" "semval t = 0"
    using sem_inv_free [OF assms(1,2)] assms(3,4,6) by simp_all
  ultimately show ?thesis
    using sem_inv_oks [OF assms(1,4,5)] unfolding sem_inv_def by blast
qed

lemma sem_inv_give:
  assumes "sem_inv s" "holds (procs s i)" "semval t = semval s + 1"
    and "procs t = (procs s)(i := p)" "proc_ok p" "\<not> holds p"
  shows "sem_inv t"
proof -
  have "\<forall>j. \<not> holds (procs t j)"
    using sem_inv_held [OF assms(1,2)] assms(4,6) by auto
  moreover have "semval t = 1"
    using sem_inv_held [OF assms(1,2)] assms(3) by simp
  ultimately show ?thesis
    using sem_inv_oks [OF assms(1,4,5)] unfolding sem_inv_def by blast
qed

lemma sem_inv_move:
  assumes "sem_inv s" "semval t = semval s" "procs t = (procs s)(i := p)"
    and "proc_ok p" "holds p = holds (procs s i)"
  shows "sem_inv t"
proof -
  have "holds (procs t j) = holds (procs s j)" for j using assms(3,5) by simp
  then show ?thesis
    using sem_inv_oks [OF assms(1,3,4)] assms(1,2) unfolding sem_inv_def by simp
qed

lemma sem_inv_proc_ok: "sem_inv s \<Longrightarrow> proc_ok (procs s i)"
  by (simp add: sem_inv_def)

lemma sem_inv_holder: "sem_inv s \<Longrightarrow> holds (procs s i) \<Longrightarrow> semval s = 0"
  by (auto simp: sem_inv_def)

lemmas proc_defs = proc_ok_def holds_def

lemma calm_step_inv:
  assumes inv: "sem_inv s" and calm: "calm s a" and step: "memhub_act a s = Some t"
  shows "sem_inv t"
proof (cases a)
  case (Sem_wait i)
  with step inv sem_inv_proc_ok [OF inv, of i] show ?thesis
    by (intro sem_inv_take [OF inv, where i = i and p = "(procs s i)\<lparr>at := Acquired\<rparr>"])
      (auto simp: proc_defs split: if_splits)
next
  case (Set_busy i)
  with step sem_inv_proc_ok [OF inv, of i] show ?thesis
    by (intro sem_inv_move [OF inv, where i = i and p = "(procs s i)\<lparr>at := Calling, busy := True\<rparr>"])
      (auto simp: proc_defs split: if_splits)
next
  case (Service i)
  with step sem_inv_proc_ok [OF inv, of i] show ?thesis
    by (intro sem_inv_move [OF inv, where i = i and p = "(procs s i)\<lparr>at := Returned\<rparr>"])
      (auto simp: proc_defs split: if_splits)
next
  case (Sem_post i)
  with step sem_inv_proc_ok [OF inv, of i] show ?thesis
    by (intro sem_inv_give [OF inv, where i = i and p = "(procs s i)\<lparr>at := Posted\<rparr>"])
      (auto simp: proc_defs split: if_splits)
next
  case (Clear_busy i)
  with step sem_inv_proc_ok [OF inv, of i] show ?thesis
    by (intro sem_inv_move [OF inv, where i = i and p = "(procs s i)\<lparr>at := Idle, busy := False\<rparr>"])
      (auto simp: proc_defs split: if_splits)
next
  case (Signal i)
  have "holds (procs s i) \<Longrightarrow> semval s = 0" by (rule sem_inv_holder [OF inv])
  with Signal step calm sem_inv_proc_ok [OF inv, of i] show ?thesis
    by (intro sem_inv_move [OF inv, where i = i and p = "(procs s i)\<lparr>at := Dying (semval s)\<rparr>"])
      (auto simp: proc_defs split: pc.splits)
next
  case (Die i)
  with step obtain v where v: "at (procs s i) = Dying v" by (auto split: pc.splits)
  show ?thesis
  proof (cases "busy (procs s i)")
    case True
    with v sem_inv_proc_ok [OF inv, of i] have "v = 0" by (simp add: proc_ok_def)
    with True v Die step show ?thesis
      by (intro sem_inv_give [OF inv, where i = i and p = "(procs s i)\<lparr>at := Dead\<rparr>"])
        (auto simp: proc_defs Let_def)
  next
    case False
    with v Die step show ?thesis
      by (intro sem_inv_move [OF inv, where i = i and p = "(procs s i)\<lparr>at := Dead\<rparr>"])
        (auto simp: proc_defs Let_def)
  qed
qed

lemma calm_reachable_inv: "reachable calm s \<Longrightarrow> sem_inv s"
  by (induction rule: reachable.induct) (auto intro: sem_inv_init calm_step_inv)

lemma memhub_run_append:
  "memhub_run (as @ bs) s = Option.bind (memhub_run as s) (memhub_run bs)"
proof (induction as arbitrary: s)
  case (Cons a as)
  then show ?case by (cases "memhub_act a s") simp_all
qed simp


lemma calm_run_reachable:
  assumes "reachable calm s" and "calm s a" and "memhub_act a s = Some t"
  shows "reachable calm t"
  using assms by (rule reachable.step)

definition busy_sys :: sem_sys where
  "busy_sys = \<lparr>semval = 0, procs = (\<lambda>_. \<lparr>at = Idle, busy = False\<rparr>)(0 := \<lparr>at = Calling, busy = True\<rparr>)\<rparr>"

lemma busy_sys_reachable: "reachable calm busy_sys"
proof -
  have "reachable calm ((put_proc init_sys 0 \<lparr>at = Acquired, busy = False\<rparr>)\<lparr>semval := 0\<rparr>)"
    by (rule calm_run_reachable [OF reachable.start, where a = "Sem_wait 0"])
      (simp_all add: init_sys_def)
  then show ?thesis
    by (rule calm_run_reachable [where a = "Set_busy 0"])
      (simp_all add: init_sys_def busy_sys_def put_proc_def)
qed


text \<open>The actions of one process.\<close>

fun by_proc :: "nat \<Rightarrow> act \<Rightarrow> bool" where
  "by_proc i (Sem_wait j) = (i = j)"
| "by_proc i (Set_busy j) = (i = j)"
| "by_proc i (Service j) = (i = j)"
| "by_proc i (Sem_post j) = (i = j)"
| "by_proc i (Clear_busy j) = (i = j)"
| "by_proc i (Signal j) = (i = j)"
| "by_proc i (Die j) = (i = j)"

fun way_out :: "nat \<Rightarrow> pc \<Rightarrow> act list" where
  "way_out i Acquired = [Set_busy i, Service i, Sem_post i]"
| "way_out i Calling = [Service i, Sem_post i]"
| "way_out i Returned = [Sem_post i]"
| "way_out i (Dying v) = [Die i]"
| "way_out i _ = []"

lemma way_out_by: "a \<in> set (way_out i c) \<Longrightarrow> by_proc i a"
  by (cases c) auto



text \<open>
  A double post: one signal between \<^verbatim>\<open>sem_post\<close> and \<^verbatim>\<open>busy = false\<close>, while another process has
  taken the semaphore, makes the handler post a semaphore that is not its own; a third process
  then enters the memory service together with the second.
\<close>

theorem memhub_double_post:
  "\<exists>as s. memhub_run as init_sys = Some s \<and> filter (\<lambda>a. a = Signal 0) as = [Signal 0]
     \<and> at (procs s 1) = Calling \<and> at (procs s 2) = Calling"
  by (rule exI [of _ "[Sem_wait 0, Set_busy 0, Service 0, Sem_post 0, Sem_wait 1, Set_busy 1,
        Signal 0, Die 0, Sem_wait 2, Set_busy 2]"])
    (simp add: init_sys_def Let_def)

text \<open>The semaphore lost for good: its value is 0 and no process will post it.\<close>

definition lost :: "sem_sys \<Rightarrow> bool" where
  "lost s \<longleftrightarrow> semval s = 0 \<and>
     (\<forall>i. \<not> busy (procs s i) \<and> (case at (procs s i) of Idle \<Rightarrow> True | Dying v \<Rightarrow> True | Dead \<Rightarrow> True | _ \<Rightarrow> False))"

lemma lost_step:
  assumes l: "lost s" and step: "memhub_act a s = Some t"
  shows "lost t"
proof -
  have sem: "semval s = 0" and quiet: "\<And>i. \<not> busy (procs s i)"
    and place: "\<And>i. at (procs s i) = Idle \<or> (\<exists>v. at (procs s i) = Dying v) \<or> at (procs s i) = Dead"
    using l by (auto simp: lost_def split: pc.splits) (metis pc.exhaust)
  show ?thesis
  proof (cases a)
    case (Signal i)
    then have "at (procs s i) = Idle" using place [of i] step by auto
    with Signal step have "t = put_proc s i ((procs s i)\<lparr>at := Dying (semval s)\<rparr>)" by simp
    then show ?thesis using l by (simp add: lost_def)
  next
    case (Die i)
    with step obtain v where "at (procs s i) = Dying v" by (auto split: pc.splits)
    with Die step quiet have "t = put_proc s i ((procs s i)\<lparr>at := Dead\<rparr>)" by (simp add: Let_def)
    then show ?thesis using l by (simp add: lost_def)
  qed (use sem place step in \<open>auto split: if_splits; metis pc.distinct\<close>)+
qed

lemma lost_run: "lost s \<Longrightarrow> memhub_run as s = Some t \<Longrightarrow> lost t"
  by (induction as arbitrary: s) (auto simp: bind_eq_Some_conv dest: lost_step)

text \<open>
  Lost semaphore: a signal between \<^verbatim>\<open>sem_wait\<close> and \<^verbatim>\<open>busy = true\<close> kills the holder without
  giving the semaphore back. From then on, whatever actions follow, the value stays 0 and no
  process ever reaches the memory service again.
\<close>

theorem memhub_lost_semaphore:
  "case memhub_run ([Sem_wait 0, Signal 0, Die 0] @ as) init_sys of
     None \<Rightarrow> True
   | Some t \<Rightarrow> semval t = 0 \<and> (\<forall>i. at (procs t i) \<noteq> Calling \<and> memhub_act (Sem_wait i) t = None)"
proof -
  let ?s = "\<lparr>semval = 0, procs = (\<lambda>_. \<lparr>at = Idle, busy = False\<rparr>)(0 := \<lparr>at = Dead, busy = False\<rparr>)\<rparr>"
  have run: "memhub_run [Sem_wait 0, Signal 0, Die 0] init_sys = Some ?s"
    by (simp add: init_sys_def Let_def put_proc_def)
  have "lost ?s" by (simp add: lost_def)
  have "semval t = 0 \<and> (\<forall>i. at (procs t i) \<noteq> Calling \<and> memhub_act (Sem_wait i) t = None)"
    if "memhub_run as ?s = Some t" for t
  proof -
    from \<open>lost ?s\<close> that have l: "lost t" by (rule lost_run)
    then have "at (procs t i) \<noteq> Calling" for i by (auto simp: lost_def dest: spec [of _ i])
    with l show ?thesis by (simp add: lost_def)
  qed
  then show ?thesis
    unfolding memhub_run_append run by (simp split: option.split)
qed

end
