(* ===== verification/AddressTable.thy ===== *)
theory AddressTable
  imports Machine
begin

text \<open>
  The address table: the textual form of a node (\<^verbatim>\<open>serialize\<close>), the way every register access
  takes it apart again (\<^verbatim>\<open>split\<close>, \<^verbatim>\<open>std::stoull\<close> in base 16), the RPC methods that rebuild the table
  from the XML file and look a node up (\<^verbatim>\<open>update_address_table\<close>, \<^verbatim>\<open>readRegFromDB\<close>), and the two
  direct lookups \<^verbatim>\<open>getMask\<close> and \<^verbatim>\<open>getAddress\<close>. All of it is in \<^verbatim>\<open>src/utils.cpp\<close>.
\<close>

section \<open>Strings\<close>

text \<open>Repeated \<^verbatim>\<open>std::getline\<close>: a delimiter at the very end does not open another, empty item.\<close>

function split :: "string \<Rightarrow> char \<Rightarrow> string list" where
  "split s delim =
     (if s = [] then []
      else takeWhile (\<lambda>c. c \<noteq> delim) s # split (drop 1 (dropWhile (\<lambda>c. c \<noteq> delim) s)) delim)"
  by pat_completeness auto
termination
proof (relation "measure (\<lambda>(s, d). length s)")
  fix s :: string and delim
  assume "s \<noteq> []"
  then have "length s > 0" by simp
  moreover have "length (dropWhile (\<lambda>c. c \<noteq> delim) s) \<le> length s" by (rule length_dropWhile_le)
  ultimately have "length (drop 1 (dropWhile (\<lambda>c. c \<noteq> delim) s)) < length s"
    unfolding length_drop by linarith
  then show "((drop 1 (dropWhile (\<lambda>c. c \<noteq> delim) s), delim), s, delim) \<in> measure (\<lambda>(s, d). length s)"
    by simp
qed simp

declare split.simps [simp del]

definition is_space :: "char \<Rightarrow> bool" where
  "is_space c \<longleftrightarrow> (of_char c :: nat) \<in> {9, 10, 11, 12, 13, 32}"

definition hex_value :: "char \<Rightarrow> nat option" where
  "hex_value c =
     (let n = (of_char c :: nat)
      in if 48 \<le> n \<and> n \<le> 57 then Some (n - 48)
         else if 97 \<le> n \<and> n \<le> 102 then Some (n - 87)
         else if 65 \<le> n \<and> n \<le> 70 then Some (n - 55)
         else None)"

definition is_xdigit :: "char \<Rightarrow> bool" where
  "is_xdigit c \<longleftrightarrow> hex_value c \<noteq> None"

fun hex_fold :: "string \<Rightarrow> nat \<Rightarrow> nat" where
  "hex_fold [] a = a"
| "hex_fold (c # cs) a = hex_fold cs (16 * a + the (hex_value c))"

fun drop_0x :: "string \<Rightarrow> string" where
  "drop_0x (z # x # c # cs) =
     (if z = CHR ''0'' \<and> (x = CHR ''x'' \<or> x = CHR ''X'') \<and> is_xdigit c then c # cs else z # x # c # cs)"
| "drop_0x s = s"

text \<open>\<^verbatim>\<open>std::stoull(s, nullptr, 16)\<close>.\<close>

definition stoull16 :: "string \<Rightarrow> exn + u64" where
  "stoull16 s =
     (let t = dropWhile is_space s;
          (neg, u) = (case t of [] \<Rightarrow> (False, t)
             | c # cs \<Rightarrow> if c = CHR ''-'' then (True, cs) else if c = CHR ''+'' then (False, cs) else (False, t));
          ds = takeWhile is_xdigit (drop_0x u);
          n = hex_fold ds 0
      in if ds = [] then Inl Invalid_argument
         else if n \<ge> 2 ^ 64 then Inl Out_of_range
         else Inr (if neg then - of_nat n else of_nat n))"

section \<open>Nodes\<close>

text \<open>The fields of \<^verbatim>\<open>xhal::utils::Node\<close> that \<^verbatim>\<open>serialize\<close> uses.\<close>

record node =
  real_address :: u32
  permission :: string
  node_mask :: u32
  mode :: string
  node_size :: u32

definition serialize :: "node \<Rightarrow> string" where
  "serialize n = hex (unat (real_address n)) @ ''|'' @ permission n @ ''|'' @ hex (unat (node_mask n))
     @ ''|'' @ mode n @ ''|'' @ hex (unat (node_size n))"

text \<open>The text of a database value, as \<^verbatim>\<open>std::string(value.data()).substr(0, value.size())\<close>.\<close>

definition db_text :: "localArgs \<Rightarrow> string \<Rightarrow> string option" where
  "db_text la regName = map_option (takeWhile (\<lambda>c. c \<noteq> CHR 0x00)) (db_get la (c_str regName))"

text \<open>\<^verbatim>\<open>tmp[i]\<close>, and \<^verbatim>\<open>uint32_t w = stoull(tmp[i], nullptr, 16)\<close>.\<close>

definition field :: "string list \<Rightarrow> nat \<Rightarrow> string prog" where
  "field tmp i = (if i < length tmp then ret (tmp ! i) else abortM Undefined)"

definition field_word :: "string list \<Rightarrow> nat \<Rightarrow> u32 prog" where
  "field_word tmp i = bindM (field tmp i) (\<lambda>f. bindM (liftE (stoull16 f)) (\<lambda>w. ret (ucast w)))"

definition getMask :: "localArgs \<Rightarrow> string \<Rightarrow> u32 prog" where
  "getMask la regName =
     (case db_text la regName of
        Some t \<Rightarrow> field_word (split t CHR ''|'') 2
      | None \<Rightarrow> thenM (set_error ''Register not found'') (ret 0))"

definition getAddress :: "localArgs \<Rightarrow> string \<Rightarrow> u32 prog" where
  "getAddress la regName =
     (case db_text la regName of
        Some t \<Rightarrow> field_word (split t CHR ''|'') 0
      | None \<Rightarrow> thenM (set_error ''Register not found'') (ret 0xdeaddead))"

definition readRegFromDB :: "localArgs \<Rightarrow> rpc_request \<Rightarrow> unit prog" where
  "readRegFromDB la request =
     bindM (get_string request ''reg_name'') (\<lambda>regName.
     case db_text la regName of
       Some t \<Rightarrow>
         (let tmp = split t CHR ''|''
          in bindM (field_word tmp 0) (\<lambda>raddr.
             bindM (field_word tmp 2) (\<lambda>rmask.
             bindM (field_word tmp 4) (\<lambda>rsize.
             bindM (field tmp 1) (\<lambda>rperm.
             bindM (field tmp 3) (\<lambda>rmode.
               seqM [set_string ''permissions'' rperm,
                     set_string ''mode'' rmode,
                     set_word ''address'' raddr,
                     set_word ''mask'' rmask,
                     set_word ''size'' rsize]))))))
     | None \<Rightarrow> set_error ''Register not found'')"

text \<open>
  \<^verbatim>\<open>update_address_table\<close>: the XML parser is outside the repository; \<open>parse\<close> gives its nodes in the
  order the map is iterated, \<open>None\<close> when it throws. The result is the response error, if any, and
  the database.
\<close>

type_synonym database = "string \<Rightarrow> string option"

definition update_address_table ::
  "(string \<Rightarrow> (string \<times> node) list option) \<Rightarrow> string \<Rightarrow> database \<Rightarrow> string option \<times> database" where
  "update_address_table parse at_xml db =
     (case parse (c_str at_xml) of
        None \<Rightarrow> (Some ''XML parser failed'', db)
      | Some nodes \<Rightarrow>
          (let m_parsed_at = filter (\<lambda>(k, n). k \<noteq> ''top'') nodes
           in (None, foldl (\<lambda>d (k, n). d(k \<mapsto> serialize n)) Map.empty m_parsed_at)))"

section \<open>Splitting\<close>

lemma split_Nil [simp]: "split [] d = []"
  by (simp add: split.simps)

lemma split_cons: "d \<notin> set a \<Longrightarrow> split (a @ d # b) d = a # split b d"
proof -
  assume "d \<notin> set a"
  then have "takeWhile (\<lambda>c. c \<noteq> d) (a @ d # b) = a" "dropWhile (\<lambda>c. c \<noteq> d) (a @ d # b) = d # b"
    by (induction a) auto
  then show "split (a @ d # b) d = a # split b d" by (subst split.simps) simp
qed

lemma split_last: "d \<notin> set a \<Longrightarrow> a \<noteq> [] \<Longrightarrow> split a d = [a]"
proof -
  assume a: "d \<notin> set a" "a \<noteq> []"
  have t: "takeWhile (\<lambda>c. c \<noteq> d) a = a" and u: "dropWhile (\<lambda>c. c \<noteq> d) a = []"
    using a(1) by (induction a) auto
  show "split a d = [a]" using a(2) by (subst split.simps) (simp only: t u, simp)
qed

section \<open>Numbers\<close>

lemma hex_value_digit:
  assumes "d < 16"
  shows "hex_value (digit_char d) = Some d"
proof -
  have "\<forall>d\<in>{0..<16}. hex_value (digit_char d) = Some d"
    by (simp add: digit_char_def hex_value_def eval_nat_numeral atLeast0_lessThan_Suc)
  with assms show ?thesis by simp
qed

lemma hex_fold_append: "hex_fold (xs @ ys) a = hex_fold ys (hex_fold xs a)"
  by (induction xs arbitrary: a) simp_all

lemma hex_fold_hex: "hex_fold (hex n) 0 = n"
proof (induction n rule: less_induct)
  case (less n)
  show ?case
  proof (cases "n < 16")
    case True
    then show ?thesis by (simp add: hex_def fmt_nat_small hex_value_digit)
  next
    case False
    then have "hex_fold (hex (n div 16)) 0 = n div 16" by (intro less.IH) simp
    with False show ?thesis
      by (simp add: hex_def fmt_nat_big hex_fold_append hex_value_digit)
  qed
qed

lemma xdigits: "c \<in> set ''0123456789abcdef'' \<Longrightarrow> is_xdigit c \<and> \<not> is_space c \<and> c \<notin> {CHR ''-'', CHR ''+'', CHR ''|'', CHR 0x00, CHR ''x'', CHR ''X''}"
  by (auto simp: is_xdigit_def is_space_def hex_value_def)

lemma hex_chars: "c \<in> set (hex n) \<Longrightarrow> is_xdigit c \<and> \<not> is_space c \<and> c \<notin> {CHR ''-'', CHR ''+'', CHR ''|'', CHR 0x00, CHR ''x'', CHR ''X''}"
  using set_hex [of n] xdigits [of c] by blast

lemma drop_0x_id: "CHR ''x'' \<notin> set s \<Longrightarrow> CHR ''X'' \<notin> set s \<Longrightarrow> drop_0x s = s"
  by (induction s rule: drop_0x.induct) auto

lemma stoull16_hex:
  assumes "n < 2 ^ 64"
  shows "stoull16 (hex n) = Inr (of_nat n)"
proof -
  obtain c cs where h: "hex n = c # cs" using hex_nonempty by (cases "hex n") auto
  have c: "\<not> is_space c" "c \<noteq> CHR ''-''" "c \<noteq> CHR ''+''"
    using hex_chars [of c n] h by auto
  have d: "drop_0x (hex n) = hex n"
    using hex_chars by (intro drop_0x_id) blast+
  have t: "takeWhile is_xdigit (hex n) = hex n"
    using hex_chars by (intro takeWhile_all) blast
  have f: "hex_fold (c # cs) 0 = n" using hex_fold_hex [of n] h by simp
  show ?thesis
    using c d t f assms unfolding stoull16_def Let_def h by simp
qed

lemma stoull16_word: "stoull16 (hex (unat (w :: u32))) = Inr (ucast w)"
proof -
  have "unat w < 2 ^ 32" using unsigned_less [of w] by simp
  then have "unat w < 2 ^ 64" by simp
  then show ?thesis by (simp add: stoull16_hex)
qed

lemma ucast_u64_u32: "(ucast (ucast (w :: u32) :: u64) :: u32) = w"
  by (rule bit_word_eqI) (simp add: bit_simps)

section \<open>Round trip\<close>

text \<open>The names and attributes an address table may contain: no separator, no NUL.\<close>

definition clean :: "string \<Rightarrow> bool" where
  "clean s \<longleftrightarrow> CHR ''|'' \<notin> set s \<and> CHR 0x00 \<notin> set s"

definition wf_node :: "node \<Rightarrow> bool" where
  "wf_node n \<longleftrightarrow> clean (permission n) \<and> clean (mode n)"

definition node_fields :: "node \<Rightarrow> string list" where
  "node_fields n = [hex (unat (real_address n)), permission n, hex (unat (node_mask n)), mode n, hex (unat (node_size n))]"

lemma hex_no_bar: "CHR ''|'' \<notin> set (hex n)"
  using hex_chars by blast

lemma split_serialize:
  assumes "wf_node n"
  shows "split (serialize n) CHR ''|'' = node_fields n"
  using assms
  by (simp add: serialize_def node_fields_def split_cons split_last hex_no_bar hex_nonempty
      wf_node_def clean_def)

lemma serialize_no_nul: "wf_node n \<Longrightarrow> CHR 0x00 \<notin> set (serialize n)"
  using hex_chars by (auto simp: serialize_def wf_node_def clean_def)

lemma field_node:
  "field (node_fields n) 0 = ret (hex (unat (real_address n)))"
  "field (node_fields n) 1 = ret (permission n)"
  "field (node_fields n) (Suc 0) = ret (permission n)"
  "field (node_fields n) 3 = ret (mode n)"
  by (simp_all add: field_def node_fields_def)

lemma field_word_node:
  "field_word (node_fields n) 0 = ret (real_address n)"
  "field_word (node_fields n) 2 = ret (node_mask n)"
  "field_word (node_fields n) 4 = ret (node_size n)"
  by (simp_all add: field_word_def field_def node_fields_def stoull16_word liftE_def ucast_u64_u32)

lemmas node_simps = split_serialize field_node field_word_node

text \<open>The node stored for a register: what the register layer relies on.\<close>

definition has_node :: "localArgs \<Rightarrow> string \<Rightarrow> node \<Rightarrow> bool" where
  "has_node la r n \<longleftrightarrow> wf_node n \<and> db_get la (c_str r) = Some (serialize n)"

lemma db_text_node: "has_node la r n \<Longrightarrow> db_text la r = Some (serialize n)"
  using serialize_no_nul [of n] by (auto simp: has_node_def db_text_def intro!: takeWhile_all)

lemma has_node_wf: "has_node la r n \<Longrightarrow> wf_node n"
  by (simp add: has_node_def)

lemma serialize_inj:
  assumes "wf_node m" "wf_node n" "serialize m = serialize n"
  shows "m = n"
proof -
  have "node_fields m = node_fields n"
    using assms split_serialize [of m] split_serialize [of n] by simp
  then show ?thesis
    by (simp add: node_fields_def hex_inj unsigned_word_eqI word_unat_eq_iff)
qed

section \<open>The table as a whole\<close>

definition put_node :: "database \<Rightarrow> string \<times> node \<Rightarrow> database" where
  "put_node d kn = d(fst kn \<mapsto> serialize (snd kn))"

lemma put_node_case: "(\<lambda>d (k, n). d(k \<mapsto> serialize n)) = put_node"
  by (auto simp: put_node_def fun_eq_iff)

lemma put_other: "k \<notin> fst ` set ns \<Longrightarrow> foldl put_node m ns k = m k"
  by (induction ns arbitrary: m) (auto simp: put_node_def)

lemma put_all:
  "distinct (map fst ns) \<Longrightarrow> (k, n) \<in> set ns \<Longrightarrow> foldl put_node m ns k = Some (serialize n)"
proof (induction ns arbitrary: m)
  case (Cons x ns)
  show ?case
  proof (cases "x = (k, n)")
    case True
    with Cons.prems(1) have "k \<notin> fst ` set ns" by simp
    then show ?thesis using True by (simp add: put_other) (simp add: put_node_def)
  qed (use Cons in simp)
qed simp

lemma update_address_table_get:
  assumes "parse (c_str xml) = Some nodes" "distinct (map fst nodes)"
    and "(r, n) \<in> set nodes" "r \<noteq> ''top''"
  shows "update_address_table parse xml db = (None, snd (update_address_table parse xml db))"
    and "snd (update_address_table parse xml db) r = Some (serialize n)"
proof -
  show "update_address_table parse xml db = (None, snd (update_address_table parse xml db))"
    by (simp add: update_address_table_def assms(1) Let_def)
  have "distinct (map fst (filter (\<lambda>(k, n). k \<noteq> ''top'') nodes))"
    using assms(2) by (rule distinct_map_filter)
  moreover have "(r, n) \<in> set (filter (\<lambda>(k, n). k \<noteq> ''top'') nodes)" using assms by simp
  ultimately show "snd (update_address_table parse xml db) r = Some (serialize n)"
    by (simp only: update_address_table_def assms(1) Let_def put_node_case option.case snd_conv put_all)
qed

lemma set_run [prog_simps]:
  "set_string k v s = Some (Val (), s\<lparr>resp := (resp s)(k \<mapsto> RStr v)\<rparr>)"
  "set_word k w s = Some (Val (), s\<lparr>resp := (resp s)(k \<mapsto> RWord w)\<rparr>)"
  "set_word_array k ws s = Some (Val (), s\<lparr>resp := (resp s)(k \<mapsto> RWords ws)\<rparr>)"
  by (simp_all add: set_string_def set_word_def set_word_array_def set_key_def)

lemma readRegFromDB_node:
  assumes "rq_string request ''reg_name'' = Inr r" and "has_node la r n"
  shows "readRegFromDB la request s = Some (Val (), s\<lparr>resp := (resp s)
    (''permissions'' \<mapsto> RStr (permission n), ''mode'' \<mapsto> RStr (mode n),
     ''address'' \<mapsto> RWord (real_address n), ''mask'' \<mapsto> RWord (node_mask n),
     ''size'' \<mapsto> RWord (node_size n))\<rparr>)"
  using has_node_wf [OF assms(2)]
  by (simp add: readRegFromDB_def get_string_def assms(1) liftE_def db_text_node [OF assms(2)]
      Let_def node_simps thenM_def bindM_Val set_run ret_def)

text \<open>
  C17 (address table round trip): after \<^verbatim>\<open>update_address_table\<close> with any XML file that parses,
  \<^verbatim>\<open>readRegFromDB\<close> answers for each register of the file with exactly the permission, mode,
  address, mask and size the parser gave for it, makes no access to the hardware, and sets
  no error.
\<close>

theorem address_table_roundtrip:
  assumes "parse (c_str xml) = Some nodes" and "distinct (map fst nodes)"
    and "(r, n) \<in> set nodes" and "r \<noteq> ''top''" and "wf_node n" and "c_str r = r"
    and "db_get la = snd (update_address_table parse xml db)"
    and "rq_string request ''reg_name'' = Inr r"
  shows "readRegFromDB la request s = Some (Val (), s\<lparr>resp := (resp s)
    (''permissions'' \<mapsto> RStr (permission n), ''mode'' \<mapsto> RStr (mode n),
     ''address'' \<mapsto> RWord (real_address n), ''mask'' \<mapsto> RWord (node_mask n),
     ''size'' \<mapsto> RWord (node_size n))\<rparr>)"
proof -
  have "has_node la r n"
    using update_address_table_get(2) [where parse = parse and db = db, OF assms(1-4)] assms(5-7)
    by (simp add: has_node_def)
  with assms(8) show ?thesis by (rule readRegFromDB_node)
qed

definition demo_node :: node where
  "demo_node = \<lparr>real_address = 0x66400008, permission = ''rw'', node_mask = 0xff00, mode = ''single'', node_size = 1\<rparr>"

definition demo_env :: localArgs where
  "demo_env = \<lparr>db_get = Map.empty, mem_rd = (\<lambda>h a n. Some (\<lambda>i. 0)), mem_wr = (\<lambda>h a ws. True),
     mem_err = (\<lambda>h. []), time_now = (\<lambda>h. 0), stack_junk = (\<lambda>i. 0), file_lines = Map.empty,
     map_order = (\<lambda>ks. ks)\<rparr>"

definition demo_request :: rpc_request where
  "demo_request = \<lparr>rq_exists = (\<lambda>k. False), rq_word = (\<lambda>k. Inl (Rpc_exception ''type'')),
     rq_words = (\<lambda>k. Inl (Rpc_exception ''type'')), rq_string = (\<lambda>k. Inl (Rpc_exception ''type'')),
     rq_strings = (\<lambda>k. Inl (Rpc_exception ''type'')), rq_bin = (\<lambda>k. Inl (Rpc_exception ''type''))\<rparr>"

definition start_mach :: mach where
  "start_mach = \<lparr>hist = [], resp = Map.empty\<rparr>"

theorem address_table_roundtrip_witness:
  "\<exists>t. readRegFromDB
      (demo_env\<lparr>db_get := snd (update_address_table (\<lambda>x. Some [(''top'', demo_node), (''A'', demo_node)]) ''f'' Map.empty)\<rparr>)
      (demo_request\<lparr>rq_string := (\<lambda>k. Inr ''A'')\<rparr>) start_mach = Some (Val (), t)
    \<and> resp t ''mask'' = Some (RWord 0xff00)"
  by (subst address_table_roundtrip [where nodes = "[(''top'', demo_node), (''A'', demo_node)]" and r = "''A''"
        and parse = "\<lambda>x. Some [(''top'', demo_node), (''A'', demo_node)]" and xml = "''f''" and n = demo_node
        and db = Map.empty])
    (simp_all add: wf_node_def clean_def demo_node_def c_str_def demo_request_def)

end
