(* ===== verification/Utils.thy ===== *)
theory Utils
  imports Memhub AddressTable
begin

text \<open>
  The register layer, \<^verbatim>\<open>src/utils.cpp\<close>: masks, raw and masked access to a register by name, block
  transfers. Then the two interfaces that every hardware module relies on: \<open>register_access\<close>
  (what a register read or write may touch at all) and \<open>register_file\<close> (registers that behave as
  variables), both interpreted on \<open>readReg\<close> and \<open>writeReg\<close>.
\<close>

section \<open>Masks\<close>

definition getNumNonzeroBits :: "u32 \<Rightarrow> u32" where
  "getNumNonzeroBits value =
     foldl (\<lambda>numNonzeroBits i. if (value AND push_bit i 1) = 1 then numNonzeroBits + 1 else numNonzeroBits)
       0 [0..<32]"

fun applyMask_loop :: "nat \<Rightarrow> u32 \<Rightarrow> u32 \<Rightarrow> u32" where
  "applyMask_loop 0 rmask result = result"
| "applyMask_loop (Suc k) rmask result =
     (if rmask AND 1 \<noteq> 0 then result else applyMask_loop k (drop_bit 1 rmask) (drop_bit 1 result))"

definition applyMask :: "u32 \<Rightarrow> u32 \<Rightarrow> u32" where
  "applyMask data rmask = applyMask_loop 32 rmask (data AND rmask)"

text \<open>The loop of \<^verbatim>\<open>writeReg\<close> that finds the shift.\<close>

fun shift_loop :: "nat \<Rightarrow> u32 \<Rightarrow> nat \<Rightarrow> nat" where
  "shift_loop 0 rmask shift_amount = shift_amount"
| "shift_loop (Suc k) rmask shift_amount =
     (if rmask AND 1 \<noteq> 0 then shift_amount else shift_loop k (drop_bit 1 rmask) (shift_amount + 1))"

section \<open>Raw access\<close>

abbreviation bar :: char where
  "bar \<equiv> CHR ''|''"

definition memsvc_error :: "localArgs \<Rightarrow> unit prog" where
  "memsvc_error la = bindM (last_error la) (\<lambda>e. set_error (''memsvc error: '' @ e))"

definition writeRawAddress :: "localArgs \<Rightarrow> u32 \<Rightarrow> u32 \<Rightarrow> unit prog" where
  "writeRawAddress la address value =
     bindM (memhub_write la address [value]) (\<lambda>ok. whenM (\<not> ok) (memsvc_error la))"

definition readRawAddress :: "localArgs \<Rightarrow> u32 \<Rightarrow> u32 prog" where
  "readRawAddress la address =
     bindM (memhub_read la address 1) (\<lambda>r. case r of
        None \<Rightarrow> thenM (memsvc_error la) (ret 0xdeaddead)
      | Some data \<Rightarrow> ret (data ! 0))"

definition writeAddress :: "localArgs \<Rightarrow> string \<Rightarrow> u32 \<Rightarrow> unit prog" where
  "writeAddress la db_res value =
     bindM (field_word (split db_res bar) 0) (\<lambda>raddr.
     bindM (memhub_write la raddr [value]) (\<lambda>ok. whenM (\<not> ok) (memsvc_error la)))"

function readAddress_loop :: "localArgs \<Rightarrow> u32 \<Rightarrow> nat \<Rightarrow> u32 prog" where
  "readAddress_loop la raddr n_current_tries =
     bindM (memhub_read la raddr 1) (\<lambda>r. case r of
        None \<Rightarrow>
          if n_current_tries < 9 then readAddress_loop la raddr (n_current_tries + 1)
          else thenM (memsvc_error la) (ret 0xdeaddead)
      | Some data \<Rightarrow> ret (data ! 0))"
  by pat_completeness auto
termination
  by (relation "measure (\<lambda>(la, a, n). 9 - n)") auto

declare readAddress_loop.simps [simp del]

definition readAddress :: "localArgs \<Rightarrow> string \<Rightarrow> u32 prog" where
  "readAddress la db_res =
     bindM (field_word (split db_res bar) 0) (\<lambda>raddr. readAddress_loop la raddr 0)"

definition writeRawReg :: "localArgs \<Rightarrow> string \<Rightarrow> u32 \<Rightarrow> unit prog" where
  "writeRawReg la regName value =
     (case db_text la regName of
        Some db_res \<Rightarrow> writeAddress la db_res value
      | None \<Rightarrow> set_error ''Register not found'')"

definition readRawReg :: "localArgs \<Rightarrow> string \<Rightarrow> u32 prog" where
  "readRawReg la regName =
     (case db_text la regName of
        Some db_res \<Rightarrow> readAddress la db_res
      | None \<Rightarrow> thenM (set_error ''Register not found'') (ret 0xdeaddead))"

section \<open>Masked access\<close>

definition readReg :: "localArgs \<Rightarrow> string \<Rightarrow> u32 prog" where
  "readReg la regName =
     (case db_text la regName of
        Some db_res \<Rightarrow>
          (let tmp = split db_res bar
           in bindM (field tmp 1) (\<lambda>perm.
              if CHR ''r'' \<notin> set perm then ret 0xdeaddead
              else
                bindM (field_word tmp 0) (\<lambda>raddr.
                bindM (field_word tmp 2) (\<lambda>rmask.
                bindM (memhub_read la raddr 1) (\<lambda>r. case r of
                  None \<Rightarrow> ret 0xdeaddead
                | Some data \<Rightarrow>
                    ret (if rmask \<noteq> 0xFFFFFFFF then applyMask (data ! 0) rmask else data ! 0))))))
      | None \<Rightarrow> ret 0xdeaddead)"

text \<open>A shift by 32 (no bit in the mask) is undefined behaviour.\<close>

definition writeReg :: "localArgs \<Rightarrow> string \<Rightarrow> u32 \<Rightarrow> unit prog" where
  "writeReg la regName value =
     (case db_text la regName of
        Some db_res \<Rightarrow>
          bindM (field_word (split db_res bar) 2) (\<lambda>rmask.
          if rmask = 0xFFFFFFFF then writeAddress la db_res value
          else
            bindM (readAddress la db_res) (\<lambda>current_value.
            if current_value = 0xdeaddead
            then set_error (''Writing masked register failed due to problem reading: '' @ regName)
            else
              (let shift_amount = shift_loop 32 rmask 0
               in if shift_amount \<ge> 32 then abortM Undefined
                  else
                    (let val_to_write = push_bit shift_amount value
                     in writeAddress la db_res
                          ((val_to_write AND rmask) OR (current_value AND NOT rmask))))))
      | None \<Rightarrow> set_error (''Register '' @ regName @ '' key not found''))"

section \<open>Block transfers\<close>

definition block_range_msg :: "string \<Rightarrow> u32 \<Rightarrow> u32 \<Rightarrow> u32 \<Rightarrow> u32 \<Rightarrow> string" where
  "block_range_msg what raddr offset sz rsize =
     what @ '' attempted would go beyond the size of the RAM: raddr: 0x'' @ fmt_x raddr
       @ '', offset: 0x'' @ fmt_x offset @ '', size: 0x'' @ fmt_x sz @ '', rsize: 0x'' @ fmt_x rsize"

text \<open>\<^verbatim>\<open>rmode.rfind("single") != npos\<close>.\<close>

fun has_infix :: "string \<Rightarrow> string \<Rightarrow> bool" where
  "has_infix p [] = (p = [])"
| "has_infix p (c # cs) = (take (length p) (c # cs) = p \<or> has_infix p cs)"

text \<open>
  The words that were stored in \<^verbatim>\<open>result\<close> (\<open>None\<close>: the buffer was left as it was) and the value
  returned.
\<close>

definition readBlock :: "localArgs \<Rightarrow> string \<Rightarrow> u32 \<Rightarrow> u32 \<Rightarrow> (u32 list option \<times> u32) prog" where
  "readBlock la regName sz offset =
     (case db_text la regName of
        None \<Rightarrow> ret (None, 0)
      | Some db_res \<Rightarrow>
          (let tmp = split db_res bar
           in bindM (field_word tmp 0) (\<lambda>raddr.
              bindM (field_word tmp 2) (\<lambda>rmask.
              bindM (field_word tmp 4) (\<lambda>rsize.
              bindM (field tmp 1) (\<lambda>rperm.
              bindM (field tmp 3) (\<lambda>rmode.
              if rmask \<noteq> 0xFFFFFFFF
              then thenM (set_error ''Block read attempted on masked register'') (ret (None, sz))
              else if has_infix ''single'' rmode \<and> sz > 1
              then thenM (set_error ''Block read attempted on single register with size greater than 1'')
                     (ret (None, sz))
              else if offset + sz > rsize
              then thenM (set_error (block_range_msg ''Block read'' raddr offset sz rsize)) (ret (None, sz))
              else
                bindM (memhub_read la (raddr + offset) (unat sz)) (\<lambda>r. case r of
                  None \<Rightarrow> bindM (last_error la) (\<lambda>e.
                    thenM (set_error (''Read memsvc error: '' @ e)) (ret (None, sz)))
                | Some data \<Rightarrow>
                    thenM (set_string ''debug'' ''Block read succeeded.'') (ret (Some data, sz))))))))))"

definition readBlockAt :: "u32 \<Rightarrow> u32 \<Rightarrow> u32 \<Rightarrow> (u32 list option \<times> u32) prog" where
  "readBlockAt regAddr sz offset = ret (None, 0)"

definition writeBlock :: "localArgs \<Rightarrow> string \<Rightarrow> u32 list \<Rightarrow> u32 \<Rightarrow> u32 \<Rightarrow> unit prog" where
  "writeBlock la regName vals sz offset =
     (case db_text la regName of
        None \<Rightarrow> ret ()
      | Some db_res \<Rightarrow>
          (let tmp = split db_res bar
           in bindM (field_word tmp 0) (\<lambda>raddr.
              bindM (field_word tmp 2) (\<lambda>rmask.
              bindM (field_word tmp 4) (\<lambda>rsize.
              bindM (field tmp 3) (\<lambda>rmode.
              bindM (field tmp 1) (\<lambda>rperm.
              if rmask \<noteq> 0xFFFFFFFF
              then set_error ''Block write attempted on masked register''
              else if has_infix ''single'' rmode \<and> sz > 1
              then set_error ''Block write attempted on single register with size greater than 1''
              else if offset + sz > rsize
              then set_error (block_range_msg ''Block write'' raddr offset sz rsize)
              else if unat sz > length vals then abortM Undefined
              else
                bindM (memhub_write la (raddr + offset) (take (unat sz) vals)) (\<lambda>ok.
                if \<not> ok
                then bindM (last_error la) (\<lambda>e. set_error (''Write memsvc error: '' @ e))
                else set_string ''debug'' ''Block write succeeded.''))))))))"

definition writeBlockAt :: "u32 \<Rightarrow> u32 list \<Rightarrow> u32 \<Rightarrow> u32 \<Rightarrow> unit prog" where
  "writeBlockAt regAddr vals sz offset = ret ()"

section \<open>Facts on masks\<close>

lemma drop_bit_and_one: "(m AND 1 \<noteq> (0::u32)) = bit m 0"
  by (auto simp: and_one_eq mod_2_eq_odd bit_0)

lemma applyMask_loop_shift:
  "bit m n \<Longrightarrow> (\<And>i. i < n \<Longrightarrow> \<not> bit m i) \<Longrightarrow> n < k \<Longrightarrow> applyMask_loop k m r = drop_bit n r"
proof (induction k arbitrary: m n r)
  case (Suc k)
  show ?case
  proof (cases n)
    case 0
    with Suc.prems show ?thesis by (simp add: drop_bit_and_one)
  next
    case (Suc n')
    have "\<not> bit m 0" using Suc Suc.prems(2) by simp
    moreover have "applyMask_loop k (drop_bit 1 m) (drop_bit 1 r) = drop_bit n' (drop_bit 1 r)"
      using Suc Suc.prems by (intro Suc.IH) (simp_all add: bit_drop_bit_eq)
    ultimately show ?thesis using Suc by (simp add: drop_bit_and_one)
  qed
qed simp

lemma shift_loop_shift:
  "bit m n \<Longrightarrow> (\<And>i. i < n \<Longrightarrow> \<not> bit m i) \<Longrightarrow> n < k \<Longrightarrow> shift_loop k m a = a + n"
proof (induction k arbitrary: m n a)
  case (Suc k)
  show ?case
  proof (cases n)
    case 0
    with Suc.prems show ?thesis by (simp add: drop_bit_and_one)
  next
    case (Suc n')
    have "\<not> bit m 0" using Suc Suc.prems(2) by simp
    moreover have "shift_loop k (drop_bit 1 m) (a + 1) = (a + 1) + n'"
      using Suc Suc.prems by (intro Suc.IH) (simp_all add: bit_drop_bit_eq)
    ultimately show ?thesis using Suc by (simp add: drop_bit_and_one)
  qed
qed simp

lemma shift_loop_zero: "shift_loop k 0 a = a + k"
  by (induction k arbitrary: a) simp_all

text \<open>The index of the lowest bit of a mask.\<close>

definition low_bit :: "u32 \<Rightarrow> nat" where
  "low_bit m = shift_loop 32 m 0"

lemma low_bit_exists:
  assumes "m \<noteq> (0 :: u32)"
  shows "\<exists>n < 32. bit m n \<and> (\<forall>i<n. \<not> bit m i)"
proof -
  have ex: "\<exists>n. bit m n" using assms by (auto simp: bit_eq_iff)
  have "bit m (LEAST n. bit m n)" using ex by (rule LeastI_ex)
  moreover from this have "(LEAST n. bit m n) < 32" using bit_u32_out not_le by blast
  ultimately show ?thesis using not_less_Least by blast
qed

lemma low_bit_props:
  assumes "m \<noteq> (0 :: u32)"
  shows "low_bit m < 32" and "bit m (low_bit m)" and "i < low_bit m \<Longrightarrow> \<not> bit m i"
proof -
  obtain n where n: "n < 32" "bit m n" "\<forall>i<n. \<not> bit m i" using low_bit_exists [OF assms] by blast
  then have "low_bit m = n" unfolding low_bit_def by (subst shift_loop_shift) auto
  with n show "low_bit m < 32" "bit m (low_bit m)" "i < low_bit m \<Longrightarrow> \<not> bit m i" by auto
qed

lemma low_bit_zero: "low_bit 0 = 32"
  by (simp add: low_bit_def shift_loop_zero)

lemma applyMask_eq: "m \<noteq> 0 \<Longrightarrow> applyMask d m = drop_bit (low_bit m) (d AND m)"
  using low_bit_props [of m] by (simp add: applyMask_def applyMask_loop_shift)

lemma applyMask_full: "applyMask d 0xFFFFFFFF = d"
proof -
  have "(0xFFFFFFFF :: u32) = mask 32" by (simp add: mask_eq_exp_minus_1)
  moreover have "d AND mask 32 = d" by (simp flip: take_bit_eq_mask add: take_bit_word_eq_self)
  ultimately show ?thesis by (simp add: applyMask_def eval_nat_numeral)
qed

text \<open>
  What a masked read extracts: the loop of \<^verbatim>\<open>applyMask\<close> ends with the field of the mask moved
  down to bit 0: bit \<open>i\<close> of the result is bit \<open>i + low_bit m\<close> of the data where the mask has it,
  for every mask, the empty one included.
\<close>

lemma applyMask_bits:
  "bit (applyMask d m) i = (bit d (i + low_bit m) \<and> bit m (i + low_bit m))"
proof (cases "m = 0")
  case True
  have "applyMask_loop k 0 0 = 0" for k by (induction k) simp_all
  with True show ?thesis by (simp add: applyMask_def)
next
  case False
  then show ?thesis by (simp add: applyMask_eq bit_simps add.commute)
qed

text \<open>What a masked write puts into the word.\<close>

definition put_field :: "u32 \<Rightarrow> u32 \<Rightarrow> u32 \<Rightarrow> u32" where
  "put_field m v w = (push_bit (low_bit m) v AND m) OR (w AND NOT m)"

definition field_part :: "u32 \<Rightarrow> u32 \<Rightarrow> u32" where
  "field_part m v = v AND drop_bit (low_bit m) m"

lemma bit_put_field:
  "bit (put_field m v w) i = (if bit m i then low_bit m \<le> i \<and> bit v (i - low_bit m) else bit w i)"
proof (cases "i < 32")
  case False
  then show ?thesis using bit_u32_out [of i] by simp
qed (auto simp: put_field_def bit_simps)

lemma get_put_field: "applyMask (put_field m v w) m = field_part m v"
  by (rule bit_word_eqI) (auto simp: applyMask_bits bit_put_field field_part_def bit_simps add.commute)

lemma get_put_other: "m AND m' = 0 \<Longrightarrow> applyMask (put_field m' v w) m = applyMask w m"
proof (rule bit_word_eqI)
  fix i
  assume "m AND m' = 0"
  then have "\<not> (bit m j \<and> bit m' j)" for j by (metis bit_0_eq bit_and_iff bot_apply bot_bool_def)
  then show "bit (applyMask (put_field m' v w) m) i = bit (applyMask w m) i"
    by (auto simp: applyMask_bits bit_put_field)
qed

lemma put_put_field: "put_field m v (put_field m u w) = put_field m v w"
  by (rule bit_word_eqI) (simp add: bit_put_field)

lemma low_bit_le: "bit m i \<Longrightarrow> low_bit m \<le> i"
  using low_bit_props(3) [of m i] by (cases "m = 0") (auto simp: not_le [symmetric])

lemma put_get_field: "put_field m (applyMask w m) w = w"
  by (rule bit_word_eqI) (auto simp: bit_put_field applyMask_bits low_bit_le)

lemma field_part_get: "field_part m (applyMask w m) = applyMask w m"
  by (rule bit_word_eqI) (auto simp: field_part_def applyMask_bits bit_simps add.commute)

lemma full_mask: "(0xFFFFFFFF :: u32) = NOT 0"
  by simp

lemma low_bit_full: "low_bit 0xFFFFFFFF = 0"
  by (simp add: low_bit_def eval_nat_numeral)

lemma low_bit_minus_one: "low_bit (- 1) = 0"
  by (simp add: low_bit_def eval_nat_numeral)

lemma put_field_full: "put_field 0xFFFFFFFF v w = v"
proof -
  have "(0xFFFFFFFF :: u32) = - 1" by simp
  then show ?thesis by (simp only:) (rule bit_word_eqI, simp add: bit_put_field low_bit_minus_one bit_simps)
qed

text \<open>
  The laws of a field inside a word as an interface: reading, writing, the part of a value that
  fits, and the words the laws hold for.
\<close>

locale field_lens =
  fixes get :: "'w \<Rightarrow> 'v" and put :: "'v \<Rightarrow> 'w \<Rightarrow> 'w" and fit :: "'v \<Rightarrow> 'v"
  assumes get_put: "get (put v w) = fit v"
    and put_get: "put (get w) w = w"
    and put_put: "put v (put u w) = put v w"
begin

lemma fit_get: "fit (get w) = get w"
  using get_put [of "get w" w] by (simp add: put_get)

lemma restore: "put (get w) (put v w) = w"
  by (simp add: put_put put_get)

lemma fit_fit: "fit (fit v) = fit v"
  using fit_get [of "put v w" for w] by (simp add: get_put)

end

interpretation fld: field_lens "\<lambda>w. applyMask w m" "put_field m" "field_part m"
  by unfold_locales (simp_all add: get_put_field put_get_field put_put_field)

section \<open>One access, step by step\<close>

definition rd_event :: "localArgs \<Rightarrow> event list \<Rightarrow> u32 \<Rightarrow> nat \<Rightarrow> event" where
  "rd_event la h a n = MemRead a n (map_option (\<lambda>f. map f [0..<n]) (mem_rd la h a n))"

lemma readReg_node:
  assumes "has_node la r n" and "CHR ''r'' \<in> set (permission n)"
  shows "readReg la r s = Some (Val (case mem_rd la (hist s) (real_address n) 1 of
      None \<Rightarrow> 0xdeaddead | Some f \<Rightarrow> applyMask (f 0) (node_mask n)),
    s\<lparr>hist := hist s @ [rd_event la (hist s) (real_address n) 1]\<rparr>)"
  using assms(2) has_node_wf [OF assms(1)]
  by (cases "mem_rd la (hist s) (real_address n) 1")
    (simp_all add: readReg_def db_text_node [OF assms(1)] Let_def node_simps bindM_Val
      memhub_read_run ret_def rd_event_def applyMask_full)

lemma writeAddress_node:
  "wf_node n \<Longrightarrow> writeAddress la (serialize n) v =
     bindM (memhub_write la (real_address n) [v]) (\<lambda>ok. whenM (\<not> ok) (memsvc_error la))"
  by (simp add: writeAddress_def node_simps)

lemma readAddress_node:
  "wf_node n \<Longrightarrow> readAddress la (serialize n) = readAddress_loop la (real_address n) 0"
  by (simp add: readAddress_def node_simps)

lemma memsvc_error_run [prog_simps]:
  "memsvc_error la s = Some (Val (), s\<lparr>resp := (resp s)(''error'' \<mapsto> RStr (''memsvc error: '' @ mem_err la (hist s)))\<rparr>)"
  by (simp add: memsvc_error_def prog_simps)

text \<open>
  How the reads of one address went: \<open>j\<close> failures, and a last read that either delivered the value or
  was the one failure too many.
\<close>

definition retried :: "localArgs \<Rightarrow> u32 \<Rightarrow> nat \<Rightarrow> mach \<Rightarrow> u32 \<Rightarrow> mach \<Rightarrow> bool" where
  "retried la a budget s v t \<longleftrightarrow> (\<exists>j r.
     j \<le> budget \<and> hist t = hist s @ replicate j (MemRead a 1 None) @ [MemRead a 1 r] \<and>
     (case r of
        Some ws \<Rightarrow> length ws = 1 \<and> v = ws ! 0 \<and> resp t = resp s
      | None \<Rightarrow> j = budget \<and> v = 0xdeaddead \<and>
          resp t = (resp s)(''error'' \<mapsto> RStr (''memsvc error: '' @ mem_err la (hist t)))))"

lemma readAddress_loop_retries:
  "n \<le> 9 \<Longrightarrow> \<exists>v t. readAddress_loop la a n s = Some (Val v, t) \<and> retried la a (9 - n) s v t"
proof (induction "9 - n" arbitrary: n s)
  case 0
  then have n: "n = 9" by simp
  show ?case
  proof (cases "mem_rd la (hist s) a 1")
    case None
    then show ?thesis
      by (subst readAddress_loop.simps) (simp add: n prog_simps retried_def)
  next
    case (Some f)
    then show ?thesis
      by (subst readAddress_loop.simps) (auto simp add: n prog_simps retried_def intro: exI [of _ "Some [f 0]"])
  qed
next
  case (Suc k)
  show ?case
  proof (cases "mem_rd la (hist s) a 1")
    case None
    let ?s = "s\<lparr>hist := hist s @ [MemRead a 1 None]\<rparr>"
    have "\<exists>v t. readAddress_loop la a (n + 1) ?s = Some (Val v, t) \<and> retried la a (9 - (n + 1)) ?s v t"
      using Suc.hyps(2) by (intro Suc.hyps(1)) simp_all
    then obtain v t j r where run: "readAddress_loop la a (n + 1) ?s = Some (Val v, t)"
      and j: "j \<le> 9 - (n + 1)"
      and h: "hist t = hist ?s @ replicate j (MemRead a 1 None) @ [MemRead a 1 r]"
      and c: "case r of
        Some ws \<Rightarrow> length ws = 1 \<and> v = ws ! 0 \<and> resp t = resp ?s
      | None \<Rightarrow> j = 9 - (n + 1) \<and> v = 0xdeaddead \<and>
          resp t = (resp ?s)(''error'' \<mapsto> RStr (''memsvc error: '' @ mem_err la (hist t)))"
      unfolding retried_def by blast
    have "retried la a (9 - n) s v t"
      unfolding retried_def
      by (rule exI [of _ "Suc j"], rule exI [of _ r])
        (use Suc.hyps(2) j h c in \<open>auto split: option.splits\<close>)
    moreover have "n < 9" using Suc.hyps(2) by simp
    then have "readAddress_loop la a n s = Some (Val v, t)"
      using run None by (subst readAddress_loop.simps) (simp add: prog_simps)
    ultimately show ?thesis by blast
  next
    case (Some f)
    then show ?thesis
      by (subst readAddress_loop.simps) (auto simp add: prog_simps retried_def intro: exI [of _ 0] exI [of _ "Some [f 0]"])
  qed
qed

text \<open>
  Bounded retry: \<^verbatim>\<open>readAddress\<close> always returns, after at most ten reads of its own address.
  All of them but the last failed; if the last one succeeded its word is the result and the
  response is untouched, otherwise there were exactly ten, the result is \<^verbatim>\<open>0xdeaddead\<close> and the
  error is reported.
\<close>

theorem readAddress_retries:
  assumes "wf_node n"
  shows "\<exists>v t. readAddress la (serialize n) s = Some (Val v, t) \<and> retried la (real_address n) 9 s v t"
  using readAddress_loop_retries [of 0 la "real_address n" s] by (simp add: readAddress_node assms)

theorem readAddress_retries_witness:
  "\<exists>v t. readAddress (demo_env\<lparr>mem_rd := (\<lambda>h a n. if length h < 2 then None else Some (\<lambda>i. 7))\<rparr>)
       (serialize demo_node) start_mach = Some (Val v, t)
     \<and> retried (demo_env\<lparr>mem_rd := (\<lambda>h a n. if length h < 2 then None else Some (\<lambda>i. 7))\<rparr>)
         0x66400008 9 start_mach v t"
  using readAddress_retries [of demo_node "demo_env\<lparr>mem_rd := (\<lambda>h a n. if length h < 2 then None else Some (\<lambda>i. 7))\<rparr>" start_mach]
  by (simp add: demo_node_def wf_node_def clean_def)

section \<open>What a register access may touch\<close>

fun is_read :: "event \<Rightarrow> bool" where
  "is_read (MemRead a n r) = True"
| "is_read _ = False"

fun is_access :: "event \<Rightarrow> bool" where
  "is_access (MemRead a n r) = True"
| "is_access (MemWrite a ws ok) = True"
| "is_access _ = False"

text \<open>
  The interface of register access by name: a read leaves only reads in the history and does not
  touch the response; a write leaves accesses and touches at most the key \<^verbatim>\<open>error\<close>.
\<close>

locale register_access =
  fixes rd :: "string \<Rightarrow> u32 prog" and wr :: "string \<Rightarrow> u32 \<Rightarrow> unit prog"
  assumes rd_frame: "preserves (extends is_read no_key) (rd r)"
    and wr_frame: "preserves (extends is_access (\<lambda>k. k = ''error'')) (wr r v)"
begin

lemma keep_rd: "(\<And>a n x. P (MemRead a n x)) \<Longrightarrow> preserves (extends P K) (rd r)"
proof (rule preservesI)
  fix s x t
  assume P: "\<And>a n x. P (MemRead a n x)" and run: "rd r s = Some (x, t)"
  from P have sub: "is_read e \<Longrightarrow> P e" for e by (cases e) auto
  from rd_frame run have "extends is_read no_key s t" by (rule preservesD)
  then show "extends P K s t" by (rule extends_mono) (auto simp: sub)
qed

lemma keep_wr:
  "(\<And>a n x. P (MemRead a n x)) \<Longrightarrow> (\<And>a ws x. P (MemWrite a ws x)) \<Longrightarrow> K ''error'' \<Longrightarrow>
     preserves (extends P K) (wr r v)"
proof (rule preservesI)
  fix s x t
  assume P: "\<And>a n x. P (MemRead a n x)" "\<And>a ws x. P (MemWrite a ws x)" and K: "K ''error''"
    and run: "wr r v s = Some (x, t)"
  from P have sub: "is_access e \<Longrightarrow> P e" for e by (cases e) auto
  from wr_frame run have "extends is_access (\<lambda>k. k = ''error'') s t" by (rule preservesD)
  then show "extends P K s t" by (rule extends_mono) (auto simp: sub K)
qed

lemma rd_resp: "rd r s = Some (x, t) \<Longrightarrow> resp t = resp s"
  using preservesD [OF rd_frame] by (auto simp: extends_def)

lemma wr_resp: "wr r v s = Some (x, t) \<Longrightarrow> k \<noteq> ''error'' \<Longrightarrow> resp t k = resp s k"
  using preservesD [OF wr_frame] by (auto simp: extends_def)

end

lemma keep_field [keeps]: "preserves (extends P K) (field tmp i)"
  by (simp add: field_def ext.keep_ret ext.keep_abort)

lemma keep_field_word [keeps]: "preserves (extends P K) (field_word tmp i)"
  unfolding field_word_def by (intro keeps)

lemma keep_memsvc_error [keeps]: "K ''error'' \<Longrightarrow> preserves (extends P K) (memsvc_error la)"
  unfolding memsvc_error_def by (intro keeps)

lemma keep_writeAddress [keeps]:
  "(\<And>a ws x. P (MemWrite a ws x)) \<Longrightarrow> K ''error'' \<Longrightarrow> preserves (extends P K) (writeAddress la t v)"
  unfolding writeAddress_def by (intro keeps) auto

lemma keep_readAddress_loop [keeps]:
  "(\<And>a n x. P (MemRead a n x)) \<Longrightarrow> K ''error'' \<Longrightarrow> preserves (extends P K) (readAddress_loop la a n)"
proof (induction la a n rule: readAddress_loop.induct)
  case (1 la a n)
  have step: "preserves (extends P K) (if n < 9 then readAddress_loop la a (n + 1)
      else thenM (memsvc_error la) (ret 0xdeaddead))"
    using 1 by (auto intro!: keeps)
  show ?case
    by (subst readAddress_loop.simps, rule ext.keep_bind) (use 1 step in \<open>auto intro!: keeps split: option.split\<close>)
qed

lemma keep_readAddress [keeps]:
  "(\<And>a n x. P (MemRead a n x)) \<Longrightarrow> K ''error'' \<Longrightarrow> preserves (extends P K) (readAddress la t)"
  unfolding readAddress_def by (intro keeps) auto

lemma readReg_frame: "preserves (extends is_read no_key) (readReg la r)"
  unfolding readReg_def Let_def by (intro keeps) auto

lemma writeReg_frame: "preserves (extends is_access (\<lambda>k. k = ''error'')) (writeReg la r v)"
  unfolding writeReg_def Let_def by (intro keeps) auto

interpretation reg: register_access "readReg la" "writeReg la"
  by unfold_locales (fact readReg_frame, fact writeReg_frame)

declare reg.keep_rd [keeps] reg.keep_wr [keeps]

lemma readRawReg_frame: "preserves (extends is_access (\<lambda>k. k = ''error'')) (readRawReg la r)"
  unfolding readRawReg_def by (intro keeps) auto

lemma writeRawReg_frame: "preserves (extends is_access (\<lambda>k. k = ''error'')) (writeRawReg la r v)"
  unfolding writeRawReg_def by (intro keeps) auto

lemma keep_raw [keeps]:
  "(\<And>a n x. P (MemRead a n x)) \<Longrightarrow> K ''error'' \<Longrightarrow> preserves (extends P K) (readRawReg la r)"
  "(\<And>a ws x. P (MemWrite a ws x)) \<Longrightarrow> K ''error'' \<Longrightarrow> preserves (extends P K) (writeRawReg la r v)"
  "(\<And>a n x. P (MemRead a n x)) \<Longrightarrow> K ''error'' \<Longrightarrow> preserves (extends P K) (readRawAddress la ad)"
  "(\<And>a ws x. P (MemWrite a ws x)) \<Longrightarrow> K ''error'' \<Longrightarrow> preserves (extends P K) (writeRawAddress la ad v)"
  unfolding readRawReg_def writeRawReg_def readRawAddress_def writeRawAddress_def
  by (intro keeps; simp)+

lemma keep_readBlock [keeps]:
  "(\<And>a n x. P (MemRead a n x)) \<Longrightarrow> K ''error'' \<Longrightarrow> K ''debug'' \<Longrightarrow>
     preserves (extends P K) (readBlock la r sz off)"
  unfolding readBlock_def Let_def by (intro keeps) auto

lemma keep_writeBlock [keeps]:
  "(\<And>a ws x. P (MemWrite a ws x)) \<Longrightarrow> K ''error'' \<Longrightarrow> K ''debug'' \<Longrightarrow>
     preserves (extends P K) (writeBlock la r vals sz off)"
  unfolding writeBlock_def Let_def by (intro keeps) auto

lemma keep_getMask [keeps]: "K ''error'' \<Longrightarrow> preserves (extends P K) (getMask la r)"
  unfolding getMask_def by (intro keeps)

lemma keep_getAddress [keeps]: "K ''error'' \<Longrightarrow> preserves (extends P K) (getAddress la r)"
  unfolding getAddress_def by (intro keeps)

section \<open>Every access ends\<close>

lemma returns_bus [returning]: "returns (memhub_read la a n)" "returns (memhub_write la a ws)" "returns (last_error la)"
  by (simp_all add: returns_def memhub_read_def memhub_write_def last_error_def Let_def)

lemma returns_memsvc_error [returning]: "returns (memsvc_error la)"
  unfolding memsvc_error_def by (intro returning)

lemma returns_readAddress_loop [returning]: "returns (readAddress_loop la a n)"
proof (induction la a n rule: readAddress_loop.induct)
  case (1 la a n)
  then have "returns (if n < 9 then readAddress_loop la a (n + 1) else thenM (memsvc_error la) (ret 0xdeaddead))"
    by (auto intro!: returning)
  then show ?case
    by (subst readAddress_loop.simps) (auto intro!: returning split: option.split)
qed

lemma returns_field [returning]: "returns (field tmp i)" "returns (field_word tmp i)"
  unfolding field_word_def field_def by (intro returning)+

lemma returns_access [returning]:
  "returns (readReg la r)" "returns (writeReg la r v)" "returns (readRawReg la r)" "returns (writeRawReg la r v)"
  "returns (readAddress la t)" "returns (writeAddress la t v)" "returns (getMask la r)" "returns (getAddress la r)"
  "returns (readRawAddress la a)" "returns (writeRawAddress la a v)"
  "returns (readBlock la r sz off)" "returns (writeBlock la r vals sz off)"
  unfolding readReg_def writeReg_def readRawReg_def writeRawReg_def readAddress_def writeAddress_def
    getMask_def getAddress_def readRawAddress_def writeRawAddress_def readBlock_def writeBlock_def Let_def
  by (intro returning)+

section \<open>Counting bits\<close>

lemma count_tail:
  "(\<And>i. i \<in> set is \<Longrightarrow> 0 < i) \<Longrightarrow>
     foldl (\<lambda>n i. if (v AND push_bit i 1) = (1 :: u32) then n + 1 else n) (a :: u32) is = a"
proof (induction "is" arbitrary: a)
  case (Cons i "is")
  have "\<not> bit (v AND push_bit i 1) 0" using Cons.prems [of i] by (simp add: bit_simps)
  then have "(v AND push_bit i 1) \<noteq> 1" by (metis bit_1_0)
  with Cons show ?case by simp
qed simp

text \<open>
  Bit count: \<^verbatim>\<open>getNumNonzeroBits\<close> compares \<^verbatim>\<open>value & (1 << i)\<close> with 1 where it means "not 0", so it
  returns 1 for odd values and 0 for even ones, instead of the number of bits set.
\<close>

theorem getNumNonzeroBits_value:
  "getNumNonzeroBits v = (if bit v 0 then 1 else 0)"
proof -
  have "[0..<32] = 0 # [Suc 0..<32]" by (simp add: upt_conv_Cons)
  moreover have "((v AND push_bit 0 1) = 1) = bit v 0"
    by (simp add: and_one_eq mod_2_eq_odd bit_0)
  moreover have "foldl (\<lambda>n i. if (v AND push_bit i 1) = (1 :: u32) then n + 1 else n) a [Suc 0..<32] = a" for a :: u32
    by (rule count_tail) simp
  ultimately show ?thesis
    unfolding getNumNonzeroBits_def by (simp only: foldl.simps) simp
qed

end
