(* ===== verification/MemoryModules.thy ===== *)
theory MemoryModules
  imports Utils
begin

text \<open>
  The modules that give raw access to the memory service: \<^verbatim>\<open>src/memory.cpp\<close> (\<^verbatim>\<open>mread\<close>, \<^verbatim>\<open>mwrite\<close>),
  \<^verbatim>\<open>src/extras.cpp\<close> (block, FIFO and list transfers) and the echo method of \<^verbatim>\<open>src/rpctest.cpp\<close>.
\<close>

section \<open>memory\<close>

definition raw_error :: "localArgs \<Rightarrow> unit prog" where
  "raw_error la = bindM (last_error la) (\<lambda>e. set_error e)"

definition mread :: "localArgs \<Rightarrow> rpc_request \<Rightarrow> unit prog" where
  "mread la request =
     bindM (get_word request ''count'') (\<lambda>count.
     bindM (get_word request ''address'') (\<lambda>addr.
     bindM (memhub_read la addr (unat count)) (\<lambda>r. case r of
         Some data \<Rightarrow> set_word_array ''data'' data
       | None \<Rightarrow> raw_error la)))"

definition mwrite :: "localArgs \<Rightarrow> rpc_request \<Rightarrow> unit prog" where
  "mwrite la request =
     bindM (get_word_array request ''data'') (\<lambda>data.
     bindM (get_word request ''address'') (\<lambda>addr.
     bindM (memhub_write la addr data) (\<lambda>ok. whenM (\<not> ok) (memsvc_error la))))"

section \<open>extras\<close>

definition mblockread :: "localArgs \<Rightarrow> rpc_request \<Rightarrow> unit prog" where
  "mblockread la request =
     bindM (get_word request ''count'') (\<lambda>count.
     bindM (get_word request ''address'') (\<lambda>addr.
     bindM (memhub_read la addr (unat count)) (\<lambda>r. case r of
         None \<Rightarrow> raw_error la
       | Some data \<Rightarrow> set_word_array ''data'' data)))"

text \<open>
  The loop over single-word reads, \<open>data\<close> the words read so far: \<open>None\<close> when a read failed and the
  method has left with the error set.
\<close>

fun read_each :: "localArgs \<Rightarrow> u32 list \<Rightarrow> u32 list \<Rightarrow> u32 list option prog" where
  "read_each la [] data = ret (Some data)"
| "read_each la (addr # addrs) data =
     bindM (memhub_read la addr 1) (\<lambda>r. case r of
         None \<Rightarrow> thenM (raw_error la) (ret None)
       | Some w \<Rightarrow> read_each la addrs (data @ [w ! 0]))"

definition mfiforead :: "localArgs \<Rightarrow> rpc_request \<Rightarrow> unit prog" where
  "mfiforead la request =
     bindM (get_word request ''count'') (\<lambda>count.
     bindM (get_word request ''address'') (\<lambda>addr.
     bindM (read_each la (replicate (unat count) addr) []) (\<lambda>r. case r of
         None \<Rightarrow> ret ()
       | Some data \<Rightarrow> set_word_array ''data'' data)))"

definition mlistread :: "localArgs \<Rightarrow> rpc_request \<Rightarrow> unit prog" where
  "mlistread la request =
     bindM (get_word request ''count'') (\<lambda>count.
     bindM (get_word_array request ''addresses'') (\<lambda>addresses.
     bindM (copy_into (stack_array la (unat count)) addresses) (\<lambda>addr.
     bindM (read_each la addr []) (\<lambda>r. case r of
         None \<Rightarrow> ret ()
       | Some data \<Rightarrow> set_word_array ''data'' data))))"

definition mblockwrite :: "localArgs \<Rightarrow> rpc_request \<Rightarrow> unit prog" where
  "mblockwrite la request =
     bindM (get_word_array request ''data'') (\<lambda>data.
     bindM (get_word request ''address'') (\<lambda>addr.
     bindM (memhub_write la addr data) (\<lambda>ok.
       if \<not> ok then raw_error la else set_word_array ''data'' data)))"

text \<open>The loop over single-word writes: \<open>False\<close> when one failed and the method has left.\<close>

fun write_each :: "localArgs \<Rightarrow> (u32 \<times> u32) list \<Rightarrow> bool prog" where
  "write_each la [] = ret True"
| "write_each la ((addr, w) # rest) =
     bindM (memhub_write la addr [w]) (\<lambda>ok.
       if \<not> ok then thenM (raw_error la) (ret False) else write_each la rest)"

definition mfifowrite :: "localArgs \<Rightarrow> rpc_request \<Rightarrow> unit prog" where
  "mfifowrite la request =
     bindM (get_word_array request ''data'') (\<lambda>data.
     bindM (get_word request ''address'') (\<lambda>addr.
     bindM (write_each la (map (\<lambda>w. (addr, w)) data)) (\<lambda>ok.
       if \<not> ok then ret () else set_word_array ''data'' data)))"

definition mlistwrite :: "localArgs \<Rightarrow> rpc_request \<Rightarrow> unit prog" where
  "mlistwrite la request =
     bindM (get_word_array request ''data'') (\<lambda>data0.
     bindM (get_word_array request ''addresses'') (\<lambda>addresses.
     bindM (copy_into (stack_array la (length data0)) addresses) (\<lambda>addr.
     bindM (get_word_array request ''data'') (\<lambda>data.
     bindM (write_each la (zip addr data)) (\<lambda>ok.
       if \<not> ok then ret () else set_word_array ''data'' data)))))"

section \<open>rpctest\<close>

definition set_string_array :: "string \<Rightarrow> string list \<Rightarrow> unit prog" where
  "set_string_array k v = set_key k (RStrs v)"

definition set_binarydata :: "string \<Rightarrow> u8 list \<Rightarrow> unit prog" where
  "set_binarydata k v = set_key k (RBin v)"

definition rpcmsg_feature :: "rpc_request \<Rightarrow> unit prog" where
  "rpcmsg_feature request =
     (if rq_exists request ''nonexistent'' then set_string ''rpcerror'' ''Nonexistent key found''
      else if \<not> rq_exists request ''testword'' then set_string ''rpcerror'' ''testword key not found''
      else
        bindM (get_word request ''testword'') (\<lambda>testword.
        thenM (set_word ''testword'' (testword + 1)) (
        bindM (get_word_array request ''testwordarray'') (\<lambda>data.
        thenM (set_word_array ''testwordarray'' (map (\<lambda>i. data ! i + of_nat i) [0..<length data])) (
        bindM (get_string request ''teststring'') (\<lambda>teststring.
        thenM (set_string ''teststring'' (teststring @ ''? Hello there!'')) (
        bindM (get_string_array request ''teststringarray'') (\<lambda>stringarray.
        thenM (set_string_array ''teststringarray'' (map (\<lambda>it. it @ ''? Hello there!'') stringarray)) (
        bindM (get_binarydata request ''testblob'') (\<lambda>blobdata.
          set_binarydata ''testblob'' blobdata))))))))))"

section \<open>Properties\<close>

lemma raw_error_run [prog_simps]:
  "raw_error la s = Some (Val (), s\<lparr>resp := (resp s)(''error'' \<mapsto> RStr (mem_err la (hist s)))\<rparr>)"
  by (simp add: raw_error_def prog_simps)

text \<open>The writes of a prefix of the pairs that all went well, then at most one that failed.\<close>

definition wrote_pairs :: "localArgs \<Rightarrow> (u32 \<times> u32) list \<Rightarrow> mach \<Rightarrow> bool \<Rightarrow> mach \<Rightarrow> bool" where
  "wrote_pairs la ps s ok t \<longleftrightarrow> (\<exists>k \<le> length ps.
     ok = (k = length ps) \<and>
     hist t = hist s @ map (\<lambda>(a, w). MemWrite a [w] True) (take k ps)
       @ (if ok then [] else [MemWrite (fst (ps ! k)) [snd (ps ! k)] False]) \<and>
     resp t = (if ok then resp s else (resp s)(''error'' \<mapsto> RStr (mem_err la (hist t)))))"

lemma write_each_wrote: "\<exists>ok t. write_each la ps s = Some (Val ok, t) \<and> wrote_pairs la ps s ok t"
proof (induction ps arbitrary: s)
  case Nil
  then show ?case by (intro exI [of _ True]) (simp add: ret_def wrote_pairs_def)
next
  case (Cons p ps)
  obtain a w where p: "p = (a, w)" by (cases p)
  show ?case
  proof (cases "mem_wr la (hist s) a [w]")
    case False
    let ?t = "s\<lparr>hist := hist s @ [MemWrite a [w] False],
        resp := (resp s)(''error'' \<mapsto> RStr (mem_err la (hist s @ [MemWrite a [w] False])))\<rparr>"
    have "wrote_pairs la (p # ps) s False ?t"
      unfolding wrote_pairs_def by (intro exI [of _ 0]) (simp add: p)
    moreover have "write_each la (p # ps) s = Some (Val False, ?t)"
      using False by (simp add: p prog_simps)
    ultimately show ?thesis by blast
  next
    case True
    let ?s = "s\<lparr>hist := hist s @ [MemWrite a [w] True]\<rparr>"
    obtain ok t where t: "write_each la ps ?s = Some (Val ok, t)" "wrote_pairs la ps ?s ok t"
      using Cons.IH by blast
    then obtain k where "k \<le> length ps" "ok = (k = length ps)"
      "hist t = hist ?s @ map (\<lambda>(a, w). MemWrite a [w] True) (take k ps)
         @ (if ok then [] else [MemWrite (fst (ps ! k)) [snd (ps ! k)] False])"
      "resp t = (if ok then resp ?s else (resp ?s)(''error'' \<mapsto> RStr (mem_err la (hist t))))"
      unfolding wrote_pairs_def by blast
    then have "wrote_pairs la (p # ps) s ok t"
      unfolding wrote_pairs_def by (intro exI [of _ "Suc k"]) (simp add: p)
    with t(1) True show ?thesis by (simp add: p prog_simps)
  qed
qed

text \<open>
  C19 (list write): \<^verbatim>\<open>mlistwrite\<close> with as many addresses as data words writes each word to its own
  address, in order, and stops at the first write that fails, with the service's error reported;
  only when all of them went well does it echo the data.
\<close>

theorem mlistwrite_trace:
  assumes "rq_words request ''data'' = Inr data" and "rq_words request ''addresses'' = Inr addresses"
    and "length addresses = length data"
  shows "\<exists>ok t u. wrote_pairs la (zip addresses data) s ok t \<and>
    mlistwrite la request s = Some (Val (), u) \<and> hist u = hist t \<and>
    resp u = (if ok then (resp t)(''data'' \<mapsto> RWords data) else resp t)"
proof -
  obtain ok t where t: "write_each la (zip addresses data) s = Some (Val ok, t)"
    "wrote_pairs la (zip addresses data) s ok t" using write_each_wrote by blast
  have "copy_into (stack_array la (length data)) addresses = ret addresses"
    using assms(3) by (simp add: copy_into_def stack_array_def)
  then have "mlistwrite la request s =
      (if \<not> ok then ret () t else set_word_array ''data'' data t)"
    using t(1) by (simp add: mlistwrite_def get_word_array_def assms(1,2) liftE_def bindM_Val)
  then show ?thesis using t(2) by (cases ok) (auto simp: prog_simps set_run)
qed

theorem mlistwrite_trace_witness:
  "\<exists>u. mlistwrite demo_env (demo_request\<lparr>rq_words := (\<lambda>k. if k = ''data'' then Inr [7, 8] else Inr [0x10, 0x20])\<rparr>) start_mach
     = Some (Val (), u)"
  using mlistwrite_trace [of "demo_request\<lparr>rq_words := (\<lambda>k. if k = ''data'' then Inr [7, 8] else Inr [0x10, 0x20])\<rparr>"
      "[7, 8]" "[0x10, 0x20]" demo_env start_mach]
  by auto

text \<open>
  FIFO writes are list writes: a FIFO write is the list write whose addresses are all the
  same, and writing through a FIFO leaves the last word there, not a block.
\<close>

theorem mfifowrite_is_mlistwrite:
  assumes "rq_words request ''data'' = Inr data" and "rq_word request ''address'' = Inr addr"
  shows "mfifowrite la request =
    mlistwrite la (request\<lparr>rq_words := (\<lambda>k. if k = ''addresses'' then Inr (replicate (length data) addr)
      else rq_words request k)\<rparr>)"
proof -
  have "map (\<lambda>w. (addr, w)) data = zip (replicate (length data) addr) data"
    by (induction data) simp_all
  then show ?thesis
    by (simp add: mfifowrite_def mlistwrite_def get_word_def get_word_array_def assms liftE_def
        copy_into_def stack_array_def)
qed

theorem mfifowrite_is_mlistwrite_witness:
  "mfifowrite demo_env (demo_request\<lparr>rq_words := (\<lambda>k. Inr [7, 8]), rq_word := (\<lambda>k. Inr 4)\<rparr>) =
   mlistwrite demo_env (demo_request\<lparr>rq_word := (\<lambda>k. Inr 4), rq_words := (\<lambda>k. if k = ''addresses'' then Inr [4, 4] else Inr [7, 8])\<rparr>)"
  using mfifowrite_is_mlistwrite [of "demo_request\<lparr>rq_words := (\<lambda>k. Inr [7, 8]), rq_word := (\<lambda>k. Inr 4)\<rparr>" "[7, 8]" 4 demo_env]
  by (simp add: eval_nat_numeral cong: if_cong)

lemma cell_block:
  assumes "i < length ws" "length ws < 2 ^ 32"
  shows "cell (b + of_nat i) v (h @ [MemWrite b ws True]) = ws ! i"
proof -
  have "unat (of_nat i :: u32) = i"
    using assms by (simp add: unsigned_of_nat take_bit_nat_eq_self)
  then show ?thesis using assms by (simp add: cell_snoc)
qed

text \<open>
  Memory round trip: where the device behaves as memory, what \<^verbatim>\<open>memory.write\<close> has written is what
  \<^verbatim>\<open>memory.read\<close> of the same address and length puts into its response.
\<close>

theorem mwrite_mread:
  assumes "rq_words wreq ''data'' = Inr data" and "rq_word wreq ''address'' = Inr a"
    and "rq_word rreq ''count'' = Inr (of_nat (length data))" and "rq_word rreq ''address'' = Inr a"
    and "length data < 2 ^ 32" and "ram_on la {a + of_nat i |i. i < length data} v0"
  shows "\<exists>t u. mwrite la wreq s = Some (Val (), t) \<and> resp t = resp s \<and>
    mread la rreq t = Some (Val (), u) \<and> resp u = (resp s)(''data'' \<mapsto> RWords data)"
proof -
  let ?t = "s\<lparr>hist := hist s @ [MemWrite a data True]\<rparr>"
  have rng: "\<forall>i<length data. a + of_nat i \<in> {a + of_nat i |i. i < length data}" by blast
  have w: "mem_wr la (hist s) a data"
    using assms(6) rng unfolding ram_on_def by blast
  obtain f where f: "mem_rd la (hist ?t) a (length data) = Some f"
    "\<forall>i<length data. f i = cell (a + of_nat i) (v0 (a + of_nat i)) (hist ?t)"
    using assms(6) rng unfolding ram_on_def by blast
  have "map f [0..<length data] = data"
    using f(2) assms(5) by (intro nth_equalityI) (simp_all add: cell_block)
  moreover have "unat (of_nat (length data) :: u32) = length data"
    using assms(5) by (simp add: unsigned_of_nat take_bit_nat_eq_self)
  ultimately have "\<exists>u. mread la rreq ?t = Some (Val (), u) \<and> resp u = (resp s)(''data'' \<mapsto> RWords data)"
    using f(1) by (simp add: mread_def get_word_def assms(3,4) liftE_def prog_simps set_run)
  moreover have "mwrite la wreq s = Some (Val (), ?t)"
    using w by (simp add: mwrite_def get_word_array_def get_word_def assms(1,2) liftE_def prog_simps whenM_def)
  ultimately show ?thesis by auto
qed

definition ram_env :: "(string \<Rightarrow> string option) \<Rightarrow> localArgs" where
  "ram_env db = demo_env\<lparr>db_get := db,
     mem_rd := (\<lambda>h a n. Some (\<lambda>i. cell (a + of_nat i) 0 h)), mem_wr := (\<lambda>h a ws. True)\<rparr>"

lemma ram_env_db [simp]: "db_get (ram_env db) = db"
  by (simp add: ram_env_def)

lemma ram_env_ram: "ram_on (ram_env db) A (\<lambda>a. 0)"
  by (auto simp: ram_on_def ram_env_def)

theorem mwrite_mread_witness:
  "\<exists>t u. mwrite (ram_env Map.empty) (demo_request\<lparr>rq_words := (\<lambda>k. Inr [1, 2, 3]), rq_word := (\<lambda>k. Inr 8)\<rparr>) start_mach = Some (Val (), t)
    \<and> mread (ram_env Map.empty) (demo_request\<lparr>rq_word := (\<lambda>k. Inr (if k = ''count'' then 3 else 8))\<rparr>) t = Some (Val (), u)
    \<and> resp u ''data'' = Some (RWords [1, 2, 3])"
  using mwrite_mread [of "demo_request\<lparr>rq_words := (\<lambda>k. Inr [1, 2, 3]), rq_word := (\<lambda>k. Inr 8)\<rparr>" "[1, 2, 3]" 8
      "demo_request\<lparr>rq_word := (\<lambda>k. Inr (if k = ''count'' then 3 else 8))\<rparr>" "ram_env Map.empty" "\<lambda>a. 0" start_mach]
  by (auto simp: ram_env_ram)

end
