(* ===== verification/Registers.thy ===== *)
theory Registers
  imports MemoryModules
begin

text \<open>
  Registers as variables. The locale \<open>register_file\<close> states what a client may assume of a set of
  registers: reading one delivers its value and changes none, writing one sets it to the part of
  the value that fits and leaves the others alone. The interpretation shows it of \<open>readReg\<close> and
  \<open>writeReg\<close> on every set of registers whose nodes do not overlap, over a device that behaves as
  memory at their addresses. Then the exact behaviour of a masked write and of block transfers.
\<close>

section \<open>The interface\<close>

locale register_file =
  fixes rd :: "string \<Rightarrow> u32 prog" and wr :: "string \<Rightarrow> u32 \<Rightarrow> unit prog"
    and regs :: "string set" and fits :: "string \<Rightarrow> u32 \<Rightarrow> u32"
    and val :: "string \<Rightarrow> mach \<Rightarrow> u32" and ok :: "mach \<Rightarrow> bool"
  assumes rd_val: "r \<in> regs \<Longrightarrow> ok s \<Longrightarrow>
      \<exists>t. rd r s = Some (Val (val r s), t) \<and> extends no_write no_key s t"
    and wr_val: "r \<in> regs \<Longrightarrow> ok s \<Longrightarrow>
      \<exists>t. wr r v s = Some (Val (), t) \<and> ok t \<and> resp t = resp s
        \<and> (\<forall>q\<in>regs. val q t = (if q = r then fits r v else val q s))"
    and quiet: "extends no_write K s t \<Longrightarrow> ok s \<Longrightarrow> ok t \<and> (\<forall>q\<in>regs. val q t = val q s)"
    and fits_val: "r \<in> regs \<Longrightarrow> fits r (val r s) = val r s"
begin

lemma rd_run:
  assumes "r \<in> regs" "ok s"
  obtains t where "rd r s = Some (Val (val r s), t)" "ok t" "resp t = resp s"
    "\<And>q. q \<in> regs \<Longrightarrow> val q t = val q s"
  using rd_val [OF assms] quiet assms(2) by (fastforce simp: extends_def)

lemma wr_run:
  assumes "r \<in> regs" "ok s"
  obtains t where "wr r v s = Some (Val (), t)" "ok t" "resp t = resp s" "val r t = fits r v"
    "\<And>q. q \<in> regs \<Longrightarrow> q \<noteq> r \<Longrightarrow> val q t = val q s"
  using wr_val [OF assms, of v] assms(1) by (metis (mono_tags, lifting))

lemma quiet_run:
  assumes "preserves (extends no_write K) m" "ok s" "m s = Some (x, t)"
  shows "ok t" and "q \<in> regs \<Longrightarrow> val q t = val q s"
  using quiet [OF preservesD [OF assms(1,3)] assms(2)] by auto

text \<open>The last value a list of writes gives to a register.\<close>

fun last_write :: "(string \<times> u32) list \<Rightarrow> string \<Rightarrow> u32 \<Rightarrow> u32" where
  "last_write [] q w = w"
| "last_write ((r, v) # ws) q w = last_write ws q (if q = r then fits r v else w)"

lemma writes_run:
  "fst ` set ws \<subseteq> regs \<Longrightarrow> ok s \<Longrightarrow>
     \<exists>t. forM ws (\<lambda>(r, v). wr r v) s = Some (Val (), t) \<and> ok t \<and> resp t = resp s
       \<and> (\<forall>q\<in>regs. val q t = last_write ws q (val q s))"
proof (induction ws arbitrary: s)
  case Nil
  then show ?case by (simp add: ret_def)
next
  case (Cons p ws)
  obtain r v where p: "p = (r, v)" by (cases p)
  then have "r \<in> regs" using Cons.prems(1) by simp
  then obtain u where u: "wr r v s = Some (Val (), u)" "ok u" "resp u = resp s"
      "\<forall>q\<in>regs. val q u = (if q = r then fits r v else val q s)"
    using wr_val Cons.prems(2) by blast
  obtain t where t: "forM ws (\<lambda>(r, v). wr r v) u = Some (Val (), t)" "ok t" "resp t = resp u"
      "\<forall>q\<in>regs. val q t = last_write ws q (val q u)"
    using Cons.IH [of u] Cons.prems(1) u(2) by auto
  show ?case
    using u t by (auto simp: p thenM_Val)
qed

text \<open>Programs that only look: their result is a function of the values of the registers.\<close>

definition observes :: "'a prog \<Rightarrow> (mach \<Rightarrow> 'a) \<Rightarrow> bool" where
  "observes m g \<longleftrightarrow>
     (\<forall>s. ok s \<longrightarrow> (\<exists>t. m s = Some (Val (g s), t) \<and> extends no_write no_key s t)) \<and>
     (\<forall>s t. (\<forall>q\<in>regs. val q t = val q s) \<longrightarrow> g t = g s)"

lemma observes_ret: "observes (ret x) (\<lambda>s. x)"
  by (simp add: observes_def ret_def extends_refl)

lemma observes_rd: "r \<in> regs \<Longrightarrow> observes (rd r) (val r)"
  using rd_val by (simp add: observes_def)

lemma observes_bind:
  assumes m: "observes m g" and k: "\<And>v. observes (k v) (h v)"
  shows "observes (bindM m k) (\<lambda>s. h (g s) s)"
  unfolding observes_def
proof (intro conjI allI impI)
  fix s
  assume s: "ok s"
  obtain t where t: "m s = Some (Val (g s), t)" "extends no_write no_key s t"
    using m s by (auto simp: observes_def)
  have "ok t" "\<forall>q\<in>regs. val q t = val q s" using quiet [OF t(2) s] by auto
  moreover from this have "h (g s) t = h (g s) s" using k by (simp add: observes_def)
  ultimately obtain u where "k (g s) t = Some (Val (h (g s) s), u)" "extends no_write no_key t u"
    using k by (metis observes_def)
  then show "\<exists>u. bindM m k s = Some (Val (h (g s) s), u) \<and> extends no_write no_key s u"
    using t by (auto simp: bindM_Val intro: extends_trans)
next
  fix s t
  assume "\<forall>q\<in>regs. val q t = val q s"
  then show "h (g t) t = h (g s) s" using m k unfolding observes_def by metis
qed

lemma observes_if: "observes m g \<Longrightarrow> observes n h \<Longrightarrow> observes (if b then m else n) (\<lambda>s. if b then g s else h s)"
  by (cases b) simp_all

lemma observes_collect:
  "(\<And>x. x \<in> set xs \<Longrightarrow> observes (f x) (g x)) \<Longrightarrow> observes (collectM xs f) (\<lambda>s. map (\<lambda>x. g x s) xs)"
proof (induction xs)
  case Nil
  then show ?case by (simp add: observes_ret)
next
  case (Cons x xs)
  have "observes (bindM (f x) (\<lambda>y. bindM (collectM xs f) (\<lambda>ys. ret (y # ys))))
      (\<lambda>s. g x s # map (\<lambda>x. g x s) xs)"
    by (rule observes_bind [where h = "\<lambda>y s. y # map (\<lambda>x. g x s) xs"])
      (simp add: Cons.prems, rule observes_bind [where h = "\<lambda>ys s. y # ys" for y], simp add: Cons, rule observes_ret)
  then show ?case by simp
qed

lemma observes_run:
  assumes "observes m g" "ok s"
  obtains t where "m s = Some (Val (g s), t)" "ok t" "resp t = resp s" "\<And>q. q \<in> regs \<Longrightarrow> val q t = val q s"
proof -
  obtain t where t: "m s = Some (Val (g s), t)" "extends no_write no_key s t"
    using assms by (auto simp: observes_def)
  moreover have "resp t = resp s" using t(2) by (auto simp: extends_def)
  ultimately show thesis using quiet [OF t(2) assms(2)] that [of t] by simp
qed

text \<open>The common shape: read a register, work on others, write the old value back.\<close>

lemma save_restore:
  assumes r: "r \<in> regs" and s: "ok s"
    and body: "\<And>u v. ok u \<Longrightarrow> \<exists>x w. m v u = Some (Val x, w) \<and> ok w"
  shows "\<exists>x t. bindM (rd r) (\<lambda>v. bindM (m v) (\<lambda>x. thenM (wr r v) (ret x))) s = Some (Val x, t)
    \<and> ok t \<and> val r t = val r s"
proof -
  obtain a where a: "rd r s = Some (Val (val r s), a)" "ok a"
    by (rule rd_run [OF r s])
  obtain x w where w: "m (val r s) a = Some (Val x, w)" "ok w" using body [OF a(2)] by blast
  obtain t where t: "wr r (val r s) w = Some (Val (), t)" "ok t" "val r t = fits r (val r s)"
    by (rule wr_run [OF r w(2)])
  show ?thesis
    using a w t fits_val [OF r] by (auto simp: bindM_Val thenM_Val ret_def)
qed

end

section \<open>Registers over memory\<close>

text \<open>A table of nodes for a set of registers, and the value of a register after the history of a state.\<close>

definition reg_val :: "(string \<Rightarrow> node) \<Rightarrow> (u32 \<Rightarrow> u32) \<Rightarrow> string \<Rightarrow> mach \<Rightarrow> u32" where
  "reg_val nd v0 r s =
     applyMask (cell (real_address (nd r)) (v0 (real_address (nd r))) (hist s)) (node_mask (nd r))"

definition reg_fits :: "(string \<Rightarrow> node) \<Rightarrow> string \<Rightarrow> u32 \<Rightarrow> u32" where
  "reg_fits nd r v = field_part (node_mask (nd r)) v"

text \<open>
  A masked write refuses to work when the word reads \<^verbatim>\<open>0xdeaddead\<close>. \<open>guarded\<close> registers are those
  where this cannot happen: some bit of the word that no register covers differs from the bit
  of that pattern.
\<close>

definition guarded :: "(string \<Rightarrow> node) \<Rightarrow> string set \<Rightarrow> (u32 \<Rightarrow> u32) \<Rightarrow> string \<Rightarrow> mach \<Rightarrow> bool" where
  "guarded nd R v0 r s \<longleftrightarrow> node_mask (nd r) = 0xFFFFFFFF \<or>
     (\<exists>i. (\<forall>q\<in>R. real_address (nd q) = real_address (nd r) \<longrightarrow> \<not> bit (node_mask (nd q)) i)
        \<and> bit (cell (real_address (nd r)) (v0 (real_address (nd r))) (hist s)) i \<noteq> bit (0xdeaddead :: u32) i)"

definition wf_table :: "localArgs \<Rightarrow> (string \<Rightarrow> node) \<Rightarrow> string set \<Rightarrow> bool" where
  "wf_table la nd R \<longleftrightarrow>
     (\<forall>r\<in>R. has_node la r (nd r) \<and> CHR ''r'' \<in> set (permission (nd r)) \<and> node_mask (nd r) \<noteq> 0) \<and>
     (\<forall>r\<in>R. \<forall>q\<in>R. r \<noteq> q \<longrightarrow> real_address (nd r) \<noteq> real_address (nd q)
        \<or> node_mask (nd r) AND node_mask (nd q) = 0)"

definition reg_ok :: "localArgs \<Rightarrow> (string \<Rightarrow> node) \<Rightarrow> string set \<Rightarrow> (u32 \<Rightarrow> u32) \<Rightarrow> mach \<Rightarrow> bool" where
  "reg_ok la nd R v0 s \<longleftrightarrow> wf_table la nd R \<and> ram_on la (real_address ` nd ` R) v0
     \<and> (\<forall>r\<in>R. guarded nd R v0 r s)"

lemma reg_okD:
  assumes "reg_ok la nd R v0 s" "r \<in> R"
  shows "has_node la r (nd r)" "CHR ''r'' \<in> set (permission (nd r))" "node_mask (nd r) \<noteq> 0"
    "guarded nd R v0 r s" "real_address (nd r) \<in> real_address ` nd ` R"
    "ram_on la (real_address ` nd ` R) v0"
  using assms by (auto simp: reg_ok_def wf_table_def)

lemma reg_ok_disjoint:
  "reg_ok la nd R v0 s \<Longrightarrow> r \<in> R \<Longrightarrow> q \<in> R \<Longrightarrow> r \<noteq> q \<Longrightarrow>
     real_address (nd r) = real_address (nd q) \<Longrightarrow> node_mask (nd r) AND node_mask (nd q) = 0"
  by (auto simp: reg_ok_def wf_table_def)

lemma cell_quiet: "extends no_write K s t \<Longrightarrow> cell a v (hist t) = cell a v (hist s)"
proof -
  assume "extends no_write K s t"
  then obtain h where h: "hist t = hist s @ h" and n: "\<forall>e\<in>set h. no_write e"
    by (auto simp: extends_def)
  have "wr_at a e = None" if "no_write e" for e using that by (cases e) auto
  with n have "cell a w h = w" for w by (intro cell_no_write) blast
  with h show ?thesis by (simp add: cell_append)
qed

lemma reg_quiet:
  "extends no_write K s t \<Longrightarrow> reg_ok la nd R v0 s \<Longrightarrow>
     reg_ok la nd R v0 t \<and> (\<forall>q\<in>R. reg_val nd v0 q t = reg_val nd v0 q s)"
  by (simp add: reg_ok_def guarded_def reg_val_def cell_quiet)

lemma reg_read:
  assumes "r \<in> R" "reg_ok la nd R v0 s"
  shows "\<exists>t. readReg la r s = Some (Val (reg_val nd v0 r s), t) \<and> extends no_write no_key s t"
proof -
  note d = reg_okD [OF assms(2,1)]
  obtain f where f: "mem_rd la (hist s) (real_address (nd r)) 1 = Some f"
    "f 0 = cell (real_address (nd r)) (v0 (real_address (nd r))) (hist s)"
    using ram_on_read1 [OF d(6,5)] by blast
  show ?thesis
    using f by (simp add: readReg_node [OF d(1,2)] reg_val_def extends_def rd_event_def)
qed

text \<open>A write of a whole word, and a masked write, as one step of the memory.\<close>

lemma readAddress_ram:
  assumes "ram_on la A v0" "a \<in> A"
  shows "\<exists>t. readAddress_loop la a 0 s = Some (Val (cell a (v0 a) (hist s)), t)
    \<and> extends no_write no_key s t"
proof -
  obtain f where "mem_rd la (hist s) a 1 = Some f" "f 0 = cell a (v0 a) (hist s)"
    using ram_on_read1 [OF assms] by blast
  then show ?thesis
    by (subst readAddress_loop.simps) (auto simp add: prog_simps extends_def)
qed

definition wrote :: "u32 \<Rightarrow> u32 \<Rightarrow> mach \<Rightarrow> mach \<Rightarrow> bool" where
  "wrote a w s t \<longleftrightarrow> (\<exists>u. extends no_write no_key s u \<and> hist t = hist u @ [MemWrite a [w] True] \<and> resp t = resp u)"

lemma cell_wrote: "wrote a w s t \<Longrightarrow> cell b v (hist t) = (if b = a then w else cell b v (hist s))"
  by (auto simp: wrote_def cell_snoc wr_at_one cell_quiet simp del: wr_at.simps)

lemma wrote_resp: "wrote a w s t \<Longrightarrow> resp t = resp s"
  by (auto simp: wrote_def extends_def)

lemma guarded_not_dead:
  assumes "guarded nd R v0 r s" "r \<in> R" "node_mask (nd r) \<noteq> 0xFFFFFFFF"
  shows "cell (real_address (nd r)) (v0 (real_address (nd r))) (hist s) \<noteq> 0xdeaddead"
  using assms unfolding guarded_def by metis

lemma reg_write_wrote:
  assumes r: "r \<in> R" and ok: "reg_ok la nd R v0 s"
  shows "\<exists>t. writeReg la r v s = Some (Val (), t) \<and>
    wrote (real_address (nd r)) (put_field (node_mask (nd r)) v
      (cell (real_address (nd r)) (v0 (real_address (nd r))) (hist s))) s t"
proof -
  let ?a = "real_address (nd r)" and ?m = "node_mask (nd r)"
  note d = reg_okD [OF ok r]
  note wf = has_node_wf [OF d(1)]
  have w1: "mem_wr la h ?a [w]" for h w using ram_on_write1 [OF d(6,5)] .
  show ?thesis
  proof (cases "?m = 0xFFFFFFFF")
    case True
    then show ?thesis
      using wf w1 put_field_full
      by (auto simp add: writeReg_def db_text_node [OF d(1)] node_simps writeAddress_node prog_simps
          whenM_def wrote_def intro!: exI [of _ s] extends_refl)
  next
    case False
    obtain u where u: "readAddress_loop la ?a 0 s = Some (Val (cell ?a (v0 ?a) (hist s)), u)"
      "extends no_write no_key s u" using readAddress_ram [OF d(6,5)] by blast
    have nd: "cell ?a (v0 ?a) (hist s) \<noteq> 0xdeaddead" using guarded_not_dead [OF d(4) r False] .
    have lb: "shift_loop 32 ?m 0 = low_bit ?m" "low_bit ?m < 32"
      using low_bit_props(1) [OF d(3)] by (simp_all add: low_bit_def)
    have "writeReg la r v s = Some (Val (), u\<lparr>hist := hist u @ [MemWrite ?a [put_field ?m v (cell ?a (v0 ?a) (hist s))] True]\<rparr>)"
      using wf w1 u False nd lb
      by (simp add: writeReg_def db_text_node [OF d(1)] node_simps writeAddress_node readAddress_node
          prog_simps whenM_def put_field_def Let_def)
    then show ?thesis using u(2) by (auto simp: wrote_def)
  qed
qed

lemma guarded_wrote:
  assumes g: "guarded nd R v0 q s" and r: "r \<in> R"
    and w: "wrote (real_address (nd r)) (put_field (node_mask (nd r)) v
      (cell (real_address (nd r)) (v0 (real_address (nd r))) (hist s))) s t"
  shows "guarded nd R v0 q t"
proof (cases "node_mask (nd q) = 0xFFFFFFFF")
  case False
  then obtain i where i: "\<forall>p\<in>R. real_address (nd p) = real_address (nd q) \<longrightarrow> \<not> bit (node_mask (nd p)) i"
    and b: "bit (cell (real_address (nd q)) (v0 (real_address (nd q))) (hist s)) i \<noteq> bit (0xdeaddead :: u32) i"
    using g unfolding guarded_def by blast
  have "bit (cell (real_address (nd q)) (v0 (real_address (nd q))) (hist t)) i
      = bit (cell (real_address (nd q)) (v0 (real_address (nd q))) (hist s)) i"
    using i r by (simp add: cell_wrote [OF w] bit_put_field)
  with i b show ?thesis unfolding guarded_def by blast
qed (simp add: guarded_def)

lemma reg_write:
  assumes r: "r \<in> R" and ok: "reg_ok la nd R v0 s"
  shows "\<exists>t. writeReg la r v s = Some (Val (), t) \<and> reg_ok la nd R v0 t \<and> resp t = resp s
    \<and> (\<forall>q\<in>R. reg_val nd v0 q t = (if q = r then reg_fits nd r v else reg_val nd v0 q s))"
proof -
  obtain t where run: "writeReg la r v s = Some (Val (), t)"
    and w: "wrote (real_address (nd r)) (put_field (node_mask (nd r)) v
      (cell (real_address (nd r)) (v0 (real_address (nd r))) (hist s))) s t"
    using reg_write_wrote [OF assms] by blast
  have "guarded nd R v0 q t" if q: "q \<in> R" for q
    using reg_okD(4) [OF ok q] r w by (rule guarded_wrote)
  then have "reg_ok la nd R v0 t" using ok by (simp add: reg_ok_def)
  moreover have "reg_val nd v0 q t = (if q = r then reg_fits nd r v else reg_val nd v0 q s)"
    if q: "q \<in> R" for q
    using reg_ok_disjoint [OF ok q r]
    by (auto simp: reg_val_def cell_wrote [OF w] reg_fits_def get_put_field intro: get_put_other)
  ultimately show ?thesis using run wrote_resp [OF w] by blast
qed

interpretation rf: register_file "readReg la" "writeReg la" R "reg_fits nd" "reg_val nd v0" "reg_ok la nd R v0"
proof unfold_locales
  show "r \<in> R \<Longrightarrow> reg_fits nd r (reg_val nd v0 r s) = reg_val nd v0 r s" for r s
    by (simp add: reg_fits_def reg_val_def field_part_get)
qed (fact reg_read, fact reg_write, fact reg_quiet)

section \<open>The register layer's promises\<close>

text \<open>
  C1 (registers are variables): after \<^verbatim>\<open>writeReg\<close> of \<open>v\<close> to a register, \<^verbatim>\<open>readReg\<close> of it delivers the part
  of \<open>v\<close> that fits the mask, and \<^verbatim>\<open>readReg\<close> of every other register, those in other fields of the same
  word included, delivers what it delivered before; the response is untouched.
\<close>

theorem writeReg_readReg:
  assumes "reg_ok la nd R v0 s" and "r \<in> R" and "q \<in> R"
  shows "\<exists>t. writeReg la r v s = Some (Val (), t) \<and> resp t = resp s \<and>
    (\<exists>u. readReg la q t =
       Some (Val (if q = r then v AND drop_bit (low_bit (node_mask (nd r))) (node_mask (nd r)) else reg_val nd v0 q s), u)) \<and>
    (\<exists>u. readReg la q s = Some (Val (reg_val nd v0 q s), u))"
proof -
  obtain t where t: "writeReg la r v s = Some (Val (), t)" "reg_ok la nd R v0 t" "resp t = resp s"
      "\<forall>q\<in>R. reg_val nd v0 q t = (if q = r then reg_fits nd r v else reg_val nd v0 q s)"
    using rf.wr_val [OF assms(2,1)] by blast
  have "\<exists>u. readReg la q t = Some (Val (reg_val nd v0 q t), u)"
    by (rule rf.rd_run [OF assms(3) t(2)]) blast
  moreover have "\<exists>u. readReg la q s = Some (Val (reg_val nd v0 q s), u)"
    by (rule rf.rd_run [OF assms(3,1)]) blast
  ultimately show ?thesis
    using t assms(3) by (auto simp: reg_fits_def field_part_def)
qed

text \<open>For the examples: each register of a list is a whole word of its own, over a memory full of zeros.\<close>

definition place :: "string list \<Rightarrow> string \<Rightarrow> nat" where
  "place rs r = length (takeWhile (\<lambda>x. x \<noteq> r) rs)"

definition flat_node :: "string list \<Rightarrow> string \<Rightarrow> node" where
  "flat_node rs r = \<lparr>real_address = of_nat (place rs r), permission = ''rw'', node_mask = 0xFFFFFFFF,
     mode = ''single'', node_size = 1\<rparr>"

definition flat_env :: "string list \<Rightarrow> localArgs" where
  "flat_env rs = ram_env (\<lambda>k. Some (serialize (flat_node rs k)))"

lemma place_nth: "r \<in> set rs \<Longrightarrow> place rs r < length rs \<and> rs ! place rs r = r"
  unfolding place_def by (induction rs) auto

lemma flat_ok:
  assumes "length rs < 2 ^ 32" and "\<And>r. r \<in> set rs \<Longrightarrow> CHR 0x00 \<notin> set r"
  shows "reg_ok (flat_env rs) (flat_node rs) (set rs) (\<lambda>a. 0) s"
proof -
  have wf: "wf_node (flat_node rs r)" for r by (simp add: wf_node_def clean_def flat_node_def)
  have "real_address (flat_node rs r) \<noteq> real_address (flat_node rs q)"
    if "r \<in> set rs" "q \<in> set rs" "r \<noteq> q" for r q
  proof
    assume "real_address (flat_node rs r) = real_address (flat_node rs q)"
    then have "(of_nat (place rs r) :: u32) = of_nat (place rs q)" by (simp add: flat_node_def)
    moreover have "place rs r < 2 ^ 32" "place rs q < 2 ^ 32"
      using place_nth that assms(1) by (meson less_trans)+
    ultimately have "place rs r = place rs q"
      by (metis add_0 of_nat_plus_neq)
    then show False using place_nth that by metis
  qed
  then show ?thesis
    using wf assms(2)
    by (auto simp: reg_ok_def wf_table_def has_node_def flat_env_def ram_env_ram guarded_def c_str_id)
      (auto simp: flat_node_def)
qed

lemma flat_val: "reg_val (flat_node rs) (\<lambda>a. 0) r start_mach = 0"
proof -
  have "applyMask 0 m = 0" for m by (rule bit_word_eqI) (simp add: applyMask_bits)
  then show ?thesis by (simp add: reg_val_def start_mach_def)
qed

text \<open>A table with two fields in one word, for the examples.\<close>

definition two_nodes :: "string \<Rightarrow> node" where
  "two_nodes r = (if r = ''LO'' then \<lparr>real_address = 4, permission = ''rw'', node_mask = 0xff, mode = ''single'', node_size = 1\<rparr>
     else \<lparr>real_address = 4, permission = ''rw'', node_mask = 0xff00, mode = ''single'', node_size = 1\<rparr>)"

definition two_env :: localArgs where
  "two_env = ram_env (\<lambda>k. Some (serialize (two_nodes k)))"

lemma two_env_ok: "reg_ok two_env two_nodes {''LO'', ''HI''} (\<lambda>a. 0) start_mach"
  unfolding two_env_def
  by (auto simp: reg_ok_def wf_table_def has_node_def wf_node_def clean_def two_nodes_def c_str_def
      ram_env_ram guarded_def start_mach_def
      intro!: exI [of _ "31 :: nat"])

theorem writeReg_readReg_witness:
  "\<exists>t u w. writeReg two_env ''LO'' 0x1ab start_mach = Some (Val (), t)
     \<and> readReg two_env ''LO'' t = Some (Val 0xab, u) \<and> readReg two_env ''HI'' start_mach = Some (Val (reg_val two_nodes (\<lambda>a. 0) ''HI'' start_mach), w)"
proof -
  have "low_bit 0xff = 0" by (simp add: low_bit_def eval_nat_numeral)
  then show ?thesis
    using writeReg_readReg [OF two_env_ok, of "''LO''" "''LO''" "0x1ab"]
      writeReg_readReg [OF two_env_ok, of "''LO''" "''HI''" "0x1ab"]
    by (simp add: two_nodes_def) blast
qed

text \<open>
  The error value as data: \<^verbatim>\<open>writeReg\<close> takes the word \<^verbatim>\<open>0xdeaddead\<close> for a failed read. When a
  masked register's word really holds it, the register cannot be written: nothing is written to the
  device and an error is reported, although the memory service has not failed.
\<close>

theorem writeReg_sentinel:
  assumes "has_node la r n" and "node_mask n \<noteq> 0xFFFFFFFF"
    and "mem_rd la (hist s) (real_address n) 1 = Some f" and "f 0 = 0xdeaddead"
  shows "writeReg la r v s = Some (Val (), s\<lparr>
    hist := hist s @ [MemRead (real_address n) 1 (Some [0xdeaddead])],
    resp := (resp s)(''error'' \<mapsto> RStr (''Writing masked register failed due to problem reading: '' @ r))\<rparr>)"
proof -
  have "readAddress_loop la (real_address n) 0 s =
      Some (Val 0xdeaddead, s\<lparr>hist := hist s @ [MemRead (real_address n) 1 (Some [0xdeaddead])]\<rparr>)"
    using assms(3,4) by (subst readAddress_loop.simps) (simp add: prog_simps)
  then show ?thesis
    using has_node_wf [OF assms(1)] assms(2)
    by (simp add: writeReg_def db_text_node [OF assms(1)] node_simps readAddress_node prog_simps)
qed

theorem writeReg_sentinel_witness:
  "\<exists>t. writeReg (two_env\<lparr>mem_rd := (\<lambda>h a n. Some (\<lambda>i. 0xdeaddead))\<rparr>) ''LO'' 1 start_mach = Some (Val (), t)
     \<and> hist t = [MemRead 4 1 (Some [0xdeaddead])]"
  by (subst writeReg_sentinel [where n = "two_nodes ''LO''" and f = "\<lambda>i. 0xdeaddead"])
    (simp_all add: has_node_def two_env_def ram_env_def two_nodes_def wf_node_def clean_def c_str_def start_mach_def)

section \<open>Block transfers\<close>

text \<open>All words an access touches lie in the block of \<open>len\<close> words at \<open>base\<close>.\<close>

fun within :: "u32 \<Rightarrow> u32 \<Rightarrow> event \<Rightarrow> bool" where
  "within base len (MemRead a n r) = (\<forall>i<n. unat (a + of_nat i - base) < unat len)"
| "within base len (MemWrite a ws ok) = (\<forall>i<length ws. unat (a + of_nat i - base) < unat len)"
| "within base len _ = True"

lemma unat_plus_le: "unat (a + b :: u32) \<le> unat a + unat b"
  by (simp add: unat_word_ariths)

lemma unat_of_nat_le_self: "unat (of_nat i :: u32) \<le> i"
  by (simp add: unsigned_of_nat take_bit_eq_mod)

lemma offset_within:
  assumes "unat off + unat sz < 2 ^ 32" "\<not> off + sz > len" "i < unat sz"
  shows "unat (base + off + of_nat i - (base :: u32)) < unat (len :: u32)"
proof -
  have e: "base + off + of_nat i - base = off + of_nat i" by simp
  have s: "unat (off + sz) = unat off + unat sz"
    using assms(1) by (simp add: unat_word_ariths)
  then have "unat off + unat sz \<le> unat len" using assms(2) by (simp add: word_le_nat_alt not_less)
  moreover have "unat (off + of_nat i) \<le> unat off + i"
    by (metis add_left_mono le_trans unat_of_nat_le_self unat_plus_le)
  ultimately show ?thesis using assms(3) unfolding e by linarith
qed

lemma block_run:
  assumes "has_node la r n"
  shows "readBlock la r sz off =
      (if node_mask n \<noteq> 0xFFFFFFFF
       then thenM (set_error ''Block read attempted on masked register'') (ret (None, sz))
       else if has_infix ''single'' (mode n) \<and> sz > 1
       then thenM (set_error ''Block read attempted on single register with size greater than 1'') (ret (None, sz))
       else if off + sz > node_size n
       then thenM (set_error (block_range_msg ''Block read'' (real_address n) off sz (node_size n))) (ret (None, sz))
       else bindM (memhub_read la (real_address n + off) (unat sz)) (\<lambda>x. case x of
           None \<Rightarrow> bindM (last_error la) (\<lambda>e. thenM (set_error (''Read memsvc error: '' @ e)) (ret (None, sz)))
         | Some ws \<Rightarrow> thenM (set_string ''debug'' ''Block read succeeded.'') (ret (Some ws, sz))))"
    and "writeBlock la r vals sz off =
      (if node_mask n \<noteq> 0xFFFFFFFF
       then set_error ''Block write attempted on masked register''
       else if has_infix ''single'' (mode n) \<and> sz > 1
       then set_error ''Block write attempted on single register with size greater than 1''
       else if off + sz > node_size n
       then set_error (block_range_msg ''Block write'' (real_address n) off sz (node_size n))
       else if unat sz > length vals then abortM Undefined
       else bindM (memhub_write la (real_address n + off) (take (unat sz) vals)) (\<lambda>ok.
         if \<not> ok then bindM (last_error la) (\<lambda>e. set_error (''Write memsvc error: '' @ e))
         else set_string ''debug'' ''Block write succeeded.''))"
  using has_node_wf [OF assms]
  by (simp_all add: readBlock_def writeBlock_def db_text_node [OF assms] Let_def node_simps cong: if_cong)

text \<open>
  C18 (block bounds): as long as offset plus size does not exceed 32 bits, a block read or write
  touches only words inside the block that the address table gives for the register.
\<close>

theorem block_transfer_within:
  assumes "has_node la r n" and "unat off + unat sz < 2 ^ 32"
  shows "preserves (extends (within (real_address n) (node_size n)) (\<lambda>k. k \<in> {''error'', ''debug''})) (readBlock la r sz off)
    \<and> preserves (extends (within (real_address n) (node_size n)) (\<lambda>k. k \<in> {''error'', ''debug''})) (writeBlock la r vals sz off)"
proof -
  have "\<not> off + sz > node_size n \<Longrightarrow> within (real_address n) (node_size n) (MemRead (real_address n + off) (unat sz) x)" for x
    using offset_within [OF assms(2), of "node_size n"] by simp
  moreover have "\<not> off + sz > node_size n \<Longrightarrow>
      within (real_address n) (node_size n) (MemWrite (real_address n + off) (take (unat sz) vals) x)" for x
    using offset_within [OF assms(2), of "node_size n"] by simp
  ultimately show ?thesis
    unfolding block_run [OF assms(1)] by (intro conjI keeps; simp)
qed

theorem block_transfer_within_witness:
  "preserves (extends (within 4 1) (\<lambda>k. k \<in> {''error'', ''debug''})) (writeBlock two_env ''LO'' [7] 1 0)"
  using block_transfer_within [of two_env "''LO''" "two_nodes ''LO''" 0 1 "[7]"]
  by (simp add: has_node_def two_env_def ram_env_def two_nodes_def wf_node_def clean_def c_str_def)

lemma writeBlock_ok:
  assumes "has_node la r n" and "node_mask n = 0xFFFFFFFF" and "\<not> has_infix ''single'' (mode n)"
    and "off + sz \<le> node_size n" and "unat sz = length vals"
    and "mem_wr la (hist s) (real_address n + off) vals"
  shows "\<exists>t. writeBlock la r vals sz off s = Some (Val (), t)
    \<and> hist t = hist s @ [MemWrite (real_address n + off) vals True] \<and> resp t ''error'' = resp s ''error''"
proof -
  have "\<not> off + sz > node_size n" using assms(4) by (simp only: not_less)
  then show ?thesis using assms(2,3,5,6) by (simp add: block_run(2) [OF assms(1)] prog_simps)
qed

text \<open>
  The bounds check wraps around: the check \<^verbatim>\<open>(offset+size) > rsize\<close> is done in 32 bits. With
  \<^verbatim>\<open>offset = 0xffffffff\<close> and two words it passes for every non-empty block, and the transfer starts one word
  before the block.
\<close>

theorem writeBlock_overflow:
  assumes "has_node la r n" and "node_mask n = 0xFFFFFFFF" and "\<not> has_infix ''single'' (mode n)"
    and "node_size n \<noteq> 0" and "mem_wr la (hist s) (real_address n - 1) [x, y]"
  shows "\<exists>t. writeBlock la r [x, y] 2 0xFFFFFFFF s = Some (Val (), t)
    \<and> hist t = hist s @ [MemWrite (real_address n - 1) [x, y] True] \<and> resp t ''error'' = resp s ''error''"
proof -
  have minus: "real_address n + 0xFFFFFFFF = real_address n - 1" by simp
  have "1 \<le> node_size n" using assms(4) by (simp add: word_le_nat_alt unat_gt_0 Suc_le_eq)
  moreover have "(0xFFFFFFFF + 2 :: u32) = 1" by code_simp
  ultimately have "0xFFFFFFFF + 2 \<le> node_size n" by (simp only:)
  from writeBlock_ok [OF assms(1,2,3) this, of "[x, y]" s, unfolded minus] assms(5)
  show ?thesis by simp
qed

definition block_node :: node where
  "block_node = \<lparr>real_address = 0x100, permission = ''rw'', node_mask = 0xFFFFFFFF, mode = ''incremental'', node_size = 8\<rparr>"

theorem writeBlock_overflow_witness:
  "\<exists>t. writeBlock (ram_env (\<lambda>k. Some (serialize block_node))) ''B'' [1, 2] 2 0xFFFFFFFF start_mach = Some (Val (), t)
    \<and> hist t = [MemWrite 0xff [1, 2] True]"
  using writeBlock_overflow [of "ram_env (\<lambda>k. Some (serialize block_node))" "''B''" block_node start_mach 1 2]
  by (auto simp: has_node_def wf_node_def clean_def block_node_def ram_env_def start_mach_def)

end
