(* ===== verification/Optical.thy ===== *)
theory Optical
  imports Machine
begin

text \<open>
  \<^verbatim>\<open>src/optical.cpp\<close>: the input power of the optical receivers, read over I2C. The bus is a parameter: the
  calls of the operating system and of the I2C library, as functions of the calls made before. The
  method is state passing over the calls made so far and the response.
\<close>

section \<open>The bus\<close>

text \<open>
  A call with its result: \<^verbatim>\<open>open\<close> with the descriptor, \<^verbatim>\<open>i2c_write\<close> and \<^verbatim>\<open>i2c_read\<close> with the number of bytes
  transferred, and the bytes that were read, and \<^verbatim>\<open>close\<close>.
\<close>

datatype i2c_event =
    I2C_open string int
  | I2C_write int u8 u8 "u8 list" int
  | I2C_read int u8 u8 nat "int \<times> u8 list"
  | I2C_close int

record i2c_bus =
  bus_open :: "i2c_event list \<Rightarrow> string \<Rightarrow> int"
  bus_write :: "i2c_event list \<Rightarrow> int \<Rightarrow> u8 \<Rightarrow> u8 \<Rightarrow> u8 list \<Rightarrow> int"
  bus_read :: "i2c_event list \<Rightarrow> int \<Rightarrow> u8 \<Rightarrow> u8 \<Rightarrow> nat \<Rightarrow> int \<times> u8 list"

record optical_state =
  calls :: "i2c_event list"
  answers :: "string \<Rightarrow> rpc_val option"

definition log_call :: "i2c_event \<Rightarrow> optical_state \<Rightarrow> optical_state" where
  "log_call e s = s\<lparr>calls := calls s @ [e]\<rparr>"

definition put_answer :: "string \<Rightarrow> rpc_val \<Rightarrow> optical_state \<Rightarrow> optical_state" where
  "put_answer k v s = s\<lparr>answers := (answers s)(k \<mapsto> v)\<rparr>"

definition call_open :: "i2c_bus \<Rightarrow> string \<Rightarrow> optical_state \<Rightarrow> int \<times> optical_state" where
  "call_open bus dev s = (let fd = bus_open bus (calls s) dev in (fd, log_call (I2C_open dev fd) s))"

definition call_write :: "i2c_bus \<Rightarrow> int \<Rightarrow> u8 \<Rightarrow> u8 \<Rightarrow> u8 list \<Rightarrow> optical_state \<Rightarrow> int \<times> optical_state" where
  "call_write bus fd chip reg bs s =
     (let r = bus_write bus (calls s) fd chip reg bs in (r, log_call (I2C_write fd chip reg bs r) s))"

definition call_read :: "i2c_bus \<Rightarrow> int \<Rightarrow> u8 \<Rightarrow> u8 \<Rightarrow> nat \<Rightarrow> optical_state \<Rightarrow> (int \<times> u8 list) \<times> optical_state" where
  "call_read bus fd chip reg n s =
     (let r = bus_read bus (calls s) fd chip reg n in (r, log_call (I2C_read fd chip reg n r) s))"

section \<open>Measuring\<close>

text \<open>An error is reported, the descriptor closed, and the method left.\<close>

definition give_up :: "int \<Rightarrow> string \<Rightarrow> optical_state \<Rightarrow> optical_state" where
  "give_up fd msg s = log_call (I2C_close fd) (put_answer ''error'' (RStr msg) s)"

text \<open>The two bytes are read into a \<^verbatim>\<open>uint16_t\<close> of a little-endian machine.\<close>

definition load_u16 :: "u8 list \<Rightarrow> u16" where
  "load_u16 bs = ucast (bs ! 0) OR push_bit 8 (ucast (bs ! 1))"

definition bswap16 :: "u16 \<Rightarrow> u16" where
  "bswap16 w = push_bit 8 w OR drop_bit 8 w"

definition power_reading :: "u8 list \<Rightarrow> u32" where
  "power_reading bs = ucast (bswap16 (load_u16 bs) div 10)"

text \<open>The loop over the channels from \<open>j\<close> on; \<open>None\<close>: a read failed and the method has left.\<close>

fun read_powers :: "i2c_bus \<Rightarrow> int \<Rightarrow> u8 \<Rightarrow> u8 \<Rightarrow> nat list \<Rightarrow> u32 list \<Rightarrow> optical_state \<Rightarrow> u32 list option \<times> optical_state" where
  "read_powers bus fd chip base [] power_readings s = (Some power_readings, s)"
| "read_powers bus fd chip base (j # js) power_readings s =
     (case call_read bus fd chip (base + 2 * of_nat j) 2 s of ((n, bs), t) \<Rightarrow>
        if n \<noteq> 2 then (None, give_up fd ''i2c read failure'' t)
        else read_powers bus fd chip base js (power_readings @ [power_reading bs]) t)"

text \<open>The receivers: \<open>True\<close> when the method goes on.\<close>

definition measure_cxp :: "i2c_bus \<Rightarrow> nat \<Rightarrow> optical_state \<Rightarrow> bool \<times> optical_state" where
  "measure_cxp bus i s =
     (let devnode = ''/dev/i2c-'' @ dec (2 + i)
      in case call_open bus devnode s of (fd, s) \<Rightarrow>
         if fd < 0 then (False, give_up fd (''Unable to open '' @ devnode) s)
         else case call_write bus fd 0x54 127 [0x01] s of (n, s) \<Rightarrow>
           if n \<noteq> 1 then (False, give_up fd ''i2c write failure'' s)
           else case read_powers bus fd 0x54 206 [0..<12] [] s of
               (None, s) \<Rightarrow> (False, s)
             | (Some power_readings, s) \<Rightarrow>
                 (True, log_call (I2C_close fd) (put_answer (''CXP'' @ dec i) (RWords power_readings) s)))"

definition measure_mp :: "i2c_bus \<Rightarrow> int \<Rightarrow> nat \<Rightarrow> optical_state \<Rightarrow> bool \<times> optical_state" where
  "measure_mp bus fd i s =
     (case read_powers bus fd (0x30 + of_nat i) 64 [0..<12] [] s of
        (None, s) \<Rightarrow> (False, s)
      | (Some power_readings, s) \<Rightarrow> (True, put_answer (''MP'' @ dec i) (RWords power_readings) s))"

fun while_ok :: "(nat \<Rightarrow> optical_state \<Rightarrow> bool \<times> optical_state) \<Rightarrow> nat list \<Rightarrow> optical_state \<Rightarrow> bool \<times> optical_state" where
  "while_ok f [] s = (True, s)"
| "while_ok f (i # is) s = (case f i s of (ok, t) \<Rightarrow> if ok then while_ok f is t else (False, t))"

text \<open>\<open>ctp7\<close>: the module was built for the CTP7.\<close>

definition measure_input_power :: "bool \<Rightarrow> i2c_bus \<Rightarrow> optical_state \<Rightarrow> optical_state" where
  "measure_input_power ctp7 bus s =
     (if \<not> ctp7 then put_answer ''error'' (RStr ''Unsupported function. CTP7 Only'') s
      else case while_ok (measure_cxp bus) [0..<3] s of (ok, s) \<Rightarrow>
        if \<not> ok then s
        else case call_open bus ''/dev/i2c-1'' s of (fd, s) \<Rightarrow>
          if fd < 0 then give_up fd ''Unable to open i2c-1'' s
          else case while_ok (measure_mp bus fd) [0..<3] s of (ok, s) \<Rightarrow>
            if \<not> ok then s else log_call (I2C_close fd) s)"

section \<open>Descriptors\<close>

text \<open>The descriptors that are open after a sequence of calls.\<close>

fun opened_by :: "i2c_event \<Rightarrow> int list \<Rightarrow> int list" where
  "opened_by (I2C_open dev fd) fds = (if fd < 0 then fds else fd # fds)"
| "opened_by (I2C_close fd) fds = remove1 fd fds"
| "opened_by _ fds = fds"

definition still_open :: "optical_state \<Rightarrow> int list" where
  "still_open s = fold opened_by (calls s) []"

lemma still_open_log [simp]: "still_open (log_call e s) = opened_by e (still_open s)"
  by (simp add: still_open_def log_call_def)

lemma still_open_put [simp]: "still_open (put_answer k v s) = still_open s"
  by (simp add: still_open_def put_answer_def)

lemma still_open_give_up [simp]: "still_open (give_up fd msg s) = remove1 fd (still_open s)"
  by (simp add: give_up_def)

lemma read_powers_open:
  "read_powers bus fd chip base js ps s = (r, t) \<Longrightarrow>
     still_open t = (if r = None then remove1 fd (still_open s) else still_open s)"
proof (induction js arbitrary: ps s)
  case (Cons j js)
  then show ?case
    by (auto simp: call_read_def Let_def split: prod.splits if_splits)
qed auto

lemma measure_cxp_open:
  "still_open s = [] \<Longrightarrow> measure_cxp bus i s = (ok, t) \<Longrightarrow> still_open t = []"
  by (auto simp: measure_cxp_def call_open_def call_write_def Let_def split: prod.splits if_splits option.splits
      dest!: read_powers_open)

lemma measure_mp_open:
  "still_open s = [fd] \<Longrightarrow> measure_mp bus fd i s = (ok, t) \<Longrightarrow> still_open t = (if ok then [fd] else [])"
  by (auto simp: measure_mp_def split: prod.splits option.splits dest!: read_powers_open)

lemma power_reading_bytes:
  "power_reading [hi, lo] = ucast ((push_bit 8 (ucast hi) OR ucast lo :: u16) div 10)"
proof -
  have "bswap16 (load_u16 [hi, lo]) = push_bit 8 (ucast hi) OR ucast lo"
    by (rule bit_word_eqI) (auto simp: bswap16_def load_u16_def bit_simps dest: bit_imp_le_length)
  then show ?thesis by (simp add: power_reading_def)
qed

lemma while_ok_inv:
  assumes "\<And>i s ok t. I s \<Longrightarrow> f i s = (ok, t) \<Longrightarrow> if ok then I t else J t"
  shows "I s \<Longrightarrow> while_ok f is s = (ok, t) \<Longrightarrow> if ok then I t else J t"
proof (induction "is" arbitrary: s)
  case (Cons i "is")
  obtain b u where f: "f i s = (b, u)" by (cases "f i s") simp
  have u: "if b then I u else J u" by (rule assms [OF Cons.prems(1) f])
  show ?case
  proof (cases b)
    case True
    with u have "I u" by simp
    moreover have "while_ok f is u = (ok, t)" using Cons.prems(2) f True by simp
    ultimately show ?thesis by (rule Cons.IH)
  next
    case False
    with u Cons.prems(2) f show ?thesis by simp
  qed
qed simp

lemma all_cxp_open:
  "still_open s = [] \<Longrightarrow> while_ok (measure_cxp bus) is s = (ok, t) \<Longrightarrow> still_open t = []"
  using while_ok_inv [where I = "\<lambda>s. still_open s = []" and J = "\<lambda>s. still_open s = []" and f = "measure_cxp bus"]
  by (meson measure_cxp_open)

lemma all_mp_open:
  assumes "still_open s = [fd]" "while_ok (measure_mp bus fd) is s = (ok, t)"
  shows "still_open t = (if ok then [fd] else [])"
proof -
  have "if ok then still_open t = [fd] else still_open t = []"
  proof (rule while_ok_inv [where I = "\<lambda>s. still_open s = [fd]" and J = "\<lambda>s. still_open s = []", OF _ assms])
    fix i u ok' v
    assume "still_open u = [fd]" "measure_mp bus fd i u = (ok', v)"
    from measure_mp_open [OF this] show "if ok' then still_open v = [fd] else still_open v = []" by simp
  qed
  then show ?thesis by simp
qed

text \<open>
  C39 (no descriptor is left open): whatever opening, writing and reading answer, on every path through
  \<^verbatim>\<open>measure_input_power\<close> each descriptor that was opened has been closed when the method leaves.
\<close>

theorem measure_input_power_closes:
  assumes "still_open s = []"
  shows "still_open (measure_input_power ctp7 bus s) = []"
proof -
  obtain ok t where t: "while_ok (measure_cxp bus) [0..<3] s = (ok, t)" by fastforce
  have "still_open t = []" by (rule all_cxp_open [OF assms t])
  moreover obtain fd u where u: "call_open bus ''/dev/i2c-1'' t = (fd, u)" by fastforce
  ultimately have opened: "still_open t = []" "still_open u = (if fd < 0 then [] else [fd])"
    by (auto simp: call_open_def Let_def)
  obtain ok' v where v: "while_ok (measure_mp bus fd) [0..<3] u = (ok', v)" by fastforce
  have "still_open v = (if ok' then [fd] else [])" if "\<not> fd < 0"
    by (rule all_mp_open [OF _ v]) (simp add: opened that)
  then show ?thesis
    using assms by (simp add: measure_input_power_def t u v opened del: upt_rec_numeral)
qed

theorem measure_input_power_closes_witness:
  "still_open (measure_input_power True \<lparr>bus_open = (\<lambda>_ _. 3), bus_write = (\<lambda>_ _ _ _ _. 1),
     bus_read = (\<lambda>h _ _ _ _. if length h < 20 then (2, [0, 100]) else (-1, []))\<rparr> \<lparr>calls = [], answers = Map.empty\<rparr>) = []"
  by (rule measure_input_power_closes) (simp add: still_open_def)

end
