(* ===== verification/Loops.thy ===== *)
theory Loops
  imports Machine
begin

text \<open>
  The loop that most scans are made of: \<^verbatim>\<open>for (i = lo; i <= hi; i += step)\<close> with an unsigned
  counter, whose body may leave the function. The counter wraps around, so the loop need not end:
  it is a partial function, with a theorem for when it ends, one for when it cannot, and one that
  it runs through the list of counter values.
\<close>

section \<open>The loop\<close>

text \<open>The body returns \<open>Inl r\<close> to leave the function with \<open>r\<close>, \<open>Inr x\<close> to go on with the accumulator \<open>x\<close>.\<close>

partial_function (option) for_step ::
  "'w::len word \<Rightarrow> 'w word \<Rightarrow> ('w word \<Rightarrow> 'x \<Rightarrow> ('r + 'x) prog) \<Rightarrow> 'w word \<Rightarrow> 'x \<Rightarrow>
     mach \<Rightarrow> (('r + 'x) outcome \<times> mach) option" where
  "for_step hi step body i x s =
     (if i \<le> hi
      then bindM (body i x) (\<lambda>r. case r of
             Inl e \<Rightarrow> ret (Inl e)
           | Inr y \<Rightarrow> for_step hi step body (i + step) y) s
      else ret (Inr x) s)"

lemma for_step_induct [consumes 1, case_names 1]:
  assumes run: "for_step hi step body i x s = Some rt"
    and rule: "\<And>f hi step body i x s rt.
      (\<And>hi step body i x s rt. f hi step body i x s = Some rt \<Longrightarrow> P hi step body i x s rt) \<Longrightarrow>
      (if i \<le> hi
       then bindM (body i x) (\<lambda>r. case r of
              Inl e \<Rightarrow> ret (Inl e)
            | Inr y \<Rightarrow> f hi step body (i + step) y) s
       else ret (Inr x) s) = Some rt \<Longrightarrow> P hi step body i x s rt"
  shows "P hi step body i x s rt"
proof -
  have "case (((((hi, step), body), i), x), s) of (((((hi, step), body), i), x), s) \<Rightarrow> P hi step body i x s rt"
    using for_step.raw_induct [of P "(((((hi, step), body), i), x), s)" rt, unfolded prod.case] run rule by blast
  then show ?thesis by simp
qed

lemma for_step_done: "\<not> i \<le> hi \<Longrightarrow> for_step hi step body i x = ret (Inr x)"
  by (rule ext) (simp add: for_step.simps)

lemma for_step_go: "i \<le> hi \<Longrightarrow> for_step hi step body i x =
    bindM (body i x) (\<lambda>r. case r of Inl e \<Rightarrow> ret (Inl e) | Inr y \<Rightarrow> for_step hi step body (i + step) y)"
  by (rule ext) (simp add: for_step.simps)

text \<open>Induction along a counter that does not wrap around.\<close>

lemma step_induct:
  fixes i :: "'w::len word"
  assumes "step \<noteq> 0" and "unat hi + unat step < 2 ^ LENGTH('w)"
    and "\<And>i. \<not> i \<le> hi \<Longrightarrow> P i"
    and "\<And>i. i \<le> hi \<Longrightarrow> unat (i + step) = unat i + unat step \<Longrightarrow> P (i + step) \<Longrightarrow> P i"
  shows "P i"
proof (induction "2 ^ LENGTH('w) - unat i" arbitrary: i rule: less_induct)
  case less
  show ?case
  proof (cases "i \<le> hi")
    case True
    then have le: "unat i \<le> unat hi" by (simp add: word_le_nat_alt)
    then have sum: "unat (i + step) = unat i + unat step"
      using assms(2) by (simp add: unat_word_ariths)
    have "0 < unat step" using assms(1) by (simp add: unat_gt_0)
    moreover have "unat i < 2 ^ LENGTH('w)" using unsigned_less [of i] by simp
    ultimately have "2 ^ LENGTH('w) - unat (i + step) < 2 ^ LENGTH('w) - unat i"
      using sum by linarith
    then have "P (i + step)" by (rule less.hyps)
    then show ?thesis using True sum assms(4) by blast
  qed (rule assms(3))
qed

lemma for_step_returns:
  fixes i :: "'w::len word"
  assumes "step \<noteq> 0" and "unat hi + unat step < 2 ^ LENGTH('w)"
    and body: "\<And>j y. returns (body j y)"
  shows "returns (for_step hi step body i x)"
proof -
  have "\<forall>x. returns (for_step hi step body i x)"
  proof (induction i rule: step_induct [OF assms(1,2)])
    case (1 i)
    then show ?case by (simp add: for_step_done returns_ret)
  next
    case (2 i)
    then show ?case
      by (auto simp: for_step_go intro!: returns_bind body returns_ret split: sum.split)
  qed
  then show ?thesis ..
qed

text \<open>
  With step 0, and with a bound that the counter can never exceed, the loop never gets to its end:
  it does not return, or leaves through the body.
\<close>

lemma for_step_endless:
  "for_step hi step body i x s = Some rt \<Longrightarrow> i \<le> hi \<and> (step = 0 \<or> hi = - 1) \<longrightarrow> fst rt \<noteq> Val (Inr y)"
proof (induct rule: for_step_induct)
  case (1 f hi step body i x s rt)
  note IH = "1"(1) and run = "1"(2)
  obtain r u where rt: "rt = (r, u)" by (cases rt)
  show ?case
  proof (intro impI)
    assume z: "i \<le> hi \<and> (step = 0 \<or> hi = - 1)"
    then have go: "i + step \<le> hi" by auto
    have "bindM (body i x) (\<lambda>p. case p of Inl e \<Rightarrow> ret (Inl e) | Inr y \<Rightarrow> f hi step body (i + step) y) s = Some (r, u)"
      using run z rt by simp
    then consider p w where "(case p of Inl e \<Rightarrow> ret (Inl e)
        | Inr y \<Rightarrow> f hi step body (i + step) y) w = Some (r, u)" | e where "r = Abort e"
      by (blast dest: bindM_SomeD)
    then show "fst rt \<noteq> Val (Inr y)"
    proof cases
      case p: (1 p w)
      show ?thesis
      proof (cases p)
        case (Inl e)
        then show ?thesis using p rt by (auto simp: ret_def)
      next
        case (Inr v)
        then have "f hi step body (i + step) v w = Some rt" using p rt by simp
        from IH [OF this] z go show ?thesis by blast
      qed
    qed (simp add: rt)
  qed
qed

section \<open>The values of the counter\<close>

definition steps_to :: "nat \<Rightarrow> nat \<Rightarrow> nat \<Rightarrow> nat list" where
  "steps_to lo hi step = map (\<lambda>k. lo + k * step) [0..<(if lo \<le> hi then (hi - lo) div step + 1 else 0)]"

lemma steps_to_done: "hi < lo \<Longrightarrow> steps_to lo hi step = []"
  by (simp add: steps_to_def)

lemma steps_to_go:
  assumes "lo \<le> hi" "0 < step"
  shows "steps_to lo hi step = lo # steps_to (lo + step) hi step"
proof -
  have shift: "map (\<lambda>k. lo + k * step) [Suc 0..<Suc n] = map (\<lambda>k. lo + step + k * step) [0..<n]" for n
    by (simp add: map_Suc_upt [symmetric] del: upt_Suc)
  have n: "(hi - lo) div step = (if lo + step \<le> hi then (hi - (lo + step)) div step + 1 else 0)"
    using assms by (auto simp: div_if)
  have "steps_to lo hi step = lo # map (\<lambda>k. lo + k * step) [Suc 0..<Suc ((hi - lo) div step)]"
    using assms(1) by (simp add: steps_to_def upt_conv_Cons del: upt_Suc)
  also have "\<dots> = lo # steps_to (lo + step) hi step"
    unfolding shift steps_to_def n by simp
  finally show ?thesis .
qed

text \<open>A loop that never leaves early runs its body over these values in turn.\<close>

lemma for_step_fold:
  fixes i :: "'w::len word"
  assumes "step \<noteq> 0" and "unat hi + unat step < 2 ^ LENGTH('w)"
  shows "for_step hi step (\<lambda>j y. bindM (f j y) (\<lambda>z. ret (Inr z))) i x =
    bindM (foldM (\<lambda>k. f (of_nat k)) (steps_to (unat i) (unat hi) (unat step)) x) (\<lambda>z. ret (Inr z :: 'r + 'x))"
proof -
  have pos: "0 < unat step" using assms(1) by (simp add: unat_gt_0)
  have "\<forall>x. for_step hi step (\<lambda>j y. bindM (f j y) (\<lambda>z. ret (Inr z))) i x =
    bindM (foldM (\<lambda>k. f (of_nat k)) (steps_to (unat i) (unat hi) (unat step)) x) (\<lambda>z. ret (Inr z :: 'r + 'x))"
  proof (induction i rule: step_induct [OF assms])
    case (1 i)
    then show ?case by (simp add: for_step_done steps_to_done word_le_nat_alt)
  next
    case (2 i)
    then show ?case
      using steps_to_go [OF _ pos] by (simp add: for_step_go word_le_nat_alt)
  qed
  then show ?thesis ..
qed

lemma keep_for_step [keeps]:
  assumes R: "step_rel R" and body: "\<And>j y. preserves R (body j y)"
  shows "preserves R (for_step hi step body i x)"
proof (rule preservesI)
  fix s r t
  assume "for_step hi step body i x s = Some (r, t)"
  then have "(\<forall>j y. preserves R (body j y)) \<longrightarrow> R s (snd (r, t))"
  proof (induct rule: for_step_induct)
    case (1 f hi step body i x s rt)
    note IH = "1"(1) and run = "1"(2)
    obtain r u where rt: "rt = (r, u)" by (cases rt)
    show ?case
    proof
      assume body: "\<forall>j y. preserves R (body j y)"
      show "R s (snd rt)"
      proof (cases "i \<le> hi")
        case True
        then have "bindM (body i x) (\<lambda>p. case p of Inl e \<Rightarrow> ret (Inl e) | Inr y \<Rightarrow> f hi step body (i + step) y) s = Some (r, u)"
          using run rt by simp
        then consider p w where "body i x s = Some (Val p, w)" "(case p of Inl e \<Rightarrow> ret (Inl e)
            | Inr y \<Rightarrow> f hi step body (i + step) y) w = Some (r, u)" | e where "body i x s = Some (Abort e, u)"
          by (blast dest: bindM_SomeD)
        then show ?thesis
        proof cases
          case p: (1 p w)
          then have sw: "R s w" using body by (blast dest: preservesD)
          show ?thesis
          proof (cases p)
            case (Inl e)
            then show ?thesis using p sw rt by (auto simp: ret_def)
          next
            case (Inr v)
            then have "f hi step body (i + step) v w = Some rt" using p rt by simp
            from IH [OF this] body have "R w (snd rt)" by blast
            with sw show ?thesis by (rule step_rel.trans [OF R])
          qed
        next
          case 2
          then show ?thesis using body rt by (auto dest: preservesD)
        qed
      next
        case False
        then show ?thesis using run rt by (auto simp: ret_def step_rel.refl [OF R])
      qed
    qed
  qed
  then show "R s t" using body by simp
qed

lemma step_rel_extends [keeps]: "step_rel (extends P K)"
  by (rule ext.step_rel_axioms)

section \<open>Loops over a list\<close>

text \<open>A loop over indices with an accumulator, whose body may leave the function with \<open>Inl\<close>.\<close>

fun foldE :: "('x \<Rightarrow> 'a \<Rightarrow> ('r + 'a) prog) \<Rightarrow> 'x list \<Rightarrow> 'a \<Rightarrow> ('r + 'a) prog" where
  "foldE f [] a = ret (Inr a)"
| "foldE f (x # xs) a = bindM (f x a) (\<lambda>r. case r of Inl e \<Rightarrow> ret (Inl e) | Inr b \<Rightarrow> foldE f xs b)"

lemma keep_foldE [keeps]:
  "(\<And>x a. x \<in> set xs \<Longrightarrow> preserves (extends P K) (f x a)) \<Longrightarrow> preserves (extends P K) (foldE f xs a)"
proof (induction xs arbitrary: a)
  case Nil
  then show ?case by (simp add: ext.keep_ret)
next
  case (Cons x xs)
  then show ?case by (auto intro!: ext.keep_bind ext.keep_case_sum ext.keep_ret)
qed

lemma returns_foldE [returning]:
  "(\<And>x a. x \<in> set xs \<Longrightarrow> returns (f x a)) \<Longrightarrow> returns (foldE f xs a)"
proof (induction xs arbitrary: a)
  case Nil
  then show ?case by (simp add: returns_ret)
next
  case (Cons x xs)
  then show ?case by (auto intro!: returns_bind returns_case_sum returns_ret)
qed

text \<open>
  A loop that does not leave early, under an invariant \<open>J\<close> of accumulator and state; the abstraction
  \<open>A\<close> of the state follows the body's effect \<open>U\<close>.
\<close>

lemma foldE_run:
  "(\<And>x a s. x \<in> set xs \<Longrightarrow> J a s \<Longrightarrow>
      \<exists>t. f x a s = Some (Val (Inr (g x a)), t) \<and> J (g x a) t \<and> A t = U x (A s)) \<Longrightarrow> J a s \<Longrightarrow>
     \<exists>t. foldE f xs a s = Some (Val (Inr (fold g xs a)), t) \<and> J (fold g xs a) t \<and> A t = fold U xs (A s)"
proof (induction xs arbitrary: s a)
  case Nil
  then show ?case by (simp add: ret_def)
next
  case (Cons x xs)
  obtain t where t: "f x a s = Some (Val (Inr (g x a)), t)" "J (g x a) t" "A t = U x (A s)"
    using Cons.prems by fastforce
  have "\<exists>u. foldE f xs (g x a) t = Some (Val (Inr (fold g xs (g x a))), u)
      \<and> J (fold g xs (g x a)) u \<and> A u = fold U xs (A t)"
    by (rule Cons.IH) (use Cons.prems(1) t(2) in auto)
  then show ?case using t(1,3) by (auto simp: bindM_Val)
qed

text \<open>Nested loops, the outer one with a guard, as one loop over pairs.\<close>

lemma fold_product:
  "fold (\<lambda>v a. if P v then a else fold (h v) ys a) xs a =
     fold (\<lambda>(v, c). h v c) (List.product (filter (\<lambda>v. \<not> P v) xs) ys) a"
proof (induction xs arbitrary: a)
  case (Cons x xs)
  have "fold (\<lambda>(v, c). h v c) (map (Pair x) ys) a = fold (h x) ys a" for a
    by (induction ys arbitrary: a) simp_all
  then show ?case using Cons by simp
qed simp

text \<open>Updates at distinct places.\<close>

lemma fold_upd_other: "q \<notin> k ` set xs \<Longrightarrow> fold (\<lambda>x w. w(k x := d x)) xs w q = w q"
  by (induction xs arbitrary: w) auto

lemma fold_upd:
  "inj_on k (set xs) \<Longrightarrow> x \<in> set xs \<Longrightarrow> fold (\<lambda>x w. w(k x := d x)) xs w (k x) = d x"
proof (induction xs arbitrary: w)
  case (Cons y ys)
  then show ?case
  proof (cases "x \<in> set ys")
    case False
    then have "k x \<notin> k ` set ys" "x = y" using Cons.prems by (auto simp: inj_on_def)
    then show ?thesis by (simp add: fold_upd_other fun_upd_same del: fun_upd_apply)
  qed simp
qed simp

lemma fold_list_update_other: "i \<notin> k ` set xs \<Longrightarrow> fold (\<lambda>x l. l[k x := d x]) xs l ! i = l ! i"
  by (induction xs arbitrary: l) auto

lemma fold_list_update:
  "inj_on k (set xs) \<Longrightarrow> x \<in> set xs \<Longrightarrow> k x < length l \<Longrightarrow> fold (\<lambda>x l. l[k x := d x]) xs l ! k x = d x"
proof (induction xs arbitrary: l)
  case (Cons y ys)
  then show ?case
  proof (cases "x \<in> set ys")
    case False
    then have "k x \<notin> k ` set ys" "x = y" using Cons.prems by (auto simp: inj_on_def)
    then show ?thesis using Cons.prems by (simp add: fold_list_update_other)
  qed simp
qed simp

lemma forM_when: "forM xs (\<lambda>x. whenM (P x) (f x)) = forM (filter P xs) f"
  by (induction xs) (simp_all add: whenM_def)

lemma forM_map: "forM (map g xs) f = forM xs (\<lambda>x. f (g x))"
  by (induction xs) simp_all

text \<open>A gathering loop under an invariant.\<close>

lemma collectM_inv:
  "(\<And>x s. x \<in> set xs \<Longrightarrow> I s \<Longrightarrow> \<exists>t. f x s = Some (Val (g x), t) \<and> I t) \<Longrightarrow> I s \<Longrightarrow>
     \<exists>t. collectM xs f s = Some (Val (map g xs), t) \<and> I t"
proof (induction xs arbitrary: s)
  case Nil
  then show ?case by (simp add: ret_def)
next
  case (Cons x xs)
  obtain t where t: "f x s = Some (Val (g x), t)" "I t" using Cons.prems by fastforce
  obtain u where "collectM xs f t = Some (Val (map g xs), u)" "I u"
    using Cons.IH [OF _ t(2)] Cons.prems(1) by auto
  then show ?case using t(1) by (auto simp: bindM_Val ret_def)
qed

text \<open>An accumulating loop under an invariant on the state and the accumulator.\<close>

lemma foldM_inv:
  "(\<And>x a s. x \<in> set xs \<Longrightarrow> I s \<Longrightarrow> \<exists>t. f x a s = Some (Val (g x a), t) \<and> I t) \<Longrightarrow> I s \<Longrightarrow>
     \<exists>t. foldM f xs a s = Some (Val (fold g xs a), t) \<and> I t"
proof (induction xs arbitrary: s a)
  case Nil
  then show ?case by (simp add: ret_def)
next
  case (Cons x xs)
  obtain t where t: "f x a s = Some (Val (g x a), t)" "I t" using Cons.prems by fastforce
  obtain u where "foldM f xs (g x a) t = Some (Val (fold g xs (g x a)), u)" "I u"
    using Cons.IH [OF _ t(2), of "g x a"] Cons.prems(1) by (metis list.set_intros(2))
  then show ?case using t(1) by (auto simp: bindM_Val)
qed

text \<open>A loop under an invariant; the abstraction \<open>A\<close> of the state follows the body's effect \<open>U\<close>.\<close>

lemma forM_run:
  "(\<And>x s. x \<in> set xs \<Longrightarrow> I s \<Longrightarrow> \<exists>t. f x s = Some (Val (), t) \<and> I t \<and> A t = U x (A s)) \<Longrightarrow> I s \<Longrightarrow>
     \<exists>t. forM xs f s = Some (Val (), t) \<and> I t \<and> A t = fold U xs (A s)"
proof (induction xs arbitrary: s)
  case Nil
  then show ?case by (simp add: ret_def)
next
  case (Cons x xs)
  obtain t where t: "f x s = Some (Val (), t)" "I t" "A t = U x (A s)" using Cons.prems by fastforce
  obtain u where "forM xs f t = Some (Val (), u)" "I u" "A u = fold U xs (A t)"
    using Cons.IH [OF _ t(2)] Cons.prems(1) by auto
  then show ?case using t by (auto simp: thenM_Val)
qed

lemma fold_nested:
  "fold (\<lambda>x. fold (h x) (ys x)) xs m = fold (\<lambda>(x, y). h x y) (concat (map (\<lambda>x. map (Pair x) (ys x)) xs)) m"
proof (induction xs arbitrary: m)
  case (Cons x xs)
  have "fold (\<lambda>(x, y). h x y) (map (Pair x) zs) m = fold (h x) zs m" for zs m
    by (induction zs arbitrary: m) simp_all
  then show ?case using Cons by simp
qed simp

end
