(* ===== verification/Gbt.thy ===== *)
theory Gbt
  imports Registers Loops
begin

text \<open>
  The GBT links: the constants of \<^verbatim>\<open>include/hw_constants.h\<close> and \<^verbatim>\<open>include/hw_constants_checks.h\<close>, and
  \<^verbatim>\<open>src/gbt.cpp\<close>: writing a register, a phase or a whole configuration, and the phase scan.
\<close>

section \<open>Constants\<close>

definition OH_PER_AMC :: u32 where "OH_PER_AMC = 12"
definition VFATS_PER_OH :: u32 where "VFATS_PER_OH = 24"
definition OH_SINGLE_RAM_SIZE :: nat where "OH_SINGLE_RAM_SIZE = 2 * 100"
definition VFAT_SINGLE_RAM_SIZE :: nat where "VFAT_SINGLE_RAM_SIZE = 74"
definition CONFIG_SIZE :: nat where "CONFIG_SIZE = 366"
definition PHASE_MIN :: u8 where "PHASE_MIN = 0"
definition PHASE_MAX :: u8 where "PHASE_MAX = 15"
definition GBTS_PER_OH :: u32 where "GBTS_PER_OH = 3"
definition GBT_SINGLE_RAM_SIZE :: nat where "GBT_SINGLE_RAM_SIZE = 92"

definition VFAT_TO_GBT :: "u32 list" where
  "VFAT_TO_GBT = [1, 1, 1, 1, 1, 1, 1, 0, 1, 2, 2, 2, 0, 0, 0, 0, 1, 2, 2, 2, 2, 2, 2, 0]"

definition VFAT_TO_ELINK :: "nat list" where
  "VFAT_TO_ELINK = [5, 9, 2, 3, 1, 8, 6, 6, 4, 1, 5, 4, 3, 2, 1, 0, 7, 8, 6, 7, 2, 3, 9, 8]"

definition ELINK_TO_REGISTERS :: "nat list list" where
  "ELINK_TO_REGISTERS =
     [[69, 73, 77], [67, 71, 75], [93, 97, 101], [91, 95, 99], [117, 121, 125], [115, 119, 123],
      [141, 145, 149], [139, 143, 147], [165, 169, 173], [163, 167, 171]]"

text \<open>\<^verbatim>\<open>EMIT_RPC_ERROR(response, message, error_code)\<close>.\<close>

definition emit_rpc_error :: "string \<Rightarrow> 'a \<Rightarrow> 'a prog" where
  "emit_rpc_error msg error_code = thenM (set_error msg) (ret error_code)"

definition checkPhase :: "u8 \<Rightarrow> bool prog" where
  "checkPhase phase =
     (if phase < PHASE_MIN then
        emit_rpc_error (''The phase parameter supplied ('' @ fmt_hhu phase @ '') is smaller than the minimal phase ('' @ fmt_hhu PHASE_MIN @ '').'') True
      else if phase > PHASE_MAX then
        emit_rpc_error (''The phase parameter supplied ('' @ fmt_hhu phase @ '') is bigger than the maximal phase ('' @ fmt_hhu PHASE_MAX @ '').'') True
      else ret False)"

section \<open>Writing registers\<close>

abbreviation num_of_oh :: string where
  "num_of_oh \<equiv> ''GEM_AMC.GEM_SYSTEM.CONFIG.NUM_OF_OH''"

definition ohN_error :: "u32 \<Rightarrow> u32 \<Rightarrow> string" where
  "ohN_error ohN ohMax = ''The ohN parameter supplied ('' @ fmt_u ohN
     @ '') exceeds the number of OH's supported by the CTP7 ('' @ fmt_u ohMax @ '').''"

text \<open>The transaction with the IC controller.\<close>

definition ic_write :: "localArgs \<Rightarrow> u32 \<Rightarrow> u32 \<Rightarrow> nat \<Rightarrow> u8 \<Rightarrow> unit prog" where
  "ic_write la ohN gbtN address v = seqM
     [writeReg la ''GEM_AMC.SLOW_CONTROL.IC.READ_WRITE_LENGTH'' 1,
      writeReg la ''GEM_AMC.SLOW_CONTROL.IC.GBTX_LINK_SELECT'' (ohN * GBTS_PER_OH + gbtN),
      writeReg la ''GEM_AMC.SLOW_CONTROL.IC.ADDRESS'' (of_nat address),
      writeReg la ''GEM_AMC.SLOW_CONTROL.IC.WRITE_DATA'' (ucast v),
      writeReg la ''GEM_AMC.SLOW_CONTROL.IC.EXECUTE_WRITE'' 1]"

definition writeGBTRegLocal :: "localArgs \<Rightarrow> u32 \<Rightarrow> u32 \<Rightarrow> nat \<Rightarrow> u8 \<Rightarrow> bool prog" where
  "writeGBTRegLocal la ohN gbtN address v =
     (if gbtN \<ge> GBTS_PER_OH then
        emit_rpc_error (''The gbtN parameter supplied ('' @ fmt_u gbtN @ '') is larger than the number of GBT's per OH (''
          @ fmt_u GBTS_PER_OH @ '').'') True
      else if address \<ge> CONFIG_SIZE then
        emit_rpc_error (''GBT has '' @ dec (CONFIG_SIZE - 1) @ '' writable addresses while the provided address is ''
          @ dec address @ ''.'') True
      else thenM (ic_write la ohN gbtN address v) (ret False))"

definition writeGBTPhaseLocal :: "localArgs \<Rightarrow> u32 \<Rightarrow> u32 \<Rightarrow> u8 \<Rightarrow> bool prog" where
  "writeGBTPhaseLocal la ohN vfatN phase =
     bindM (readReg la num_of_oh) (\<lambda>ohMax.
     if ohN \<ge> ohMax then emit_rpc_error (ohN_error ohN ohMax) True
     else if vfatN \<ge> VFATS_PER_OH then
       emit_rpc_error (''The vfatN parameter supplied ('' @ fmt_u vfatN @ '') exceeds the number of VFAT's per OH (''
         @ fmt_u VFATS_PER_OH @ '').'') True
     else
       bindM (checkPhase phase) (\<lambda>bad.
       if bad then ret True
       else
         (let gbtN = VFAT_TO_GBT ! unat vfatN
          in bindM (loopM [0..<3] (\<lambda>regN.
               (let regAddress = ELINK_TO_REGISTERS ! (VFAT_TO_ELINK ! unat vfatN) ! regN
                in bindM (writeGBTRegLocal la ohN gbtN regAddress phase) (\<lambda>err.
                   ret (if err then Some True else None)))))
             (\<lambda>r. ret (case r of Some b \<Rightarrow> b | None \<Rightarrow> False)))))"

definition writeGBTConfigLocal :: "localArgs \<Rightarrow> u32 \<Rightarrow> u32 \<Rightarrow> u8 list \<Rightarrow> bool prog" where
  "writeGBTConfigLocal la ohN gbtN config =
     bindM (readReg la num_of_oh) (\<lambda>ohMax.
     if ohN \<ge> ohMax then emit_rpc_error (ohN_error ohN ohMax) True
     else if gbtN \<ge> GBTS_PER_OH then
       emit_rpc_error (''The gbtN parameter supplied ('' @ fmt_u gbtN @ '') exceeds the number of GBT's per OH (''
         @ fmt_u GBTS_PER_OH @ '').'') True
     else
       bindM (loopM [0..<CONFIG_SIZE] (\<lambda>address.
         bindM (writeGBTRegLocal la ohN gbtN address (config ! address)) (\<lambda>err.
           ret (if err then Some True else None))))
       (\<lambda>r. ret (case r of Some b \<Rightarrow> b | None \<Rightarrow> False)))"

section \<open>Scanning the phases\<close>

definition link_reg :: "u32 \<Rightarrow> u32 \<Rightarrow> string \<Rightarrow> string" where
  "link_reg ohN vfatN leaf = ''GEM_AMC.OH_LINKS.OH'' @ fmt_hu ohN @ ''.VFAT'' @ fmt_hu vfatN @ ''.'' @ leaf"

definition vfat_good :: "localArgs \<Rightarrow> u32 \<Rightarrow> u32 \<Rightarrow> bool prog" where
  "vfat_good la ohN vfatN =
     bindM (readReg la (link_reg ohN vfatN ''LINK_GOOD'')) (\<lambda>a.
     bindM (readReg la (link_reg ohN vfatN ''SYNC_ERR_CNT'')) (\<lambda>b.
     bindM (readReg la (''GEM_AMC.OH.OH'' @ fmt_hu ohN @ ''.GEB.VFAT'' @ fmt_hu vfatN @ ''.CFG_RUN'')) (\<lambda>c.
       ret (a = 1 \<and> b = 0 \<and> c \<noteq> 0xdeaddead))))"

text \<open>\<^verbatim>\<open>results[vfatN][phase]++\<close>.\<close>

definition count_good :: "u32 list list \<Rightarrow> nat \<Rightarrow> nat \<Rightarrow> u32 list list prog" where
  "count_good results vfatN phase =
     (if vfatN < length results \<and> phase < length (results ! vfatN)
      then ret (results[vfatN := (results ! vfatN)[phase := results ! vfatN ! phase + 1]])
      else abortM Undefined)"

definition scan_repetition :: "localArgs \<Rightarrow> u32 \<Rightarrow> u8 \<Rightarrow> u32 list list \<Rightarrow> u32 list list prog" where
  "scan_repetition la ohN phase results =
     thenM (writeReg la ''GEM_AMC.GEM_SYSTEM.CTRL.LINK_RESET'' 1) (
     thenM (sleep_ms 10) (
     foldM (\<lambda>vfatN results.
       bindM (vfat_good la ohN (of_nat vfatN)) (\<lambda>good.
         if good then count_good results vfatN (unat phase) else ret results))
       [0..<24] results))"

text \<open>One phase: \<open>Inl ()\<close> when setting it failed and the method returns.\<close>

definition scan_phase :: "localArgs \<Rightarrow> u32 \<Rightarrow> u32 \<Rightarrow> u8 \<Rightarrow> u32 list list \<Rightarrow> (unit + u32 list list) prog" where
  "scan_phase la ohN N phase results =
     bindM (loopM [0..<24] (\<lambda>vfatN.
       bindM (writeGBTPhaseLocal la ohN (of_nat vfatN) phase) (\<lambda>err.
         ret (if err then Some () else None))))
     (\<lambda>r. case r of
        Some _ \<Rightarrow> ret (Inl ())
      | None \<Rightarrow>
          thenM (sleep_ms 10) (
          bindM (foldM (\<lambda>repN. scan_repetition la ohN phase) [0..<unat N] results) (\<lambda>results.
            ret (Inr results))))"

text \<open>\<^verbatim>\<open>for (uint8_t phase = phaseMin; phase <= phaseMax; phase += phaseStep)\<close>.\<close>

definition scan_loop :: "localArgs \<Rightarrow> u32 \<Rightarrow> u32 \<Rightarrow> u8 \<Rightarrow> u8 \<Rightarrow> u8 \<Rightarrow> (unit + u32 list list) prog" where
  "scan_loop la ohN N phaseMin phaseMax phaseStep =
     for_step phaseMax phaseStep (scan_phase la ohN N) phaseMin (replicate 24 (replicate 16 0))"

definition scanGBTPhasesLocal :: "localArgs \<Rightarrow> u32 \<Rightarrow> u32 \<Rightarrow> u8 \<Rightarrow> u8 \<Rightarrow> u8 \<Rightarrow> bool prog" where
  "scanGBTPhasesLocal la ohN N phaseMin phaseMax phaseStep =
     bindM (readReg la num_of_oh) (\<lambda>ohMax.
     if ohN \<ge> ohMax then emit_rpc_error (ohN_error ohN ohMax) True
     else
       bindM (checkPhase phaseMin) (\<lambda>badMin.
       if badMin then ret True
       else
         bindM (checkPhase phaseMax) (\<lambda>badMax.
         if badMax then ret True
         else
           bindM (scan_loop la ohN N phaseMin phaseMax phaseStep) (\<lambda>r. case r of
             Inl _ \<Rightarrow> ret True
           | Inr results \<Rightarrow>
               thenM (forM [0..<24] (\<lambda>vfatN.
                 set_word_array (''OH'' @ fmt_u ohN @ ''.VFAT'' @ dec vfatN) (results ! vfatN)))
               (ret False)))))"

section \<open>RPC callbacks\<close>

definition scanGBTPhases :: "localArgs \<Rightarrow> rpc_request \<Rightarrow> unit prog" where
  "scanGBTPhases la request =
     bindM (get_word request ''ohN'') (\<lambda>ohN.
     bindM (get_word request ''nScans'') (\<lambda>nScans.
     bindM (get_word request ''phaseMin'') (\<lambda>phaseMin.
     bindM (get_word request ''phaseMax'') (\<lambda>phaseMax.
     bindM (get_word request ''phaseStep'') (\<lambda>phaseStep.
     bindM (scanGBTPhasesLocal la ohN nScans (ucast phaseMin) (ucast phaseMax) (ucast phaseStep)) (\<lambda>_.
       ret ()))))))"

definition writeGBTConfig :: "localArgs \<Rightarrow> rpc_request \<Rightarrow> unit prog" where
  "writeGBTConfig la request =
     bindM (get_word request ''ohN'') (\<lambda>ohN.
     bindM (get_word request ''gbtN'') (\<lambda>gbtN.
     bindM (get_binarydata request ''config'') (\<lambda>config.
     if length config \<noteq> CONFIG_SIZE then
       emit_rpc_error (''The provided configuration has not the correct size. It is '' @ dec (length config)
         @ '' registers long while this methods expects '' @ dec CONFIG_SIZE @ '' 8-bits registers.'') ()
     else bindM (writeGBTConfigLocal la ohN gbtN config) (\<lambda>_. ret ()))))"

definition writeGBTPhase :: "localArgs \<Rightarrow> rpc_request \<Rightarrow> unit prog" where
  "writeGBTPhase la request =
     bindM (get_word request ''ohN'') (\<lambda>ohN.
     bindM (get_word request ''vfatN'') (\<lambda>vfatN.
     bindM (get_word request ''phase'') (\<lambda>phase.
     bindM (writeGBTPhaseLocal la ohN vfatN (ucast phase)) (\<lambda>_. ret ()))))"

section \<open>The tables\<close>

text \<open>The three registers that hold the phase of a VFAT: the number of the GBT and the address in it.\<close>

definition phase_registers :: "nat \<Rightarrow> (u32 \<times> nat) list" where
  "phase_registers vfatN =
     map (\<lambda>regN. (VFAT_TO_GBT ! vfatN, ELINK_TO_REGISTERS ! (VFAT_TO_ELINK ! vfatN) ! regN)) [0..<3]"

text \<open>
  Phase tables: the 72 phase registers of the 24 VFATs are all different, so that setting the phase
  of one VFAT never touches another's, and they all exist: their GBT is below three and their
  address inside the configuration space.
\<close>

theorem phase_registers_distinct:
  "distinct (concat (map phase_registers [0..<24]))
    \<and> list_all (\<lambda>(g, a). g < GBTS_PER_OH \<and> a < CONFIG_SIZE) (concat (map phase_registers [0..<24]))"
  unfolding phase_registers_def VFAT_TO_GBT_def VFAT_TO_ELINK_def ELINK_TO_REGISTERS_def
    GBTS_PER_OH_def CONFIG_SIZE_def
  by code_simp

lemma phase_register_ok:
  assumes "v < 24" and "k < 3"
  shows "VFAT_TO_GBT ! v < GBTS_PER_OH" and "ELINK_TO_REGISTERS ! (VFAT_TO_ELINK ! v) ! k < CONFIG_SIZE"
proof -
  have "list_all (\<lambda>(g, a). g < GBTS_PER_OH \<and> a < CONFIG_SIZE) (concat (map phase_registers [0..<24]))"
    unfolding phase_registers_def VFAT_TO_GBT_def VFAT_TO_ELINK_def ELINK_TO_REGISTERS_def
      GBTS_PER_OH_def CONFIG_SIZE_def
    by code_simp
  moreover have "(VFAT_TO_GBT ! v, ELINK_TO_REGISTERS ! (VFAT_TO_ELINK ! v) ! k)
      \<in> set (concat (map phase_registers [0..<24]))"
    using assms by (auto simp: phase_registers_def intro!: bexI [of _ v] imageI)
  ultimately show "VFAT_TO_GBT ! v < GBTS_PER_OH"
    and "ELINK_TO_REGISTERS ! (VFAT_TO_ELINK ! v) ! k < CONFIG_SIZE"
    unfolding list_all_iff by blast+
qed

section \<open>Writing a phase\<close>

text \<open>
  Writing a phase: \<^verbatim>\<open>writeGBTPhaseLocal\<close> rejects an OptoHybrid, a VFAT or a phase out of range with an error
  and before any write; otherwise it makes exactly three transactions with the controller, one
  for each of the VFAT's triplicated phase registers, and succeeds: the checks inside
  \<^verbatim>\<open>writeGBTRegLocal\<close> never fire.
\<close>

theorem writeGBTPhaseLocal_effect:
  "writeGBTPhaseLocal la ohN vfatN phase =
     bindM (readReg la num_of_oh) (\<lambda>ohMax.
     if ohN \<ge> ohMax then emit_rpc_error (ohN_error ohN ohMax) True
     else if vfatN \<ge> 24 then
       emit_rpc_error (''The vfatN parameter supplied ('' @ fmt_u vfatN @ '') exceeds the number of VFAT's per OH (24).'') True
     else if phase > 15 then
       emit_rpc_error (''The phase parameter supplied ('' @ fmt_hhu phase @ '') is bigger than the maximal phase (15).'') True
     else
       thenM (forM (phase_registers (unat vfatN)) (\<lambda>(gbtN, address). ic_write la ohN gbtN address phase)) (ret False))"
proof -
  have d24: "fmt_u VFATS_PER_OH = ''24''" and d15: "fmt_hhu PHASE_MAX = ''15''"
    by (simp_all add: fmt_u_def fmt_hhu_def dec_def VFATS_PER_OH_def PHASE_MAX_def fmt_nat.simps digit_char_def)
  have three: "[0..<3] = [0, 1, 2 :: nat]" by (simp add: upt_rec)
  have reg: "writeGBTRegLocal la ohN (VFAT_TO_GBT ! unat vfatN) (ELINK_TO_REGISTERS ! (VFAT_TO_ELINK ! unat vfatN) ! k) phase
      = thenM (ic_write la ohN (VFAT_TO_GBT ! unat vfatN) (ELINK_TO_REGISTERS ! (VFAT_TO_ELINK ! unat vfatN) ! k) phase) (ret False)"
    if "vfatN < 24" "k < 3" for k
  proof -
    have "unat vfatN < 24" using that(1) by (simp add: word_less_nat_alt)
    then have "\<not> VFAT_TO_GBT ! unat vfatN \<ge> GBTS_PER_OH"
      and "\<not> ELINK_TO_REGISTERS ! (VFAT_TO_ELINK ! unat vfatN) ! k \<ge> CONFIG_SIZE"
      using phase_register_ok [of "unat vfatN" k] that(2) by (simp_all add: not_le)
    then show ?thesis by (simp add: writeGBTRegLocal_def)
  qed
  show ?thesis
    unfolding writeGBTPhaseLocal_def
  proof (rule arg_cong [where f = "bindM (readReg la num_of_oh)"], rule ext, goal_cases)
    case (1 ohMax)
    show ?case
    proof (cases "ohN \<ge> ohMax")
      case a: False
      show ?thesis
      proof (cases "vfatN \<ge> 24")
        case True
        with a show ?thesis using d24 by (simp add: VFATS_PER_OH_def)
      next
        case b: False
        then have v: "vfatN < 24" by simp
        show ?thesis
        proof (cases "phase > 15")
          case True
          then have "checkPhase phase = emit_rpc_error (''The phase parameter supplied ('' @ fmt_hhu phase
              @ '') is bigger than the maximal phase (15).'') True"
            using d15 by (simp add: checkPhase_def PHASE_MIN_def PHASE_MAX_def)
          with a b True show ?thesis by (simp add: VFATS_PER_OH_def emit_rpc_error_def thenM_def)
        next
          case False
          then have "checkPhase phase = ret False" by (simp add: checkPhase_def PHASE_MIN_def PHASE_MAX_def)
          with a b False show ?thesis
            by (simp add: VFATS_PER_OH_def three phase_registers_def reg [OF v] thenM_def Let_def)
        qed
      qed
    qed simp
  qed
qed

section \<open>The scan ends\<close>

lemma returns_emit_rpc_error [returning]: "returns (emit_rpc_error msg x)"
  unfolding emit_rpc_error_def by (intro returning)

lemma returns_checkPhase [returning]: "returns (checkPhase phase)"
  unfolding checkPhase_def by (intro returning)

lemma returns_ic_write [returning]: "returns (ic_write la ohN gbtN address v)"
  unfolding ic_write_def by (auto intro!: returning)

lemma returns_writeGBTRegLocal [returning]: "returns (writeGBTRegLocal la ohN gbtN address v)"
  unfolding writeGBTRegLocal_def Let_def by (intro returning)

lemma returns_writeGBTPhaseLocal [returning]: "returns (writeGBTPhaseLocal la ohN vfatN phase)"
  unfolding writeGBTPhaseLocal_def Let_def by (intro returning)

lemma returns_scan_phase [returning]: "returns (scan_phase la ohN N phase results)"
  unfolding scan_phase_def scan_repetition_def vfat_good_def count_good_def by (intro returning)

text \<open>
  The phase scan ends: for every device and every step between 1 and 240 the scan returns: the phase is an
  8-bit counter, but the end phase is checked to be at most 15, so it passes the end before it
  wraps around.
\<close>

lemma scanGBTPhasesLocal_returns:
  assumes "phaseStep \<noteq> 0" and "phaseStep \<le> 240"
  shows "returns (scanGBTPhasesLocal la ohN N phaseMin phaseMax phaseStep)"
proof -
  have "returns (bindM (checkPhase phaseMax) (\<lambda>badMax. if badMax then ret True
      else bindM (scan_loop la ohN N phaseMin phaseMax phaseStep) (\<lambda>r. case r of
             Inl _ \<Rightarrow> ret True
           | Inr results \<Rightarrow> thenM (forM [0..<24] (\<lambda>vfatN.
                 set_word_array (''OH'' @ fmt_u ohN @ ''.VFAT'' @ dec vfatN) (results ! vfatN))) (ret False))))"
  proof (cases "PHASE_MAX < phaseMax")
    case True
    then show ?thesis by (simp add: checkPhase_def emit_rpc_error_def PHASE_MIN_def thenM_def) (intro returning)
  next
    case False
    then have "returns (scan_loop la ohN N phaseMin phaseMax phaseStep)"
      unfolding scan_loop_def using assms
      by (intro for_step_returns returning) (simp_all add: PHASE_MAX_def word_le_nat_alt not_less)
    then show ?thesis using False
      by (simp add: checkPhase_def PHASE_MIN_def) (intro returns_bind returns_case_sum returning)
  qed
  note body = this
  show ?thesis
    unfolding scanGBTPhasesLocal_def
    by (rule returns_bind [OF returns_access(1)], rule returns_if, rule returns_emit_rpc_error,
        rule returns_bind [OF returns_checkPhase], rule returns_if, rule returns_ret, rule body)
qed

text \<open>
  Step 0: with \<^verbatim>\<open>phaseStep\<close> 0 and a non-empty range the loop never gets to its end, on any device: it either
  never returns, or leaves because setting a phase failed or the program aborted.
\<close>

theorem scan_loop_step_zero:
  assumes "phaseMin \<le> phaseMax"
  shows "scan_loop la ohN N phaseMin phaseMax 0 s \<noteq> Some (Val (Inr results), t)"
  using for_step_endless [of phaseMax 0 "scan_phase la ohN N" phaseMin "replicate 24 (replicate 16 0)" s _ results] assms
  by (auto simp: scan_loop_def)

theorem scan_loop_step_zero_witness:
  "\<nexists>results t. scan_loop demo_env 0 1 0 15 0 start_mach = Some (Val (Inr results), t)"
  using scan_loop_step_zero [of 0 15 demo_env 0 1 start_mach] by simp

end
