(* ===== verification/Amc.thy ===== *)
theory Amc
  imports Gbt MemoryModules
begin

text \<open>
  The methods of \<^verbatim>\<open>src/amc.cpp\<close> that are not delegated to a submodule: the firmware version check, the
  VFAT masks of one or all OptoHybrids, and the read-out of trigger data (sbits).
\<close>

definition fw_version_check :: "localArgs \<Rightarrow> u32 prog" where
  "fw_version_check la =
     bindM (readReg la ''GEM_AMC.GEM_SYSTEM.RELEASE.MAJOR'') (\<lambda>iFWVersion.
       if iFWVersion = 1 then ret iFWVersion
       else if iFWVersion = 3 then ret iFWVersion
       else thenM (set_error ''Unexpected value for system release major!'') (ret iFWVersion))"

section \<open>VFAT masks\<close>

definition sync_err_reg :: "u32 \<Rightarrow> nat \<Rightarrow> string" where
  "sync_err_reg ohN vfatN = ''GEM_AMC.OH_LINKS.OH'' @ fmt_i ohN @ ''.VFAT'' @ dec vfatN @ ''.SYNC_ERR_CNT''"

definition getOHVFATMaskLocal :: "localArgs \<Rightarrow> u32 \<Rightarrow> u32 prog" where
  "getOHVFATMaskLocal la ohN =
     foldM (\<lambda>vfatN msk.
       bindM (readReg la (sync_err_reg ohN vfatN)) (\<lambda>syncErrCnt.
         ret (if syncErrCnt > 0 then msk + push_bit vfatN 1 else msk))) [0..<24] 0"

definition getOHVFATMask :: "localArgs \<Rightarrow> rpc_request \<Rightarrow> unit prog" where
  "getOHVFATMask la request =
     bindM (get_word request ''ohN'') (\<lambda>ohN.
     bindM (getOHVFATMaskLocal la ohN) (\<lambda>vfatMask.
       set_word ''vfatMask'' vfatMask))"

text \<open>The optional keys \<^verbatim>\<open>ohMask\<close> and \<^verbatim>\<open>NOH\<close> that several methods share.\<close>

definition requested_ohMask :: "rpc_request \<Rightarrow> u32 prog" where
  "requested_ohMask request =
     (if rq_exists request ''ohMask'' then get_word request ''ohMask'' else ret 0xfff)"

definition requested_NOH :: "localArgs \<Rightarrow> rpc_request \<Rightarrow> u32 prog" where
  "requested_NOH la request =
     bindM (readReg la num_of_oh) (\<lambda>NOH.
       if rq_exists request ''NOH''
       then bindM (get_word request ''NOH'') (\<lambda>NOH_requested.
              ret (if NOH_requested \<le> NOH then NOH_requested else NOH))
       else ret NOH)"

text \<open>\<^verbatim>\<open>(ohMask >> ohN) & 0x1\<close>: shifting a 32-bit value by 32 or more is undefined.\<close>

definition oh_enabled :: "u32 \<Rightarrow> nat \<Rightarrow> bool prog" where
  "oh_enabled ohMask ohN = (if ohN < 32 then ret (bit ohMask ohN) else abortM Undefined)"

lemma keep_oh_enabled [keeps]: "preserves (extends P K) (oh_enabled m n)"
  by (simp add: oh_enabled_def ext.keep_ret ext.keep_abort)

lemma returns_oh_enabled [returning]: "returns (oh_enabled m n)"
  by (simp add: oh_enabled_def returning)

definition getOHVFATMaskMultiLink :: "localArgs \<Rightarrow> rpc_request \<Rightarrow> unit prog" where
  "getOHVFATMaskMultiLink la request =
     bindM (requested_ohMask request) (\<lambda>ohMask.
     bindM (requested_NOH la request) (\<lambda>NOH.
     bindM (foldM (\<lambda>ohN ohVfatMaskArray.
         bindM (oh_enabled ohMask ohN) (\<lambda>enabled.
         if \<not> enabled
         then arr_set ohVfatMaskArray ohN 0xffffff
         else bindM (getOHVFATMaskLocal la (of_nat ohN)) (\<lambda>msk. arr_set ohVfatMaskArray ohN msk)))
       [0..<unat NOH] (stack_array la 12)) (\<lambda>ohVfatMaskArray.
       set_word_array ''ohVfatMaskArray'' ohVfatMaskArray)))"

section \<open>Trigger data\<close>

abbreviation sbit_monitor :: string where
  "sbit_monitor \<equiv> ''GEM_AMC.TRIGGER.SBIT_MONITOR.''"

text \<open>One word of the output: the delay, the size and the address of a cluster.\<close>

definition sbit_word :: "u32 \<Rightarrow> u32 \<Rightarrow> u32" where
  "sbit_word l1ADelay thisCluster =
     (let sbitAddress = thisCluster AND 0x7ff;
          clusterSize = drop_bit 12 thisCluster AND 0x7
      in push_bit 14 (l1ADelay AND 0x1fff) + push_bit 11 (clusterSize AND 0x7) + (sbitAddress AND 0x7ff))"

definition is_valid_sbit :: "u32 \<Rightarrow> bool" where
  "is_valid_sbit thisCluster \<longleftrightarrow> thisCluster AND 0x7ff < 1536"

text \<open>
  One turn of the acquisition: reset, wait, read the delay (at most 4095), read the clusters; they
  are kept when any of them is valid.
\<close>

definition sbit_turn :: "localArgs \<Rightarrow> u32 \<Rightarrow> u32 \<Rightarrow> u32 list \<Rightarrow> u32 list \<Rightarrow> u32 list prog" where
  "sbit_turn la addrSbitMonReset addrSbitL1ADelay addrSbitCluster storedSbits =
     thenM (writeRawAddress la addrSbitMonReset 0x1) (
     thenM (sleep_ns (4095 * 25)) (
     bindM (readRawAddress la addrSbitL1ADelay) (\<lambda>delay.
       (let l1ADelay = (if delay > 4095 then 4095 else delay)
        in bindM (collectM addrSbitCluster (readRawAddress la)) (\<lambda>clusters.
             ret (if \<exists>c \<in> set clusters. is_valid_sbit c
                  then storedSbits @ map (sbit_word l1ADelay) clusters else storedSbits))))))"

text \<open>The acquisition: the data, and whether the size limit of a message ended it.\<close>

partial_function (option) sbit_acquire ::
  "localArgs \<Rightarrow> u32 \<Rightarrow> int \<Rightarrow> u32 \<Rightarrow> u32 \<Rightarrow> u32 list \<Rightarrow> u32 list \<Rightarrow> mach \<Rightarrow> ((u32 list \<times> bool) outcome \<times> mach) option" where
  "sbit_acquire la acquireTime startTime addrReset addrDelay addrCluster storedSbits s =
     (if 4 * length storedSbits > 65000 then ret (storedSbits, True) s
      else
        bindM (sbit_turn la addrReset addrDelay addrCluster storedSbits) (\<lambda>sbits.
        bindM (clock la) (\<lambda>now t.
          if (of_int (now - startTime) :: u32) > acquireTime
          then ret (sbits, False) t
          else sbit_acquire la acquireTime startTime addrReset addrDelay addrCluster sbits t)) s)"

definition sbitReadOutLocal :: "localArgs \<Rightarrow> u32 \<Rightarrow> u32 \<Rightarrow> (u32 list \<times> bool) prog" where
  "sbitReadOutLocal la ohN acquireTime =
     thenM (writeReg la (sbit_monitor @ ''OH_SELECT'') ohN) (
     bindM (getAddress la (sbit_monitor @ ''RESET'')) (\<lambda>addrSbitMonReset.
     bindM (getAddress la (sbit_monitor @ ''L1A_DELAY'')) (\<lambda>addrSbitL1ADelay.
     bindM (collectM [0..<8] (\<lambda>iCluster. getAddress la (sbit_monitor @ ''CLUSTER'' @ dec iCluster))) (\<lambda>addrSbitCluster.
     thenM (writeReg la ''GEM_AMC.GEM_SYSTEM.VFAT3.SC_ONLY_MODE'' 0x0) (
     bindM (clock la) (\<lambda>startTime.
       sbit_acquire la acquireTime startTime addrSbitMonReset addrSbitL1ADelay addrSbitCluster []))))))"

definition sbitReadOut :: "localArgs \<Rightarrow> rpc_request \<Rightarrow> unit prog" where
  "sbitReadOut la request =
     bindM (get_word request ''ohN'') (\<lambda>ohN.
     bindM (get_word request ''acquireTime'') (\<lambda>acquireTime.
     bindM (clock la) (\<lambda>startTime.
     bindM (sbitReadOutLocal la ohN acquireTime) (\<lambda>(storedSbits, maxNetworkSizeReached).
     bindM (clock la) (\<lambda>now.
     thenM (whenM maxNetworkSizeReached
        (seqM [set_word ''maxNetworkSizeReached'' 1,
               set_word ''approxLiveTime'' (of_int (now - startTime))]))
     (set_word_array ''storedSbits'' storedSbits))))))"

section \<open>The mask of a link\<close>

lemma foldM_collect:
  "foldM (\<lambda>x a. bindM (f x) (\<lambda>y. ret (g x y a))) xs a =
     bindM (collectM xs f) (\<lambda>ys. ret (foldl (\<lambda>a (x, y). g x y a) a (zip xs ys)))"
  by (induction xs arbitrary: a) simp_all

text \<open>The mask as a function of the counters read.\<close>

definition sync_mask :: "u32 list \<Rightarrow> u32" where
  "sync_mask errs = foldl (\<lambda>m (v, e). if e > 0 then m + push_bit v 1 else m) 0 (zip [0..<24] errs)"

lemma add_new_bit:
  fixes m :: u32
  assumes "\<And>i. n \<le> i \<Longrightarrow> \<not> bit m i" and "n < 32"
  shows "bit (m + push_bit n 1) i = (i = n \<or> bit m i)"
proof -
  have "m + push_bit n 1 = m OR push_bit n 1"
    by (rule disjunctive_add_eq_or, rule bit_word_eqI) (use assms(1) in \<open>auto simp: bit_simps\<close>)
  then show ?thesis using assms(2) by (auto simp: bit_simps)
qed

lemma bit_sync_fold:
  "n + length es \<le> 32 \<Longrightarrow> (\<And>i. n \<le> i \<Longrightarrow> \<not> bit m i) \<Longrightarrow>
     bit (foldl (\<lambda>m (v, e). if e > 0 then m + push_bit v 1 else m) m (zip [n..<n + length es] es)) i =
       (if n \<le> i \<and> i < n + length es then es ! (i - n) > 0 else bit (m :: u32) i)"
proof (induction es arbitrary: n m)
  case (Cons e es)
  let ?m = "if e > 0 then m + push_bit n 1 else m"
  have n: "n < 32" using Cons.prems(1) by simp
  have bm: "bit ?m j = (e > 0 \<and> j = n \<or> bit m j)" for j
    using add_new_bit [OF Cons.prems(2) n] by simp
  have "bit (foldl (\<lambda>m (v, e). if e > 0 then m + push_bit v 1 else m) ?m (zip [Suc n..<Suc n + length es] es)) i =
       (if Suc n \<le> i \<and> i < Suc n + length es then es ! (i - Suc n) > 0 else bit ?m i)"
    using Cons.prems by (intro Cons.IH) (simp_all add: bm del: not_gr_zero)
  moreover have "zip [n..<n + length (e # es)] (e # es) = (n, e) # zip [Suc n..<Suc n + length es] es"
    by (simp add: upt_conv_Cons del: upt_Suc)
  ultimately show ?case
    using Cons.prems(2) [of n] by (auto simp add: bm nth_Cons' not_less_eq_eq Suc_diff_Suc simp del: upt_Suc not_gr_zero)
qed auto

text \<open>
  C21 (VFAT mask): \<^verbatim>\<open>getOHVFATMaskLocal\<close> reads the synchronisation error counters of the 24 VFATs in order, and
  bit \<open>v\<close> of the mask it returns is set exactly when the counter of VFAT \<open>v\<close> did not read 0; a VFAT whose
  counter cannot be read is masked.
\<close>

theorem getOHVFATMaskLocal_mask:
  "getOHVFATMaskLocal la ohN =
     bindM (collectM [0..<24] (\<lambda>v. readReg la (sync_err_reg ohN v))) (\<lambda>errs. ret (sync_mask errs))
   \<and> (\<forall>errs i. length errs = 24 \<longrightarrow> bit (sync_mask errs) i = (i < 24 \<and> errs ! i > 0))"
proof -
  have "bit (sync_mask errs) i = (i < 24 \<and> errs ! i > 0)" if "length errs = 24" for errs i
    using bit_sync_fold [of 0 errs 0 i] that by (simp add: sync_mask_def)
  then show ?thesis
    by (simp add: getOHVFATMaskLocal_def foldM_collect sync_mask_def)
qed

theorem getOHVFATMaskLocal_mask_witness:
  "\<exists>t. getOHVFATMaskLocal demo_env 0 start_mach = Some (Val (sync_mask (replicate 24 0xdeaddead)), t)
     \<and> bit (sync_mask (replicate 24 0xdeaddead)) 23 \<and> \<not> bit (sync_mask (replicate 24 0xdeaddead)) 24"
proof -
  have "collectM xs (\<lambda>v. readReg demo_env (sync_err_reg 0 v)) start_mach
      = Some (Val (replicate (length xs) 0xdeaddead), start_mach)" for xs
    by (induction xs) (simp_all add: readReg_def db_text_def demo_env_def prog_simps)
  from this [of "[0..<24]"] show ?thesis
    using getOHVFATMaskLocal_mask [of demo_env 0] by (simp add: bindM_Val ret_def)
qed

section \<open>The format of the trigger data\<close>

lemma bit_low:
  "bit (0x7ff :: u32) n = (n < 11)" "bit (0x1fff :: u32) n = (n < 13)" "bit (0x7 :: u32) n = (n < 3)"
proof -
  have "(0x7ff :: u32) = mask 11" "(0x1fff :: u32) = mask 13" "(0x7 :: u32) = mask 3"
    by (simp_all add: mask_eq_exp_minus_1)
  note e = this
  show "bit (0x7ff :: u32) n = (n < 11)" "bit (0x1fff :: u32) n = (n < 13)" "bit (0x7 :: u32) n = (n < 3)"
    unfolding e by (auto simp only: bit_mask_iff) auto
qed

lemma sbit_word_or:
  "sbit_word d c = push_bit 14 (d AND 0x1fff) OR push_bit 11 (drop_bit 12 c AND 0x7) OR (c AND 0x7ff)"
proof -
  let ?a = "push_bit 14 (d AND 0x1fff)" and ?b = "push_bit 11 (drop_bit 12 c AND 0x7)" and ?c = "c AND 0x7ff"
  have "?a + ?b = ?a OR ?b"
    by (rule disjunctive_add_eq_or, simp only: bit_eq_iff bit_and_iff bit_push_bit_iff bit_low) auto
  moreover have "(?a OR ?b) + ?c = (?a OR ?b) OR ?c"
    by (rule disjunctive_add_eq_or, simp only: bit_eq_iff bit_and_iff bit_or_iff bit_push_bit_iff bit_low) auto
  moreover have "sbit_word d c = ?a + ?b + ?c"
    unfolding sbit_word_def Let_def by (simp only: and.assoc and.idem)
  ultimately show ?thesis by (simp only: or.assoc)
qed

text \<open>
  Sbit format: the delay, the cluster size and the address that \<^verbatim>\<open>sbitReadOutLocal\<close> packs into a word do not
  overlap: bits 0 to 10 are the address, bits 11 to 13 the size and bits 14 to 26 the delay, so each
  can be taken out again.
\<close>

theorem sbit_word_fields:
  "sbit_word d c AND 0x7ff = c AND 0x7ff
    \<and> drop_bit 11 (sbit_word d c) AND 0x7 = drop_bit 12 c AND 0x7
    \<and> drop_bit 14 (sbit_word d c) = d AND 0x1fff"
proof (intro conjI; rule bit_word_eqI)
  show "bit (sbit_word d c AND 0x7ff) n = bit (c AND 0x7ff) n" for n
    by (simp only: sbit_word_or bit_and_iff bit_or_iff bit_push_bit_iff bit_low) auto
  show "bit (drop_bit 11 (sbit_word d c) AND 0x7) n = bit (drop_bit 12 c AND 0x7) n" for n
    by (simp only: sbit_word_or bit_and_iff bit_or_iff bit_push_bit_iff bit_drop_bit_eq bit_low comp_def) auto
  show "bit (drop_bit 14 (sbit_word d c)) n = bit (d AND 0x1fff) n" if "n < LENGTH(32)" for n
    using that bit_u32_out [of "14 + n" c]
    by (simp only: sbit_word_or bit_and_iff bit_or_iff bit_push_bit_iff bit_drop_bit_eq bit_low comp_def) auto
qed

section \<open>The acquisition ends\<close>

fun is_clock :: "event \<Rightarrow> bool" where
  "is_clock (ClockRead t) = True"
| "is_clock _ = False"

definition looks :: "event list \<Rightarrow> nat" where
  "looks h = length (filter is_clock h)"

text \<open>A clock that shows the deadline to have passed, at the latest, at the K-th look after any moment.\<close>

definition clock_advances :: "localArgs \<Rightarrow> u32 \<Rightarrow> nat \<Rightarrow> bool" where
  "clock_advances la acquireTime K \<longleftrightarrow> (\<forall>g h. looks h = K \<longrightarrow>
     (of_int (time_now la (g @ h) - time_now la g) :: u32) > acquireTime)"

lemma looks_append: "looks (g @ h) = looks g + looks h"
  by (simp add: looks_def)

lemma sbit_turn_frame: "preserves (extends (\<lambda>e. \<not> is_clock e) (\<lambda>k. k = ''error'')) (sbit_turn la a b c sbits)"
  unfolding sbit_turn_def Let_def by (intro keeps) auto

lemma extends_looks: "extends (\<lambda>e. \<not> is_clock e) K s t \<Longrightarrow> \<exists>h. hist t = hist s @ h \<and> looks h = 0"
  by (fastforce simp: extends_def looks_def filter_empty_conv)

lemma collectM_length: "collectM xs f s = Some (Val ys, t) \<Longrightarrow> length ys = length xs"
  by (induction xs arbitrary: s ys) (auto simp: ret_def elim!: bindM_ValE)

lemma sbit_turn_length:
  assumes "sbit_turn la a b cs sbits s = Some (Val ys, t)"
  shows "length ys = length sbits \<or> length ys = length sbits + length cs"
  using assms unfolding sbit_turn_def thenM_def Let_def
  by (auto elim!: bindM_ValE simp: ret_def dest!: collectM_length split: if_splits)

lemma returns_sbit_turn [returning]: "returns (sbit_turn la a b c sbits)"
  unfolding sbit_turn_def Let_def by (intro returning)

text \<open>What the acquisition delivers: whole turns of eight words, within the size of a message.\<close>

definition sbit_result_ok :: "((u32 list \<times> bool) outcome \<times> mach) option \<Rightarrow> bool" where
  "sbit_result_ok r \<longleftrightarrow> (case r of
     None \<Rightarrow> False
   | Some (Abort e, t) \<Rightarrow> True
   | Some (Val (ws, full), t) \<Rightarrow> 8 dvd length ws \<and> length ws \<le> 16256 \<and> (full \<longrightarrow> length ws = 16256))"

lemma sbit_acquire_ok:
  assumes adv: "clock_advances la T K" and g: "t0 = time_now la g" and cs: "length cs = 8"
  shows "hist s = g @ h \<Longrightarrow> looks h \<le> K \<Longrightarrow> 8 dvd length sbits \<Longrightarrow> length sbits \<le> 16256 \<Longrightarrow>
    sbit_result_ok (sbit_acquire la T t0 a b cs sbits s)"
proof (induction "K - looks h" arbitrary: s h sbits rule: less_induct)
  case less
  show ?case
  proof (cases "4 * length sbits > 65000")
    case True
    obtain k where k: "length sbits = 8 * k" using less.prems(3) by blast
    have "length sbits = 16256" using True less.prems(4) k by simp
    then show ?thesis using True less.prems
      by (subst sbit_acquire.simps) (simp add: sbit_result_ok_def ret_def)
  next
    case False
    obtain k where k: "length sbits = 8 * k" using less.prems(3) by blast
    have small: "length sbits + 8 \<le> 16256" using False k by simp
    obtain r u where r: "sbit_turn la a b cs sbits s = Some (r, u)"
      using returnsD [OF returns_sbit_turn] by blast
    show ?thesis
    proof (cases r)
      case (Abort e)
      then show ?thesis using False r
        by (subst sbit_acquire.simps) (simp add: sbit_result_ok_def bindM_Abort)
    next
      case (Val ys)
      obtain h' where h': "hist u = hist s @ h'" "looks h' = 0"
        using extends_looks [OF preservesD [OF sbit_turn_frame r]] by blast
      have ys: "8 dvd length ys" "length ys \<le> 16256"
        using sbit_turn_length [OF r [unfolded Val]] cs less.prems(3) small by auto
      let ?now = "time_now la (hist u)"
      let ?u = "u\<lparr>hist := hist u @ [ClockRead ?now]\<rparr>"
      have step: "sbit_acquire la T t0 a b cs sbits s =
          (if (of_int (?now - t0) :: u32) > T then Some (Val (ys, False), ?u) else sbit_acquire la T t0 a b cs ys ?u)"
        using False r Val by (subst sbit_acquire.simps) (simp add: bindM_Val clock_def ret_def)
      show ?thesis
      proof (cases "(of_int (?now - t0) :: u32) > T")
        case True
        then show ?thesis using ys by (simp add: step sbit_result_ok_def)
      next
        case over: False
        let ?h = "h @ h' @ [ClockRead ?now]"
        have hu: "hist ?u = g @ ?h" using h'(1) less.prems(1) by simp
        have lk: "looks ?h = looks h + 1" using h'(2) by (simp add: looks_append) (simp add: looks_def)
        have "looks h \<noteq> K"
        proof
          assume "looks h = K"
          then have "looks (h @ h') = K" using h'(2) by (simp add: looks_append)
          then have "(of_int (time_now la (g @ h @ h') - time_now la g) :: u32) > T"
            using adv by (simp add: clock_advances_def)
          then show False using over h'(1) less.prems(1) g by simp
        qed
        then have "looks ?h \<le> K" "K - looks ?h < K - looks h" using lk less.prems(2) by simp_all
        then show ?thesis using over ys less.hyps [of ?h ?u ys] hu by (simp add: step)
      qed
    qed
  qed
qed

lemma sbit_result_bind:
  assumes "returns m" and "\<And>x t. sbit_result_ok (k x t)"
  shows "sbit_result_ok (bindM m k s)"
proof -
  obtain r t where "m s = Some (r, t)" using returnsD [OF assms(1)] by blast
  then show ?thesis using assms(2) by (cases r) (simp_all add: bindM_cases sbit_result_ok_def)
qed

lemma sbitReadOutLocal_result:
  assumes "clock_advances la acquireTime K" and "0 < K"
  shows "sbit_result_ok (sbitReadOutLocal la ohN acquireTime s)"
proof -
  have acq: "sbit_result_ok (bindM (clock la) (\<lambda>startTime. sbit_acquire la acquireTime startTime a b cs []) t)"
    if "length cs = 8" for a b cs t
  proof -
    have "looks [ClockRead x] \<le> K" for x using assms(2) by (simp add: looks_def)
    then show ?thesis
      using sbit_acquire_ok [OF assms(1) HOL.refl that, of "t\<lparr>hist := hist t @ [ClockRead (time_now la (hist t))]\<rparr>" "hist t"]
      by (simp add: bindM_cases clock_def)
  qed
  have after: "sbit_result_ok (bindM (collectM [0..<8] f) (\<lambda>cs. thenM m (bindM (clock la) (\<lambda>startTime.
      sbit_acquire la acquireTime startTime a b cs []))) t)"
    if m: "returns m" and f: "\<And>x. returns (f x)" for f m a b t
  proof -
    obtain r u where r: "collectM [0..<8] f t = Some (r, u)"
      using returnsD [OF returns_collect [where f = f]] f by blast
    show ?thesis
    proof (cases r)
      case (Val cs)
      then have "length cs = 8" using collectM_length r by fastforce
      then show ?thesis using r Val acq by (simp add: bindM_Val thenM_def sbit_result_bind [OF m])
    qed (use r in \<open>simp add: bindM_Abort sbit_result_ok_def\<close>)
  qed
  show ?thesis
    unfolding sbitReadOutLocal_def thenM_def [of "writeReg la (sbit_monitor @ ''OH_SELECT'') ohN"]
    by (rule sbit_result_bind, rule returns_access, rule sbit_result_bind, rule returns_access,
        rule sbit_result_bind, rule returns_access, rule after) (rule returns_access)+
qed

text \<open>
  C20 (the acquisition ends): with a clock that shows, at the latest at the K-th look after any moment, that more than
  \<^verbatim>\<open>acquireTime\<close> seconds have gone by, \<^verbatim>\<open>sbitReadOutLocal\<close> always returns; the data are whole turns of eight
  words, never more than 16256 of them (65024 bytes, below the message limit of 65535), and exactly
  that many when the limit is reported to have been reached.
\<close>

theorem sbitReadOutLocal_ends:
  assumes "clock_advances la acquireTime K" and "0 < K"
  shows "sbit_result_ok (sbitReadOutLocal la ohN acquireTime s)"
  by (rule sbitReadOutLocal_result [OF assms])

definition count_env :: localArgs where
  "count_env = demo_env\<lparr>time_now := (\<lambda>h. int (looks h))\<rparr>"

theorem sbitReadOutLocal_ends_witness:
  "sbit_result_ok (sbitReadOutLocal count_env 0 5 start_mach)"
proof -
  have "clock_advances count_env 5 6"
    by (auto simp: clock_advances_def count_env_def looks_append)
  then show ?thesis by (rule sbitReadOutLocal_ends) simp
qed

end
