(* ===== verification/ScanIndex.thy ===== *)
theory ScanIndex
  imports Loops
begin

text \<open>
  The layout of the results of a scan. \<^verbatim>\<open>getUltraScanResultsLocal\<close> of \<^verbatim>\<open>src/optohybrid.cpp\<close> and the scans of
  \<^verbatim>\<open>src/calibration_routines.cpp\<close> put the result of chip \<open>n\<close> at the value \<open>dac\<close> of the scanned register
  into one array, at \<^verbatim>\<open>n*(dacMax-dacMin+1)/dacStep + (dacVal-dacMin)/dacStep\<close>, computed in 32 bits; the
  callers allocate \<^verbatim>\<open>24*(dacMax-dacMin+1)/dacStep\<close> words for 24 chips. A step of 0 traps.
\<close>

definition scan_idx :: "nat \<Rightarrow> u32 \<Rightarrow> u32 \<Rightarrow> u32 \<Rightarrow> u32 \<Rightarrow> u32" where
  "scan_idx n dacMin dacMax dacStep dacVal =
     of_nat n * (dacMax - dacMin + 1) div dacStep + (dacVal - dacMin) div dacStep"

definition scan_len :: "nat \<Rightarrow> u32 \<Rightarrow> u32 \<Rightarrow> u32 \<Rightarrow> u32" where
  "scan_len n dacMin dacMax dacStep = of_nat n * (dacMax - dacMin + 1) div dacStep"

definition scan_slot :: "nat \<Rightarrow> u32 \<Rightarrow> u32 \<Rightarrow> u32 \<Rightarrow> u32 \<Rightarrow> nat prog" where
  "scan_slot n dacMin dacMax dacStep dacVal =
     (if dacStep = 0 then abortM Trap else ret (unat (scan_idx n dacMin dacMax dacStep dacVal)))"

text \<open>The array of a caller.\<close>

definition scan_array :: "localArgs \<Rightarrow> nat \<Rightarrow> u32 \<Rightarrow> u32 \<Rightarrow> u32 \<Rightarrow> u32 list prog" where
  "scan_array la n dacMin dacMax dacStep =
     (if dacStep = 0 then abortM Trap else ret (stack_array la (unat (scan_len n dacMin dacMax dacStep))))"

lemma keep_scan [keeps]:
  "preserves (extends P K) (scan_slot n lo hi st d)" "preserves (extends P K) (scan_array la n lo hi st)"
  by (simp_all add: scan_slot_def scan_array_def ext.keep_ret ext.keep_abort)

lemma returns_scan [returning]: "returns (scan_slot n lo hi st d)" "returns (scan_array la n lo hi st)"
  by (simp_all add: scan_slot_def scan_array_def returning)

section \<open>Steps that divide the range\<close>

lemma unat_range:
  assumes "N * (unat (hi - lo :: u32) + 1) < 2 ^ 32" "0 < N" "n \<le> N"
  shows "unat (of_nat n * (hi - lo + 1) :: u32) = n * (unat (hi - lo) + 1)"
proof -
  have R: "unat (hi - lo) + 1 \<le> N * (unat (hi - lo) + 1)" using assms(2) by (metis One_nat_def Suc_leI mult_1 mult_le_mono1)
  have nR: "n * (unat (hi - lo) + 1) \<le> N * (unat (hi - lo) + 1)" using assms(3) by (rule mult_le_mono1)
  have "n \<le> n * (unat (hi - lo) + 1)" by simp
  then have "n < 2 ^ 32" using nR assms(1) by linarith
  then have n: "unat (of_nat n :: u32) = n" by (simp add: unsigned_of_nat take_bit_nat_eq_self)
  have "unat (hi - lo + 1) = unat (hi - lo) + 1" using R assms(1) by (simp add: unat_word_ariths)
  then show ?thesis using n nR assms(1) by (simp add: unat_word_ariths)
qed

lemma div_add_le: "(a :: nat) div s + b div s \<le> (a + b) div s"
  by (metis div_add1_eq le_add1)

lemma scan_idx_value:
  assumes "24 * (unat (hi - lo :: u32) + 1) < 2 ^ 32" and "unat st dvd unat (hi - lo) + 1"
    and "n < 24" and "unat (d - lo) \<le> unat (hi - lo)"
  shows "unat (scan_idx n lo hi st d) = n * ((unat (hi - lo) + 1) div unat st) + unat (d - lo) div unat st"
    and "unat (scan_len 24 lo hi st) = 24 * ((unat (hi - lo) + 1) div unat st)"
    and "unat (d - lo) div unat st < (unat (hi - lo) + 1) div unat st"
proof -
  let ?R = "unat (hi - lo) + 1" and ?s = "unat st" and ?k = "unat (d - lo)"
  have s: "0 < ?s" using assms(2) by (cases "?s = 0") simp_all
  have nR: "n * ?R div ?s = n * (?R div ?s)" using assms(2) by (simp add: div_mult_swap)
  have kR: "?k div ?s < ?R div ?s"
    using assms(2,4) s by (simp add: less_mult_imp_div_less)
  then show "?k div ?s < ?R div ?s" .
  have "n * (?R div ?s) + ?k div ?s < (n + 1) * (?R div ?s)" using kR by simp
  also have "\<dots> \<le> 24 * (?R div ?s)" using assms(3) by (intro mult_le_mono1) simp
  also have "\<dots> \<le> 24 * ?R" by (intro mult_le_mono2 div_le_dividend)
  finally have "n * (?R div ?s) + ?k div ?s < 2 ^ 32" using assms(1) by linarith
  moreover have "unat (of_nat n * (hi - lo + 1) div st) = n * (?R div ?s)"
    unfolding unat_div using unat_range [OF assms(1), of n] assms(3) nR by (simp only:)
  moreover have "unat ((d - lo) div st) = ?k div ?s" by (rule unat_div)
  ultimately show "unat (scan_idx n lo hi st d) = n * (?R div ?s) + ?k div ?s"
    unfolding scan_idx_def unat_word_ariths(1) by simp
  show "unat (scan_len 24 lo hi st) = 24 * (?R div ?s)"
    unfolding scan_len_def unat_div using unat_range [OF assms(1), of 24] assms(2)
    by (simp only:) (simp add: div_mult_swap)
qed

lemma scan_idx_inside:
  assumes "24 * (unat (hi - lo :: u32) + 1) < 2 ^ 32" and "unat st dvd unat (hi - lo) + 1"
    and "n < 24" and "unat (d - lo) \<le> unat (hi - lo)"
  shows "unat (scan_idx n lo hi st d) < unat (scan_len 24 lo hi st)"
proof -
  let ?m = "(unat (hi - lo) + 1) div unat st"
  note v = scan_idx_value [OF assms]
  have "n * ?m + unat (d - lo) div unat st < (n + 1) * ?m" using v(3) by simp
  also have "\<dots> \<le> 24 * ?m" using assms(3) by (intro mult_le_mono1) simp
  finally show ?thesis using v by simp
qed

text \<open>
  Results have a slot of their own: as long as the step divides the number of values and the array fits 32 bits, the
  results of the 24 chips lie inside the array, and the chip and the step can be read back from
  the position: no two results share a slot.
\<close>

theorem scan_idx_slots:
  assumes "24 * (unat (hi - lo) + 1) < 2 ^ 32" and "unat st dvd unat (hi - lo) + 1"
    and "n < 24" and "unat (d - lo) \<le> unat (hi - lo)"
  shows "unat (scan_idx n lo hi st d) < unat (scan_len 24 lo hi st)
    \<and> unat (scan_idx n lo hi st d) div ((unat (hi - lo) + 1) div unat st) = n
    \<and> unat (scan_idx n lo hi st d) mod ((unat (hi - lo) + 1) div unat st) = unat (d - lo) div unat st"
  using scan_idx_value [OF assms] scan_idx_inside [OF assms] by simp

theorem scan_idx_slots_witness:
  "unat (scan_idx 23 0 255 1 255) < unat (scan_len 24 0 255 1) \<and> unat (scan_idx 23 0 255 1 255) div 256 = 23"
  using scan_idx_slots [of 255 0 1 23 255] by simp

text \<open>
  Results collide: a step that does not divide the number of values breaks the layout. For the values 0 to 10,
  with step 2 the last result of each even chip is overwritten by the first of the next chip, and
  with step 7 the last result of chip 23 lies one word behind the array.
\<close>

theorem scan_idx_collides:
  "scan_idx 0 0 10 2 10 = scan_idx 1 0 10 2 0 \<and> scan_idx 22 0 10 2 10 = scan_idx 23 0 10 2 0
    \<and> scan_idx 23 0 10 7 7 = scan_len 24 0 10 7"
  unfolding scan_idx_def scan_len_def by code_simp

end
