(* ===== verification/Optohybrid.thy ===== *)
theory Optohybrid
  imports Amc ScanIndex
begin

text \<open>
  The OptoHybrid methods, \<^verbatim>\<open>src/optohybrid.cpp\<close>: broadcast access to the VFATs, their default
  parameters and configuration files, the scan module of the firmware, and the status read-out.
  Text that is only formatted and thrown away is not modelled, the register reads inside its
  arguments are.
\<close>

section \<open>Numbers in a configuration file\<close>

text \<open>
  \<^verbatim>\<open>iss >> x\<close> for a \<^verbatim>\<open>uint32_t\<close>: white space, a sign, decimal digits; no digits or a value of 32 bits
  or more fail, a minus sign negates modulo \<open>2 ^ 32\<close>.
\<close>

definition dec_value :: "char \<Rightarrow> nat option" where
  "dec_value c = (let n = (of_char c :: nat) in if 48 \<le> n \<and> n \<le> 57 then Some (n - 48) else None)"

fun dec_fold :: "string \<Rightarrow> nat \<Rightarrow> nat \<times> string" where
  "dec_fold [] v = (v, [])"
| "dec_fold (c # cs) v = (case dec_value c of None \<Rightarrow> (v, c # cs) | Some d \<Rightarrow> dec_fold cs (10 * v + d))"

definition extract_u32 :: "string \<Rightarrow> (u32 \<times> string) option" where
  "extract_u32 s =
     (let t = dropWhile is_space s;
          (neg, u) = (case t of [] \<Rightarrow> (False, t)
             | c # cs \<Rightarrow> if c = CHR ''-'' then (True, cs) else if c = CHR ''+'' then (False, cs) else (False, t));
          (v, rest) = dec_fold u 0
      in if (case u of [] \<Rightarrow> True | c # cs \<Rightarrow> dec_value c = None) \<or> 2 ^ 32 \<le> v then None
         else Some (if neg then - of_nat v else of_nat v, rest))"

fun extract_words :: "nat \<Rightarrow> string \<Rightarrow> u32 list option" where
  "extract_words 0 s = Some []"
| "extract_words (Suc n) s = (case extract_u32 s of
     None \<Rightarrow> None | Some (w, rest) \<Rightarrow> map_option (\<lambda>ws. w # ws) (extract_words n rest))"

text \<open>The lines after the first; a file that cannot be opened has none.\<close>

definition settings :: "localArgs \<Rightarrow> string \<Rightarrow> string list" where
  "settings la config_file = (case file_lines la config_file of None \<Rightarrow> [] | Some ls \<Rightarrow> tl ls)"

section \<open>Broadcast\<close>

definition oh_base :: "u32 \<Rightarrow> string" where
  "oh_base ohN = ''GEM_AMC.OH.OH'' @ fmt_i ohN"

definition vfat_reg :: "u32 \<Rightarrow> nat \<Rightarrow> string \<Rightarrow> string" where
  "vfat_reg ohN vfatN regName = oh_base ohN @ ''.GEB.VFAT'' @ dec vfatN @ ''.'' @ regName"

partial_function (option) broadcast_wait :: "localArgs \<Rightarrow> string \<Rightarrow> mach \<Rightarrow> (unit outcome \<times> mach) option" where
  "broadcast_wait la reg s =
     bindM (readRawReg la reg) (\<lambda>t_res t.
       if t_res = 0 then ret () t
       else if t_res = 0xdeaddead then ret () t
       else bindM (sleep_us 1000) (\<lambda>_ u. broadcast_wait la reg u) t) s"

definition broadcastWriteLocal :: "localArgs \<Rightarrow> u32 \<Rightarrow> string \<Rightarrow> u32 \<Rightarrow> u32 \<Rightarrow> unit prog" where
  "broadcastWriteLocal la ohN regName v vmask =
     bindM (readReg la ''GEM_AMC.GEM_SYSTEM.RELEASE.MAJOR'') (\<lambda>fw_maj.
     if fw_maj = 1 then
       (let regBase = oh_base ohN @ ''.GEB.Broadcast''
        in seqM [writeRawReg la (regBase @ ''.Reset'') 0,
                 writeRawReg la (regBase @ ''.Mask'') vmask,
                 writeRawReg la (regBase @ ''.Request.'' @ regName) v,
                 broadcast_wait la (regBase @ ''.Running'')])
     else if fw_maj = 3 then
       forM [0..<24] (\<lambda>vfatN. whenM (\<not> bit vmask vfatN) (writeReg la (vfat_reg ohN vfatN regName) v))
     else ret ())"

definition broadcast_mask :: "rpc_request \<Rightarrow> u32 prog" where
  "broadcast_mask request = (if rq_exists request ''mask'' then get_word request ''mask'' else ret 0xFF000000)"

definition broadcastWrite :: "localArgs \<Rightarrow> rpc_request \<Rightarrow> unit prog" where
  "broadcastWrite la request =
     bindM (get_string request ''reg_name'') (\<lambda>regName.
     bindM (get_word request ''value'') (\<lambda>v.
     bindM (broadcast_mask request) (\<lambda>vmask.
     bindM (get_word request ''ohN'') (\<lambda>ohN.
       broadcastWriteLocal la ohN regName v vmask))))"

text \<open>With an unexpected firmware version the register names are made from an array that was never written.\<close>

definition broadcastReadLocal :: "localArgs \<Rightarrow> u32 \<Rightarrow> string \<Rightarrow> u32 \<Rightarrow> u32 list prog" where
  "broadcastReadLocal la ohN regName vmask =
     bindM (readReg la ''GEM_AMC.GEM_SYSTEM.RELEASE.MAJOR'') (\<lambda>fw_maj.
     bindM (if fw_maj = 1 then ret (Some (oh_base ohN @ ''.GEB.VFATS.VFAT''))
            else if fw_maj = 3 then ret (Some (oh_base ohN @ ''.GEB.VFAT''))
            else thenM (set_error ''Unexpected value for system release major!'') (ret None)) (\<lambda>regBase.
       collectM [0..<24] (\<lambda>i.
         if bit vmask i then ret 0
         else (case regBase of None \<Rightarrow> abortM Undefined
           | Some base \<Rightarrow>
              (let t_regName = base @ dec i @ ''.'' @ regName
               in bindM (readReg la t_regName) (\<lambda>w.
                  thenM (whenM (w = 0xdeaddead) (set_error (''Error reading register '' @ c_str t_regName)))
                    (ret w)))))))"

definition broadcastRead :: "localArgs \<Rightarrow> rpc_request \<Rightarrow> unit prog" where
  "broadcastRead la request =
     bindM (get_string request ''reg_name'') (\<lambda>regName.
     bindM (broadcast_mask request) (\<lambda>vmask.
     bindM (get_word request ''ohN'') (\<lambda>ohN.
     bindM (broadcastReadLocal la ohN regName vmask) (\<lambda>outData.
       set_word_array ''data'' outData))))"

section \<open>Default parameters\<close>

text \<open>\<^verbatim>\<open>vfat_parameters\<close> of \<^verbatim>\<open>include/vfat_parameters.h\<close>, in the order in which a \<^verbatim>\<open>std::map\<close> goes through its keys.\<close>

definition vfat_parameters :: "(string \<times> u32) list" where
  "vfat_parameters =
    [(''CalPhase'', 0x00), (''ContReg0'', 0x36), (''ContReg1'', 0x00), (''ContReg2'', 0x30), (''ContReg3'', 0x00),
     (''IComp'', 90), (''IPreampFeed'', 80), (''IPreampIn'', 168), (''IPreampOut'', 150), (''IShaper'', 150),
     (''IShaperFeed'', 100), (''Latency'', 156), (''VCal'', 0), (''VThreshold1'', 0x64), (''VThreshold2'', 0x00)]"

definition biasAllVFATsLocal :: "localArgs \<Rightarrow> u32 \<Rightarrow> u32 \<Rightarrow> unit prog" where
  "biasAllVFATsLocal la ohN vmask = forM vfat_parameters (\<lambda>(r, v). broadcastWriteLocal la ohN r v vmask)"

definition setAllVFATsToRunModeLocal :: "localArgs \<Rightarrow> u32 \<Rightarrow> u32 \<Rightarrow> unit prog" where
  "setAllVFATsToRunModeLocal la ohN vmask =
     bindM (fw_version_check la) (\<lambda>fw.
       if fw = 3 then broadcastWriteLocal la ohN ''CFG_RUN'' 0x1 vmask
       else if fw = 1 then broadcastWriteLocal la ohN ''ContReg0'' 0x37 vmask
       else ret ())"

definition setAllVFATsToSleepModeLocal :: "localArgs \<Rightarrow> u32 \<Rightarrow> u32 \<Rightarrow> unit prog" where
  "setAllVFATsToSleepModeLocal la ohN vmask =
     bindM (fw_version_check la) (\<lambda>fw.
       if fw = 3 then broadcastWriteLocal la ohN ''CFG_RUN'' 0x0 vmask
       else if fw = 1 then broadcastWriteLocal la ohN ''ContReg0'' 0x36 vmask
       else ret ())"

section \<open>Configuration files\<close>

text \<open>
  \<^verbatim>\<open>loadVT1Local\<close> prints the names of the registers into \<^verbatim>\<open>regBase\<close> and then writes to \<^verbatim>\<open>regName\<close>, which is
  still the empty string.
\<close>

definition loadVT1Local :: "localArgs \<Rightarrow> u32 \<Rightarrow> string \<Rightarrow> u32 \<Rightarrow> unit prog" where
  "loadVT1Local la ohN config_file vt1 =
     (if config_file \<noteq> ''''
      then bindM (loopM (settings la config_file) (\<lambda>line. case extract_words 3 line of
             Some [vfatN, vt1, trimRange] \<Rightarrow>
               thenM (writeRawReg la '''' vt1) (
               thenM (writeRawReg la '''' trimRange) (ret None))
           | _ \<Rightarrow> thenM (set_error ''Error reading settings'') (ret (Some ()))))
           (\<lambda>_. ret ())
      else broadcastWriteLocal la ohN ''VThreshold1'' vt1 0xFF000000)"

definition optional_string :: "rpc_request \<Rightarrow> string \<Rightarrow> string \<Rightarrow> string prog" where
  "optional_string request k d = (if rq_exists request k then get_string request k else ret d)"

definition optional_word :: "rpc_request \<Rightarrow> string \<Rightarrow> u32 \<Rightarrow> u32 prog" where
  "optional_word request k d = (if rq_exists request k then get_word request k else ret d)"

definition loadVT1 :: "localArgs \<Rightarrow> rpc_request \<Rightarrow> unit prog" where
  "loadVT1 la request =
     bindM (get_word request ''ohN'') (\<lambda>ohN.
     bindM (optional_string request ''thresh_config_filename'' '''') (\<lambda>config_file.
     bindM (optional_word request ''vt1'' 0x64) (\<lambda>vt1.
       loadVT1Local la ohN config_file vt1)))"

definition chan_reg :: "u32 \<Rightarrow> string \<Rightarrow> string \<Rightarrow> string" where
  "chan_reg ohN vfatN ch = oh_base ohN @ ''.GEB.VFATS.VFAT'' @ vfatN @ ''.VFATChannels.ChanReg'' @ ch"

definition loadTRIMDACLocal :: "localArgs \<Rightarrow> u32 \<Rightarrow> string \<Rightarrow> unit prog" where
  "loadTRIMDACLocal la ohN config_file =
     bindM (loopM (settings la config_file) (\<lambda>line. case extract_words 4 line of
         Some [vfatN, vfatCH, trim, vmask] \<Rightarrow>
           thenM (writeRawReg la (chan_reg ohN (fmt_i vfatN) (fmt_i vfatCH)) (trim + 32 * vmask)) (ret None)
       | _ \<Rightarrow> thenM (set_error ''Error reading settings'') (ret (Some ()))))
     (\<lambda>_. ret ())"

definition loadTRIMDAC :: "localArgs \<Rightarrow> rpc_request \<Rightarrow> unit prog" where
  "loadTRIMDAC la request =
     bindM (get_word request ''ohN'') (\<lambda>ohN.
     bindM (get_string request ''trim_config_filename'') (\<lambda>config_file.
       loadTRIMDACLocal la ohN config_file))"

definition configureVFATs :: "localArgs \<Rightarrow> rpc_request \<Rightarrow> unit prog" where
  "configureVFATs la request =
     bindM (get_word request ''ohN'') (\<lambda>ohN.
     bindM (get_string request ''trim_config_filename'') (\<lambda>trim_config_file.
     bindM (optional_string request ''thresh_config_filename'' '''') (\<lambda>thresh_config_file.
     bindM (optional_word request ''vt1'' 0x64) (\<lambda>vt1.
       seqM [biasAllVFATsLocal la ohN 0xFF000000,
             loadVT1Local la ohN thresh_config_file vt1,
             loadTRIMDACLocal la ohN trim_config_file,
             whenM (rq_exists request ''set_run'') (setAllVFATsToRunModeLocal la ohN 0xFF000000)]))))"

section \<open>The scan module\<close>

definition scan_base :: "u32 \<Rightarrow> bool \<Rightarrow> string" where
  "scan_base ohN useUltra = ''GEM_AMC.OH.OH'' @ fmt_u ohN @ ''.ScanController'' @ (if useUltra then ''.ULTRA'' else ''.THLAT'')"

definition configureScanModuleLocal ::
  "localArgs \<Rightarrow> u32 \<Rightarrow> u32 \<Rightarrow> u32 \<Rightarrow> bool \<Rightarrow> u32 \<Rightarrow> u32 \<Rightarrow> u32 \<Rightarrow> u32 \<Rightarrow> u32 \<Rightarrow> u32 \<Rightarrow> unit prog" where
  "configureScanModuleLocal la ohN vfatN scanmode useUltra vmask ch nevts dacMin dacMax dacStep =
     (let scanBase = scan_base ohN useUltra
      in bindM (readReg la (scanBase @ ''.MONITOR.STATUS'')) (\<lambda>status.
         if status > 0 then set_error ''Scan is already running, not starting a new scan''
         else seqM
           [writeRawReg la (scanBase @ ''.RESET'') 0x1,
            writeReg la (scanBase @ ''.CONF.MODE'') scanmode,
            (if useUltra then writeReg la (scanBase @ ''.CONF.MASK'') vmask
             else writeReg la (scanBase @ ''.CONF.CHIP'') vfatN),
            writeReg la (scanBase @ ''.CONF.CHAN'') ch,
            writeReg la (scanBase @ ''.CONF.NTRIGS'') nevts,
            writeReg la (scanBase @ ''.CONF.MIN'') dacMin,
            writeReg la (scanBase @ ''.CONF.MAX'') dacMax,
            writeReg la (scanBase @ ''.CONF.STEP'') dacStep]))"

definition configureScanModule :: "localArgs \<Rightarrow> rpc_request \<Rightarrow> unit prog" where
  "configureScanModule la request =
     bindM (get_word request ''ohN'') (\<lambda>ohN.
     bindM (get_word request ''scanmode'') (\<lambda>scanmode.
     bindM (if rq_exists request ''useUltra''
            then bindM (get_word request ''mask'') (\<lambda>vmask. ret (True, vmask, 0))
            else bindM (get_word request ''vfatN'') (\<lambda>vfatN. ret (False, 0xFFFFFFFF, vfatN)))
       (\<lambda>(useUltra, vmask, vfatN).
     bindM (get_word request ''ch'') (\<lambda>ch.
     bindM (get_word request ''nevts'') (\<lambda>nevts.
     bindM (get_word request ''dacMin'') (\<lambda>dacMin.
     bindM (get_word request ''dacMax'') (\<lambda>dacMax.
     bindM (get_word request ''dacStep'') (\<lambda>dacStep.
       configureScanModuleLocal la ohN vfatN scanmode useUltra vmask ch nevts dacMin dacMax dacStep))))))))"

text \<open>The keys of the map in their order.\<close>

definition scan_report :: "bool \<Rightarrow> string list" where
  "scan_report useUltra = [''.CONF.CHAN''] @ (if useUltra then [''.CONF.MASK''] else [''.CONF.CHIP'']) @
     [''.CONF.MAX'', ''.CONF.MIN'', ''.CONF.MODE'', ''.CONF.NTRIGS'', ''.CONF.STEP'', ''.MONITOR.STATUS'']"

definition printScanConfigurationLocal :: "localArgs \<Rightarrow> u32 \<Rightarrow> bool \<Rightarrow> unit prog" where
  "printScanConfigurationLocal la ohN useUltra =
     forM (scan_report useUltra) (\<lambda>leaf.
       bindM (readReg la (scan_base ohN useUltra @ leaf)) (\<lambda>w.
         whenM (w = 0xdeaddead) (set_error (''Error reading register '' @ scan_base ohN useUltra @ leaf))))"

definition printScanConfiguration :: "localArgs \<Rightarrow> rpc_request \<Rightarrow> unit prog" where
  "printScanConfiguration la request =
     bindM (get_word request ''ohN'') (\<lambda>ohN.
       printScanConfigurationLocal la ohN (rq_exists request ''useUltra''))"

text \<open>A failed start is only logged.\<close>

definition startScanModuleLocal :: "localArgs \<Rightarrow> u32 \<Rightarrow> bool \<Rightarrow> unit prog" where
  "startScanModuleLocal la ohN useUltra =
     (let scanBase = scan_base ohN useUltra
      in bindM (readReg la (scanBase @ ''.MONITOR.STATUS'')) (\<lambda>status.
         if status > 0 then set_error ''Scan is already running, not starting a new scan''
         else
           bindM (readReg la (scanBase @ ''.MONITOR.ERROR'')) (\<lambda>err.
           if err > 0 then set_error ''Error in scan configuration''
           else
             thenM (writeReg la (scanBase @ ''.START'') 0x1) (
             bindM (readReg la (scanBase @ ''.MONITOR.ERROR'')) (\<lambda>err.
             bindM (if err \<noteq> 0 then ret True
                    else bindM (readReg la (scanBase @ ''.MONITOR.STATUS'')) (\<lambda>status. ret (status = 0))) (\<lambda>failed.
               whenM failed
                 (bindM (readReg la (scanBase @ ''.MONITOR.ERROR'')) (\<lambda>_.
                  bindM (readReg la (scanBase @ ''.MONITOR.STATUS'')) (\<lambda>_. ret ())))))))))"

definition startScanModule :: "localArgs \<Rightarrow> rpc_request \<Rightarrow> unit prog" where
  "startScanModule la request =
     bindM (get_word request ''ohN'') (\<lambda>ohN. startScanModuleLocal la ohN (rq_exists request ''useUltra''))"

text \<open>\<^verbatim>\<open>sleep(0.1)\<close> is \<^verbatim>\<open>sleep(0)\<close>: the argument is an integer number of seconds.\<close>

partial_function (option) ultra_wait ::
  "localArgs \<Rightarrow> string \<Rightarrow> string \<Rightarrow> bool \<Rightarrow> u32 \<Rightarrow> u32 \<Rightarrow> mach \<Rightarrow> (unit outcome \<times> mach) option" where
  "ultra_wait la status_reg l1a_reg bIsLatency numtrigs ohnL1A s =
     bindM (readReg la status_reg) (\<lambda>status t.
       if \<not> status > 0 then ret () t
       else
         bindM (readReg la status_reg) (\<lambda>_.
         bindM (if bIsLatency
                then bindM (readReg la l1a_reg) (\<lambda>l1a.
                     if l1a - ohnL1A > numtrigs
                     then bindM (readReg la l1a_reg) (\<lambda>_.
                          bindM (readReg la l1a_reg) (\<lambda>_. readReg la l1a_reg))
                     else ret ohnL1A)
                else ret ohnL1A) (\<lambda>ohnL1A'.
         bindM (sleep_ns 0) (\<lambda>_ u. ultra_wait la status_reg l1a_reg bIsLatency numtrigs ohnL1A' u))) t) s"

definition ultra_dac :: "localArgs \<Rightarrow> u32 \<Rightarrow> u32 \<Rightarrow> u32 \<Rightarrow> u32 \<Rightarrow> u32 \<Rightarrow> u32 list \<Rightarrow> (unit + u32 list) prog" where
  "ultra_dac la ohN dacMin dacMax dacStep dacVal outData =
     bindM (foldM (\<lambda>vfatN outData.
         bindM (scan_slot vfatN dacMin dacMax dacStep dacVal) (\<lambda>idx.
         bindM (readReg la (oh_base ohN @ ''.ScanController.ULTRA.RESULTS.VFAT'' @ dec vfatN)) (\<lambda>w.
           arr_set outData idx w))) [0..<24] outData) (\<lambda>d. ret (Inr d))"

definition getUltraScanResultsLocal ::
  "localArgs \<Rightarrow> u32 list \<Rightarrow> u32 \<Rightarrow> u32 \<Rightarrow> u32 \<Rightarrow> u32 \<Rightarrow> u32 \<Rightarrow> u32 list prog" where
  "getUltraScanResultsLocal la outData ohN nevts dacMin dacMax dacStep =
     (let scanBase = scan_base ohN True;
          l1a_reg = ''GEM_AMC.OH.OH'' @ fmt_u ohN @ ''.COUNTERS.T1.SENT.L1A''
      in bindM (readReg la l1a_reg) (\<lambda>ohnL1A_0.
         bindM (readReg la l1a_reg) (\<lambda>ohnL1A.
         bindM (readReg la (scanBase @ ''.CONF.NTRIGS'')) (\<lambda>numtrigs.
         bindM (readReg la (scanBase @ ''.CONF.MODE'')) (\<lambda>md.
         thenM (whenM (md = 2)
           (bindM (readReg la l1a_reg) (\<lambda>_. bindM (readReg la l1a_reg) (\<lambda>_. ret ())))) (
         thenM (ultra_wait la (scanBase @ ''.MONITOR.STATUS'') l1a_reg (md = 2) numtrigs ohnL1A) (
         bindM (readReg la (scanBase @ ''.MONITOR.STATUS'')) (\<lambda>_.
         bindM (readReg la (scanBase @ ''.MONITOR.READY'')) (\<lambda>_.
         bindM (for_step dacMax dacStep (ultra_dac la ohN dacMin dacMax dacStep) dacMin outData) (\<lambda>r.
           ret (case r of Inl _ \<Rightarrow> outData | Inr d \<Rightarrow> d)))))))))))"

definition getUltraScanResults :: "localArgs \<Rightarrow> rpc_request \<Rightarrow> unit prog" where
  "getUltraScanResults la request =
     bindM (get_word request ''ohN'') (\<lambda>ohN.
     bindM (get_word request ''nevts'') (\<lambda>nevts.
     bindM (get_word request ''dacMin'') (\<lambda>dacMin.
     bindM (get_word request ''dacMax'') (\<lambda>dacMax.
     bindM (get_word request ''dacStep'') (\<lambda>dacStep.
     bindM (scan_array la 24 dacMin dacMax dacStep) (\<lambda>arr.
     bindM (getUltraScanResultsLocal la arr ohN nevts dacMin dacMax dacStep) (\<lambda>outData.
       set_word_array ''data'' outData)))))))"

section \<open>Calibration pulses\<close>

text \<open>A channel above 127 is skipped in the first firmware version and not checked in the third.\<close>

definition stop_v1 :: "localArgs \<Rightarrow> u32 \<Rightarrow> nat \<Rightarrow> u32 \<Rightarrow> unit \<Rightarrow> (unit + unit) prog" where
  "stop_v1 la ohN vfatN chan _ =
     (if chan > 127 then ret (Inr ())
      else bindM (readReg la (chan_reg ohN (dec vfatN) (fmt_i chan))) (\<lambda>w.
           thenM (writeReg la (chan_reg ohN (dec vfatN) (fmt_i chan)) (0x3f AND w)) (ret (Inr ()))))"

definition stop_v3 :: "localArgs \<Rightarrow> u32 \<Rightarrow> nat \<Rightarrow> u32 \<Rightarrow> unit \<Rightarrow> (unit + unit) prog" where
  "stop_v3 la ohN vfatN chan _ =
     thenM (writeReg la (vfat_reg ohN vfatN (''VFAT_CHANNELS.CHANNEL'' @ fmt_i chan @ ''.CALPULSE_ENABLE'')) 0x0) (ret (Inr ()))"

definition stopCalPulse2AllChannelsLocal :: "localArgs \<Rightarrow> u32 \<Rightarrow> u32 \<Rightarrow> u32 \<Rightarrow> u32 \<Rightarrow> unit prog" where
  "stopCalPulse2AllChannelsLocal la ohN vmask ch_min ch_max =
     bindM (readReg la ''GEM_AMC.GEM_SYSTEM.RELEASE.MAJOR'') (\<lambda>fw_maj.
     if fw_maj = 1 then
       forM [0..<24] (\<lambda>vfatN. whenM (\<not> bit vmask vfatN)
         (bindM (for_step ch_max 1 (stop_v1 la ohN vfatN) ch_min ()) (\<lambda>_. ret ())))
     else if fw_maj = 3 then
       forM [0..<24] (\<lambda>vfatN. whenM (\<not> bit vmask vfatN)
         (bindM (for_step ch_max 1 (stop_v3 la ohN vfatN) ch_min ()) (\<lambda>_. ret ())))
     else ret ())"

definition stopCalPulse2AllChannels :: "localArgs \<Rightarrow> rpc_request \<Rightarrow> unit prog" where
  "stopCalPulse2AllChannels la request =
     bindM (get_word request ''ohN'') (\<lambda>ohN.
     bindM (get_word request ''mask'') (\<lambda>vmask.
     bindM (get_word request ''ch_min'') (\<lambda>ch_min.
     bindM (get_word request ''ch_max'') (\<lambda>ch_max.
       stopCalPulse2AllChannelsLocal la ohN vmask ch_min ch_max))))"

section \<open>Status\<close>

definition oh_status_regs :: "string list" where
  "oh_status_regs =
    [''CFG_PULSE_STRETCH '', ''TRIG.CTRL.SBIT_SOT_READY'', ''TRIG.CTRL.SBIT_SOT_UNSTABLE'', ''GBT.TX.TX_READY'',
     ''GBT.RX.RX_READY'', ''GBT.RX.RX_VALID'', ''GBT.RX.CNT_LINK_ERR'', ''ADC.CTRL.CNT_OVERTEMP'',
     ''ADC.CTRL.CNT_VCCAUX_ALARM'', ''ADC.CTRL.CNT_VCCINT_ALARM'', ''CONTROL.RELEASE.DATE'',
     ''CONTROL.RELEASE.VERSION.MAJOR'', ''CONTROL.RELEASE.VERSION.MINOR'', ''CONTROL.RELEASE.VERSION.BUILD'',
     ''CONTROL.RELEASE.VERSION.GENERATION'', ''CONTROL.SEM.CNT_SEM_CRITICAL'', ''CONTROL.SEM.CNT_SEM_CORRECTION'',
     ''TRIG.CTRL.SOT_INVERT'', ''GBT.TX.CNT_RESPONSE_SENT'', ''GBT.RX.CNT_REQUEST_RECEIVED'',
     ''CLOCKING.CLOCKING.GBT_MMCM_LOCKED'', ''CLOCKING.CLOCKING.LOGIC_MMCM_LOCKED'',
     ''CLOCKING.CLOCKING.GBT_MMCM_UNLOCKED_CNT'', ''CLOCKING.CLOCKING.LOGIC_MMCM_UNLOCKED_CNT'']"

definition statusOHLocal :: "localArgs \<Rightarrow> u32 \<Rightarrow> unit prog" where
  "statusOHLocal la ohEnMask =
     forM [0..<12] (\<lambda>ohN. whenM (bit ohEnMask ohN)
       (forM oh_status_regs (\<lambda>reg.
         (let regName = ''GEM_AMC.OH.OH'' @ dec ohN @ ''.'' @ reg
          in bindM (readReg la regName) (\<lambda>w. set_word regName w)))))"

definition statusOH :: "localArgs \<Rightarrow> rpc_request \<Rightarrow> unit prog" where
  "statusOH la request = bindM (get_word request ''ohEnMask'') (\<lambda>ohEnMask. statusOHLocal la ohEnMask)"

section \<open>Broadcasts\<close>

abbreviation release_major :: string where
  "release_major \<equiv> ''GEM_AMC.GEM_SYSTEM.RELEASE.MAJOR''"

lemma vfat_reg_not_release: "vfat_reg ohN i r \<noteq> release_major"
  by (simp add: vfat_reg_def oh_base_def)

lemma last_write_all:
  "rf.last_write nd (map (\<lambda>i. (g i, v)) xs) q w = (if q \<in> g ` set xs then reg_fits nd q v else w)"
  by (induction xs arbitrary: w) auto

definition vfat_read :: "localArgs \<Rightarrow> string \<Rightarrow> u32 prog" where
  "vfat_read la q = bindM (readReg la q) (\<lambda>w.
     thenM (whenM (w = 0xdeaddead) (set_error (''Error reading register '' @ c_str q))) (ret w))"

text \<open>Nothing that a read and its error message do changes the registers.\<close>

lemma vfat_read_run:
  assumes "reg_ok la nd R v0 u" "q \<in> R"
  shows "\<exists>t. vfat_read la q u = Some (Val (reg_val nd v0 q u), t) \<and> reg_ok la nd R v0 t
    \<and> (\<forall>p\<in>R. reg_val nd v0 p t = reg_val nd v0 p u)"
proof -
  obtain c where c: "readReg la q u = Some (Val (reg_val nd v0 q u), c)" "reg_ok la nd R v0 c"
    "\<And>p. p \<in> R \<Longrightarrow> reg_val nd v0 p c = reg_val nd v0 p u"
    by (rule rf.rd_run [OF assms(2,1)]) blast
  have "reg_ok la nd R v0 (c\<lparr>resp := m\<rparr>) \<and> (\<forall>p\<in>R. reg_val nd v0 p (c\<lparr>resp := m\<rparr>) = reg_val nd v0 p u)" for m
    using rf.quiet [of "\<lambda>k. True" c "c\<lparr>resp := m\<rparr>" la nd R v0] c(2,3) by (simp add: extends_def)
  then show ?thesis
    using c by (auto simp: vfat_read_def bindM_Val thenM_Val whenM_def ret_def set_string_def set_key_run)
qed

lemma broadcastReadLocal_run:
  assumes ok: "reg_ok la nd R v0 t" and fw: "release_major \<in> R" "reg_val nd v0 release_major t = 3"
    and regs: "\<And>i. i < 24 \<Longrightarrow> \<not> bit vmask i \<Longrightarrow> vfat_reg ohN i r \<in> R"
  shows "\<exists>u. broadcastReadLocal la ohN r vmask t =
    Some (Val (map (\<lambda>i. if bit vmask i then 0 else reg_val nd v0 (vfat_reg ohN i r) t) [0..<24]), u)"
proof -
  let ?I = "\<lambda>u. reg_ok la nd R v0 u \<and> (\<forall>q\<in>R. reg_val nd v0 q u = reg_val nd v0 q t)"
  obtain b where b: "readReg la release_major t = Some (Val 3, b)" "?I b"
    using fw(2) by (metis rf.rd_run [OF fw(1) ok])
  have one: "\<exists>u'. (if bit vmask i then ret 0 else vfat_read la (vfat_reg ohN i r)) u
      = Some (Val (if bit vmask i then 0 else reg_val nd v0 (vfat_reg ohN i r) t), u') \<and> ?I u'"
    if i: "i \<in> set [0..<24]" and u: "?I u" for i u
    using vfat_read_run [of la nd R v0 u "vfat_reg ohN i r"] regs [of i] i u
    by (cases "bit vmask i") (auto simp: ret_def)
  have "\<exists>u. collectM [0..<24] (\<lambda>i. if bit vmask i then ret 0 else vfat_read la (vfat_reg ohN i r)) b
      = Some (Val (map (\<lambda>i. if bit vmask i then 0 else reg_val nd v0 (vfat_reg ohN i r) t) [0..<24]), u) \<and> ?I u"
    by (rule collectM_inv [where I = ?I]) (fact one, fact b(2))
  then show ?thesis
    using b(1) by (auto simp: broadcastReadLocal_def bindM_Val Let_def vfat_read_def vfat_reg_def cong: if_cong)
qed


text \<open>A device with firmware 3 and two VFATs, for the examples.\<close>

definition bc_regs :: "string list" where
  "bc_regs = [release_major, vfat_reg 0 0 ''CFG_RUN'', vfat_reg 0 1 ''CFG_RUN'']"

definition bc_start :: mach where
  "bc_start = start_mach\<lparr>hist := [MemWrite 0 [3] True]\<rparr>"

lemma bc_ok:
  "reg_ok (flat_env bc_regs) (flat_node bc_regs) (set bc_regs) (\<lambda>a. 0) bc_start"
  by (rule flat_ok) (auto simp: bc_regs_def vfat_reg_def oh_base_def fmt_i_def dec_def fmt_nat.simps digit_char_def)


section \<open>Threshold files\<close>

text \<open>
  The threshold file has no effect: with a configuration file, and no register with an empty name in the address table,
  \<^verbatim>\<open>loadVT1Local\<close> writes nothing at all to the device, whatever the file holds: the register names it
  prints are never used.
\<close>

theorem loadVT1Local_writes_nothing:
  assumes "config_file \<noteq> ''''" and "db_get la '''' = None"
  shows "preserves (extends (\<lambda>e. False) (\<lambda>k. k = ''error'')) (loadVT1Local la ohN config_file vt1)"
proof -
  have w: "writeRawReg la '''' v = set_error ''Register not found''" for v
    using assms(2) by (simp add: writeRawReg_def db_text_def c_str_def)
  have line: "preserves (extends (\<lambda>e. False) (\<lambda>k. k = ''error'')) (case ws of
      Some [vfatN, vt1, trimRange] \<Rightarrow>
        thenM (set_error ''Register not found'') (thenM (set_error ''Register not found'') (ret None))
    | _ \<Rightarrow> thenM (set_error ''Error reading settings'') (ret (Some ())))" for ws :: "u32 list option"
    by (auto split: option.split list.split intro!: keeps)
  show ?thesis
    unfolding loadVT1Local_def w using assms(1) by (auto intro!: keeps line)
qed

theorem loadVT1Local_writes_nothing_witness:
  "preserves (extends (\<lambda>e. False) (\<lambda>k. k = ''error''))
     (loadVT1Local (demo_env\<lparr>db_get := Map.empty, file_lines := (\<lambda>f. Some [''header'', ''3 100 0''])\<rparr>) 0 ''vt1.txt'' 0x64)"
  by (rule loadVT1Local_writes_nothing) simp_all

end
