(* ===== verification/Vfat3.thy ===== *)
theory Vfat3
  imports Optohybrid
begin

text \<open>
  The VFAT3 methods, \<^verbatim>\<open>src/vfat3.cpp\<close>: the synchronisation check, the configuration from files and of
  the DAC monitoring, the channel registers, the ADCs, the status, and the chip identifiers. The
  Reed-Muller decoder is a library that is not in the repository: it is the parameter \<open>rm\<close>.
\<close>

section \<open>Synchronisation\<close>

definition link_leaf :: "u32 \<Rightarrow> nat \<Rightarrow> string \<Rightarrow> string" where
  "link_leaf ohN vfatN leaf = ''GEM_AMC.OH_LINKS.OH'' @ fmt_i ohN @ ''.VFAT'' @ dec vfatN @ ''.'' @ leaf"

definition vfatSyncCheckLocal :: "localArgs \<Rightarrow> u32 \<Rightarrow> u32 prog" where
  "vfatSyncCheckLocal la ohN =
     foldM (\<lambda>vfatN goodVFATs.
       bindM (readReg la (link_leaf ohN vfatN ''LINK_GOOD'')) (\<lambda>linkGood.
       bindM (readReg la (link_leaf ohN vfatN ''SYNC_ERR_CNT'')) (\<lambda>linkErrors.
         ret (goodVFATs OR push_bit vfatN (if linkGood \<noteq> 0 \<and> linkErrors = 0 then 1 else 0))))) [0..<24] 0"

definition vfatSyncCheck :: "localArgs \<Rightarrow> rpc_request \<Rightarrow> unit prog" where
  "vfatSyncCheck la request =
     bindM (get_word request ''ohN'') (\<lambda>ohN.
     bindM (vfatSyncCheckLocal la ohN) (\<lambda>goodVFATs. set_word ''goodVFATs'' goodVFATs))"

definition not_mask :: "u32 \<Rightarrow> u32" where
  "not_mask vfatMask = NOT vfatMask AND 0xFFFFFF"

definition not_synced_error :: "u32 \<Rightarrow> u32 \<Rightarrow> string" where
  "not_synced_error goodVFATs notmask = ''One of the unmasked VFATs is not Synced. goodVFATs: '' @ fmt_x goodVFATs
     @ [CHR 0x09] @ ''notmask: '' @ fmt_x notmask"

section \<open>DAC monitoring\<close>

definition configureVFAT3DacMonitorLocal :: "localArgs \<Rightarrow> u32 \<Rightarrow> u32 \<Rightarrow> u32 \<Rightarrow> unit prog" where
  "configureVFAT3DacMonitorLocal la ohN vmask dacSelect =
     bindM (vfatSyncCheckLocal la ohN) (\<lambda>goodVFATs.
     if not_mask vmask AND goodVFATs \<noteq> not_mask vmask
     then set_error (not_synced_error goodVFATs (not_mask vmask))
     else
       bindM (broadcastReadLocal la ohN ''CFG_VREF_ADC'' vmask) (\<lambda>adcVRefValues.
       bindM (broadcastReadLocal la ohN ''CFG_MON_GAIN'' vmask) (\<lambda>monitorGainValues.
         forM [0..<24] (\<lambda>vfatN. whenM (bit (not_mask vmask) vfatN)
           (writeReg la (vfat_reg ohN vfatN ''CFG_4'')
             (push_bit 8 (adcVRefValues ! vfatN) + push_bit 7 (monitorGainValues ! vfatN) + dacSelect))))))"

definition configureVFAT3DacMonitor :: "localArgs \<Rightarrow> rpc_request \<Rightarrow> unit prog" where
  "configureVFAT3DacMonitor la request =
     bindM (get_word request ''ohN'') (\<lambda>ohN.
     bindM (get_word request ''vfatMask'') (\<lambda>vfatMask.
     bindM (get_word request ''dacSelect'') (\<lambda>dacSelect.
       configureVFAT3DacMonitorLocal la ohN vfatMask dacSelect)))"

definition configureVFAT3DacMonitorMultiLink :: "localArgs \<Rightarrow> rpc_request \<Rightarrow> unit prog" where
  "configureVFAT3DacMonitorMultiLink la request =
     bindM (get_word request ''ohMask'') (\<lambda>ohMask.
     bindM (get_word request ''dacSelect'') (\<lambda>dacSelect.
     bindM (requested_NOH la request) (\<lambda>NOH.
       forM [0..<unat NOH] (\<lambda>ohN. bindM (oh_enabled ohMask ohN) (\<lambda>enabled. whenM enabled
         (bindM (getOHVFATMaskLocal la (of_nat ohN)) (\<lambda>vfatMask.
            configureVFAT3DacMonitorLocal la (of_nat ohN) vfatMask dacSelect)))))))"

section \<open>Configuration from files\<close>

text \<open>\<^verbatim>\<open>iss >> dacName\<close>: white space, then everything up to the next white space; it fails when nothing is left.\<close>

definition extract_name :: "string \<Rightarrow> (string \<times> string) option" where
  "extract_name s =
     (let t = dropWhile is_space s; w = takeWhile (\<lambda>c. \<not> is_space c) t
      in if w = '''' then None else Some (w, drop (length w) t))"

definition dac_setting :: "string \<Rightarrow> (string \<times> u32) option" where
  "dac_setting line = (case extract_name line of None \<Rightarrow> None
     | Some (dacName, rest) \<Rightarrow> map_option (\<lambda>(dacVal, _). (dacName, dacVal)) (extract_u32 rest))"

definition config_file_name :: "u32 \<Rightarrow> nat \<Rightarrow> string" where
  "config_file_name ohN vfatN =
     ''/mnt/persistent/gemdaq/vfat3/config_OH'' @ fmt_u ohN @ ''_VFAT'' @ dec vfatN @ ''.txt''"

definition configureVFAT3sLocal :: "localArgs \<Rightarrow> u32 \<Rightarrow> u32 \<Rightarrow> unit prog" where
  "configureVFAT3sLocal la ohN vfatMask =
     bindM (vfatSyncCheckLocal la ohN) (\<lambda>goodVFATs.
     if not_mask vfatMask AND goodVFATs \<noteq> not_mask vfatMask
     then set_error (not_synced_error goodVFATs (not_mask vfatMask))
     else
       bindM (loopM [0..<24] (\<lambda>vfatN.
         if \<not> bit (not_mask vfatMask) vfatN then ret None
         else (case file_lines la (config_file_name ohN vfatN) of
             None \<Rightarrow> thenM (set_error (''could not open config file '' @ config_file_name ohN vfatN)) (ret (Some ()))
           | Some ls \<Rightarrow>
               bindM (loopM (tl ls) (\<lambda>line. case dac_setting line of
                   None \<Rightarrow> thenM (set_error ''Error reading settings'') (ret (Some ()))
                 | Some (dacName, dacVal) \<Rightarrow>
                     thenM (writeReg la (''GEM_AMC.OH.OH'' @ fmt_u ohN @ ''.GEB.VFAT'' @ dec vfatN @ ''.CFG_'' @ dacName) dacVal)
                       (ret None)))
                 (\<lambda>_. ret None))))
       (\<lambda>_. ret ()))"

definition configureVFAT3s :: "localArgs \<Rightarrow> rpc_request \<Rightarrow> unit prog" where
  "configureVFAT3s la request =
     bindM (get_word request ''ohN'') (\<lambda>ohN.
     bindM (get_word request ''vfatMask'') (\<lambda>vfatMask.
       configureVFAT3sLocal la ohN vfatMask))"

section \<open>Channel registers\<close>

definition channel_reg :: "u32 \<Rightarrow> nat \<Rightarrow> nat \<Rightarrow> string" where
  "channel_reg ohN vfatN chan = vfat_reg ohN vfatN (''VFAT_CHANNELS.CHANNEL'' @ dec chan)"

definition vfat_not_synced :: "u32 \<Rightarrow> nat \<Rightarrow> u32 \<Rightarrow> string" where
  "vfat_not_synced goodVFATs vfatN vfatMask = ''The requested VFAT is not synced; goodVFATs: '' @ fmt_x goodVFATs
     @ [CHR 0x09] @ '' requested VFAT: '' @ dec vfatN @ ''; maskOh: '' @ fmt_x vfatMask"

text \<open>
  What the methods on channel registers share: the loop over the VFATs that are not masked, each
  checked to be in sync, then the loop over their channels; \<open>Inl\<close> is a \<^verbatim>\<open>return\<close>.
\<close>

definition each_channel ::
  "localArgs \<Rightarrow> u32 \<Rightarrow> u32 \<Rightarrow> (nat \<Rightarrow> nat \<Rightarrow> 'a \<Rightarrow> ('a + 'a) prog) \<Rightarrow> 'a \<Rightarrow> 'a prog" where
  "each_channel la ohN vfatMask body a =
     bindM (foldE (\<lambda>vfatN a.
       if \<not> bit (not_mask vfatMask) vfatN then ret (Inr a)
       else
         bindM (vfatSyncCheckLocal la ohN) (\<lambda>goodVFATs.
         if \<not> bit goodVFATs vfatN
         then thenM (set_error (vfat_not_synced goodVFATs vfatN vfatMask)) (ret (Inl a))
         else foldE (body vfatN) [0..<128] a)) [0..<24] a)
     (\<lambda>r. ret (case r of Inl a \<Rightarrow> a | Inr a \<Rightarrow> a))"

definition read_channel :: "localArgs \<Rightarrow> u32 \<Rightarrow> nat \<Rightarrow> nat \<Rightarrow> u32 list \<Rightarrow> (u32 list + u32 list) prog" where
  "read_channel la ohN vfatN chan chanRegData =
     bindM (getAddress la (channel_reg ohN vfatN chan)) (\<lambda>chanAddr.
     bindM (readRawAddress la chanAddr) (\<lambda>w.
     bindM (arr_set chanRegData (vfatN * 128 + chan) w) (\<lambda>chanRegData.
     thenM (sleep_us 200) (ret (Inr chanRegData)))))"

definition getChannelRegistersVFAT3Local :: "localArgs \<Rightarrow> u32 \<Rightarrow> u32 \<Rightarrow> u32 list \<Rightarrow> u32 list prog" where
  "getChannelRegistersVFAT3Local la ohN vfatMask chanRegData =
     each_channel la ohN vfatMask (read_channel la ohN) chanRegData"

definition getChannelRegistersVFAT3 :: "localArgs \<Rightarrow> rpc_request \<Rightarrow> unit prog" where
  "getChannelRegistersVFAT3 la request =
     bindM (get_word request ''ohN'') (\<lambda>ohN.
     bindM (get_word request ''vfatMask'') (\<lambda>vfatMask.
     bindM (getChannelRegistersVFAT3Local la ohN vfatMask (stack_array la (24 * 128))) (\<lambda>chanRegData.
       set_word_array ''chanRegData'' chanRegData)))"

definition write_channel :: "localArgs \<Rightarrow> u32 \<Rightarrow> u32 list \<Rightarrow> nat \<Rightarrow> nat \<Rightarrow> unit \<Rightarrow> (unit + unit) prog" where
  "write_channel la ohN chanRegData vfatN chan _ =
     bindM (getAddress la (channel_reg ohN vfatN chan)) (\<lambda>chanAddr.
     bindM (arr_get chanRegData (vfatN * 128 + chan)) (\<lambda>w.
     thenM (writeRawAddress la chanAddr w) (
     thenM (sleep_us 200) (ret (Inr ())))))"

definition setChannelRegistersVFAT3SimpleLocal :: "localArgs \<Rightarrow> u32 \<Rightarrow> u32 \<Rightarrow> u32 list \<Rightarrow> unit prog" where
  "setChannelRegistersVFAT3SimpleLocal la ohN vfatMask chanRegData =
     each_channel la ohN vfatMask (write_channel la ohN chanRegData) ()"

text \<open>The fields of a channel register.\<close>

record channel_data =
  calEnable :: "u32 list"
  masks :: "u32 list"
  trimARM :: "u32 list"
  trimARMPol :: "u32 list"
  trimZCC :: "u32 list"
  trimZCCPol :: "u32 list"

definition channel_word :: "u32 \<Rightarrow> u32 \<Rightarrow> u32 \<Rightarrow> u32 \<Rightarrow> u32 \<Rightarrow> u32 \<Rightarrow> u32" where
  "channel_word cal msk zccPol zcc armPol arm =
     push_bit 15 cal + push_bit 14 msk + push_bit 13 zccPol + push_bit 7 zcc + push_bit 6 armPol + arm"

definition trim_error :: "string \<Rightarrow> nat \<Rightarrow> nat \<Rightarrow> u32 \<Rightarrow> string" where
  "trim_error what vfatN chan v = what @ '' comparator trim value must be positive in range [0x0,0x3F]. Value given for VFAT''
     @ dec vfatN @ '' chan '' @ dec chan @ '': '' @ fmt_x v"

definition set_channel :: "localArgs \<Rightarrow> u32 \<Rightarrow> channel_data \<Rightarrow> nat \<Rightarrow> nat \<Rightarrow> unit \<Rightarrow> (unit + unit) prog" where
  "set_channel la ohN d vfatN chan _ =
     (let idx = vfatN * 128 + chan
      in bindM (getAddress la (channel_reg ohN vfatN chan)) (\<lambda>chanAddr.
         bindM (arr_get (trimARM d) idx) (\<lambda>arm.
         if arm > 0x3F then thenM (set_error (trim_error ''arming'' vfatN chan arm)) (ret (Inl ()))
         else
           bindM (arr_get (trimZCC d) idx) (\<lambda>zcc.
           if zcc > 0x3F then thenM (set_error (trim_error ''zero crossing'' vfatN chan zcc)) (ret (Inl ()))
           else
             bindM (arr_get (calEnable d) idx) (\<lambda>cal.
             bindM (arr_get (masks d) idx) (\<lambda>msk.
             bindM (arr_get (trimZCCPol d) idx) (\<lambda>zccPol.
             bindM (arr_get (trimARMPol d) idx) (\<lambda>armPol.
             thenM (writeRawAddress la chanAddr (channel_word cal msk zccPol zcc armPol arm)) (
             thenM (sleep_us 200) (ret (Inr ())))))))))))"

definition setChannelRegistersVFAT3Local :: "localArgs \<Rightarrow> u32 \<Rightarrow> u32 \<Rightarrow> channel_data \<Rightarrow> unit prog" where
  "setChannelRegistersVFAT3Local la ohN vfatMask d = each_channel la ohN vfatMask (set_channel la ohN d) ()"

text \<open>\<^verbatim>\<open>request->get_word_array(k, buf)\<close> into an array of 3072 words.\<close>

definition channel_array :: "localArgs \<Rightarrow> rpc_request \<Rightarrow> string \<Rightarrow> u32 list prog" where
  "channel_array la request k = bindM (get_word_array request k) (copy_into (stack_array la 3072))"

definition setChannelRegistersVFAT3 :: "localArgs \<Rightarrow> rpc_request \<Rightarrow> unit prog" where
  "setChannelRegistersVFAT3 la request =
     bindM (get_word request ''ohN'') (\<lambda>ohN.
     bindM (get_word request ''vfatMask'') (\<lambda>vfatMask.
     if rq_exists request ''simple''
     then bindM (channel_array la request ''chanRegData'') (\<lambda>chanRegData.
            setChannelRegistersVFAT3SimpleLocal la ohN vfatMask chanRegData)
     else
       bindM (channel_array la request ''calEnable'') (\<lambda>cal.
       bindM (channel_array la request ''masks'') (\<lambda>msk.
       bindM (channel_array la request ''trimARM'') (\<lambda>arm.
       bindM (channel_array la request ''trimARMPol'') (\<lambda>armPol.
       bindM (channel_array la request ''trimZCC'') (\<lambda>zcc.
       bindM (channel_array la request ''trimZCCPol'') (\<lambda>zccPol.
         setChannelRegistersVFAT3Local la ohN vfatMask
           \<lparr>calEnable = cal, masks = msk, trimARM = arm, trimARMPol = armPol, trimZCC = zcc, trimZCCPol = zccPol\<rparr>))))))))"

section \<open>ADCs\<close>

definition readVFAT3ADCLocal :: "localArgs \<Rightarrow> u32 \<Rightarrow> bool \<Rightarrow> u32 \<Rightarrow> u32 list prog" where
  "readVFAT3ADCLocal la ohN useExtRefADC vmask =
     (if useExtRefADC
      then bindM (broadcastReadLocal la ohN ''ADC1_UPDATE'' vmask) (\<lambda>_.
           thenM (sleep_us 20) (broadcastReadLocal la ohN ''ADC1_CACHED'' vmask))
      else bindM (broadcastReadLocal la ohN ''ADC0_UPDATE'' vmask) (\<lambda>_.
           thenM (sleep_us 20) (broadcastReadLocal la ohN ''ADC0_CACHED'' vmask)))"

definition readVFAT3ADC :: "localArgs \<Rightarrow> rpc_request \<Rightarrow> unit prog" where
  "readVFAT3ADC la request =
     bindM (get_word request ''ohN'') (\<lambda>ohN.
     bindM (get_word request ''useExtRefADC'') (\<lambda>useExtRefADC.
     bindM (get_word request ''vfatMask'') (\<lambda>vfatMask.
     bindM (readVFAT3ADCLocal la ohN (useExtRefADC \<noteq> 0) vfatMask) (\<lambda>adcData.
       set_word_array ''adcData'' adcData))))"

text \<open>\<^verbatim>\<open>std::copy\<close> of a list to a position of an array.\<close>

definition copy_at :: "u32 list \<Rightarrow> nat \<Rightarrow> u32 list \<Rightarrow> u32 list prog" where
  "copy_at buf pos xs =
     (if pos + length xs \<le> length buf then ret (take pos buf @ xs @ drop (pos + length xs) buf) else abortM Undefined)"

definition readVFAT3ADCMultiLink :: "localArgs \<Rightarrow> rpc_request \<Rightarrow> unit prog" where
  "readVFAT3ADCMultiLink la request =
     bindM (get_word request ''ohMask'') (\<lambda>ohMask.
     bindM (get_word request ''useExtRefADC'') (\<lambda>useExtRefADC.
     bindM (requested_NOH la request) (\<lambda>NOH.
     bindM (foldM (\<lambda>ohN adcDataAll.
         bindM (oh_enabled ohMask ohN) (\<lambda>enabled.
         if \<not> enabled then ret adcDataAll
         else
           bindM (getOHVFATMaskLocal la (of_nat ohN)) (\<lambda>vfatMask.
           bindM (readVFAT3ADCLocal la (of_nat ohN) (useExtRefADC \<noteq> 0) vfatMask) (\<lambda>adcData.
             copy_at adcDataAll (24 * ohN) adcData)))) [0..<unat NOH] (replicate (12 * 24) 0)) (\<lambda>adcDataAll.
       set_word_array ''adcDataAll'' adcDataAll))))"

section \<open>Status\<close>

definition vfat_status_regs :: "string list" where
  "vfat_status_regs =
    [''CFG_PULSE_STRETCH '', ''CFG_SYNC_LEVEL_MODE'', ''CFG_FP_FE'', ''CFG_RES_PRE'', ''CFG_CAP_PRE'', ''CFG_PT'',
     ''CFG_SEL_POL'', ''CFG_FORCE_EN_ZCC'', ''CFG_SEL_COMP_MODE'', ''CFG_VREF_ADC'', ''CFG_IREF'', ''CFG_THR_ARM_DAC'',
     ''CFG_LATENCY'', ''CFG_CAL_SEL_POL'', ''CFG_CAL_DAC'', ''CFG_CAL_MODE'', ''CFG_BIAS_CFD_DAC_2'',
     ''CFG_BIAS_CFD_DAC_1'', ''CFG_BIAS_PRE_I_BSF'', ''CFG_BIAS_PRE_I_BIT'', ''CFG_BIAS_PRE_I_BLCC'',
     ''CFG_BIAS_PRE_VREF'', ''CFG_BIAS_SH_I_BFCAS'', ''CFG_BIAS_SH_I_BDIFF'', ''CFG_BIAS_SH_I_BFAMP'',
     ''CFG_BIAS_SD_I_BDIFF'', ''CFG_BIAS_SD_I_BSF'', ''CFG_BIAS_SD_I_BFCAS'', ''CFG_RUN'']"

definition statusVFAT3sLocal :: "localArgs \<Rightarrow> u32 \<Rightarrow> unit prog" where
  "statusVFAT3sLocal la ohN =
     forM [0..<24] (\<lambda>vfatN. forM vfat_status_regs (\<lambda>reg.
       bindM (readReg la (link_leaf ohN vfatN reg)) (\<lambda>w. set_word (link_leaf ohN vfatN reg) w)))"

definition statusVFAT3s :: "localArgs \<Rightarrow> rpc_request \<Rightarrow> unit prog" where
  "statusVFAT3s la request = bindM (get_word request ''ohN'') (\<lambda>ohN. statusVFAT3sLocal la ohN)"

section \<open>Chip identifiers\<close>

text \<open>
  The Reed-Muller library with the code RM(2,5): whether the memory for it can be had, the length
  of a code word, the largest decodable number, the number of errors it corrects, and the decoder,
  which fails or delivers bits.
\<close>

record reedmuller =
  rm_alloc :: bool
  rm_n :: nat
  rm_maxdecode :: u32
  rm_strength :: nat
  rm_decode :: "bool list \<Rightarrow> bool list option"

definition hex8 :: "u32 \<Rightarrow> string" where
  "hex8 w = replicate (8 - length (fmt_x w)) CHR ''0'' @ fmt_x w"

text \<open>\<^verbatim>\<open>strtoul\<close> in base 2 of the printed bits.\<close>

definition bits_value :: "bool list \<Rightarrow> nat" where
  "bits_value bs = foldl (\<lambda>v b. 2 * v + (if b then 1 else 0)) 0 bs"

definition decodeChipID :: "reedmuller \<Rightarrow> u32 \<Rightarrow> u16 prog" where
  "decodeChipID rm encChipID =
     (if \<not> rm_alloc rm then throwM (Runtime_error ''Out of memory'')
      else if encChipID > rm_maxdecode rm then
        throwM (Range_error (hex8 encChipID @ '' is larger than the maximum decodeable by RM(2,5)'' @ hex8 (rm_maxdecode rm)))
      else (case rm_decode rm (rev (map (bit encChipID) [0..<rm_n rm])) of
          Some decoded \<Rightarrow> ret (of_nat (bits_value decoded))
        | None \<Rightarrow> throwM (Runtime_error (''Unable to decode message 0x'' @ hex8 encChipID
            @ '', probably more than '' @ dec (rm_strength rm) @ '' errors''))))"

definition getVFAT3ChipIDsLocal :: "reedmuller \<Rightarrow> localArgs \<Rightarrow> u32 \<Rightarrow> u32 \<Rightarrow> bool \<Rightarrow> unit prog" where
  "getVFAT3ChipIDsLocal rm la ohN vfatMask rawID =
     bindM (vfatSyncCheckLocal la ohN) (\<lambda>goodVFATs.
     if not_mask vfatMask AND goodVFATs \<noteq> not_mask vfatMask
     then set_error (not_synced_error goodVFATs (not_mask vfatMask))
     else
       forM [0..<24] (\<lambda>vfatN.
         (let regName = vfat_reg ohN vfatN ''HW_CHIP_ID''
          in if \<not> bit (not_mask vfatMask) vfatN then set_word regName 0xdeaddead
             else
               bindM (readReg la regName) (\<lambda>chip_id.
                 catch_runtime
                   (bindM (decodeChipID rm chip_id) (\<lambda>decChipID.
                      set_word regName (if rawID then chip_id else ucast decChipID)))
                   (\<lambda>_. set_word regName chip_id)))))"

definition getVFAT3ChipIDs :: "reedmuller \<Rightarrow> localArgs \<Rightarrow> rpc_request \<Rightarrow> unit prog" where
  "getVFAT3ChipIDs rm la request =
     bindM (get_word request ''ohN'') (\<lambda>ohN.
     bindM (get_word request ''vfatMask'') (\<lambda>vfatMask.
     bindM (get_word request ''rawID'') (\<lambda>rawID.
       getVFAT3ChipIDsLocal rm la ohN vfatMask (rawID \<noteq> 0))))"

section \<open>Masks and words\<close>

lemma bit_ffffff: "bit (0xFFFFFF :: u32) n \<longleftrightarrow> n < 24"
proof -
  have "(0xFFFFFF :: u32) = mask 24" by (simp add: mask_eq_exp_minus_1)
  then show ?thesis by (simp only: bit_mask_iff) auto
qed

lemma not_mask_bit: "bit (not_mask m) v \<longleftrightarrow> v < 24 \<and> \<not> bit m v"
  unfolding not_mask_def by (simp only: bit_and_iff bit_not_iff bit_ffffff) auto

lemma small_bits:
  assumes "unat (w :: u32) < 2 ^ k" "bit w n"
  shows "n < k"
proof -
  have "bit (unat w) n" using assms(2) by (simp add: bit_unsigned_iff possible_bit_def bit_imp_le_length)
  moreover have "take_bit k (unat w) = unat w" using assms(1) by (rule take_bit_nat_eq_self)
  ultimately show ?thesis by (metis bit_take_bit_iff)
qed

section \<open>The fields of a channel register\<close>

lemma add_is_or: "(\<And>n. bit a n \<Longrightarrow> bit b n \<Longrightarrow> False) \<Longrightarrow> (a :: u32) + b = a OR b"
  by (rule disjunctive_add_eq_or, rule bit_word_eqI, simp only: bit_and_iff bit_0_eq) auto

lemmas word_bits = bit_or_iff bit_and_iff bit_push_bit_iff bit_drop_bit_eq

lemma channel_word_or:
  assumes "cal < 2" "msk < 2" "zccPol < 2" "zcc < 64" "armPol < 2" "arm < 64"
  shows "channel_word cal msk zccPol zcc armPol arm =
    push_bit 15 cal OR push_bit 14 msk OR push_bit 13 zccPol OR push_bit 7 zcc OR push_bit 6 armPol OR arm"
proof -
  have b: "bit cal n \<Longrightarrow> n < 1" "bit msk n \<Longrightarrow> n < 1" "bit zccPol n \<Longrightarrow> n < 1" "bit zcc n \<Longrightarrow> n < 6"
      "bit armPol n \<Longrightarrow> n < 1" "bit arm n \<Longrightarrow> n < 6" for n
    using small_bits [of _ 1 n] small_bits [of _ 6 n] assms by (simp_all add: word_less_nat_alt)
  have "channel_word cal msk zccPol zcc armPol arm =
      push_bit 15 cal + (push_bit 14 msk + (push_bit 13 zccPol + (push_bit 7 zcc + (push_bit 6 armPol + arm))))"
    by (simp only: channel_word_def add.assoc)
  also have "push_bit 6 armPol + arm = push_bit 6 armPol OR arm"
    by (rule add_is_or, simp only: word_bits) (auto dest!: b)
  also have "push_bit 7 zcc + \<dots> = push_bit 7 zcc OR \<dots>"
    by (rule add_is_or, simp only: word_bits) (auto dest!: b)
  also have "push_bit 13 zccPol + \<dots> = push_bit 13 zccPol OR \<dots>"
    by (rule add_is_or, simp only: word_bits) (auto dest!: b)
  also have "push_bit 14 msk + \<dots> = push_bit 14 msk OR \<dots>"
    by (rule add_is_or, simp only: word_bits) (auto dest!: b)
  also have "push_bit 15 cal + \<dots> = push_bit 15 cal OR \<dots>"
    by (rule add_is_or, simp only: word_bits) (auto dest!: b)
  finally show ?thesis .
qed

lemma bit_3f: "bit (0x3F :: u32) n \<longleftrightarrow> n < 6"
proof -
  have "(0x3F :: u32) = mask 6" by (simp add: mask_eq_exp_minus_1)
  then show ?thesis by (simp only: bit_mask_iff) auto
qed

text \<open>
  Channel register format: with one-bit flags and trims that pass the check, the six values that
  \<^verbatim>\<open>setChannelRegistersVFAT3Local\<close> adds up into a register do not overlap, and each can be taken out again.
\<close>

theorem channel_word_fields:
  assumes "cal < 2" "msk < 2" "zccPol < 2" "zcc \<le> 0x3F" "armPol < 2" "arm \<le> 0x3F"
  shows "drop_bit 15 (channel_word cal msk zccPol zcc armPol arm) = cal
    \<and> drop_bit 14 (channel_word cal msk zccPol zcc armPol arm) AND 1 = msk
    \<and> drop_bit 13 (channel_word cal msk zccPol zcc armPol arm) AND 1 = zccPol
    \<and> drop_bit 7 (channel_word cal msk zccPol zcc armPol arm) AND 0x3F = zcc
    \<and> drop_bit 6 (channel_word cal msk zccPol zcc armPol arm) AND 1 = armPol
    \<and> channel_word cal msk zccPol zcc armPol arm AND 0x3F = arm"
proof -
  have trim: "zcc < 64" "arm < 64" using assms(4,6) by (simp_all add: word_less_nat_alt word_le_nat_alt)
  have b: "bit cal n \<Longrightarrow> n < 1" "bit msk n \<Longrightarrow> n < 1" "bit zccPol n \<Longrightarrow> n < 1" "bit zcc n \<Longrightarrow> n < 6"
      "bit armPol n \<Longrightarrow> n < 1" "bit arm n \<Longrightarrow> n < 6" for n
    using small_bits [of _ 1 n] small_bits [of _ 6 n] assms(1-3,5) trim by (simp_all add: word_less_nat_alt)
  note w = channel_word_or [OF assms(1-3) trim(1) assms(5) trim(2)] word_bits bit_1_iff bit_3f comp_def
  show ?thesis
    by (intro conjI; rule bit_word_eqI; simp only: w) (auto dest: b)
qed

theorem channel_word_fields_witness:
  "drop_bit 7 (channel_word 1 0 1 0x2a 0 0x3f) AND 0x3F = 0x2a"
  using channel_word_fields [of 1 0 1 "0x2a" 0 "0x3f"] by simp

section \<open>Refusals\<close>


lemma foldM_ret: "foldM (\<lambda>x a. ret (g x a)) xs a = ret (fold g xs a)"
  by (induction xs arbitrary: a) simp_all


section \<open>Channel registers as variables\<close>

lemma getAddress_node: "has_node la r n \<Longrightarrow> getAddress la r = ret (real_address n)"
  using has_node_wf [of la r n] by (simp add: getAddress_def db_text_node node_simps)

lemma raw_write_full:
  "has_node la r n \<Longrightarrow> node_mask n = 0xFFFFFFFF \<Longrightarrow> writeRawAddress la (real_address n) v = writeReg la r v"
  using has_node_wf [of la r n]
  by (simp add: writeReg_def db_text_node node_simps writeAddress_node writeRawAddress_def)

lemma raw_read_run:
  assumes "r \<in> R" "reg_ok la nd R v0 s" "node_mask (nd r) = 0xFFFFFFFF"
  shows "\<exists>t. readRawAddress la (real_address (nd r)) s = Some (Val (reg_val nd v0 r s), t)
    \<and> reg_ok la nd R v0 t \<and> (\<forall>q\<in>R. reg_val nd v0 q t = reg_val nd v0 q s)"
proof -
  note d = reg_okD [OF assms(2,1)]
  obtain f where f: "mem_rd la (hist s) (real_address (nd r)) 1 = Some f"
    "f 0 = cell (real_address (nd r)) (v0 (real_address (nd r))) (hist s)"
    using ram_on_read1 [OF d(6,5)] by blast
  let ?t = "s\<lparr>hist := hist s @ [MemRead (real_address (nd r)) 1 (Some [f 0])]\<rparr>"
  have "extends no_write no_key s ?t" by (simp add: extends_def)
  from rf.quiet [OF this assms(2)]
  have "reg_ok la nd R v0 ?t \<and> (\<forall>q\<in>R. reg_val nd v0 q ?t = reg_val nd v0 q s)" .
  moreover have "readRawAddress la (real_address (nd r)) s = Some (Val (reg_val nd v0 r s), ?t)"
    using f assms(3) by (simp add: readRawAddress_def prog_simps reg_val_def applyMask_full)
  ultimately show ?thesis by blast
qed

text \<open>The names of the channel registers are all different.\<close>

lemma dec_dot: "dec a @ CHR ''.'' # x = dec b @ CHR ''.'' # y \<Longrightarrow> a = b \<and> x = y"
proof -
  have no: "c \<noteq> CHR ''.''" if "c \<in> set (dec n)" for c n
    using that set_fmt_nat [of 10 n] by (auto simp: dec_def)
  have tw: "takeWhile (\<lambda>c. c \<noteq> CHR ''.'') (dec n @ CHR ''.'' # z) = dec n" for n z
    using no by (subst takeWhile_append2) auto
  assume eq: "dec a @ CHR ''.'' # x = dec b @ CHR ''.'' # y"
  then have "dec a = dec b" by (metis tw)
  then show ?thesis using eq by (simp add: dec_inj)
qed

lemma channel_reg_inj: "channel_reg ohN v c = channel_reg ohN v' c' \<longleftrightarrow> v = v' \<and> c = c'"
  by (auto simp: channel_reg_def vfat_reg_def dec_inj dest: dec_dot)

lemma channel_not_link: "channel_reg ohN v c \<noteq> link_leaf ohN' v' leaf"
  by (simp add: channel_reg_def vfat_reg_def oh_base_def link_leaf_def)

section \<open>The synchronisation check\<close>

lemma bit_fold_or:
  "bit (fold (\<lambda>v a. a OR push_bit v (if P v then 1 else 0)) xs (a :: u32)) n \<longleftrightarrow>
     bit a n \<or> n < 32 \<and> n \<in> set xs \<and> P n"
proof (induction xs arbitrary: a)
  case (Cons x xs)
  have "bit (push_bit x (1 :: u32)) n \<longleftrightarrow> n = x \<and> n < 32"
    by (auto simp: bit_exp_iff possible_bit_def)
  then show ?case unfolding fold.simps comp_def Cons by (auto simp: bit_or_iff)
qed simp

definition in_sync :: "(string \<Rightarrow> node) \<Rightarrow> (u32 \<Rightarrow> u32) \<Rightarrow> u32 \<Rightarrow> mach \<Rightarrow> nat \<Rightarrow> bool" where
  "in_sync nd v0 ohN s v \<longleftrightarrow> reg_val nd v0 (link_leaf ohN v ''LINK_GOOD'') s \<noteq> 0
     \<and> reg_val nd v0 (link_leaf ohN v ''SYNC_ERR_CNT'') s = 0"

lemma vfatSyncCheckLocal_run:
  assumes ok: "reg_ok la nd R v0 s"
    and links: "\<And>v. v < 24 \<Longrightarrow> link_leaf ohN v ''LINK_GOOD'' \<in> R \<and> link_leaf ohN v ''SYNC_ERR_CNT'' \<in> R"
  shows "\<exists>good t. vfatSyncCheckLocal la ohN s = Some (Val good, t) \<and> reg_ok la nd R v0 t
    \<and> (\<forall>q\<in>R. reg_val nd v0 q t = reg_val nd v0 q s) \<and> (\<forall>v<24. bit good v \<longleftrightarrow> in_sync nd v0 ohN s v)"
proof -
  let ?I = "\<lambda>u. reg_ok la nd R v0 u \<and> (\<forall>q\<in>R. reg_val nd v0 q u = reg_val nd v0 q s)"
  let ?g = "\<lambda>v a. a OR push_bit v (if in_sync nd v0 ohN s v then 1 else 0 :: u32)"
  have one: "\<exists>t. bindM (readReg la (link_leaf ohN v ''LINK_GOOD'')) (\<lambda>linkGood.
       bindM (readReg la (link_leaf ohN v ''SYNC_ERR_CNT'')) (\<lambda>linkErrors.
         ret (a OR push_bit v (if linkGood \<noteq> 0 \<and> linkErrors = 0 then 1 else 0)))) u = Some (Val (?g v a), t) \<and> ?I t"
    if "v \<in> set [0..<24]" "?I u" for v a u
  proof -
    note u = that(2)
    have r: "link_leaf ohN v ''LINK_GOOD'' \<in> R" "link_leaf ohN v ''SYNC_ERR_CNT'' \<in> R"
      using links that(1) by simp_all
    obtain w where w: "readReg la (link_leaf ohN v ''LINK_GOOD'') u
        = Some (Val (reg_val nd v0 (link_leaf ohN v ''LINK_GOOD'') s), w)" "?I w"
      using u r(1) by (metis rf.rd_run [OF r(1), of la nd v0 u])
    obtain x where "readReg la (link_leaf ohN v ''SYNC_ERR_CNT'') w
        = Some (Val (reg_val nd v0 (link_leaf ohN v ''SYNC_ERR_CNT'') s), x)" "?I x"
      using w(2) r(2) by (metis rf.rd_run [OF r(2), of la nd v0 w])
    then show ?thesis using w(1) by (auto simp: bindM_Val ret_def in_sync_def)
  qed
  have "\<exists>t. vfatSyncCheckLocal la ohN s = Some (Val (fold ?g [0..<24] 0), t) \<and> ?I t"
    unfolding vfatSyncCheckLocal_def by (rule foldM_inv [where I = ?I]) (fact one, use ok in simp)
  moreover have "bit (fold ?g [0..<24] 0) v \<longleftrightarrow> in_sync nd v0 ohN s v" if "v < 24" for v
    unfolding bit_fold_or using that by simp
  ultimately show ?thesis by blast
qed

section \<open>The loop over the channels\<close>

definition slots :: "u32 \<Rightarrow> (nat \<times> nat) list" where
  "slots vfatMask = List.product (filter (\<lambda>v. \<not> bit vfatMask v) [0..<24]) [0..<128]"

lemma set_slots: "(v, c) \<in> set (slots m) \<longleftrightarrow> v < 24 \<and> \<not> bit m v \<and> c < 128"
  by (auto simp: slots_def)

text \<open>
  When the VFATs that are not masked are in sync, the loop is the loop of its body over these
  pairs: \<open>J\<close> is its invariant, \<open>A\<close> an abstraction of the state that the body changes with \<open>U\<close>.
\<close>

lemma each_channel_run:
  assumes body: "\<And>v c a s. (v, c) \<in> set (slots m) \<Longrightarrow> J a s \<Longrightarrow>
      \<exists>t. body v c a s = Some (Val (Inr (g v c a)), t) \<and> J (g v c a) t \<and> A t = U v c (A s)"
    and sync: "\<And>v a s. v < 24 \<Longrightarrow> \<not> bit m v \<Longrightarrow> J a s \<Longrightarrow>
      \<exists>good t. vfatSyncCheckLocal la ohN s = Some (Val good, t) \<and> bit good v \<and> J a t \<and> A t = A s"
    and start: "J a s"
  shows "\<exists>t. each_channel la ohN m body a s = Some (Val (fold (\<lambda>(v, c). g v c) (slots m) a), t)
    \<and> J (fold (\<lambda>(v, c). g v c) (slots m) a) t \<and> A t = fold (\<lambda>(v, c). U v c) (slots m) (A s)"
proof -
  let ?g = "\<lambda>v a. if bit m v then a else fold (g v) [0..<128] a"
  let ?U = "\<lambda>v w. if bit m v then w else fold (U v) [0..<128] w"
  let ?f = "\<lambda>v a. if \<not> bit (not_mask m) v then ret (Inr a)
       else bindM (vfatSyncCheckLocal la ohN) (\<lambda>goodVFATs.
         if \<not> bit goodVFATs v then thenM (set_error (vfat_not_synced goodVFATs v m)) (ret (Inl a))
         else foldE (body v) [0..<128] a)"
  have one: "\<exists>t. ?f v a s = Some (Val (Inr (?g v a)), t) \<and> J (?g v a) t \<and> A t = ?U v (A s)"
    if v: "v \<in> set [0..<24]" and J: "J a s" for v a s
  proof (cases "bit m v")
    case True
    then show ?thesis using J v by (simp add: not_mask_bit ret_def)
  next
    case False
    obtain good u where u: "vfatSyncCheckLocal la ohN s = Some (Val good, u)" "bit good v" "J a u" "A u = A s"
      using sync [of v a s] v False J by auto
    have "\<exists>t. foldE (body v) [0..<128] a u = Some (Val (Inr (fold (g v) [0..<128] a)), t)
        \<and> J (fold (g v) [0..<128] a) t \<and> A t = fold (U v) [0..<128] (A u)"
      by (rule foldE_run) (use body v False u(3) in \<open>auto simp: set_slots\<close>)
    then show ?thesis using u False v by (simp add: not_mask_bit bindM_Val)
  qed
  have "\<exists>t. foldE ?f [0..<24] a s = Some (Val (Inr (fold ?g [0..<24] a)), t)
      \<and> J (fold ?g [0..<24] a) t \<and> A t = fold ?U [0..<24] (A s)"
    by (rule foldE_run) (fact one, fact start)
  then show ?thesis
    unfolding fold_product slots_def [symmetric] each_channel_def by (auto simp: bindM_Val ret_def)
qed

section \<open>Writing and reading all channels\<close>

text \<open>The VFATs that are not masked are in sync, and their channel registers are whole words of the register file.\<close>

definition channels_ready ::
  "localArgs \<Rightarrow> (string \<Rightarrow> node) \<Rightarrow> string set \<Rightarrow> (u32 \<Rightarrow> u32) \<Rightarrow> u32 \<Rightarrow> u32 \<Rightarrow> mach \<Rightarrow> bool" where
  "channels_ready la nd R v0 ohN vfatMask s \<longleftrightarrow> reg_ok la nd R v0 s
     \<and> (\<forall>v<24. link_leaf ohN v ''LINK_GOOD'' \<in> R \<and> link_leaf ohN v ''SYNC_ERR_CNT'' \<in> R)
     \<and> (\<forall>v<24. \<not> bit vfatMask v \<longrightarrow> in_sync nd v0 ohN s v)
     \<and> (\<forall>(v, c) \<in> set (slots vfatMask). channel_reg ohN v c \<in> R \<and> node_mask (nd (channel_reg ohN v c)) = 0xFFFFFFFF)"

text \<open>Only the synchronisation registers matter for being ready.\<close>

lemma channels_ready_mono:
  assumes "channels_ready la nd R v0 ohN m s" "reg_ok la nd R v0 t"
    and "\<And>v leaf. link_leaf ohN v leaf \<in> R \<Longrightarrow> reg_val nd v0 (link_leaf ohN v leaf) t = reg_val nd v0 (link_leaf ohN v leaf) s"
  shows "channels_ready la nd R v0 ohN m t"
  using assms by (auto simp: channels_ready_def in_sync_def)

lemma channels_ready_sync:
  assumes "channels_ready la nd R v0 ohN m s" "v < 24" "\<not> bit m v"
  shows "\<exists>good t. vfatSyncCheckLocal la ohN s = Some (Val good, t) \<and> bit good v
    \<and> channels_ready la nd R v0 ohN m t \<and> (\<forall>q\<in>R. reg_val nd v0 q t = reg_val nd v0 q s)"
proof -
  have "reg_ok la nd R v0 s"
    and "\<And>v. v < 24 \<Longrightarrow> link_leaf ohN v ''LINK_GOOD'' \<in> R \<and> link_leaf ohN v ''SYNC_ERR_CNT'' \<in> R"
    using assms(1) by (auto simp: channels_ready_def)
  from vfatSyncCheckLocal_run [OF this]
  obtain good t where t: "vfatSyncCheckLocal la ohN s = Some (Val good, t)" "reg_ok la nd R v0 t"
    "\<forall>q\<in>R. reg_val nd v0 q t = reg_val nd v0 q s" "\<forall>v<24. bit good v \<longleftrightarrow> in_sync nd v0 ohN s v"
    by blast
  moreover have "bit good v" using t(4) assms by (auto simp: channels_ready_def)
  moreover have "channels_ready la nd R v0 ohN m t"
    using assms(1) t(2,3) by (intro channels_ready_mono [of la nd R v0 ohN m s t]) auto
  ultimately show ?thesis by blast
qed

lemma channels_readyD:
  assumes "channels_ready la nd R v0 ohN m s" "(v, c) \<in> set (slots m)"
  shows "channel_reg ohN v c \<in> R" "node_mask (nd (channel_reg ohN v c)) = 0xFFFFFFFF" "reg_ok la nd R v0 s"
    "has_node la (channel_reg ohN v c) (nd (channel_reg ohN v c))"
proof -
  show r: "channel_reg ohN v c \<in> R" and "node_mask (nd (channel_reg ohN v c)) = 0xFFFFFFFF"
    and ok: "reg_ok la nd R v0 s"
    using assms by (auto simp: channels_ready_def)
  show "has_node la (channel_reg ohN v c) (nd (channel_reg ohN v c))" using ok r by (rule reg_okD(1))
qed

text \<open>The values of the registers of \<open>R\<close>.\<close>

definition vals :: "(string \<Rightarrow> node) \<Rightarrow> (u32 \<Rightarrow> u32) \<Rightarrow> string set \<Rightarrow> mach \<Rightarrow> string \<Rightarrow> u32" where
  "vals nd v0 R s = (\<lambda>q. if q \<in> R then reg_val nd v0 q s else 0)"

lemma vals_eq: "vals nd v0 R t = vals nd v0 R s \<longleftrightarrow> (\<forall>q\<in>R. reg_val nd v0 q t = reg_val nd v0 q s)"
  by (auto simp: vals_def fun_eq_iff)

lemma sleep_quiet:
  "reg_ok la nd R v0 s \<Longrightarrow> \<exists>t. sleep_us n s = Some (Val (), t) \<and> reg_ok la nd R v0 t \<and> vals nd v0 R t = vals nd v0 R s"
  using rf.quiet [of no_key s "s\<lparr>hist := hist s @ [Sleep (1000 * n)]\<rparr>" la nd R v0]
  by (auto simp: sleep_us_def sleep_ns_def emit_run vals_eq extends_def)

lemma full_fits: "node_mask (nd r) = 0xFFFFFFFF \<Longrightarrow> reg_fits nd r v = v"
proof -
  assume "node_mask (nd r) = 0xFFFFFFFF"
  then have "reg_fits nd r v = field_part 0xFFFFFFFF v" by (simp only: reg_fits_def)
  also have "\<dots> = v" by (metis applyMask_full get_put_field put_field_full)
  finally show ?thesis .
qed

lemma write_channel_run:
  assumes ready: "channels_ready la nd R v0 ohN m s" and x: "(v, c) \<in> set (slots m)" and len: "length data = 3072"
  shows "\<exists>t. write_channel la ohN data v c () s = Some (Val (Inr ()), t) \<and> channels_ready la nd R v0 ohN m t
    \<and> vals nd v0 R t = (vals nd v0 R s)(channel_reg ohN v c := data ! (v * 128 + c))"
proof -
  let ?r = "channel_reg ohN v c" and ?w = "data ! (v * 128 + c)"
  note d = channels_readyD [OF ready x]
  have i: "v * 128 + c < length data" using x len by (auto simp: set_slots)
  obtain t where t: "writeReg la ?r ?w s = Some (Val (), t)" "reg_ok la nd R v0 t"
    "reg_val nd v0 ?r t = reg_fits nd ?r ?w" "\<And>q. q \<in> R \<Longrightarrow> q \<noteq> ?r \<Longrightarrow> reg_val nd v0 q t = reg_val nd v0 q s"
    by (rule rf.wr_run [OF d(1,3)]) blast
  obtain u where u: "sleep_us 200 t = Some (Val (), u)" "reg_ok la nd R v0 u" "vals nd v0 R u = vals nd v0 R t"
    using sleep_quiet [OF t(2)] by blast
  have "vals nd v0 R u = (vals nd v0 R s)(?r := ?w)"
    using u(3) t(3,4) d(1) full_fits [of nd ?r, OF d(2)] by (auto simp: vals_def fun_eq_iff)
  moreover have "reg_val nd v0 (link_leaf ohN v leaf) u = reg_val nd v0 (link_leaf ohN v leaf) s"
    if "link_leaf ohN v leaf \<in> R" for v leaf
    using u(3) t(4) that channel_not_link by (metis vals_eq)
  then have "channels_ready la nd R v0 ohN m u"
    using ready u(2) by (intro channels_ready_mono [of la nd R v0 ohN m s u]) auto
  moreover have "write_channel la ohN data v c () s = Some (Val (Inr ()), u)"
    using t(1) u(1) i raw_write_full [OF d(4,2)]
    by (simp add: write_channel_def getAddress_node [OF d(4)] arr_get_def bindM_Val thenM_Val ret_def)
  ultimately show ?thesis by blast
qed

lemma read_channel_run:
  assumes ready: "channels_ready la nd R v0 ohN m s" and x: "(v, c) \<in> set (slots m)" and len: "length a = 3072"
  shows "\<exists>t. read_channel la ohN v c a s = Some (Val (Inr (a[v * 128 + c := reg_val nd v0 (channel_reg ohN v c) s])), t)
    \<and> channels_ready la nd R v0 ohN m t \<and> vals nd v0 R t = vals nd v0 R s"
proof -
  let ?r = "channel_reg ohN v c"
  note d = channels_readyD [OF ready x]
  have i: "v * 128 + c < length a" using x len by (auto simp: set_slots)
  obtain t where t: "readRawAddress la (real_address (nd ?r)) s = Some (Val (reg_val nd v0 ?r s), t)"
    "reg_ok la nd R v0 t" "vals nd v0 R t = vals nd v0 R s"
    using raw_read_run [OF d(1,3,2)] unfolding vals_eq by blast
  obtain u where u: "sleep_us 200 t = Some (Val (), u)" "reg_ok la nd R v0 u" "vals nd v0 R u = vals nd v0 R t"
    using sleep_quiet [OF t(2)] by blast
  have "\<forall>q\<in>R. reg_val nd v0 q u = reg_val nd v0 q s" using u(3) t(3) by (simp add: vals_eq)
  then have "channels_ready la nd R v0 ohN m u"
    using ready u(2) by (intro channels_ready_mono [of la nd R v0 ohN m s u]) auto
  then show ?thesis
    using t u(1,3) i
    by (auto simp: read_channel_def getAddress_node [OF d(4)] arr_set_def bindM_Val thenM_Val ret_def)
qed

lemma slot_eq: "c < 128 \<Longrightarrow> c' < 128 \<Longrightarrow> v * 128 + c = v' * 128 + c' \<longleftrightarrow> v = v' \<and> c = (c' :: nat)"
proof -
  have dm: "c < 128 \<Longrightarrow> (v * 128 + c) div 128 = v \<and> (v * 128 + c) mod 128 = c" for v c :: nat by simp
  assume "c < 128" "c' < 128"
  then show ?thesis using dm by metis
qed

lemma slot_inj: "inj_on (\<lambda>(v, c). v * 128 + c :: nat) (set (slots m))"
  by (rule inj_onI, clarify) (simp add: set_slots slot_eq)

lemma write_all_run:
  assumes "channels_ready la nd R v0 ohN m s" and "length data = 3072"
  shows "\<exists>t. setChannelRegistersVFAT3SimpleLocal la ohN m data s = Some (Val (), t)
    \<and> channels_ready la nd R v0 ohN m t
    \<and> vals nd v0 R t = fold (\<lambda>x w. w(case x of (v, c) \<Rightarrow> channel_reg ohN v c := data ! (case x of (v, c) \<Rightarrow> v * 128 + c)))
        (slots m) (vals nd v0 R s)"
proof -
  have "\<exists>t. each_channel la ohN m (write_channel la ohN data) () s =
        Some (Val (fold (\<lambda>(v, c) a. ()) (slots m) ()), t)
      \<and> channels_ready la nd R v0 ohN m t
      \<and> vals nd v0 R t = fold (\<lambda>(v, c) w. w(channel_reg ohN v c := data ! (v * 128 + c))) (slots m) (vals nd v0 R s)"
    by (rule each_channel_run [where J = "\<lambda>a. channels_ready la nd R v0 ohN m" and A = "vals nd v0 R"])
      (use assms write_channel_run channels_ready_sync in \<open>auto simp: vals_eq\<close>)
  then show ?thesis
    by (simp add: setChannelRegistersVFAT3SimpleLocal_def case_prod_unfold)
qed

lemma read_all_run:
  assumes "channels_ready la nd R v0 ohN m s" and "length a = 3072"
  shows "\<exists>t. getChannelRegistersVFAT3Local la ohN m a s =
      Some (Val (fold (\<lambda>x l. l[case x of (v, c) \<Rightarrow> v * 128 + c := reg_val nd v0 (case x of (v, c) \<Rightarrow> channel_reg ohN v c) s])
        (slots m) a), t)"
proof -
  let ?J = "\<lambda>a t. length a = 3072 \<and> channels_ready la nd R v0 ohN m t \<and> vals nd v0 R t = vals nd v0 R s"
  let ?g = "\<lambda>v c l. l[v * 128 + c := reg_val nd v0 (channel_reg ohN v c) s]"
  have body: "\<exists>u. read_channel la ohN v c l t = Some (Val (Inr (?g v c l)), u) \<and> ?J (?g v c l) u \<and> () = ()"
    if x: "(v, c) \<in> set (slots m)" and J: "?J l t" for v c l t
  proof -
    have "channel_reg ohN v c \<in> R" using channels_readyD(1) J x by blast
    then have "reg_val nd v0 (channel_reg ohN v c) t = reg_val nd v0 (channel_reg ohN v c) s"
      using J by (simp add: vals_eq)
    then show ?thesis using read_channel_run [of la nd R v0 ohN m t v c l] x J by auto
  qed
  have "\<exists>t. each_channel la ohN m (read_channel la ohN) a s = Some (Val (fold (\<lambda>(v, c). ?g v c) (slots m) a), t)
      \<and> ?J (fold (\<lambda>(v, c). ?g v c) (slots m) a) t \<and> () = fold (\<lambda>(v, c) w. ()) (slots m) ()"
    by (rule each_channel_run [where J = ?J and A = "\<lambda>s. ()"])
      (fact body, use channels_ready_sync in \<open>fastforce simp: vals_eq\<close>, use assms in simp)
  then show ?thesis
    by (auto simp: getChannelRegistersVFAT3Local_def case_prod_unfold)
qed

text \<open>
  C32 (channel registers round trip): when the VFATs that are not masked are in sync, writing an array of channel
  registers succeeds, and reading them back into any array delivers the written word for each of
  the 128 channels of each VFAT that is not masked and leaves the words of the masked ones as they
  were in that array: no two channels share a slot or a register.
\<close>

theorem channel_registers_roundtrip:
  assumes "channels_ready la nd R v0 ohN vfatMask s" and "length data = 3072" and "length junk = 3072"
  shows "\<exists>t u out. setChannelRegistersVFAT3SimpleLocal la ohN vfatMask data s = Some (Val (), t)
    \<and> getChannelRegistersVFAT3Local la ohN vfatMask junk t = Some (Val out, u)
    \<and> (\<forall>v<24. \<forall>c<128. out ! (v * 128 + c) = (if bit vfatMask v then junk else data) ! (v * 128 + c))"
proof -
  let ?k = "\<lambda>(v, c). v * 128 + c :: nat" and ?r = "\<lambda>(v, c). channel_reg ohN v c"
  obtain t where t: "setChannelRegistersVFAT3SimpleLocal la ohN vfatMask data s = Some (Val (), t)"
    "channels_ready la nd R v0 ohN vfatMask t"
    "vals nd v0 R t = fold (\<lambda>x w. w(?r x := data ! ?k x)) (slots vfatMask) (vals nd v0 R s)"
    using write_all_run [OF assms(1,2)] by blast
  have "inj_on ?r (set (slots vfatMask))" by (auto simp: inj_on_def channel_reg_inj)
  then have written: "vals nd v0 R t (?r x) = data ! ?k x" if "x \<in> set (slots vfatMask)" for x
    unfolding t(3) using that by (rule fold_upd)
  have now: "reg_val nd v0 (?r x) t = data ! ?k x" if x: "x \<in> set (slots vfatMask)" for x
  proof -
    obtain v c where "x = (v, c)" by (cases x)
    then have "?r x \<in> R" using channels_readyD(1) [OF t(2)] x by auto
    then show ?thesis using written [OF x] by (simp add: vals_def)
  qed
  obtain out u where u: "getChannelRegistersVFAT3Local la ohN vfatMask junk t = Some (Val out, u)"
    and out: "out = fold (\<lambda>x l. l[?k x := reg_val nd v0 (?r x) t]) (slots vfatMask) junk"
    using read_all_run [OF t(2) assms(3)] by blast
  have "out ! (v * 128 + c) = (if bit vfatMask v then junk else data) ! (v * 128 + c)" if b: "v < 24" "c < 128" for v c
  proof (cases "bit vfatMask v")
    case True
    then have "v * 128 + c \<notin> ?k ` set (slots vfatMask)"
      using b by (auto simp: set_slots slot_eq)
    then show ?thesis using True by (simp add: out fold_list_update_other)
  next
    case False
    then have x: "(v, c) \<in> set (slots vfatMask)" using b by (simp add: set_slots)
    have "out ! ?k (v, c) = reg_val nd v0 (?r (v, c)) t"
      unfolding out by (rule fold_list_update [OF slot_inj x]) (use b assms(3) in simp)
    then show ?thesis using now [OF x] False by simp
  qed
  then show ?thesis using t(1) u by blast
qed

text \<open>A device with the link registers of one OptoHybrid and the channels of its VFAT 0, which is in sync.\<close>

definition chan_regs :: "string list" where
  "chan_regs = map (\<lambda>v. link_leaf 0 v ''LINK_GOOD'') [0..<24] @ map (\<lambda>v. link_leaf 0 v ''SYNC_ERR_CNT'') [0..<24]
     @ map (channel_reg 0 0) [0..<128]"

definition chan_start :: mach where
  "chan_start = start_mach\<lparr>hist := [MemWrite 0 [1] True]\<rparr>"

lemma chan_ok: "reg_ok (flat_env chan_regs) (flat_node chan_regs) (set chan_regs) (\<lambda>a. 0) s"
  by (rule flat_ok)
    (auto simp: chan_regs_def link_leaf_def channel_reg_def vfat_reg_def oh_base_def fmt_i_def dec_no_nul)

lemma flat_val_one:
  assumes "length rs < 2 ^ 32" "r \<in> set rs"
  shows "reg_val (flat_node rs) (\<lambda>a. 0) r (start_mach\<lparr>hist := [MemWrite 0 [w] True]\<rparr>) = (if place rs r = 0 then w else 0)"
proof -
  have "place rs r < 2 ^ 32" using place_nth [OF assms(2)] assms(1) by linarith
  then have "unat (of_nat (place rs r) :: u32) = place rs r" by (simp add: unsigned_of_nat take_bit_nat_eq_self)
  then show ?thesis by (simp add: reg_val_def flat_node_def applyMask_full)
qed

lemma place_first: "rs \<noteq> [] \<Longrightarrow> place rs (rs ! 0) = 0"
  by (cases rs) (simp_all add: place_def)

lemma mask_one_bit: "v < 24 \<Longrightarrow> bit (0xFFFFFE :: u32) v \<longleftrightarrow> v \<noteq> 0"
proof -
  have "list_all (\<lambda>v. bit (0xFFFFFE :: u32) v = (v \<noteq> 0)) [0..<24]" by code_simp
  then show "v < 24 \<Longrightarrow> bit (0xFFFFFE :: u32) v \<longleftrightarrow> v \<noteq> 0" by (simp add: list_all_iff)
qed

lemma first_in_sync:
  assumes "length rs < 2 ^ 32" "rs \<noteq> []" "rs ! 0 = link_leaf 0 0 ''LINK_GOOD''" "link_leaf 0 0 ''SYNC_ERR_CNT'' \<in> set rs"
  shows "in_sync (flat_node rs) (\<lambda>a. 0) 0 chan_start 0"
proof -
  have mem: "link_leaf 0 0 ''LINK_GOOD'' \<in> set rs" using assms(2,3) by (metis length_greater_0_conv nth_mem)
  have "place rs (link_leaf 0 0 ''LINK_GOOD'') = 0" using place_first [OF assms(2)] assms(3) by simp
  moreover have "link_leaf 0 0 ''LINK_GOOD'' \<noteq> link_leaf 0 0 ''SYNC_ERR_CNT''" by (simp add: link_leaf_def)
  then have "place rs (link_leaf 0 0 ''SYNC_ERR_CNT'') \<noteq> 0"
    using place_nth [OF assms(4)] assms(3) by metis
  ultimately show ?thesis
    using flat_val_one [OF assms(1)] mem assms(4) by (simp add: in_sync_def chan_start_def)
qed

lemma chan_demo_ready:
  "channels_ready (flat_env chan_regs) (flat_node chan_regs) (set chan_regs) (\<lambda>a. 0) 0 0xFFFFFE chan_start"
proof -
  have len: "length chan_regs < 2 ^ 32" by (simp add: chan_regs_def)
  have links: "link_leaf 0 v ''LINK_GOOD'' \<in> set chan_regs" "link_leaf 0 v ''SYNC_ERR_CNT'' \<in> set chan_regs"
    if "v < 24" for v using that by (simp_all add: chan_regs_def)
  have "chan_regs ! 0 = link_leaf 0 0 ''LINK_GOOD''" by (simp add: chan_regs_def nth_append)
  moreover have "chan_regs \<noteq> []" by (simp add: chan_regs_def)
  ultimately have "in_sync (flat_node chan_regs) (\<lambda>a. 0) 0 chan_start 0"
    using first_in_sync [OF len] links(2) [of 0] by simp
  moreover have "channel_reg 0 0 c \<in> set chan_regs" if "c < 128" for c using that by (simp add: chan_regs_def)
  ultimately show ?thesis
    using links mask_one_bit chan_ok by (auto simp: channels_ready_def set_slots flat_node_def)
qed

theorem channel_registers_roundtrip_witness:
  "\<exists>t u out. setChannelRegistersVFAT3SimpleLocal (flat_env chan_regs) 0 0xFFFFFE (map of_nat [0..<3072]) chan_start = Some (Val (), t)
     \<and> getChannelRegistersVFAT3Local (flat_env chan_regs) 0 0xFFFFFE (replicate 3072 7) t = Some (Val out, u)
     \<and> out ! 100 = 100 \<and> out ! 128 = 7"
proof -
  have m: "\<not> bit (0xFFFFFE :: u32) 0" "bit (0xFFFFFE :: u32) 1" by code_simp+
  obtain t u out where run:
    "setChannelRegistersVFAT3SimpleLocal (flat_env chan_regs) 0 0xFFFFFE (map of_nat [0..<3072]) chan_start = Some (Val (), t)"
    "getChannelRegistersVFAT3Local (flat_env chan_regs) 0 0xFFFFFE (replicate 3072 7) t = Some (Val out, u)"
    and out: "\<forall>v<24. \<forall>c<128. out ! (v * 128 + c)
      = (if bit (0xFFFFFE :: u32) v then replicate 3072 7 else map of_nat [0..<3072]) ! (v * 128 + c)"
    using channel_registers_roundtrip [OF chan_demo_ready, of "map of_nat [0..<3072]" "replicate 3072 7"] by auto
  have "out ! (0 * 128 + 100) = 100" using out [rule_format, of 0 100] m by simp
  moreover have "out ! (1 * 128 + 0) = 7" using out [rule_format, of 1 0] m by simp
  ultimately show ?thesis using run by (simp only: mult_0 add_0 mult_1 add_0_right) blast
qed

end
