(* ===== verification/Calibration.thy ===== *)
theory Calibration
  imports Vfat3
begin

text \<open>
  The first part of \<^verbatim>\<open>src/calibration_routines.cpp\<close>: channel masks, calibration pulses, the DAQ monitor,
  the TTC generator, and the generic scan of one register (\<^verbatim>\<open>genScan\<close>, \<^verbatim>\<open>genChannelScan\<close>).
\<close>

section \<open>Channel masks\<close>

text \<open>
  A \<^verbatim>\<open>std::unordered_map<uint32_t, uint32_t>\<close> as its entries in the order of insertion; a loop over it
  takes the keys in the order that \<open>map_order\<close> gives.
\<close>

fun map_put :: "u32 \<Rightarrow> 'a \<Rightarrow> (u32 \<times> 'a) list \<Rightarrow> (u32 \<times> 'a) list" where
  "map_put k v [] = [(k, v)]"
| "map_put k v ((k', v') # m) = (if k' = k then (k, v) # m else (k', v') # map_put k v m)"

definition map_iter :: "localArgs \<Rightarrow> (u32 \<times> 'a) list \<Rightarrow> (u32 \<times> 'a) list" where
  "map_iter la m = List.map_filter (\<lambda>k. map_option (Pair k) (map_of m k)) (map_order la (map fst m))"

definition chan_mask_reg :: "u32 \<Rightarrow> nat \<Rightarrow> nat \<Rightarrow> string" where
  "chan_mask_reg ohN vfatN chan = channel_reg ohN vfatN chan @ ''.MASK''"

definition setSingleChanMask :: "u32 \<Rightarrow> nat \<Rightarrow> u32 \<Rightarrow> localArgs \<Rightarrow> (u32 \<times> u32) list prog" where
  "setSingleChanMask ohN vfatN ch la =
     foldM (\<lambda>chan map_chanOrigMask.
       (let chMask = (if ch = of_nat chan then 0 else 1); regBuf = chan_mask_reg ohN vfatN chan
        in bindM (getAddress la regBuf) (\<lambda>chanMaskAddr.
           bindM (readReg la regBuf) (\<lambda>w.
           thenM (writeRawAddress la chanMaskAddr chMask)
             (ret (map_put chanMaskAddr w map_chanOrigMask)))))) [0..<128] []"

definition applyChanMask :: "(u32 \<times> u32) list \<Rightarrow> localArgs \<Rightarrow> unit prog" where
  "applyChanMask map_chanOrigMask la = forM (map_iter la map_chanOrigMask) (\<lambda>(a, w). writeRawAddress la a w)"

section \<open>Calibration pulses\<close>

definition calpulse_reg :: "u32 \<Rightarrow> nat \<Rightarrow> u32 \<Rightarrow> string" where
  "calpulse_reg ohN vfatN ch = vfat_reg ohN vfatN (''VFAT_CHANNELS.CHANNEL'' @ fmt_i ch @ ''.CALPULSE_ENABLE'')"

definition confCalPulseLocal :: "localArgs \<Rightarrow> u32 \<Rightarrow> u32 \<Rightarrow> u32 \<Rightarrow> bool \<Rightarrow> bool \<Rightarrow> u32 \<Rightarrow> bool prog" where
  "confCalPulseLocal la ohN vmask ch toggleOn currentPulse calScaleFactor =
     (let notmask = not_mask vmask; cfg = (\<lambda>vfatN leaf. vfat_reg ohN vfatN leaf)
      in if ch \<ge> 128 \<and> toggleOn
         then thenM (set_error ''confCalPulseLocal(): I was told to calpulse all channels which doesn't make sense'') (ret False)
         else if ch = 128 \<and> \<not> toggleOn
         then thenM (forM [0..<24] (\<lambda>vfatN. whenM (bit notmask vfatN)
                (thenM (forM [0..<128] (\<lambda>chan. writeReg la (calpulse_reg ohN vfatN (of_nat chan)) 0x0))
                   (writeReg la (cfg vfatN ''CFG_CAL_MODE'') 0x0)))) (ret True)
         else thenM (forM [0..<24] (\<lambda>vfatN. whenM (bit notmask vfatN)
                (if toggleOn
                 then thenM (writeReg la (calpulse_reg ohN vfatN ch) 0x1)
                       (if currentPulse
                        then seqM [writeReg la (cfg vfatN ''CFG_CAL_MODE'') 0x2,
                                   writeReg la (cfg vfatN ''CFG_CAL_FS'') calScaleFactor,
                                   writeReg la (cfg vfatN ''CFG_CAL_DUR'') 0x0]
                        else writeReg la (cfg vfatN ''CFG_CAL_MODE'') 0x1)
                 else thenM (writeReg la (calpulse_reg ohN vfatN ch) 0x0)
                       (writeReg la (cfg vfatN ''CFG_CAL_MODE'') 0x0)))) (ret True))"

section \<open>DAQ monitor and TTC generator\<close>

abbreviation daq_mon :: string where
  "daq_mon \<equiv> ''GEM_AMC.GEM_TESTS.VFAT_DAQ_MONITOR.''"

abbreviation ttc_gen :: string where
  "ttc_gen \<equiv> ''GEM_AMC.TTC.GENERATOR.''"

definition dacMonConfLocal :: "localArgs \<Rightarrow> u32 \<Rightarrow> u32 \<Rightarrow> unit prog" where
  "dacMonConfLocal la ohN ch =
     bindM (fw_version_check la) (\<lambda>fw.
     if fw = 3 then
       seqM [writeReg la (daq_mon @ ''CTRL.ENABLE'') 0x0,
             writeReg la (daq_mon @ ''CTRL.RESET'') 0x1,
             writeReg la (daq_mon @ ''CTRL.OH_SELECT'') ohN,
             (if ch > 127 then writeReg la (daq_mon @ ''CTRL.VFAT_CHANNEL_GLOBAL_OR'') 0x1
              else thenM (writeReg la (daq_mon @ ''CTRL.VFAT_CHANNEL_SELECT'') ch)
                     (writeReg la (daq_mon @ ''CTRL.VFAT_CHANNEL_GLOBAL_OR'') 0x0))]
     else set_error ''dacMonConf is only supported in V3 electronics'')"

definition t1_base :: "u32 \<Rightarrow> string" where
  "t1_base ohN = ''GEM_AMC.OH.OH'' @ fmt_u ohN @ ''.T1Controller''"

definition ttcGenToggleLocal :: "localArgs \<Rightarrow> u32 \<Rightarrow> bool \<Rightarrow> unit prog" where
  "ttcGenToggleLocal la ohN enable =
     bindM (fw_version_check la) (\<lambda>fw.
     if fw = 3 then writeReg la (ttc_gen @ ''ENABLE'') (if enable then 0x1 else 0x0)
     else if fw = 1 then
       bindM (readReg la (t1_base ohN @ ''.MONITOR'')) (\<lambda>running.
         if enable then whenM (running = 0) (writeReg la (t1_base ohN @ ''.TOGGLE'') 0x1)
         else whenM (running \<noteq> 0) (writeReg la (t1_base ohN @ ''.TOGGLE'') 0x0))
     else ret ())"

definition ttcGenToggle :: "localArgs \<Rightarrow> rpc_request \<Rightarrow> unit prog" where
  "ttcGenToggle la request =
     bindM (get_word request ''ohN'') (\<lambda>ohN.
     bindM (get_word request ''enable'') (\<lambda>enable.
       ttcGenToggleLocal la ohN (enable \<noteq> 0)))"

text \<open>Each value of the first firmware's controller is read back for the log.\<close>

definition t1_set :: "localArgs \<Rightarrow> u32 \<Rightarrow> string \<Rightarrow> u32 \<Rightarrow> unit prog" where
  "t1_set la ohN leaf v =
     thenM (writeReg la (t1_base ohN @ leaf) v) (bindM (readReg la (t1_base ohN @ leaf)) (\<lambda>_. ret ()))"

definition ttcGenConfLocal :: "localArgs \<Rightarrow> u32 \<Rightarrow> u32 \<Rightarrow> u32 \<Rightarrow> u32 \<Rightarrow> u32 \<Rightarrow> u32 \<Rightarrow> bool \<Rightarrow> unit prog" where
  "ttcGenConfLocal la ohN md typ pulseDelay L1Ainterval nPulses enable =
     thenM (bindM (fw_version_check la) (\<lambda>fw.
       if fw = 3 then
         seqM [writeReg la (ttc_gen @ ''RESET'') 0x1,
               writeReg la (ttc_gen @ ''CYCLIC_L1A_GAP'') L1Ainterval,
               writeReg la (ttc_gen @ ''CYCLIC_CALPULSE_TO_L1A_GAP'') pulseDelay]
       else if fw = 1 then
         seqM [writeReg la (t1_base ohN @ ''.RESET'') 0x1,
               t1_set la ohN ''.MODE'' md,
               whenM (md = 0) (t1_set la ohN ''.TYPE'' typ),
               whenM (md = 1) (t1_set la ohN ''.DELAY'' pulseDelay),
               whenM (md \<noteq> 2) (t1_set la ohN ''.INTERVAL'' L1Ainterval),
               t1_set la ohN ''.NUMBER'' nPulses]
       else ret ()))
     (ttcGenToggleLocal la ohN enable)"

definition ttcGenConf :: "localArgs \<Rightarrow> rpc_request \<Rightarrow> unit prog" where
  "ttcGenConf la request =
     bindM (get_word request ''ohN'') (\<lambda>ohN.
     bindM (get_word request ''mode'') (\<lambda>md.
     bindM (get_word request ''type'') (\<lambda>typ.
     bindM (get_word request ''pulseDelay'') (\<lambda>pulseDelay.
     bindM (get_word request ''L1Ainterval'') (\<lambda>L1Ainterval.
     bindM (get_word request ''nPulses'') (\<lambda>nPulses.
     bindM (get_word request ''enable'') (\<lambda>enable.
       ttcGenConfLocal la ohN md typ pulseDelay L1Ainterval nPulses (enable \<noteq> 0))))))))"


section \<open>The scan of a register\<close>

text \<open>The checks that the methods for the third firmware share; \<open>Inl\<close> is the \<^verbatim>\<open>return\<close> after an error.\<close>

definition cal_fs_error :: "u32 \<Rightarrow> string" where
  "cal_fs_error calScaleFactor = ''Bad value for CFG_CAL_FS: '' @ fmt_x calScaleFactor
     @ '', Possible values are {0b00, 0b01, 0b10, 0b11}. Exiting.''"

definition checked_vfats :: "localArgs \<Rightarrow> u32 \<Rightarrow> u32 \<Rightarrow> bool \<Rightarrow> u32 \<Rightarrow> bool prog" where
  "checked_vfats la ohN vmask currentPulse calScaleFactor =
     bindM (vfatSyncCheckLocal la ohN) (\<lambda>goodVFATs.
     if not_mask vmask AND goodVFATs \<noteq> not_mask vmask
     then thenM (set_error (not_synced_error goodVFATs (not_mask vmask))) (ret False)
     else if currentPulse \<and> calScaleFactor > 3
     then thenM (set_error (cal_fs_error calScaleFactor)) (ret False)
     else ret True)"

definition calpulse_error :: "string \<Rightarrow> u32 \<Rightarrow> u32 \<Rightarrow> u32 \<Rightarrow> string" where
  "calpulse_error what ohN vmask ch = ''Unable to configure calpulse '' @ what @ '' for ohN '' @ fmt_i ohN
     @ '' mask '' @ fmt_x vmask @ '' chan '' @ fmt_i ch"

text \<open>Waiting for the triggers: the external ones are counted, the internal generator says when it is done.\<close>

partial_function (option) l1a_wait :: "localArgs \<Rightarrow> u32 \<Rightarrow> u32 \<Rightarrow> u32 \<Rightarrow> mach \<Rightarrow> (unit outcome \<times> mach) option" where
  "l1a_wait la l1CntAddr nevts l1aCnt s =
     (if l1aCnt < nevts
      then bindM (readRawAddress la l1CntAddr) (\<lambda>c.
           bindM (sleep_us 200) (\<lambda>_ u. l1a_wait la l1CntAddr nevts c u)) s
      else ret () s)"

partial_function (option) cyclic_wait :: "localArgs \<Rightarrow> mach \<Rightarrow> (unit outcome \<times> mach) option" where
  "cyclic_wait la s =
     bindM (readReg la (ttc_gen @ ''CYCLIC_RUNNING'')) (\<lambda>running t.
       if running \<noteq> 0 then bindM (sleep_us 50) (\<lambda>_ u. cyclic_wait la u) t else ret () t) s"

definition scan_triggers :: "localArgs \<Rightarrow> bool \<Rightarrow> u32 \<Rightarrow> u32 \<Rightarrow> unit prog" where
  "scan_triggers la useExtTrig l1CntAddr nevts =
     (if useExtTrig
      then seqM [writeReg la ''GEM_AMC.TTC.CTRL.CNT_RESET'' 0x1,
                 writeReg la ''GEM_AMC.TTC.CTRL.L1A_ENABLE'' 0x1,
                 l1a_wait la l1CntAddr nevts 0,
                 writeReg la ''GEM_AMC.TTC.CTRL.L1A_ENABLE'' 0x0,
                 bindM (readRawAddress la l1CntAddr) (\<lambda>_. ret ())]
      else thenM (writeReg la (ttc_gen @ ''CYCLIC_START'') 0x1)
             (bindM (readReg la (ttc_gen @ ''ENABLE'')) (\<lambda>enabled. whenM (enabled \<noteq> 0) (cyclic_wait la))))"

definition cfg_reg :: "u32 \<Rightarrow> nat \<Rightarrow> string \<Rightarrow> string" where
  "cfg_reg ohN vfatN scanReg = vfat_reg ohN vfatN (''CFG_'' @ c_str scanReg)"

text \<open>The result of a VFAT, and the four registers that are read for the log.\<close>

definition scan_result ::
  "localArgs \<Rightarrow> u32 \<Rightarrow> u32 \<Rightarrow> u32 \<Rightarrow> u32 \<Rightarrow> u32 \<Rightarrow> string \<Rightarrow> u32 list \<Rightarrow> u32 \<Rightarrow> nat \<Rightarrow> u32 list \<Rightarrow> u32 list prog" where
  "scan_result la ohN notmask dacMin dacMax dacStep scanReg daqMonAddr dacVal vfatN outData =
     (if \<not> bit notmask vfatN then ret outData
      else
        bindM (scan_slot vfatN dacMin dacMax dacStep dacVal) (\<lambda>idx.
        bindM (readRawAddress la (daqMonAddr ! vfatN)) (\<lambda>w.
        bindM (arr_set outData idx w) (\<lambda>outData.
        thenM (forM [cfg_reg ohN vfatN scanReg, daq_mon @ ''VFAT'' @ dec vfatN @ ''.CHANNEL_FIRE_COUNT'',
                     daq_mon @ ''VFAT'' @ dec vfatN @ ''.GOOD_EVENTS_COUNT'', cfg_reg ohN vfatN ''THR_ARM_DAC'']
                 (\<lambda>r. bindM (readReg la r) (\<lambda>_. ret ())))
          (ret outData)))))"

definition scan_dac ::
  "localArgs \<Rightarrow> u32 \<Rightarrow> u32 \<Rightarrow> u32 \<Rightarrow> u32 \<Rightarrow> u32 \<Rightarrow> u32 \<Rightarrow> string \<Rightarrow> bool \<Rightarrow> u32 \<Rightarrow> u32 list \<Rightarrow>
     u32 \<Rightarrow> u32 list \<Rightarrow> (unit + u32 list) prog" where
  "scan_dac la ohN notmask nevts dacMin dacMax dacStep scanReg useExtTrig l1CntAddr daqMonAddr dacVal outData =
     thenM (forM [0..<24] (\<lambda>vfatN. whenM (bit notmask vfatN) (writeReg la (cfg_reg ohN vfatN scanReg) dacVal))) (
     thenM (writeReg la (daq_mon @ ''CTRL.RESET'') 0x1) (
     thenM (writeReg la (daq_mon @ ''CTRL.ENABLE'') 0x1) (
     thenM (scan_triggers la useExtTrig l1CntAddr nevts) (
     thenM (writeReg la (daq_mon @ ''CTRL.ENABLE'') 0x0) (
     bindM (foldM (scan_result la ohN notmask dacMin dacMax dacStep scanReg daqMonAddr dacVal) [0..<24] outData)
       (\<lambda>d. ret (Inr d)))))))"

definition gen_scan_v3 ::
  "localArgs \<Rightarrow> u32 list \<Rightarrow> u32 \<Rightarrow> u32 \<Rightarrow> u32 \<Rightarrow> bool \<Rightarrow> bool \<Rightarrow> u32 \<Rightarrow> u32 \<Rightarrow> u32 \<Rightarrow> u32 \<Rightarrow> u32 \<Rightarrow> string \<Rightarrow> bool \<Rightarrow>
     u32 list prog" where
  "gen_scan_v3 la outData ohN vmask ch useCalPulse currentPulse calScaleFactor nevts dacMin dacMax dacStep scanReg useExtTrig =
     bindM (checked_vfats la ohN vmask currentPulse calScaleFactor) (\<lambda>good.
     if \<not> good then ret outData
     else
       bindM (if useCalPulse then confCalPulseLocal la ohN vmask ch True currentPulse calScaleFactor else ret True) (\<lambda>conf.
       if \<not> conf then thenM (set_error (calpulse_error ''ON'' ohN vmask ch)) (ret outData)
       else
         bindM (getAddress la ''GEM_AMC.TTC.CMD_COUNTERS.L1A'') (\<lambda>l1CntAddr.
         bindM (collectM [0..<24] (\<lambda>vfatN. getAddress la (daq_mon @ ''VFAT'' @ dec vfatN @ ''.GOOD_EVENTS_COUNT''))) (\<lambda>daqMonAddr.
         thenM (if useExtTrig
                then thenM (writeReg la ''GEM_AMC.TTC.CTRL.L1A_ENABLE'' 0x0) (writeReg la ''GEM_AMC.TTC.CTRL.CNT_RESET'' 0x1)
                else thenM (writeReg la (ttc_gen @ ''CYCLIC_L1A_COUNT'') nevts) (writeReg la (ttc_gen @ ''SINGLE_RESYNC'') 0x1)) (
         thenM (dacMonConfLocal la ohN ch) (
         bindM (for_step dacMax dacStep
             (scan_dac la ohN (not_mask vmask) nevts dacMin dacMax dacStep scanReg useExtTrig l1CntAddr daqMonAddr)
             dacMin outData) (\<lambda>r.
         bindM (ret (case r of Inl _ \<Rightarrow> outData | Inr d \<Rightarrow> d)) (\<lambda>outData.
         bindM (if useCalPulse then confCalPulseLocal la ohN vmask ch False currentPulse calScaleFactor else ret True) (\<lambda>conf.
         thenM (whenM (\<not> conf) (set_error (calpulse_error ''OFF'' ohN vmask ch)))
           (ret outData))))))))))"

text \<open>
  The first firmware: the scanned register chooses the mode of the scan module. An unknown register
  sets an error and goes on with mode 1000.
\<close>

definition known_regs :: "string list" where
  "known_regs = [''VThreshold1'', ''VThreshold1PerChan'', ''Latency'', ''VCal'', ''VThreshold1Trk'']"

definition scanmode_of :: "string \<Rightarrow> u32" where
  "scanmode_of scanReg = (case find (\<lambda>i. known_regs ! i = scanReg) [0..<5] of Some i \<Rightarrow> of_nat i | None \<Rightarrow> 1000)"

definition first_vfat :: "u32 \<Rightarrow> u32" where
  "first_vfat notmask = (case find (bit notmask) [0..<24] of Some v \<Rightarrow> of_nat v | None \<Rightarrow> 0)"

definition trim_pulse :: "localArgs \<Rightarrow> u32 \<Rightarrow> u32 \<Rightarrow> u32 \<Rightarrow> u32 \<Rightarrow> unit prog" where
  "trim_pulse la ohN notmask ch pulse =
     forM [0..<24] (\<lambda>vfat. whenM (bit notmask vfat)
       (bindM (readReg la (chan_reg ohN (dec vfat) (fmt_i ch))) (\<lambda>w.
          writeReg la (chan_reg ohN (dec vfat) (fmt_i ch)) ((0x3f AND w) + pulse))))"

definition gen_scan_v1 ::
  "localArgs \<Rightarrow> u32 list \<Rightarrow> u32 \<Rightarrow> u32 \<Rightarrow> u32 \<Rightarrow> bool \<Rightarrow> u32 \<Rightarrow> u32 \<Rightarrow> u32 \<Rightarrow> u32 \<Rightarrow> string \<Rightarrow> bool \<Rightarrow> u32 list prog" where
  "gen_scan_v1 la outData ohN vmask ch useCalPulse nevts dacMin dacMax dacStep scanReg useUltra =
     (let scanmode = scanmode_of scanReg;
          vfatN = (if useUltra then 0 else first_vfat (not_mask vmask))
      in thenM (whenM (scanmode = 1000)
             (set_error (''scanReg: '' @ scanReg @ '' not understood.  Supported values are:'' @ [CHR 0x0a]))) (
         thenM (configureScanModuleLocal la ohN vfatN scanmode useUltra vmask ch nevts dacMin dacMax dacStep) (
         thenM (printScanConfigurationLocal la ohN useUltra) (
         if useCalPulse \<and> ch \<ge> 128
         then thenM (set_error ''It doesn't make sense to calpulse all channels'') (ret outData)
         else
           thenM (whenM useCalPulse (trim_pulse la ohN (not_mask vmask) ch 64)) (
           thenM (startScanModuleLocal la ohN useUltra) (
           thenM (whenM useCalPulse (trim_pulse la ohN (not_mask vmask) ch 0))
             (getUltraScanResultsLocal la outData ohN nevts dacMin dacMax dacStep)))))))"

definition genScanLocal ::
  "localArgs \<Rightarrow> u32 list \<Rightarrow> u32 \<Rightarrow> u32 \<Rightarrow> u32 \<Rightarrow> bool \<Rightarrow> bool \<Rightarrow> u32 \<Rightarrow> u32 \<Rightarrow> u32 \<Rightarrow> u32 \<Rightarrow> u32 \<Rightarrow> string \<Rightarrow> bool \<Rightarrow> bool \<Rightarrow>
     u32 list prog" where
  "genScanLocal la outData ohN vmask ch useCalPulse currentPulse calScaleFactor nevts dacMin dacMax dacStep scanReg
       useUltra useExtTrig =
     bindM (fw_version_check la) (\<lambda>fw.
     if fw = 3
     then gen_scan_v3 la outData ohN vmask ch useCalPulse currentPulse calScaleFactor nevts dacMin dacMax dacStep scanReg useExtTrig
     else if fw = 1
     then gen_scan_v1 la outData ohN vmask ch useCalPulse nevts dacMin dacMax dacStep scanReg useUltra
     else ret outData)"

text \<open>The parameters of a scan request, in the order in which each method asks for them.\<close>

definition genScan :: "localArgs \<Rightarrow> rpc_request \<Rightarrow> unit prog" where
  "genScan la request =
     bindM (get_word request ''nevts'') (\<lambda>nevts.
     bindM (get_word request ''ohN'') (\<lambda>ohN.
     bindM (get_word request ''ch'') (\<lambda>ch.
     bindM (get_word request ''mask'') (\<lambda>vmask.
     bindM (get_word request ''dacMin'') (\<lambda>dacMin.
     bindM (get_word request ''dacMax'') (\<lambda>dacMax.
     bindM (get_word request ''dacStep'') (\<lambda>dacStep.
     bindM (get_word request ''useCalPulse'') (\<lambda>useCalPulse.
     bindM (get_word request ''currentPulse'') (\<lambda>currentPulse.
     bindM (get_word request ''calScaleFactor'') (\<lambda>calScaleFactor.
     bindM (get_string request ''scanReg'') (\<lambda>scanReg.
     bindM (get_word request ''useExtTrig'') (\<lambda>useExtTrig.
     bindM (scan_array la 24 dacMin dacMax dacStep) (\<lambda>outData.
     bindM (genScanLocal la outData ohN vmask ch (useCalPulse \<noteq> 0) (currentPulse \<noteq> 0) calScaleFactor nevts
              dacMin dacMax dacStep scanReg (rq_exists request ''useUltra'') (useExtTrig \<noteq> 0)) (\<lambda>outData.
       set_word_array ''data'' outData))))))))))))))"

text \<open>
  \<^verbatim>\<open>&outData[ch*24*(dacMax-dacMin+1)/dacStep]\<close>: each channel works on the rest of the array from there;
  a position behind the end is undefined.
\<close>

definition scan_channel ::
  "localArgs \<Rightarrow> u32 \<Rightarrow> u32 \<Rightarrow> bool \<Rightarrow> bool \<Rightarrow> u32 \<Rightarrow> u32 \<Rightarrow> u32 \<Rightarrow> u32 \<Rightarrow> u32 \<Rightarrow> string \<Rightarrow> bool \<Rightarrow> bool \<Rightarrow>
     nat \<Rightarrow> u32 list \<Rightarrow> u32 list prog" where
  "scan_channel la ohN vmask useCalPulse currentPulse calScaleFactor nevts dacMin dacMax dacStep scanReg useUltra useExtTrig
       ch outData =
     (if dacStep = 0 then abortM Trap
      else
        (let pos = unat (scan_len (ch * 24) dacMin dacMax dacStep)
         in if pos > length outData then abortM Undefined
            else bindM (genScanLocal la (drop pos outData) ohN vmask (of_nat ch) useCalPulse currentPulse calScaleFactor nevts
                   dacMin dacMax dacStep scanReg useUltra useExtTrig)
                   (\<lambda>d. ret (take pos outData @ d))))"

definition genChannelScan :: "localArgs \<Rightarrow> rpc_request \<Rightarrow> unit prog" where
  "genChannelScan la request =
     bindM (get_word request ''nevts'') (\<lambda>nevts.
     bindM (get_word request ''ohN'') (\<lambda>ohN.
     bindM (get_word request ''mask'') (\<lambda>vmask.
     bindM (get_word request ''dacMin'') (\<lambda>dacMin.
     bindM (get_word request ''dacMax'') (\<lambda>dacMax.
     bindM (get_word request ''dacStep'') (\<lambda>dacStep.
     bindM (get_word request ''useCalPulse'') (\<lambda>useCalPulse.
     bindM (get_word request ''currentPulse'') (\<lambda>currentPulse.
     bindM (get_word request ''calScaleFactor'') (\<lambda>calScaleFactor.
     bindM (get_word request ''useExtTrig'') (\<lambda>useExtTrig.
     bindM (get_string request ''scanReg'') (\<lambda>scanReg.
     bindM (scan_array la (128 * 24) dacMin dacMax dacStep) (\<lambda>outData.
     bindM (foldM (scan_channel la ohN vmask (useCalPulse \<noteq> 0) (currentPulse \<noteq> 0) calScaleFactor nevts
              dacMin dacMax dacStep scanReg (rq_exists request ''useUltra'') (useExtTrig \<noteq> 0)) [0..<128] outData) (\<lambda>outData.
       set_word_array ''data'' outData)))))))))))))"

end
