(* ===== verification/Configure.thy ===== *)
theory Configure
  imports Calibration
begin

text \<open>
  What configuring leaves in the registers of the VFATs: the settings of the configuration files
  (\<^verbatim>\<open>configureVFAT3sLocal\<close> of \<^verbatim>\<open>src/vfat3.cpp\<close>) and the calibration pulse (\<^verbatim>\<open>confCalPulseLocal\<close> of
  \<^verbatim>\<open>src/calibration_routines.cpp\<close>).
\<close>

section \<open>Lists of writes\<close>

text \<open>The last entry for a key.\<close>

definition latest :: "('k \<times> 'v) list \<Rightarrow> 'k \<Rightarrow> 'v option" where
  "latest ps k = map_of (rev ps) k"

lemma latest_simps [simp]:
  "latest [] k = None"
  "latest (ps @ [(j, v)]) k = (if k = j then Some v else latest ps k)"
  by (simp_all add: latest_def)

lemma latest_map: "inj f \<Longrightarrow> latest (map (\<lambda>(d, x). (f d, x)) ps) (f d) = latest ps d"
  by (induction ps rule: rev_induct) (auto simp: inj_eq)

lemma last_write_append:
  "rf.last_write nd (a @ b) q w = rf.last_write nd b q (rf.last_write nd a q w)"
  by (induction a arbitrary: w) auto

lemma last_write_latest:
  "rf.last_write nd ws q w = (case latest ws q of None \<Rightarrow> w | Some v \<Rightarrow> reg_fits nd q v)"
  by (induction ws rule: rev_induct) (auto simp: last_write_append)

text \<open>One block of writes for each of several parts, to registers that no other part has.\<close>

definition block :: "('p \<Rightarrow> 'd \<Rightarrow> string) \<Rightarrow> ('p \<Rightarrow> ('d \<times> u32) list) \<Rightarrow> 'p \<Rightarrow> (string \<times> u32) list" where
  "block reg ws p = map (\<lambda>(d, x). (reg p d, x)) (ws p)"

lemma latest_none: "q \<notin> fst ` set ws \<Longrightarrow> latest ws q = None"
  by (simp add: latest_def map_of_eq_None_iff)

lemma last_write_blocks:
  assumes inj: "\<And>p p' d d'. reg p d = reg p' d' \<longleftrightarrow> p = p' \<and> d = d'"
  shows "rf.last_write nd (concat (map (block reg ws) ps)) (reg p d) w
    = (if p \<in> set ps then case latest (ws p) d of None \<Rightarrow> w | Some x \<Rightarrow> reg_fits nd (reg p d) x else w)"
proof (induction ps arbitrary: w)
  case (Cons p' ps)
  have "rf.last_write nd (block reg ws p') (reg p d) w
      = (if p = p' then case latest (ws p) d of None \<Rightarrow> w | Some x \<Rightarrow> reg_fits nd (reg p d) x else w)"
  proof (cases "p = p'")
    case True
    have "inj (reg p')" by (simp add: inj_def inj)
    then show ?thesis unfolding True by (simp add: last_write_latest block_def latest_map True)
  next
    case False
    then have "reg p d \<notin> fst ` set (block reg ws p')" by (auto simp: block_def inj)
    then show ?thesis using False by (simp add: last_write_latest latest_none)
  qed
  then show ?case using Cons by (auto simp: last_write_append split: option.split)
qed simp

section \<open>Configuration files\<close>

text \<open>The settings of a file, up to the first line that cannot be read.\<close>

fun readable :: "string list \<Rightarrow> (string \<times> u32) list" where
  "readable [] = []"
| "readable (line # ls) = (case dac_setting line of None \<Rightarrow> [] | Some p \<Rightarrow> p # readable ls)"

definition broken :: "string list \<Rightarrow> bool" where
  "broken ls \<longleftrightarrow> (\<exists>line \<in> set ls. dac_setting line = None)"

definition vfat_cfg :: "u32 \<Rightarrow> nat \<Rightarrow> string \<Rightarrow> string" where
  "vfat_cfg ohN v d = ''GEM_AMC.OH.OH'' @ fmt_u ohN @ ''.GEB.VFAT'' @ dec v @ ''.CFG_'' @ d"

lemma vfat_cfg_inj: "vfat_cfg ohN v d = vfat_cfg ohN v' d' \<longleftrightarrow> v = v' \<and> d = d'"
  by (auto simp: vfat_cfg_def dest: dec_dot)

definition file_loop :: "localArgs \<Rightarrow> u32 \<Rightarrow> nat \<Rightarrow> string list \<Rightarrow> unit option prog" where
  "file_loop la ohN v ls = loopM ls (\<lambda>line. case dac_setting line of
       None \<Rightarrow> thenM (set_error ''Error reading settings'') (ret (Some ()))
     | Some (dacName, dacVal) \<Rightarrow> thenM (writeReg la (vfat_cfg ohN v dacName) dacVal) (ret None))"

definition read_error :: "bool \<Rightarrow> (string \<Rightarrow> rpc_val option) \<Rightarrow> string \<Rightarrow> rpc_val option" where
  "read_error b m = (if b then m(''error'' \<mapsto> RStr ''Error reading settings'') else m)"

lemma settings_run:
  "reg_ok la nd R v0 s \<Longrightarrow> (\<And>d x. (d, x) \<in> set (readable ls) \<Longrightarrow> vfat_cfg ohN v d \<in> R) \<Longrightarrow>
     \<exists>r t. file_loop la ohN v ls s = Some (Val r, t) \<and> reg_ok la nd R v0 t
       \<and> resp t = read_error (broken ls) (resp s)
       \<and> (\<forall>q\<in>R. reg_val nd v0 q t = rf.last_write nd (map (\<lambda>(d, x). (vfat_cfg ohN v d, x)) (readable ls)) q (reg_val nd v0 q s))"
proof (induction ls arbitrary: s)
  case Nil
  then show ?case by (simp add: file_loop_def ret_def broken_def read_error_def)
next
  case (Cons line ls)
  show ?case
  proof (cases "dac_setting line")
    case None
    let ?t = "s\<lparr>resp := (resp s)(''error'' \<mapsto> RStr ''Error reading settings'')\<rparr>"
    have "extends no_write (\<lambda>k. k = ''error'') s ?t" by (simp add: extends_def)
    from rf.quiet [OF this Cons.prems(1)]
    have "reg_ok la nd R v0 ?t \<and> (\<forall>q\<in>R. reg_val nd v0 q ?t = reg_val nd v0 q s)" .
    then show ?thesis
      using None by (auto simp: file_loop_def set_string_def set_key_run ret_def bindM_Val thenM_Val broken_def read_error_def)
  next
    case (Some p)
    obtain d x where p: "p = (d, x)" by (cases p)
    have r: "vfat_cfg ohN v d \<in> R" using Cons.prems(2) [of d x] Some p by simp
    obtain u where u: "writeReg la (vfat_cfg ohN v d) x s = Some (Val (), u)" "reg_ok la nd R v0 u" "resp u = resp s"
      "reg_val nd v0 (vfat_cfg ohN v d) u = reg_fits nd (vfat_cfg ohN v d) x"
      "\<And>q. q \<in> R \<Longrightarrow> q \<noteq> vfat_cfg ohN v d \<Longrightarrow> reg_val nd v0 q u = reg_val nd v0 q s"
      by (rule rf.wr_run [OF r Cons.prems(1)]) (rule that)
    have "file_loop la ohN v (line # ls) s = file_loop la ohN v ls u"
      using u(1) Some p by (simp add: file_loop_def bindM_Val thenM_Val ret_def)
    moreover have "broken (line # ls) = broken ls" using Some by (simp add: broken_def)
    moreover have "(d', x') \<in> set (readable ls) \<Longrightarrow> vfat_cfg ohN v d' \<in> R" for d' x'
      using Cons.prems(2) [of d' x'] Some by simp
    ultimately show ?thesis using Cons.IH [OF u(2)] u(3-5) Some p by (auto split: if_splits)
  qed
qed

lemma read_error_twice: "read_error b (read_error a m) = read_error (a \<or> b) m"
  by (simp add: read_error_def)

definition files_loop :: "localArgs \<Rightarrow> u32 \<Rightarrow> u32 \<Rightarrow> nat list \<Rightarrow> unit option prog" where
  "files_loop la ohN m vs = loopM vs (\<lambda>v. if \<not> bit m v then ret None
     else (case file_lines la (config_file_name ohN v) of
         None \<Rightarrow> thenM (set_error (''could not open config file '' @ config_file_name ohN v)) (ret (Some ()))
       | Some ls \<Rightarrow> bindM (file_loop la ohN v (tl ls)) (\<lambda>_. ret None)))"

lemma files_run:
  "reg_ok la nd R v0 s \<Longrightarrow>
     (\<And>v. v \<in> set vs \<Longrightarrow> bit m v \<Longrightarrow> file_lines la (config_file_name ohN v) = Some (lines_of v)) \<Longrightarrow>
     (\<And>v d x. v \<in> set vs \<Longrightarrow> bit m v \<Longrightarrow> (d, x) \<in> set (readable (tl (lines_of v))) \<Longrightarrow> vfat_cfg ohN v d \<in> R) \<Longrightarrow>
     \<exists>t. files_loop la ohN m vs s = Some (Val None, t) \<and> reg_ok la nd R v0 t
       \<and> resp t = read_error (\<exists>v\<in>set vs. bit m v \<and> broken (tl (lines_of v))) (resp s)
       \<and> (\<forall>q\<in>R. reg_val nd v0 q t = rf.last_write nd
            (concat (map (block (vfat_cfg ohN) (\<lambda>v. readable (tl (lines_of v)))) (filter (bit m) vs))) q (reg_val nd v0 q s))"
proof (induction vs arbitrary: s)
  case Nil
  then show ?case by (simp add: files_loop_def ret_def read_error_def)
next
  case (Cons v vs)
  have IH: "\<exists>t. files_loop la ohN m vs u = Some (Val None, t) \<and> reg_ok la nd R v0 t
       \<and> resp t = read_error (\<exists>v\<in>set vs. bit m v \<and> broken (tl (lines_of v))) (resp u)
       \<and> (\<forall>q\<in>R. reg_val nd v0 q t = rf.last_write nd
            (concat (map (block (vfat_cfg ohN) (\<lambda>v. readable (tl (lines_of v)))) (filter (bit m) vs))) q (reg_val nd v0 q u))"
    if "reg_ok la nd R v0 u" for u
    by (rule Cons.IH [OF that]) (use Cons.prems(2,3) in auto)
  show ?case
  proof (cases "bit m v")
    case False
    then show ?thesis using IH [OF Cons.prems(1)] by (simp add: files_loop_def)
  next
    case True
    obtain r u where u: "file_loop la ohN v (tl (lines_of v)) s = Some (Val r, u)" "reg_ok la nd R v0 u"
      "resp u = read_error (broken (tl (lines_of v))) (resp s)"
      "\<forall>q\<in>R. reg_val nd v0 q u = rf.last_write nd (block (vfat_cfg ohN) (\<lambda>v. readable (tl (lines_of v))) v) q (reg_val nd v0 q s)"
      using settings_run [OF Cons.prems(1), of "tl (lines_of v)" ohN v] Cons.prems(3) [of v] True
      by (auto simp: block_def)
    have "files_loop la ohN m (v # vs) s = files_loop la ohN m vs u"
      using u(1) True Cons.prems(2) [of v] by (simp add: files_loop_def bindM_Val ret_def)
    then show ?thesis
      using IH [OF u(2)] u(3,4) True by (simp add: read_error_twice last_write_append)
  qed
qed

lemma configureVFAT3sLocal_eq:
  "configureVFAT3sLocal la ohN m = bindM (vfatSyncCheckLocal la ohN) (\<lambda>good.
     if not_mask m AND good \<noteq> not_mask m then set_error (not_synced_error good (not_mask m))
     else bindM (files_loop la ohN (not_mask m) [0..<24]) (\<lambda>_. ret ()))"
  unfolding configureVFAT3sLocal_def files_loop_def file_loop_def vfat_cfg_def by (rule HOL.refl)


text \<open>The device of the examples: the links of one OptoHybrid and two settings of its VFAT 0, which is in sync.\<close>

definition cfg_regs :: "string list" where
  "cfg_regs = map (\<lambda>v. link_leaf 0 v ''LINK_GOOD'') [0..<24] @ map (\<lambda>v. link_leaf 0 v ''SYNC_ERR_CNT'') [0..<24]
     @ map (vfat_cfg 0 0) [''LATENCY'', ''RUN'']"

definition cfg_env :: "string list \<Rightarrow> localArgs" where
  "cfg_env ls = (flat_env cfg_regs)\<lparr>file_lines := (\<lambda>f. Some ls)\<rparr>"

lemma cfg_ok: "reg_ok (cfg_env ls) (flat_node cfg_regs) (set cfg_regs) (\<lambda>a. 0) s"
proof -
  have "reg_ok (flat_env cfg_regs) (flat_node cfg_regs) (set cfg_regs) (\<lambda>a. 0) s"
    by (rule flat_ok) (auto simp: cfg_regs_def link_leaf_def vfat_cfg_def fmt_u_def fmt_i_def dec_no_nul)
  then show ?thesis by (simp add: reg_ok_def cfg_env_def has_node_def ram_on_def wf_table_def)
qed


section \<open>Calibration pulses\<close>

lemma fmt_i_inj: "fmt_i a = fmt_i b \<longleftrightarrow> a = b"
proof
  assume eq: "fmt_i a = fmt_i b"
  have minus: "dec n \<noteq> CHR ''-'' # x" for n x
    using set_fmt_nat [of 10 n] by (auto simp: dec_def dest: equalityD2)
  have "sint a = sint b"
    using eq minus minus [symmetric] by (auto simp: fmt_i_def dec_inj split: if_splits)
  then show "a = b" by (rule signed_word_eqI)
qed simp

lemma fmt_i_no_nul: "CHR 0x00 \<notin> set (fmt_i w)"
  by (simp add: fmt_i_def dec_no_nul)

definition pulse_leaf :: "u32 \<Rightarrow> string" where
  "pulse_leaf ch = ''VFAT_CHANNELS.CHANNEL'' @ fmt_i ch @ ''.CALPULSE_ENABLE''"

lemma pulse_leaf_simps [simp]:
  "pulse_leaf a = pulse_leaf b \<longleftrightarrow> a = b"
  "pulse_leaf a \<noteq> ''CFG_CAL_MODE''" "pulse_leaf a \<noteq> ''CFG_CAL_FS''" "pulse_leaf a \<noteq> ''CFG_CAL_DUR''"
  "''CFG_CAL_MODE'' \<noteq> pulse_leaf a" "''CFG_CAL_FS'' \<noteq> pulse_leaf a" "''CFG_CAL_DUR'' \<noteq> pulse_leaf a"
  by (simp_all add: pulse_leaf_def fmt_i_inj)

lemma vfat_reg_inj: "vfat_reg ohN v r = vfat_reg ohN v' r' \<longleftrightarrow> v = v' \<and> r = r'"
  by (auto simp: vfat_reg_def dest: dec_dot)

text \<open>The writes to one VFAT.\<close>

definition pulse_settings :: "u32 \<Rightarrow> bool \<Rightarrow> bool \<Rightarrow> u32 \<Rightarrow> (string \<times> u32) list" where
  "pulse_settings ch toggleOn currentPulse f =
     (if toggleOn then (pulse_leaf ch, 1) #
        (if currentPulse then [(''CFG_CAL_MODE'', 2), (''CFG_CAL_FS'', f), (''CFG_CAL_DUR'', 0)] else [(''CFG_CAL_MODE'', 1)])
      else map (\<lambda>c. (pulse_leaf c, 0)) (if ch = 128 then map of_nat [0..<128] else [ch]) @ [(''CFG_CAL_MODE'', 0)])"

lemma thenM_ret_right: "thenM m (ret ()) = m"
  by (simp add: thenM_def)

lemma forM_concat: "forM (concat (map g xs)) f = forM xs (\<lambda>x. forM (g x) f)"
  by (induction xs) (simp_all add: forM_append)

lemma confCalPulseLocal_eq:
  assumes "ch < 128 \<or> ch = 128 \<and> \<not> toggleOn"
  shows "confCalPulseLocal la ohN m ch toggleOn currentPulse f = thenM (forM
     (concat (map (block (vfat_reg ohN) (\<lambda>_. pulse_settings ch toggleOn currentPulse f)) (filter (bit (not_mask m)) [0..<24])))
     (\<lambda>(r, v). writeReg la r v)) (ret True)"
proof -
  have "\<not> (128 \<le> ch \<and> toggleOn)" "ch = 128 \<and> \<not> toggleOn \<or> ch \<noteq> 128"
    using assms by (auto simp: not_le)
  then show ?thesis
    by (cases toggleOn; cases "ch = 128"; cases currentPulse)
      (simp_all add: thenM_ret_right confCalPulseLocal_def Let_def forM_when forM_concat forM_map forM_append block_def
        pulse_settings_def calpulse_reg_def pulse_leaf_def)
qed

lemma latest_const: "latest (map (\<lambda>x. (g x, a)) xs) k = (if k \<in> g ` set xs then Some a else None)"
  by (induction xs rule: rev_induct) auto

lemma latest_Cons: "latest (p # ps) k = (case latest ps k of None \<Rightarrow> if fst p = k then Some (snd p) else None | Some v \<Rightarrow> Some v)"
  by (cases p) (auto simp: latest_def map_add_def split: option.split)

lemma latest_pulse_off:
  "latest (map (\<lambda>c. (pulse_leaf c, 0)) cs @ [(''CFG_CAL_MODE'', 0)]) k
    = (if k = ''CFG_CAL_MODE'' \<or> k \<in> pulse_leaf ` set cs then Some (0 :: u32) else None)"
  by (simp add: latest_const)

lemma latest_pulse:
  assumes "ch < 128 \<or> ch = 128 \<and> \<not> toggleOn"
  shows "c < 128 \<Longrightarrow> latest (pulse_settings ch toggleOn currentPulse f) (pulse_leaf (of_nat c))
      = (if ch = 128 \<or> ch = of_nat c then Some (if toggleOn then 1 else 0) else None)"
    and "latest (pulse_settings ch toggleOn currentPulse f) ''CFG_CAL_MODE''
      = Some (if \<not> toggleOn then 0 else if currentPulse then 2 else 1)"
    and "latest (pulse_settings ch toggleOn currentPulse f) ''CFG_CAL_FS'' = (if toggleOn \<and> currentPulse then Some f else None)"
    and "latest (pulse_settings ch toggleOn currentPulse f) ''CFG_CAL_DUR'' = (if toggleOn \<and> currentPulse then Some 0 else None)"
    and "latest (pulse_settings ch toggleOn currentPulse f) q \<noteq> None \<Longrightarrow>
      q \<in> (\<lambda>c. pulse_leaf (of_nat c)) ` {..<128} \<union> {''CFG_CAL_MODE'', ''CFG_CAL_FS'', ''CFG_CAL_DUR''}"
proof -
  let ?l = "latest (pulse_settings ch toggleOn currentPulse f)"
  have on: "ch \<noteq> 128" if toggleOn using assms that by auto
  have few: "ch = of_nat (unat ch) \<and> unat ch < 128" if "ch \<noteq> 128"
    using assms that by (auto simp: word_less_nat_alt)
  have mine: "pulse_leaf ch \<in> (\<lambda>c. pulse_leaf (of_nat c)) ` {..<128}" if "ch \<noteq> 128"
    using few [OF that] by (metis imageI lessThan_iff)
  have off: "?l k = (if k = ''CFG_CAL_MODE'' \<or> k \<in> pulse_leaf ` set (if ch = 128 then map of_nat [0..<128] else [ch])
      then Some 0 else None)" if "\<not> toggleOn" for k
    using that unfolding pulse_settings_def by (simp only: if_False latest_pulse_off)
  have on': "?l k = (if k = pulse_leaf ch then Some 1 else if k = ''CFG_CAL_MODE'' then Some (if currentPulse then 2 else 1)
      else if currentPulse \<and> k = ''CFG_CAL_FS'' then Some f else if currentPulse \<and> k = ''CFG_CAL_DUR'' then Some 0 else None)"
    if toggleOn for k
    using that by (simp add: pulse_settings_def latest_Cons)
  show "?l ''CFG_CAL_MODE'' = Some (if \<not> toggleOn then 0 else if currentPulse then 2 else 1)"
    "?l ''CFG_CAL_FS'' = (if toggleOn \<and> currentPulse then Some f else None)"
    "?l ''CFG_CAL_DUR'' = (if toggleOn \<and> currentPulse then Some 0 else None)"
    using off on' by (cases toggleOn; auto simp del: upt_rec_numeral)+
  show "?l (pulse_leaf (of_nat c)) = (if ch = 128 \<or> ch = of_nat c then Some (if toggleOn then 1 else 0) else None)" if "c < 128"
    using off on' on that by (cases toggleOn) (auto simp del: upt_rec_numeral)
  show "q \<in> (\<lambda>c. pulse_leaf (of_nat c)) ` {..<128} \<union> {''CFG_CAL_MODE'', ''CFG_CAL_FS'', ''CFG_CAL_DUR''}" if "?l q \<noteq> None"
    using off on' on mine that by (cases toggleOn) (auto simp del: upt_rec_numeral split: if_splits)
qed

text \<open>The registers that a calibration pulse of a VFAT sets.\<close>

definition pulse_regs :: "u32 \<Rightarrow> nat \<Rightarrow> string set" where
  "pulse_regs ohN v = (\<lambda>c. calpulse_reg ohN v (of_nat c)) ` {..<128}
     \<union> vfat_reg ohN v ` {''CFG_CAL_MODE'', ''CFG_CAL_FS'', ''CFG_CAL_DUR''}"

text \<open>
  C23 (calibration pulse): switching the pulse of one channel on or off, or of all channels off, succeeds and acts on exactly the
  VFATs that are not masked: the channel's enable bit is set or cleared and those of the other
  channels are left alone, the pulse mode is 1 for a voltage pulse, 2 for a current pulse and 0
  when switched off, and only a current pulse sets its scale factor and duration; no other register changes.
\<close>

theorem confCalPulseLocal_effect:
  assumes ok: "reg_ok la nd R v0 s" and ch: "ch < 128 \<or> ch = 128 \<and> \<not> toggleOn"
    and regs: "\<And>v. v < 24 \<Longrightarrow> \<not> bit vmask v \<Longrightarrow> pulse_regs ohN v \<subseteq> R"
  shows "\<exists>t. confCalPulseLocal la ohN vmask ch toggleOn currentPulse f s = Some (Val True, t) \<and> resp t = resp s
    \<and> (let old = (\<lambda>q. reg_val nd v0 q s); now = (\<lambda>q. reg_val nd v0 q t) in
       (\<forall>v<24. \<not> bit vmask v \<longrightarrow>
          (\<forall>c<128. let q = calpulse_reg ohN v (of_nat c) in
             now q = (if ch = 128 \<or> ch = of_nat c then reg_fits nd q (if toggleOn then 1 else 0) else old q))
        \<and> (let q = vfat_reg ohN v ''CFG_CAL_MODE'' in
             now q = reg_fits nd q (if \<not> toggleOn then 0 else if currentPulse then 2 else 1))
        \<and> (let q = vfat_reg ohN v ''CFG_CAL_FS'' in now q = (if toggleOn \<and> currentPulse then reg_fits nd q f else old q))
        \<and> (let q = vfat_reg ohN v ''CFG_CAL_DUR'' in now q = (if toggleOn \<and> currentPulse then reg_fits nd q 0 else old q)))
     \<and> (\<forall>q\<in>R. (\<forall>v<24. \<not> bit vmask v \<longrightarrow> q \<notin> pulse_regs ohN v) \<longrightarrow> now q = old q))"
proof -
  let ?p = "pulse_settings ch toggleOn currentPulse f"
  let ?ws = "concat (map (block (vfat_reg ohN) (\<lambda>_. ?p)) (filter (bit (not_mask vmask)) [0..<24]))"
  note l = latest_pulse [OF ch, where currentPulse = currentPulse and f = f]
  have leaf: "q \<in> (\<lambda>c. pulse_leaf (of_nat c)) ` {..<128} \<union> {''CFG_CAL_MODE'', ''CFG_CAL_FS'', ''CFG_CAL_DUR''}"
    if "(q, x) \<in> set ?p" for q x
  proof -
    have "q \<in> fst ` set ?p" using that by force
    then have "latest ?p q \<noteq> None" by (simp add: latest_def map_of_eq_None_iff)
    then show ?thesis by (rule l(5))
  qed
  have set_regs: "vfat_reg ohN v q \<in> pulse_regs ohN v" if "(q, x) \<in> set ?p" for v q x
    using leaf [OF that] by (auto simp: pulse_regs_def calpulse_reg_def pulse_leaf_def)
  have "fst ` set ?ws \<subseteq> R" using regs set_regs by (force simp: block_def not_mask_bit)
  then obtain t where t: "forM ?ws (\<lambda>(r, v). writeReg la r v) s = Some (Val (), t)" "resp t = resp s"
    "\<forall>q\<in>R. reg_val nd v0 q t = rf.last_write nd ?ws q (reg_val nd v0 q s)"
    using rf.writes_run [OF _ ok] by blast
  have "confCalPulseLocal la ohN vmask ch toggleOn currentPulse f s = Some (Val True, t)"
    using t(1) by (simp add: confCalPulseLocal_eq [OF ch] thenM_Val ret_def del: upt_rec_numeral)
  moreover have mine: "reg_val nd v0 (vfat_reg ohN v q) t
      = (case latest ?p q of None \<Rightarrow> reg_val nd v0 (vfat_reg ohN v q) s | Some x \<Rightarrow> reg_fits nd (vfat_reg ohN v q) x)"
    if "v < 24" "\<not> bit vmask v" "vfat_reg ohN v q \<in> R" for v q
    using that t(3) by (simp add: last_write_blocks [of "vfat_reg ohN", OF vfat_reg_inj] not_mask_bit del: upt_rec_numeral)
  moreover have "reg_val nd v0 q t = reg_val nd v0 q s"
    if "q \<in> R" "\<forall>v<24. \<not> bit vmask v \<longrightarrow> q \<notin> pulse_regs ohN v" for q
  proof -
    have "q \<notin> fst ` set ?ws" using that(2) set_regs by (auto simp: block_def not_mask_bit)
    from latest_none [OF this] show ?thesis using t(3) that(1) by (simp add: last_write_latest)
  qed
  moreover have "calpulse_reg ohN v (of_nat c) \<in> R" if "v < 24" "\<not> bit vmask v" "c < 128" for v c
    using regs [OF that(1,2)] that(3) by (auto simp: pulse_regs_def)
  moreover have "vfat_reg ohN v leaf \<in> R" if "v < 24" "\<not> bit vmask v" "leaf \<in> {''CFG_CAL_MODE'', ''CFG_CAL_FS'', ''CFG_CAL_DUR''}" for v leaf
    using regs [OF that(1,2)] that(3) by (auto simp: pulse_regs_def)
  ultimately show ?thesis
    using t(2) l(1-4) by (auto simp: Let_def calpulse_reg_def pulse_leaf_def)
qed

definition pulse_demo :: "string list" where
  "pulse_demo = map (\<lambda>c. calpulse_reg 0 0 (of_nat c)) [0..<128] @ map (vfat_reg 0 0) [''CFG_CAL_MODE'', ''CFG_CAL_FS'', ''CFG_CAL_DUR'']"

lemma pulse_ok: "reg_ok (flat_env pulse_demo) (flat_node pulse_demo) (set pulse_demo) (\<lambda>a. 0) s"
  by (rule flat_ok)
    (auto simp: pulse_demo_def calpulse_reg_def vfat_reg_def oh_base_def fmt_i_no_nul dec_no_nul)

theorem confCalPulseLocal_effect_witness:
  "\<exists>t. confCalPulseLocal (flat_env pulse_demo) 0 0xFFFFFE 5 True False 0 start_mach = Some (Val True, t)
     \<and> reg_val (flat_node pulse_demo) (\<lambda>a. 0) (calpulse_reg 0 0 5) t = 1
     \<and> reg_val (flat_node pulse_demo) (\<lambda>a. 0) (vfat_reg 0 0 ''CFG_CAL_MODE'') t = 1"
proof -
  have regs: "pulse_regs 0 v \<subseteq> set pulse_demo" if "v < 24" "\<not> bit (0xFFFFFE :: u32) v" for v
  proof -
    have "v = 0" using that mask_one_bit by blast
    then show ?thesis by (auto simp: pulse_regs_def pulse_demo_def simp del: upt_rec_numeral)
  qed
  have one: "reg_fits (flat_node pulse_demo) q x = x" for q x by (rule full_fits) (simp add: flat_node_def)
  have unmasked: "\<not> bit (0xFFFFFE :: u32) 0" by code_simp
  have "\<exists>t. confCalPulseLocal (flat_env pulse_demo) 0 0xFFFFFE 5 True False 0 start_mach = Some (Val True, t) \<and> resp t = resp start_mach
    \<and> (let old = (\<lambda>q. reg_val (flat_node pulse_demo) (\<lambda>a. 0) q start_mach); now = (\<lambda>q. reg_val (flat_node pulse_demo) (\<lambda>a. 0) q t) in
       (\<forall>v<24. \<not> bit (0xFFFFFE :: u32) v \<longrightarrow>
          (\<forall>c<128. let q = calpulse_reg 0 v (of_nat c) in
             now q = (if (5 :: u32) = 128 \<or> 5 = (of_nat c :: u32) then reg_fits (flat_node pulse_demo) q (if True then 1 else 0) else old q))
        \<and> (let q = vfat_reg 0 v ''CFG_CAL_MODE'' in
             now q = reg_fits (flat_node pulse_demo) q (if \<not> True then 0 else if False then 2 else 1))
        \<and> (let q = vfat_reg 0 v ''CFG_CAL_FS'' in now q = (if True \<and> False then reg_fits (flat_node pulse_demo) q 0 else old q))
        \<and> (let q = vfat_reg 0 v ''CFG_CAL_DUR'' in now q = (if True \<and> False then reg_fits (flat_node pulse_demo) q 0 else old q)))
     \<and> (\<forall>q\<in>set pulse_demo. (\<forall>v<24. \<not> bit (0xFFFFFE :: u32) v \<longrightarrow> q \<notin> pulse_regs 0 v) \<longrightarrow> now q = old q))"
    by (rule confCalPulseLocal_effect [OF pulse_ok _ regs]) simp_all
  then obtain t where t: "confCalPulseLocal (flat_env pulse_demo) 0 0xFFFFFE 5 True False 0 start_mach = Some (Val True, t)"
    and all: "\<forall>v<24. \<not> bit (0xFFFFFE :: u32) v \<longrightarrow>
       (\<forall>c<128. reg_val (flat_node pulse_demo) (\<lambda>a. 0) (calpulse_reg 0 v (of_nat c)) t
          = (if 5 = (of_nat c :: u32) then 1 else reg_val (flat_node pulse_demo) (\<lambda>a. 0) (calpulse_reg 0 v (of_nat c)) start_mach))
       \<and> reg_val (flat_node pulse_demo) (\<lambda>a. 0) (vfat_reg 0 v ''CFG_CAL_MODE'') t = 1"
    unfolding Let_def one by auto
  from all unmasked have zero: "\<forall>c<128. reg_val (flat_node pulse_demo) (\<lambda>a. 0) (calpulse_reg 0 0 (of_nat c)) t
          = (if 5 = (of_nat c :: u32) then 1 else reg_val (flat_node pulse_demo) (\<lambda>a. 0) (calpulse_reg 0 0 (of_nat c)) start_mach)"
    "reg_val (flat_node pulse_demo) (\<lambda>a. 0) (vfat_reg 0 0 ''CFG_CAL_MODE'') t = 1"
    by simp_all
  have "reg_val (flat_node pulse_demo) (\<lambda>a. 0) (calpulse_reg 0 0 5) t = 1" using zero(1) [rule_format, of 5] by simp
  with t zero(2) show ?thesis by blast
qed

end
