(* ===== verification/ChannelMask.thy ===== *)
theory ChannelMask
  imports Calibration
begin

text \<open>
  What \<^verbatim>\<open>setSingleChanMask\<close> and \<^verbatim>\<open>applyChanMask\<close> of \<^verbatim>\<open>src/calibration_routines.cpp\<close> do to the channel registers.
  Both write whole words where a field is meant.
\<close>

section \<open>Whole words\<close>

text \<open>The words of the device that behave as memory.\<close>

definition words :: "(u32 \<Rightarrow> u32) \<Rightarrow> mach \<Rightarrow> u32 \<Rightarrow> u32" where
  "words v0 s a = cell a (v0 a) (hist s)"

lemma words_quiet: "extends no_write K s t \<Longrightarrow> words v0 t = words v0 s"
  by (simp add: words_def fun_eq_iff cell_quiet)

lemma raw_write_run:
  assumes "ram_on la A v0" "a \<in> A"
  shows "\<exists>t. writeRawAddress la a w s = Some (Val (), t) \<and> resp t = resp s \<and> words v0 t = (words v0 s)(a := w)"
  using ram_on_write1 [OF assms]
  by (auto simp: writeRawAddress_def prog_simps whenM_def words_def fun_eq_iff cell_snoc wr_at_one simp del: wr_at.simps)

lemma node_read_run:
  assumes "ram_on la A v0" "real_address n \<in> A" "has_node la r n" "CHR ''r'' \<in> set (permission n)"
  shows "\<exists>t. readReg la r s = Some (Val (applyMask (words v0 s (real_address n)) (node_mask n)), t)
    \<and> resp t = resp s \<and> words v0 t = words v0 s"
proof -
  obtain f where f: "mem_rd la (hist s) (real_address n) 1 = Some f"
    "f 0 = cell (real_address n) (v0 (real_address n)) (hist s)"
    using ram_on_read1 [OF assms(1,2)] by blast
  let ?t = "s\<lparr>hist := hist s @ [MemRead (real_address n) 1 (Some [f 0])]\<rparr>"
  have "extends no_write no_key s ?t" by (simp add: extends_def)
  from words_quiet [OF this] have "words v0 ?t = words v0 s" .
  then show ?thesis
    using f by (auto simp: readReg_node [OF assms(3,4)] words_def rd_event_def)
qed

section \<open>Setting and restoring\<close>

text \<open>
  The mask registers of the channels of a VFAT: bit 14 of words of their own, as in the words that the pulse
  checks of the same file build.
\<close>

definition chan_words :: "localArgs \<Rightarrow> (nat \<Rightarrow> node) \<Rightarrow> u32 \<Rightarrow> nat \<Rightarrow> (u32 \<Rightarrow> u32) \<Rightarrow> bool" where
  "chan_words la nd ohN v v0 \<longleftrightarrow>
     (\<forall>c<128. has_node la (chan_mask_reg ohN v c) (nd c) \<and> CHR ''r'' \<in> set (permission (nd c)) \<and> node_mask (nd c) = 0x4000)
     \<and> inj_on (\<lambda>c. real_address (nd c)) {..<128} \<and> ram_on la ((\<lambda>c. real_address (nd c)) ` {..<128}) v0"

lemma mask_field: "applyMask w 0x4000 = (if bit w 14 then 1 else 0)"
proof (rule word_bit_eqI)
  fix i
  have low: "low_bit 0x4000 = 14" by code_simp
  have m: "(0x4000 :: u32) = 2 ^ 14" by simp
  have one: "bit (0x4000 :: u32) j \<longleftrightarrow> j = 14" for j
    unfolding m bit_exp_iff by (auto simp: possible_bit_def)
  have "bit (applyMask w 0x4000) i \<longleftrightarrow> bit w (i + 14) \<and> i = 0"
    unfolding applyMask_bits low one by simp
  then show "bit (applyMask w 0x4000) i = bit (if bit w 14 then 1 else 0 :: u32) i"
    by (cases "bit w 14"; cases "i = 0") (simp_all add: bit_1_iff)
qed

lemma map_of_put: "map_of (map_put k v m) = (map_of m)(k \<mapsto> v)"
  by (induction m) auto

lemma set_put: "fst ` set (map_put k v m) = insert k (fst ` set m)"
proof (induction m)
  case (Cons p m)
  obtain a b where p: "p = (a, b)" by (cases p)
  show ?case by (cases "a = k") (simp_all add: p Cons insert_commute)
qed simp

lemma set_each_run:
  assumes w: "chan_words la nd ohN v v0"
  shows "distinct cs \<Longrightarrow> set cs \<subseteq> {..<128} \<Longrightarrow>
    \<exists>t. foldM (\<lambda>chan m. (let chMask = (if ch = of_nat chan then 0 else 1); regBuf = chan_mask_reg ohN v chan
        in bindM (getAddress la regBuf) (\<lambda>a. bindM (readReg la regBuf) (\<lambda>w.
           thenM (writeRawAddress la a chMask) (ret (map_put a w m)))))) cs acc s
      = Some (Val (fold (\<lambda>c. map_put (real_address (nd c)) (applyMask (words v0 s (real_address (nd c))) 0x4000)) cs acc), t)
    \<and> resp t = resp s
    \<and> words v0 t = fold (\<lambda>c m. m(real_address (nd c) := (if ch = of_nat c then 0 else 1))) cs (words v0 s)"
proof (induction cs arbitrary: acc s)
  case Nil
  then show ?case by (simp add: ret_def)
next
  case (Cons c cs)
  let ?a = "\<lambda>c. real_address (nd c)"
  have c: "c < 128" "has_node la (chan_mask_reg ohN v c) (nd c)" "CHR ''r'' \<in> set (permission (nd c))" "node_mask (nd c) = 0x4000"
    and A: "ram_on la (?a ` {..<128}) v0" "?a c \<in> ?a ` {..<128}"
    using w Cons.prems by (auto simp: chan_words_def)
  obtain b where b: "readReg la (chan_mask_reg ohN v c) s = Some (Val (applyMask (words v0 s (?a c)) 0x4000), b)"
    "resp b = resp s" "words v0 b = words v0 s"
    using node_read_run [OF A c(2,3), of s] c(4) by auto
  obtain t where t: "writeRawAddress la (?a c) (if ch = of_nat c then 0 else 1) b = Some (Val (), t)" "resp t = resp b"
    "words v0 t = (words v0 b)(?a c := (if ch = of_nat c then 0 else 1))"
    using raw_write_run [OF A] by blast
  have "words v0 t (?a c') = words v0 s (?a c')" if "c' \<in> set cs" for c'
  proof -
    have "?a c' \<noteq> ?a c" using w that Cons.prems by (auto simp: chan_words_def inj_on_def)
    then show ?thesis using t(3) b(3) by simp
  qed
  then have "fold (\<lambda>c. map_put (?a c) (applyMask (words v0 t (?a c)) 0x4000)) cs acc'
      = fold (\<lambda>c. map_put (?a c) (applyMask (words v0 s (?a c)) 0x4000)) cs acc'" for acc'
    by (intro fold_cong) simp_all
  then show ?case
    using Cons.IH [of "map_put (?a c) (applyMask (words v0 s (?a c)) 0x4000) acc" t] Cons.prems t b
    by (simp add: getAddress_node [OF c(2)] bindM_Val thenM_Val Let_def ret_def)
qed

text \<open>Restoring: the keys may come in any order, each brings its own value.\<close>

lemma fold_consistent:
  "\<forall>(a, w) \<in> set es. g a = w \<Longrightarrow> fold (\<lambda>(a, w) m. m(a := w)) es m b = (if b \<in> fst ` set es then g b else m b)"
  by (induction es arbitrary: m) auto

lemma apply_run:
  assumes "ram_on la A v0" "fst ` set es \<subseteq> A"
  shows "\<exists>t. forM es (\<lambda>(a, w). writeRawAddress la a w) s = Some (Val (), t) \<and> resp t = resp s
    \<and> words v0 t = fold (\<lambda>(a, w) m. m(a := w)) es (words v0 s)"
  using assms(2)
proof (induction es arbitrary: s)
  case Nil
  then show ?case by (simp add: ret_def)
next
  case (Cons p es)
  obtain a w where p: "p = (a, w)" by (cases p)
  have a: "a \<in> A" and sub: "fst ` set es \<subseteq> A" using Cons.prems p by auto
  obtain b where b: "writeRawAddress la a w s = Some (Val (), b)" "resp b = resp s" "words v0 b = (words v0 s)(a := w)"
    using raw_write_run [OF assms(1) a] by blast
  obtain t where "forM es (\<lambda>(a, w). writeRawAddress la a w) b = Some (Val (), t)" "resp t = resp b"
    "words v0 t = fold (\<lambda>(a, w) m. m(a := w)) es (words v0 b)"
    using Cons.IH [OF sub] by blast
  then show ?case using b p by (simp add: thenM_Val del: fun_upd_apply)
qed

text \<open>
  C37 (channel masks): when one channel of a VFAT is to be left unmasked, \<^verbatim>\<open>setSingleChanMask\<close> writes 0 or 1 to the whole
  word of each channel, so that in the end the mask bit of no channel is set, and whatever else
  the words held is lost; \<^verbatim>\<open>applyChanMask\<close>, which is to restore them, writes the extracted mask bit to
  the whole word: again no mask bit is set, and the other bits do not come back.
\<close>

theorem channel_masks_clobbered:
  assumes w: "chan_words la nd ohN v v0" and order: "\<And>ks. set (map_order la ks) = set ks"
  shows "\<exists>orig t u. setSingleChanMask ohN v ch la s = Some (Val orig, t) \<and> applyChanMask orig la t = Some (Val (), u)
    \<and> resp u = resp s
    \<and> (\<forall>c<128. words v0 t (real_address (nd c)) = (if ch = of_nat c then 0 else 1)
        \<and> words v0 u (real_address (nd c)) = (if bit (words v0 s (real_address (nd c))) 14 then 1 else 0)
        \<and> (\<exists>x. readReg la (chan_mask_reg ohN v c) t = Some (Val 0, x))
        \<and> (\<exists>x. readReg la (chan_mask_reg ohN v c) u = Some (Val 0, x)))"
proof -
  let ?a = "\<lambda>c. real_address (nd c)" and ?A = "(\<lambda>c. real_address (nd c)) ` {..<128}"
  let ?old = "\<lambda>c. applyMask (words v0 s (?a c)) 0x4000"
  let ?orig = "fold (\<lambda>c. map_put (?a c) (?old c)) [0..<128] []"
  have inj: "inj_on ?a (set [0..<128])" and A: "ram_on la ?A v0" using w by (auto simp: chan_words_def lessThan_atLeast0)
  obtain t where t: "setSingleChanMask ohN v ch la s = Some (Val ?orig, t)" "resp t = resp s"
    "words v0 t = fold (\<lambda>c m. m(?a c := (if ch = of_nat c then 0 else 1))) [0..<128] (words v0 s)"
    using set_each_run [OF w, of "[0..<128]" ch "[]" s] by (auto simp: setSingleChanMask_def lessThan_atLeast0 simp del: upt_rec_numeral)
  have orig: "map_of (fold (\<lambda>c. map_put (?a c) (?old c)) cs m) = fold (\<lambda>c f. f(?a c := Some (?old c))) cs (map_of m)"
    "fst ` set (fold (\<lambda>c. map_put (?a c) (?old c)) cs m) = ?a ` set cs \<union> fst ` set m" for cs m
    by (induction cs arbitrary: m) (auto simp: map_of_put set_put)
  have known: "map_of ?orig (?a c) = Some (?old c)" if "c < 128" for c
    unfolding orig(1) by (rule fold_upd [OF inj]) (use that in simp)
  have keys: "set (map_order la (map fst ?orig)) = ?A"
    unfolding order set_map orig(2) by (simp add: lessThan_atLeast0)
  let ?es = "map_iter la ?orig"
  have es: "set ?es = {(?a c, ?old c) |c. c < 128}"
    using known by (auto simp: map_iter_def List.map_filter_def keys image_iff simp del: upt_rec_numeral)
  have fst_es: "fst ` set ?es = ?A" unfolding es by force
  have "\<exists>u. applyChanMask ?orig la t = Some (Val (), u) \<and> resp u = resp t
      \<and> words v0 u = fold (\<lambda>(a, w) m. m(a := w)) ?es (words v0 t)"
    unfolding applyChanMask_def by (rule apply_run [OF A]) (simp only: fst_es order_refl)
  then obtain u where u: "applyChanMask ?orig la t = Some (Val (), u)" "resp u = resp t"
    "words v0 u = fold (\<lambda>(a, w) m. m(a := w)) ?es (words v0 t)"
    by blast
  have "\<forall>(a, w) \<in> set ?es. the (map_of ?orig a) = w" unfolding es using known by auto
  from fold_consistent [OF this] have at_u: "words v0 u (?a c) = ?old c" if "c < 128" for c
    unfolding u(3) fst_es using that known by simp
  have at_t: "words v0 t (?a c) = (if ch = of_nat c then 0 else 1)" if "c < 128" for c
    unfolding t(3) by (rule fold_upd [OF inj]) (use that in simp)
  have read: "\<exists>x. readReg la (chan_mask_reg ohN v c) z = Some (Val 0, x)"
    if "c < 128" "words v0 z (?a c) = 0 \<or> words v0 z (?a c) = 1" for c z
  proof -
    have "\<not> bit (0 :: u32) 14" "\<not> bit (1 :: u32) 14" by code_simp+
    then have "applyMask (words v0 z (?a c)) 0x4000 = 0" using that(2) by (auto simp: mask_field)
    then show ?thesis
      using node_read_run [OF A, of "nd c" "chan_mask_reg ohN v c" z] w that(1) by (auto simp: chan_words_def)
  qed
  have "(\<exists>x. readReg la (chan_mask_reg ohN v c) t = Some (Val 0, x))
      \<and> (\<exists>x. readReg la (chan_mask_reg ohN v c) u = Some (Val 0, x))" if "c < 128" for c
    using at_t [OF that] at_u [OF that] that by (intro conjI read) (auto simp: mask_field)
  then show ?thesis using t(1,2) u(1,2) at_t at_u by (auto simp: mask_field simp del: upt_rec_numeral)
qed

text \<open>A VFAT whose channel 0 is masked and pulses.\<close>

definition mask_names :: "string list" where
  "mask_names = map (chan_mask_reg 0 0) [0..<128]"

definition mask_node :: "nat \<Rightarrow> node" where
  "mask_node c = \<lparr>real_address = of_nat c, permission = ''rw'', node_mask = 0x4000, mode = ''single'', node_size = 1\<rparr>"

definition mask_env :: localArgs where
  "mask_env = ram_env (\<lambda>k. Some (serialize (mask_node (place mask_names k))))"

lemma mask_env_words: "chan_words mask_env mask_node 0 0 (\<lambda>a. 0)"
proof -
  have inj: "inj (chan_mask_reg 0 0)" by (auto simp: inj_def chan_mask_reg_def channel_reg_inj)
  have "place mask_names (chan_mask_reg 0 0 c) = c" if "c < 128" for c
  proof -
    have "chan_mask_reg 0 0 c \<in> set mask_names" using that by (simp add: mask_names_def)
    from place_nth [OF this] show ?thesis using inj by (auto simp: mask_names_def inj_eq simp del: upt_rec_numeral)
  qed
  moreover have "CHR 0x00 \<notin> set (chan_mask_reg 0 0 c)" for c
    by (auto simp: chan_mask_reg_def channel_reg_def vfat_reg_def oh_base_def fmt_i_def dec_no_nul)
  ultimately have "has_node mask_env (chan_mask_reg 0 0 c) (mask_node c)" if "c < 128" for c
    using that by (simp add: has_node_def mask_env_def ram_env_db wf_node_def clean_def mask_node_def c_str_id)
  moreover have "inj_on (\<lambda>c. real_address (mask_node c)) {..<128}"
  proof (rule inj_onI)
    fix c d :: nat
    assume cd: "c \<in> {..<128}" "d \<in> {..<128}" and eq: "real_address (mask_node c) = real_address (mask_node d)"
    have "unat (real_address (mask_node n)) = n" if "n < 128" for n
      unfolding mask_node_def node.select_convs by (rule unat_small) (use that in simp)
    then show "c = d" using cd eq by (metis lessThan_iff)
  qed
  ultimately show ?thesis by (simp add: chan_words_def mask_node_def mask_env_def ram_env_ram)
qed

theorem channel_masks_clobbered_witness:
  "\<exists>orig t u. setSingleChanMask 0 0 5 mask_env (start_mach\<lparr>hist := [MemWrite 0 [0xC000] True]\<rparr>) = Some (Val orig, t)
     \<and> applyChanMask orig mask_env t = Some (Val (), u) \<and> words (\<lambda>a. 0) u 0 = 1"
proof -
  let ?s = "start_mach\<lparr>hist := [MemWrite 0 [0xC000] True]\<rparr>"
  have "set (map_order mask_env ks) = set ks" for ks by (simp add: mask_env_def ram_env_def demo_env_def)
  from channel_masks_clobbered [OF mask_env_words this, of 5 ?s] obtain orig t u
    where run: "setSingleChanMask 0 0 5 mask_env ?s = Some (Val orig, t)" "applyChanMask orig mask_env t = Some (Val (), u)"
      and all: "\<forall>c<128. words (\<lambda>a. 0) u (real_address (mask_node c)) = (if bit (words (\<lambda>a. 0) ?s (real_address (mask_node c))) 14 then 1 else 0)"
    by blast
  have "bit (0xC000 :: u32) 14" by code_simp
  then have "words (\<lambda>a. 0) u 0 = 1"
    using all [rule_format, of 0] by (simp add: mask_node_def words_def)
  then show ?thesis using run by blast
qed

end
