(* ===== verification/RegisterSpec.thy ===== *)
theory RegisterSpec
  imports Registers
begin

text \<open>
  What the register layer amounts to. First a typing argument: over an address table whose entries
  are serialised nodes no register access throws or has undefined behaviour. Then an abstract
  specification, a file of independent variables, and the simulation that \<open>readReg\<close> and \<open>writeReg\<close>
  implement it for every sequence of accesses.
\<close>

section \<open>Programs that do not go wrong\<close>

definition goes_right :: "'a prog \<Rightarrow> bool" where
  "goes_right m \<longleftrightarrow> (\<forall>s e t. m s \<noteq> Some (Abort e, t))"

named_theorems right "rules: the program neither throws nor has undefined behaviour"

lemma goes_rightI: "(\<And>s e t. m s = Some (Abort e, t) \<Longrightarrow> False) \<Longrightarrow> goes_right m"
  by (auto simp: goes_right_def)

lemma ends_normally:
  assumes "goes_right m" "returns m"
  shows "\<exists>x t. m s = Some (Val x, t)"
proof -
  obtain r t where "m s = Some (r, t)" using returnsD [OF assms(2)] by blast
  then show ?thesis using assms(1) by (cases r) (auto simp: goes_right_def)
qed

lemma right_ret [right]: "goes_right (ret x)"
  by (simp add: goes_right_def ret_def)

lemma right_bind [right]: "goes_right m \<Longrightarrow> (\<And>x. goes_right (k x)) \<Longrightarrow> goes_right (bindM m k)"
  by (auto simp: goes_right_def bindM_cases split: option.splits outcome.splits)

lemma right_then [right]: "goes_right m \<Longrightarrow> goes_right n \<Longrightarrow> goes_right (thenM m n)"
  by (simp add: thenM_def right_bind)

lemma right_when [right]: "goes_right m \<Longrightarrow> goes_right (whenM b m)"
  by (simp add: whenM_def right_ret)

lemma right_seq [right]: "(\<And>m. m \<in> set ms \<Longrightarrow> goes_right m) \<Longrightarrow> goes_right (seqM ms)"
  by (induction ms) (auto intro: right)

lemma right_for [right]: "(\<And>x. goes_right (f x)) \<Longrightarrow> goes_right (forM xs f)"
  by (induction xs) (auto intro: right)

lemma right_collect [right]: "(\<And>x. goes_right (f x)) \<Longrightarrow> goes_right (collectM xs f)"
  by (induction xs) (auto intro!: right)

lemma right_fold [right]: "(\<And>x a. goes_right (f x a)) \<Longrightarrow> goes_right (foldM f xs a)"
  by (induction xs arbitrary: a) (auto intro!: right)

lemma right_if [right]: "(b \<Longrightarrow> goes_right m) \<Longrightarrow> (\<not> b \<Longrightarrow> goes_right n) \<Longrightarrow> goes_right (if b then m else n)"
  by simp

lemma right_option [right]:
  "goes_right m \<Longrightarrow> (\<And>x. goes_right (k x)) \<Longrightarrow> goes_right (case v of None \<Rightarrow> m | Some x \<Rightarrow> k x)"
  by (cases v) simp_all

lemma right_set [right]:
  "goes_right (set_string k v)" "goes_right (set_word k w)" "goes_right (set_word_array k ws)"
  by (simp_all add: goes_right_def set_run)

lemma right_memhub [right]:
  "goes_right (memhub_read la a n)" "goes_right (memhub_write la a ws)" "goes_right (last_error la)"
  by (auto simp: goes_right_def memhub_read_run memhub_write_run last_error_run)

section \<open>Well-typed address tables\<close>

definition wf_db :: "localArgs \<Rightarrow> bool" where
  "wf_db la \<longleftrightarrow> (\<forall>k db_res. db_get la k = Some db_res \<longrightarrow> (\<exists>n. wf_node n \<and> node_mask n \<noteq> 0 \<and> db_res = serialize n))"

lemma wf_db_text:
  assumes "wf_db la" "db_text la r = Some db_res"
  obtains n where "has_node la r n" "node_mask n \<noteq> 0" "db_res = serialize n"
proof -
  obtain raw where raw: "db_get la (c_str r) = Some raw" using assms(2) by (auto simp: db_text_def)
  then obtain n where n: "wf_node n" "node_mask n \<noteq> 0" "raw = serialize n"
    using assms(1) by (auto simp: wf_db_def)
  then have "has_node la r n" using raw by (simp add: has_node_def)
  then show thesis using that n(2) db_text_node assms(2) by force
qed

lemma right_table_fields:
  assumes "wf_db la" "db_text la r = Some db_res"
  shows "goes_right (field_word (split db_res bar) 0)" "goes_right (field_word (split db_res bar) 2)"
    "goes_right (field_word (split db_res bar) 4)" "goes_right (field (split db_res bar) (Suc 0))" "goes_right (field (split db_res bar) 3)"
  by (rule wf_db_text [OF assms], auto simp: node_simps has_node_def right_ret)+

lemma right_readAddress_loop [right]: "goes_right (readAddress_loop la a n)"
proof (induction la a n rule: readAddress_loop.induct)
  case (1 la a n)
  then show ?case
    by (subst readAddress_loop.simps) (auto simp: memsvc_error_def intro!: right)
qed

lemma right_access [right]:
  assumes "wf_db la"
  shows "goes_right (getMask la r)" "goes_right (getAddress la r)" "goes_right (readRawReg la r)"
    "goes_right (writeRawReg la r v)" "goes_right (readReg la r)" "goes_right (writeReg la r v)"
proof -
  note f = right_table_fields [OF assms]
  have shift: "shift_loop 32 m 0 < 32" if "m \<noteq> 0" for m using low_bit_props(1) [OF that] by (simp add: low_bit_def)
  show "goes_right (getMask la r)" "goes_right (getAddress la r)" "goes_right (readRawReg la r)"
    "goes_right (writeRawReg la r v)" "goes_right (readReg la r)"
    by (auto simp: getMask_def getAddress_def readRawReg_def writeRawReg_def readReg_def readAddress_def writeAddress_def
        memsvc_error_def Let_def split: option.split intro!: right f)
  show "goes_right (writeReg la r v)"
  proof (cases "db_text la r")
    case (Some db_res)
    obtain n where n: "has_node la r n" "node_mask n \<noteq> 0" "db_res = serialize n" by (rule wf_db_text [OF assms Some])
    have "field_word (split db_res bar) 2 = ret (node_mask n)" using n by (simp add: node_simps has_node_def)
    then show ?thesis
      using shift [OF n(2)] f [OF Some]
      by (auto simp: writeReg_def Some readAddress_def writeAddress_def memsvc_error_def Let_def intro!: right)
  qed (simp add: writeReg_def right)
qed

lemma right_raw [right]: "goes_right (readRawAddress la a)" "goes_right (writeRawAddress la a v)"
  by (auto simp: readRawAddress_def writeRawAddress_def memsvc_error_def intro!: right)

lemma put_all_wf:
  "(\<And>k db_res. m k = Some db_res \<Longrightarrow> Q db_res) \<Longrightarrow> (\<And>k n. (k, n) \<in> set ns \<Longrightarrow> Q (serialize n)) \<Longrightarrow>
     foldl put_node m ns k = Some db_res \<Longrightarrow> Q db_res"
proof (induction ns arbitrary: m)
  case (Cons x ns)
  have "Q db_res" if "put_node m x k = Some db_res" for k db_res
    using that Cons.prems(1,2) by (cases x) (auto simp: put_node_def split: if_splits)
  then show ?case using Cons.IH [of "put_node m x"] Cons.prems(2,3) by auto
qed simp

lemma update_address_table_wf:
  assumes "parse (c_str xml) = Some nodes" "\<And>k n. (k, n) \<in> set nodes \<Longrightarrow> wf_node n \<and> node_mask n \<noteq> 0"
    and "db_get la = snd (update_address_table parse xml db)"
  shows "wf_db la"
  unfolding wf_db_def
proof (intro allI impI)
  fix k db_res
  assume "db_get la k = Some db_res"
  then have "foldl put_node Map.empty (filter (\<lambda>(k, n). k \<noteq> ''top'') nodes) k = Some db_res"
    by (simp only: assms(3) update_address_table_def assms(1) Let_def put_node_case option.case snd_conv)
  then show "\<exists>n. wf_node n \<and> node_mask n \<noteq> 0 \<and> db_res = serialize n"
    by (rule put_all_wf [where Q = "\<lambda>db_res. \<exists>n. wf_node n \<and> node_mask n \<noteq> 0 \<and> db_res = serialize n", rotated 2])
      (use assms(2) in auto)
qed



section \<open>The abstract specification\<close>

text \<open>A file of variables, and a sequence of accesses to it: what each read delivers, and the final values.\<close>

datatype reg_op = Read_op string | Write_op string u32

type_synonym var_file = "string \<Rightarrow> u32"

fun op_reg :: "reg_op \<Rightarrow> string" where
  "op_reg (Read_op r) = r"
| "op_reg (Write_op r v) = r"

fun spec_ops :: "(string \<Rightarrow> u32 \<Rightarrow> u32) \<Rightarrow> reg_op list \<Rightarrow> var_file \<Rightarrow> u32 list \<times> var_file" where
  "spec_ops fits [] m = ([], m)"
| "spec_ops fits (Read_op r # ops) m = (let (ws, m') = spec_ops fits ops m in (m r # ws, m'))"
| "spec_ops fits (Write_op r v # ops) m = spec_ops fits ops (m(r := fits r v))"

text \<open>The same sequence carried out by a pair of access routines.\<close>

fun run_ops :: "(string \<Rightarrow> u32 prog) \<Rightarrow> (string \<Rightarrow> u32 \<Rightarrow> unit prog) \<Rightarrow> reg_op list \<Rightarrow> u32 list prog" where
  "run_ops rd wr [] = ret []"
| "run_ops rd wr (Read_op r # ops) = bindM (rd r) (\<lambda>w. bindM (run_ops rd wr ops) (\<lambda>ws. ret (w # ws)))"
| "run_ops rd wr (Write_op r v # ops) = thenM (wr r v) (run_ops rd wr ops)"

definition abs_file :: "string set \<Rightarrow> (string \<Rightarrow> mach \<Rightarrow> u32) \<Rightarrow> mach \<Rightarrow> var_file" where
  "abs_file regs val s = (\<lambda>r. if r \<in> regs then val r s else 0)"

context register_file
begin

lemma abs_read: "(\<And>q. q \<in> regs \<Longrightarrow> val q t = val q s) \<Longrightarrow> abs_file regs val t = abs_file regs val s"
  by (auto simp: abs_file_def)

lemma abs_write:
  "r \<in> regs \<Longrightarrow> val r t = fits r v \<Longrightarrow> (\<And>q. q \<in> regs \<Longrightarrow> q \<noteq> r \<Longrightarrow> val q t = val q s) \<Longrightarrow>
     abs_file regs val t = (abs_file regs val s)(r := fits r v)"
  by (auto simp: abs_file_def fun_eq_iff)

lemma simulation:
  "op_reg ` set ops \<subseteq> regs \<Longrightarrow> ok s \<Longrightarrow>
     \<exists>t. run_ops rd wr ops s = Some (Val (fst (spec_ops fits ops (abs_file regs val s))), t) \<and> ok t
       \<and> resp t = resp s \<and> abs_file regs val t = snd (spec_ops fits ops (abs_file regs val s))"
proof (induction ops arbitrary: s)
  case Nil
  then show ?case by (simp add: ret_def)
next
  case (Cons op ops)
  show ?case
  proof (cases op)
    case (Read_op r)
    then have r: "r \<in> regs" using Cons.prems(1) by simp
    obtain a where a: "rd r s = Some (Val (val r s), a)" "ok a" "resp a = resp s" "\<And>q. q \<in> regs \<Longrightarrow> val q a = val q s"
      by (rule rd_run [OF r Cons.prems(2)]) (rule that)
    obtain t where "run_ops rd wr ops a = Some (Val (fst (spec_ops fits ops (abs_file regs val a))), t)" "ok t"
      "resp t = resp a" "abs_file regs val t = snd (spec_ops fits ops (abs_file regs val a))"
      using Cons.IH [OF _ a(2)] Cons.prems(1) by auto
    moreover have "abs_file regs val a = abs_file regs val s" using a(4) by (rule abs_read)
    ultimately show ?thesis
      using a(1,3) r by (auto simp: Read_op bindM_Val ret_def abs_file_def split: prod.split)
  next
    case (Write_op r v)
    then have r: "r \<in> regs" using Cons.prems(1) by simp
    obtain a where a: "wr r v s = Some (Val (), a)" "ok a" "resp a = resp s" "val r a = fits r v"
      "\<And>q. q \<in> regs \<Longrightarrow> q \<noteq> r \<Longrightarrow> val q a = val q s"
      by (rule wr_run [OF r Cons.prems(2), of v]) (rule that)
    obtain t where "run_ops rd wr ops a = Some (Val (fst (spec_ops fits ops (abs_file regs val a))), t)" "ok t"
      "resp t = resp a" "abs_file regs val t = snd (spec_ops fits ops (abs_file regs val a))"
      using Cons.IH [OF _ a(2)] Cons.prems(1) by auto
    moreover have "abs_file regs val a = (abs_file regs val s)(r := fits r v)"
      using r a(4,5) by (rule abs_write)
    ultimately show ?thesis
      using a(1,3) by (auto simp: Write_op thenM_Val)
  qed
qed

end

text \<open>
  C4 (the register layer implements variables): every sequence of reads and writes of registers that
  do not overlap delivers through \<^verbatim>\<open>readReg\<close> and \<^verbatim>\<open>writeReg\<close> what the same sequence delivers on a file of
  variables, where a write stores the part of the value that fits; the final states correspond,
  and the response is untouched.
\<close>

theorem registers_refine_variables:
  assumes "reg_ok la nd R v0 s" and "op_reg ` set ops \<subseteq> R"
  shows "\<exists>t. run_ops (readReg la) (writeReg la) ops s
      = Some (Val (fst (spec_ops (reg_fits nd) ops (abs_file R (reg_val nd v0) s))), t)
    \<and> abs_file R (reg_val nd v0) t = snd (spec_ops (reg_fits nd) ops (abs_file R (reg_val nd v0) s))
    \<and> reg_ok la nd R v0 t \<and> resp t = resp s"
  using rf.simulation [OF assms(2,1)] by blast

theorem registers_refine_variables_witness:
  "\<exists>t. run_ops (readReg two_env) (writeReg two_env) [Write_op ''LO'' 0x1ab, Read_op ''HI'', Read_op ''LO''] start_mach
     = Some (Val [0, 0xab], t)"
proof -
  have "low_bit 0xff = 0" by (simp add: low_bit_def eval_nat_numeral)
  moreover have "applyMask 0 m = 0" for m by (rule bit_word_eqI) (simp add: applyMask_bits)
  ultimately show ?thesis
    using registers_refine_variables [OF two_env_ok, of "[Write_op ''LO'' 0x1ab, Read_op ''HI'', Read_op ''LO'']"]
    by (auto simp: abs_file_def reg_fits_def field_part_def two_nodes_def reg_val_def start_mach_def)
qed

end
