(* ===== verification/Ttc.thy ===== *)
theory Ttc
  imports Registers
begin

text \<open>
  The timing and trigger control module: \<^verbatim>\<open>src/amc/ttc.cpp\<close> without the phase-shift procedure, which
  has its own theory. A \<^verbatim>\<open>double\<close> that holds a mean of register values is the pair of the sum and
  the number of reads; only its integer part reaches the response, and up to two to the power of
  20 reads the rounding of the division cannot change it.
\<close>

type_synonym ratio = "nat \<times> nat"

text \<open>The conversion of the \<^verbatim>\<open>double\<close> to a response word.\<close>

definition ratio_word :: "ratio \<Rightarrow> u32" where
  "ratio_word q = of_nat (fst q div snd q)"

text \<open>\<^verbatim>\<open>response->set_word("result", res)\<close> with the result of a local method.\<close>

definition answer :: "u32 prog \<Rightarrow> unit prog" where
  "answer m = bindM m (\<lambda>res. set_word ''result'' res)"

definition bool_word :: "bool \<Rightarrow> u32" where
  "bool_word b = (if b then 1 else 0)"

definition answer_bool :: "bool prog \<Rightarrow> unit prog" where
  "answer_bool m = bindM m (\<lambda>res. set_word ''result'' (bool_word res))"

section \<open>Local methods\<close>

definition ttcModuleResetLocal :: "localArgs \<Rightarrow> unit prog" where
  "ttcModuleResetLocal la = ret ()"

definition ttcMMCMResetLocal :: "localArgs \<Rightarrow> unit prog" where
  "ttcMMCMResetLocal la = writeReg la ''GEM_AMC.TTC.CTRL.MMCM_RESET'' 0x1"

definition checkPLLLockLocal :: "localArgs \<Rightarrow> int \<Rightarrow> nat prog" where
  "checkPLLLockLocal la readAttempts =
     foldM (\<lambda>i lockCnt.
       thenM (writeReg la ''GEM_AMC.TTC.CTRL.PA_MANUAL_PLL_RESET'' 0x1) (
       thenM (sleep_us 100) (
       bindM (readReg la ''GEM_AMC.TTC.STATUS.CLK.PHASE_LOCKED'') (\<lambda>locked.
         ret (if locked \<noteq> 0 then lockCnt + 1 else lockCnt))))) [0..<nat readAttempts] 0"

text \<open>The four phase methods differ in the registers only; the medians are not implemented and give the mean.\<close>

definition phase_mean :: "localArgs \<Rightarrow> string \<Rightarrow> string \<Rightarrow> int \<Rightarrow> ratio prog" where
  "phase_mean la mean_reg reg readAttempts =
     (if readAttempts < 1 then bindM (readReg la mean_reg) (\<lambda>v. ret (unat v, 1))
      else if readAttempts < 2 then bindM (readReg la reg) (\<lambda>v. ret (unat v, 1))
      else
        bindM (foldM (\<lambda>rd mean. bindM (readReg la reg) (\<lambda>v. ret (mean + unat v))) [0..<nat readAttempts] 0)
          (\<lambda>mean. ret (mean, nat readAttempts)))"

definition getMMCMPhaseMeanLocal :: "localArgs \<Rightarrow> int \<Rightarrow> ratio prog" where
  "getMMCMPhaseMeanLocal la readAttempts = phase_mean la ''GEM_AMC.TTC.STATUS.CLK.TTC_PM_PHASE_MEAN'' ''GEM_AMC.TTC.STATUS.CLK.TTC_PM_PHASE'' readAttempts"

definition getMMCMPhaseMedianLocal :: "localArgs \<Rightarrow> int \<Rightarrow> ratio prog" where
  "getMMCMPhaseMedianLocal la readAttempts = phase_mean la ''GEM_AMC.TTC.STATUS.CLK.TTC_PM_PHASE_MEAN'' ''GEM_AMC.TTC.STATUS.CLK.TTC_PM_PHASE'' readAttempts"

definition getGTHPhaseMeanLocal :: "localArgs \<Rightarrow> int \<Rightarrow> ratio prog" where
  "getGTHPhaseMeanLocal la readAttempts = phase_mean la ''GEM_AMC.TTC.STATUS.CLK.GTH_PM_PHASE_MEAN'' ''GEM_AMC.TTC.STATUS.CLK.GTH_PM_PHASE'' readAttempts"

definition getGTHPhaseMedianLocal :: "localArgs \<Rightarrow> int \<Rightarrow> ratio prog" where
  "getGTHPhaseMedianLocal la readAttempts = phase_mean la ''GEM_AMC.TTC.STATUS.CLK.GTH_PM_PHASE_MEAN'' ''GEM_AMC.TTC.STATUS.CLK.GTH_PM_PHASE'' readAttempts"

definition ttcCounterResetLocal :: "localArgs \<Rightarrow> unit prog" where
  "ttcCounterResetLocal la = writeReg la ''GEM_AMC.TTC.CTRL.CNT_RESET'' 0x1"

definition getL1AEnableLocal :: "localArgs \<Rightarrow> bool prog" where
  "getL1AEnableLocal la = bindM (readReg la ''GEM_AMC.TTC.CTRL.L1A_ENABLE'') (\<lambda>v. ret (v \<noteq> 0))"

definition setL1AEnableLocal :: "localArgs \<Rightarrow> bool \<Rightarrow> unit prog" where
  "setL1AEnableLocal la enable = writeReg la ''GEM_AMC.TTC.CTRL.L1A_ENABLE'' (bool_word enable)"

definition getTTCConfigLocal :: "localArgs \<Rightarrow> u8 \<Rightarrow> u32 prog" where
  "getTTCConfigLocal la cmd = ret 0x0"

definition setTTCConfigLocal :: "localArgs \<Rightarrow> u8 \<Rightarrow> u8 \<Rightarrow> unit prog" where
  "setTTCConfigLocal la cmd v = ret ()"

definition getTTCStatusLocal :: "localArgs \<Rightarrow> u32 prog" where
  "getTTCStatusLocal la = readReg la ''GEM_AMC.TTC.STATUS.BC0.LOCKED''"

definition getTTCErrorCountLocal :: "localArgs \<Rightarrow> bool \<Rightarrow> u32 prog" where
  "getTTCErrorCountLocal la single = (if single then readReg la ''GEM_AMC.TTC.STATUS.TTC_SINGLE_ERROR_CNT''
     else readReg la ''GEM_AMC.TTC.STATUS.TTC_DOUBLE_ERROR_CNT'')"

definition ttc_counters :: "string list" where
  "ttc_counters = [''L1A'', ''BC0'', ''EC0'', ''RESYNC'', ''OC0'', ''HARD_RESET'', ''CALPULSE'', ''START'', ''STOP'', ''TEST_SYNC'']"

definition getTTCCounterLocal :: "localArgs \<Rightarrow> u8 \<Rightarrow> u32 prog" where
  "getTTCCounterLocal la cmd =
     (if 1 \<le> cmd \<and> cmd \<le> 0xa
      then readReg la (''GEM_AMC.TTC.CMD_COUNTERS.'' @ ttc_counters ! (unat cmd - 1))
      else
        thenM (forM ttc_counters (\<lambda>cnt.
          bindM (readReg la (''GEM_AMC.TTC.CMD_COUNTERS.'' @ cnt)) (\<lambda>v. set_word cnt v)))
        (readReg la ''GEM_AMC.TTC.CMD_COUNTERS.L1A''))"

definition getL1AIDLocal :: "localArgs \<Rightarrow> u32 prog" where
  "getL1AIDLocal la = readReg la ''GEM_AMC.TTC.L1A_ID''"

definition getL1ARateLocal :: "localArgs \<Rightarrow> u32 prog" where
  "getL1ARateLocal la = readReg la ''GEM_AMC.TTC.L1A_RATE''"

definition getTTCSpyBufferLocal :: "localArgs \<Rightarrow> u32 prog" where
  "getTTCSpyBufferLocal la = ret 0x0"

section \<open>RPC callbacks\<close>

definition ttcModuleReset :: "localArgs \<Rightarrow> rpc_request \<Rightarrow> unit prog" where
  "ttcModuleReset la request = ttcModuleResetLocal la"

definition ttcMMCMReset :: "localArgs \<Rightarrow> rpc_request \<Rightarrow> unit prog" where
  "ttcMMCMReset la request = ttcMMCMResetLocal la"

definition checkPLLLock :: "localArgs \<Rightarrow> rpc_request \<Rightarrow> unit prog" where
  "checkPLLLock la request =
     bindM (get_word request ''readAttempts'') (\<lambda>readAttempts.
     bindM (checkPLLLockLocal la (sint readAttempts)) (\<lambda>lockCnt.
       set_word ''lockCnt'' (of_nat lockCnt)))"

definition getMMCMPhaseMean :: "localArgs \<Rightarrow> rpc_request \<Rightarrow> unit prog" where
  "getMMCMPhaseMean la request = 
     bindM (get_word request ''reads'') (\<lambda>reads.
     bindM (getMMCMPhaseMeanLocal la (sint reads)) (\<lambda>res. set_word ''phase'' (ratio_word res)))"

definition getMMCMPhaseMedian :: "localArgs \<Rightarrow> rpc_request \<Rightarrow> unit prog" where
  "getMMCMPhaseMedian la request = 
     bindM (get_word request ''reads'') (\<lambda>reads.
     bindM (getMMCMPhaseMedianLocal la (sint reads)) (\<lambda>res. set_word ''phase'' (ratio_word res)))"

definition getGTHPhaseMean :: "localArgs \<Rightarrow> rpc_request \<Rightarrow> unit prog" where
  "getGTHPhaseMean la request = 
     bindM (get_word request ''reads'') (\<lambda>reads.
     bindM (getGTHPhaseMeanLocal la (sint reads)) (\<lambda>res. set_word ''phase'' (ratio_word res)))"

definition getGTHPhaseMedian :: "localArgs \<Rightarrow> rpc_request \<Rightarrow> unit prog" where
  "getGTHPhaseMedian la request = 
     bindM (get_word request ''reads'') (\<lambda>reads.
     bindM (getGTHPhaseMedianLocal la (sint reads)) (\<lambda>res. set_word ''phase'' (ratio_word res)))"

definition ttcCounterReset :: "localArgs \<Rightarrow> rpc_request \<Rightarrow> unit prog" where
  "ttcCounterReset la request = ttcCounterResetLocal la"

definition getL1AEnable :: "localArgs \<Rightarrow> rpc_request \<Rightarrow> unit prog" where
  "getL1AEnable la request = answer_bool (getL1AEnableLocal la)"

definition setL1AEnable :: "localArgs \<Rightarrow> rpc_request \<Rightarrow> unit prog" where
  "setL1AEnable la request = bindM (get_word request ''enable'') (\<lambda>en. setL1AEnableLocal la (en \<noteq> 0))"

definition getTTCConfig :: "localArgs \<Rightarrow> rpc_request \<Rightarrow> unit prog" where
  "getTTCConfig la request = bindM (get_word request ''cmd'') (\<lambda>cmd. answer (getTTCConfigLocal la (ucast cmd)))"

definition setTTCConfig :: "localArgs \<Rightarrow> rpc_request \<Rightarrow> unit prog" where
  "setTTCConfig la request = 
     bindM (get_word request ''cmd'') (\<lambda>cmd.
     bindM (get_word request ''value'') (\<lambda>v. setTTCConfigLocal la (ucast cmd) (ucast v)))"

definition getTTCStatus :: "localArgs \<Rightarrow> rpc_request \<Rightarrow> unit prog" where
  "getTTCStatus la request = answer (getTTCStatusLocal la)"

definition getTTCErrorCount :: "localArgs \<Rightarrow> rpc_request \<Rightarrow> unit prog" where
  "getTTCErrorCount la request = bindM (get_word request ''single'') (\<lambda>single. answer (getTTCErrorCountLocal la (single \<noteq> 0)))"

definition getTTCCounter :: "localArgs \<Rightarrow> rpc_request \<Rightarrow> unit prog" where
  "getTTCCounter la request = bindM (get_word request ''cmd'') (\<lambda>cmd. answer (getTTCCounterLocal la (ucast cmd)))"

definition getL1AID :: "localArgs \<Rightarrow> rpc_request \<Rightarrow> unit prog" where
  "getL1AID la request = answer (getL1AIDLocal la)"

definition getL1ARate :: "localArgs \<Rightarrow> rpc_request \<Rightarrow> unit prog" where
  "getL1ARate la request = answer (getL1ARateLocal la)"

definition getTTCSpyBuffer :: "localArgs \<Rightarrow> rpc_request \<Rightarrow> unit prog" where
  "getTTCSpyBuffer la request = answer (getTTCSpyBufferLocal la)"

end
