(* ===== verification/TtcPhaseShift.thy ===== *)
theory TtcPhaseShift
  imports Ttc
begin

text \<open>
  The clock phase-shift procedure, \<^verbatim>\<open>ttcMMCMPhaseShiftLocal\<close> of \<^verbatim>\<open>src/amc/ttc.cpp\<close>: it steps the phase of
  the transceiver clock and of the MMCM until the lock criterion holds. Each turn makes its reads
  first and then decides; the decision is a pure function that yields the new search state, the
  writes to the direction registers in their order, and whether the loop is left. The branch
  after \<^verbatim>\<open>else if (true)\<close> is \<open>decide_other\<close>; no turn takes it.
\<close>

section \<open>State of the search\<close>

record phase_search =
  mmcmShiftCnt :: u32
  gthShiftCnt :: u32
  firstUnlockFound :: bool
  nextLockFound :: bool
  bestLockFound :: bool
  reversingForLock :: bool
  nGoodLocks :: nat
  nShiftsSinceLock :: nat
  nBadLocks :: nat
  totalShiftCount :: int

definition PLL_LOCK_READ_ATTEMPTS :: nat where "PLL_LOCK_READ_ATTEMPTS = 10"

definition mmcmShiftTable :: "bool list" where
  "mmcmShiftTable =
    [False, False, False, True, False, False, False,
     False, False, True, False, False, False, False,
     False, True, False, False, False, False, True,
     False, False, False, False, False, True, False,
     False, False, False, False, True, False, False,
     False, False, False, True, False, False]"

abbreviation ttc_ctrl :: string where
  "ttc_ctrl \<equiv> ''GEM_AMC.TTC.CTRL.''"

definition ttcCtrlRegs :: "(string \<times> u32) list" where
  "ttcCtrlRegs =
    [(''DISABLE_PHASE_ALIGNMENT'', 0x1), (''PA_DISABLE_GTH_PHASE_TRACKING'', 0x1),
     (''PA_MANUAL_OVERRIDE'', 0x1), (''PA_MANUAL_SHIFT_DIR'', 0x1),
     (''PA_GTH_MANUAL_OVERRIDE'', 0x1), (''PA_GTH_MANUAL_SHIFT_DIR'', 0x0),
     (''PA_GTH_MANUAL_SHIFT_STEP'', 0x1), (''PA_GTH_MANUAL_SEL_OVERRIDE'', 0x1),
     (''PA_GTH_MANUAL_COMBINED'', 0x1), (''GTH_TXDLYBYPASS'', 0x1),
     (''PA_MANUAL_PLL_RESET'', 0x1), (''CNT_RESET'', 0x1)]"

section \<open>The decisions of one turn\<close>

text \<open>The two direction registers: forward and reverse.\<close>

definition dir_writes :: "bool \<Rightarrow> (string \<times> u32) list" where
  "dir_writes forward =
     [(''GEM_AMC.TTC.CTRL.PA_MANUAL_SHIFT_DIR'', if forward then 1 else 0),
      (''GEM_AMC.TTC.CTRL.PA_GTH_MANUAL_SHIFT_DIR'', if forward then 0 else 1)]"

type_synonym decision = "phase_search \<times> (string \<times> u32) list \<times> bool"

text \<open>
  The search without a preceding unlock: a bad lock sends a reversed search forward again, \<open>n1\<close> good
  locks in a row reverse it, \<open>n2\<close> of them end it (or restart it, when scanning).
\<close>

definition seek_best :: "bool \<Rightarrow> nat \<Rightarrow> nat \<Rightarrow> phase_search \<Rightarrow> decision" where
  "seek_best scan n1 n2 ps =
     (let (ps1, w1) =
           (if reversingForLock ps \<and> nBadLocks ps > 0
            then (ps\<lparr>bestLockFound := False, reversingForLock := False, nGoodLocks := 0\<rparr>, dir_writes True)
            else if nGoodLocks ps = n1
            then (ps\<lparr>reversingForLock := True\<rparr>, dir_writes False)
            else (ps, []))
      in if reversingForLock ps1 \<and> nGoodLocks ps1 = n2
         then (if scan
               then (ps1\<lparr>bestLockFound := False, reversingForLock := False, nGoodLocks := 0\<rparr>, w1 @ dir_writes True, False)
               else (ps1\<lparr>bestLockFound := True\<rparr>, w1, True))
         else (ps1, w1, False))"

text \<open>Counting locks at the start of each turn before the first unlock.\<close>

definition count_locks :: "bool \<Rightarrow> phase_search \<Rightarrow> phase_search" where
  "count_locks good ps =
     (if good then ps\<lparr>bestLockFound := False, nBadLocks := 0, nGoodLocks := nGoodLocks ps + 1\<rparr>
      else ps\<lparr>bestLockFound := False, nBadLocks := nBadLocks ps + 1, nGoodLocks := 0\<rparr>)"

definition restart_scan :: "phase_search \<Rightarrow> phase_search" where
  "restart_scan ps = ps\<lparr>nextLockFound := False, firstUnlockFound := False, nGoodLocks := 0,
     nBadLocks := 0, nShiftsSinceLock := 0\<rparr>"

definition decide_bc0 :: "bool \<Rightarrow> bool \<Rightarrow> bool \<Rightarrow> phase_search \<Rightarrow> decision" where
  "decide_bc0 relock scan bc0Locked ps =
     (if \<not> firstUnlockFound ps then
        (let ps1 = count_locks bc0Locked ps
         in if relock
            then (if nBadLocks ps1 > 100 then (ps1\<lparr>firstUnlockFound := True\<rparr>, [], False) else (ps1, [], False))
            else seek_best scan 200 300 ps1)
      else
        (let ps1 =
              (if \<not> bc0Locked then ps\<lparr>nBadLocks := nBadLocks ps + 1\<rparr>
               else (if \<not> nextLockFound ps
                     then ps\<lparr>nextLockFound := True, nBadLocks := 0, nGoodLocks := nGoodLocks ps + 1\<rparr>
                     else ps\<lparr>nGoodLocks := nGoodLocks ps + 1\<rparr>))
         in if nGoodLocks ps1 = 1920
            then (if scan then (restart_scan (ps1\<lparr>bestLockFound := True\<rparr>), [], False)
                  else (ps1\<lparr>bestLockFound := True\<rparr>, [], True))
            else (ps1, [], False)))"

definition decide_pll :: "bool \<Rightarrow> bool \<Rightarrow> nat \<Rightarrow> phase_search \<Rightarrow> decision" where
  "decide_pll relock scan pllLockCnt ps =
     (if \<not> firstUnlockFound ps then
        (let ps1 = count_locks (\<not> pllLockCnt < PLL_LOCK_READ_ATTEMPTS) ps
         in if relock
            then (if nBadLocks ps1 > 500 then (ps1\<lparr>firstUnlockFound := True\<rparr>, [], False)
                  else seek_best scan 50 75 ps1)
            else (ps1, [], False))
      else if pllLockCnt < PLL_LOCK_READ_ATTEMPTS then
        (let ps1 =
              (if nextLockFound ps then ps\<lparr>nBadLocks := nBadLocks ps + 1\<rparr>
               else ps\<lparr>nextLockFound := True, nBadLocks := 0, nGoodLocks := nGoodLocks ps + 1\<rparr>)
         in if nShiftsSinceLock ps1 = 1000
            then (if scan then (restart_scan (ps1\<lparr>bestLockFound := True\<rparr>), [], False)
                  else (ps1\<lparr>bestLockFound := True\<rparr>, [], True))
            else (ps1, [], False))
      else (ps, [], False))"

text \<open>
  A third way to judge a lock is in the code, under an \<^verbatim>\<open>else\<close> that is never taken. There good locks are
  counted only while a search with \<^verbatim>\<open>relock\<close> has not seen an unlock.
\<close>

definition end_of_locks :: "bool \<Rightarrow> phase_search \<Rightarrow> decision" where
  "end_of_locks scan ps =
     (if nShiftsSinceLock ps > 500
      then (if scan
            then (ps\<lparr>nextLockFound := False, firstUnlockFound := False, bestLockFound := False,
                    nGoodLocks := 0, nShiftsSinceLock := 0\<rparr>, [], False)
            else (ps\<lparr>bestLockFound := True\<rparr>, [], True))
      else (ps, [], False))"

definition decide_other :: "bool \<Rightarrow> bool \<Rightarrow> nat \<Rightarrow> phase_search \<Rightarrow> decision" where
  "decide_other relock scan pllLockCnt ps =
     (let ps1 = (if relock \<and> pllLockCnt < PLL_LOCK_READ_ATTEMPTS \<and> \<not> firstUnlockFound ps
                 then ps\<lparr>firstUnlockFound := True\<rparr> else ps)
      in if pllLockCnt = PLL_LOCK_READ_ATTEMPTS then
           (if \<not> relock then
              (let (ps2, w) = (if nGoodLocks ps1 = 50 then (ps1\<lparr>reversingForLock := True\<rparr>, dir_writes False) else (ps1, []))
               in if reversingForLock ps2 \<and> nGoodLocks ps2 = 75
                  then (if scan
                        then (ps2\<lparr>bestLockFound := False, reversingForLock := False, nGoodLocks := 0, nShiftsSinceLock := 0\<rparr>,
                              w @ dir_writes True, False)
                        else (ps2\<lparr>bestLockFound := True\<rparr>, w, True))
                  else (ps2, w, False))
            else if firstUnlockFound ps1 \<or> \<not> relock then
              end_of_locks scan (if \<not> nextLockFound ps1 then ps1\<lparr>nextLockFound := True\<rparr> else ps1)
            else (ps1\<lparr>nGoodLocks := nGoodLocks ps1 + 1\<rparr>, [], False))
         else if nextLockFound ps1 then end_of_locks scan ps1
         else (ps1\<lparr>bestLockFound := False, nBadLocks := nBadLocks ps1 + 1\<rparr>, [], False))"

definition decide :: "bool \<Rightarrow> bool \<Rightarrow> bool \<Rightarrow> bool \<Rightarrow> nat \<Rightarrow> phase_search \<Rightarrow> decision" where
  "decide relock modeBC0 scan bc0Locked pllLockCnt ps =
     (if modeBC0 then decide_bc0 relock scan bc0Locked ps
      else if True then decide_pll relock scan pllLockCnt ps
      else decide_other relock scan pllLockCnt ps)"

text \<open>The end of a turn that does not leave the loop.\<close>

definition count_shift :: "phase_search \<Rightarrow> phase_search" where
  "count_shift ps = ps\<lparr>
     nShiftsSinceLock := (if nextLockFound ps then nShiftsSinceLock ps + 1 else nShiftsSinceLock ps),
     totalShiftCount := (if reversingForLock ps then totalShiftCount ps - 1 else totalShiftCount ps + 1)\<rparr>"

section \<open>One turn\<close>

text \<open>The expected value of the counter of the transceiver: 0 to 39, round and round.\<close>

definition next_gth :: "bool \<Rightarrow> u32 \<Rightarrow> u32" where
  "next_gth reversing cnt =
     (if \<not> reversing \<and> cnt = 39 then 0
      else if reversing \<and> cnt = 0 then 39
      else if reversing then cnt - 1 else cnt + 1)"

definition next_mmcm :: "bool \<Rightarrow> u32 \<Rightarrow> u32" where
  "next_mmcm reversing cnt =
     (if \<not> reversing \<and> cnt = 0xffff then 0
      else if reversing \<and> cnt = 0 then 0xffff
      else if reversing then cnt - 1 else cnt + 1)"

abbreviation gth_shift_cnt :: string where
  "gth_shift_cnt \<equiv> ''GEM_AMC.TTC.STATUS.CLK.PA_MANUAL_GTH_SHIFT_CNT''"

text \<open>\<^verbatim>\<open>while (gthShiftCnt != tmpGthShiftCnt)\<close>: repeat the shift until the device shows the expected count.\<close>

partial_function (option) gth_wait :: "localArgs \<Rightarrow> u32 \<Rightarrow> u32 \<Rightarrow> mach \<Rightarrow> (unit outcome \<times> mach) option" where
  "gth_wait la expected tmpGthShiftCnt s =
     (if expected = tmpGthShiftCnt then ret () s
      else
        bindM (writeReg la ''GEM_AMC.TTC.CTRL.PA_GTH_MANUAL_SHIFT_EN'' 0x1) (\<lambda>_.
        bindM (readReg la gth_shift_cnt) (\<lambda>tmp t. gth_wait la expected tmp t)) s)"

definition mmcm_step :: "localArgs \<Rightarrow> phase_search \<Rightarrow> phase_search prog" where
  "mmcm_step la ps =
     (let idx = unat (gthShiftCnt ps + 1)
      in if idx \<ge> length mmcmShiftTable then abortM Undefined
         else if mmcmShiftTable ! idx
         then bindM (readReg la ''TTC.STATUS.CLK.PA_MANUAL_SHIFT_CNT'') (\<lambda>tmpMmcmShiftCnt.
                ret (ps\<lparr>mmcmShiftCnt := next_mmcm (reversingForLock ps) (mmcmShiftCnt ps)\<rparr>))
         else ret ps)"

text \<open>What a turn does and sees before it decides: whether BC0 is locked, and how often the PLL was found locked.\<close>

definition shift_look :: "localArgs \<Rightarrow> int \<Rightarrow> phase_search \<Rightarrow> (phase_search \<times> bool \<times> nat) prog" where
  "shift_look la readAttempts ps =
     thenM (writeReg la (ttc_ctrl @ ''CNT_RESET'') 0x1) (
     thenM (writeReg la (ttc_ctrl @ ''PA_GTH_MANUAL_SHIFT_EN'') 0x1) (
       (let ps1 = ps\<lparr>gthShiftCnt := next_gth (reversingForLock ps) (gthShiftCnt ps)\<rparr>
        in bindM (readReg la gth_shift_cnt) (\<lambda>tmpGthShiftCnt.
           bindM (readReg la ''GEM_AMC.TTC.STATUS.CLK.PA_MANUAL_SHIFT_CNT'') (\<lambda>tmpMmcmShiftCnt.
           thenM (gth_wait la (gthShiftCnt ps1) tmpGthShiftCnt) (
           bindM (mmcm_step la ps1) (\<lambda>ps2.
           bindM (checkPLLLockLocal la readAttempts) (\<lambda>pllLockCnt.
           bindM (readReg la ''GEM_AMC.TTC.STATUS.CLK.TTC_PM_PHASE_MEAN'') (\<lambda>phase.
           bindM (readReg la ''TTC.STATUS.CLK.GTH_PM_PHASE_MEAN'') (\<lambda>gthPhase.
           bindM (readReg la ''GEM_AMC.TTC.STATUS.BC0.LOCKED'') (\<lambda>bc0Locked.
             ret (ps2, bc0Locked \<noteq> 0, pllLockCnt))))))))))))"

definition shift_turn ::
  "localArgs \<Rightarrow> bool \<Rightarrow> bool \<Rightarrow> bool \<Rightarrow> int \<Rightarrow> phase_search \<Rightarrow> (phase_search \<times> bool) prog" where
  "shift_turn la relock modeBC0 scan readAttempts ps =
     bindM (shift_look la readAttempts ps) (\<lambda>(ps2, bc0Locked, pllLockCnt).
       (let (ps3, ws, brk) = decide relock modeBC0 scan bc0Locked pllLockCnt ps2
        in thenM (forM ws (\<lambda>(r, v). writeReg la r v)) (ret (ps3, brk))))"

fun shift_turns ::
  "nat \<Rightarrow> localArgs \<Rightarrow> bool \<Rightarrow> bool \<Rightarrow> bool \<Rightarrow> int \<Rightarrow> phase_search \<Rightarrow> phase_search prog" where
  "shift_turns 0 la relock modeBC0 scan readAttempts ps = ret ps"
| "shift_turns (Suc n) la relock modeBC0 scan readAttempts ps =
     bindM (shift_turn la relock modeBC0 scan readAttempts ps) (\<lambda>(ps', brk).
       if brk then ret ps' else shift_turns n la relock modeBC0 scan readAttempts (count_shift ps'))"

section \<open>The procedure\<close>

text \<open>Write a control register and read it back: \<open>Some ()\<close> when the value differs and the procedure gives up.\<close>

definition write_readback :: "localArgs \<Rightarrow> string \<times> u32 \<Rightarrow> unit option prog" where
  "write_readback la reg =
     thenM (writeReg la (ttc_ctrl @ fst reg) (snd reg)) (
     thenM (sleep_us 250) (
     bindM (readReg la (ttc_ctrl @ fst reg)) (\<lambda>readback.
       if readback \<noteq> snd reg
       then thenM (set_error (''Readback of '' @ ttc_ctrl @ fst reg @ '' failed, value is '' @ fmt_u readback
              @ '', expected '' @ fmt_u (snd reg))) (ret (Some ()))
       else ret None)))"

definition start_search :: "u32 \<Rightarrow> u32 \<Rightarrow> phase_search" where
  "start_search mmcm gth = \<lparr>mmcmShiftCnt = mmcm, gthShiftCnt = gth, firstUnlockFound = False,
     nextLockFound = False, bestLockFound = False, reversingForLock = False, nGoodLocks = 0,
     nShiftsSinceLock = 0, nBadLocks = 0, totalShiftCount = 0\<rparr>"

definition read_attempts :: "bool \<Rightarrow> bool \<Rightarrow> int" where
  "read_attempts modeBC0 scan = (if \<not> modeBC0 \<or> scan then int PLL_LOCK_READ_ATTEMPTS else 1)"

definition max_shift :: "bool \<Rightarrow> nat" where
  "max_shift scan = (if scan then 23040 else 7680 + 7680 div 2)"

definition finish_search :: "localArgs \<Rightarrow> phase_search \<Rightarrow> unit prog" where
  "finish_search la ps =
     (if bestLockFound ps then writeReg la ''GEM_AMC.TTC.CTRL.MMCM_RESET'' 0x1
      else set_error ''Unable to find lock'')"

definition ttcMMCMPhaseShiftLocal :: "localArgs \<Rightarrow> bool \<Rightarrow> bool \<Rightarrow> bool \<Rightarrow> unit prog" where
  "ttcMMCMPhaseShiftLocal la relock modeBC0 scan =
     bindM (loopM ttcCtrlRegs (write_readback la)) (\<lambda>failed. case failed of
       Some _ \<Rightarrow> ret ()
     | None \<Rightarrow>
         bindM (readReg la (ttc_ctrl @ ''DISABLE_PHASE_ALIGNMENT'')) (\<lambda>dis.
         if dis = 0x0 then set_error ''Automatic phase alignment is turned off!!''
         else
           bindM (readReg la ''GEM_AMC.TTC.STATUS.CLK.PA_MANUAL_SHIFT_CNT'') (\<lambda>mmcm.
           bindM (readReg la gth_shift_cnt) (\<lambda>gth.
           bindM (checkPLLLockLocal la (read_attempts modeBC0 scan)) (\<lambda>pllLockCnt.
           bindM (shift_turns (max_shift scan) la relock modeBC0 scan (read_attempts modeBC0 scan) (start_search mmcm gth))
             (finish_search la))))))"

definition ttcMMCMPhaseShift :: "localArgs \<Rightarrow> rpc_request \<Rightarrow> unit prog" where
  "ttcMMCMPhaseShift la request =
     bindM (get_word request ''relock'') (\<lambda>relock.
     bindM (get_word request ''modeBC0'') (\<lambda>modeBC0.
     bindM (get_word request ''scan'') (\<lambda>scan.
       ttcMMCMPhaseShiftLocal la (relock \<noteq> 0) (modeBC0 \<noteq> 0) (scan \<noteq> 0))))"

section \<open>Which searches can succeed\<close>

lemma count_shift_flags [simp]:
  "bestLockFound (count_shift ps) = bestLockFound ps"
  "firstUnlockFound (count_shift ps) = firstUnlockFound ps"
  by (simp_all add: count_shift_def)

text \<open>Without \<^verbatim>\<open>relock\<close> the third way would not find a lock either: nothing counts the good ones.\<close>

lemma decide_other_no_relock:
  assumes "nGoodLocks ps < 50" "\<not> nextLockFound ps" "\<not> bestLockFound ps"
  shows "\<exists>ps'. decide_other False scan cnt ps = (ps', [], False) \<and> nGoodLocks ps' = nGoodLocks ps
    \<and> \<not> nextLockFound ps' \<and> \<not> bestLockFound ps'"
  using assms by (auto simp: decide_other_def)

lemma decide_pll_no_relock:
  assumes "\<not> firstUnlockFound ps"
  shows "decide False False scan bc0 cnt ps = (count_locks (\<not> cnt < PLL_LOCK_READ_ATTEMPTS) ps, [], False)"
  using assms by (simp add: decide_def decide_pll_def)

lemma count_locks_flags [simp]:
  "bestLockFound (count_locks good ps) = False"
  "firstUnlockFound (count_locks good ps) = firstUnlockFound ps"
  by (simp_all add: count_locks_def)

lemma mmcm_step_flags:
  "mmcm_step la ps s = Some (Val ps', t) \<Longrightarrow>
     bestLockFound ps' = bestLockFound ps \<and> firstUnlockFound ps' = firstUnlockFound ps"
  by (auto simp: mmcm_step_def Let_def ret_def abortM_def split: if_splits elim!: bindM_ValE)

lemma shift_turn_no_relock:
  assumes "shift_turn la False False scan n ps s = Some (Val (ps', brk), t)" and "\<not> firstUnlockFound ps"
  shows "\<not> brk \<and> \<not> bestLockFound ps' \<and> \<not> firstUnlockFound ps'"
  using assms unfolding shift_turn_def shift_look_def thenM_def Let_def
  by (auto elim!: bindM_ValE dest!: mmcm_step_flags simp: decide_pll_no_relock ret_def)

lemma shift_turns_no_relock:
  "shift_turns k la False False scan n ps s = Some (Val ps', t) \<Longrightarrow> \<not> firstUnlockFound ps \<Longrightarrow> \<not> bestLockFound ps
    \<Longrightarrow> \<not> bestLockFound ps'"
proof (induction k arbitrary: ps s)
  case 0
  then show ?case by (simp add: ret_def)
next
  case (Suc k)
  from Suc.prems(1) obtain p u where p: "shift_turn la False False scan n ps s = Some (Val p, u)"
    and rest: "(case p of (ps1, brk) \<Rightarrow> if brk then ret ps1
        else shift_turns k la False False scan n (count_shift ps1)) u = Some (Val ps', t)"
    by (auto elim: bindM_ValE)
  obtain ps1 brk where pp: "p = (ps1, brk)" by (cases p)
  have f: "\<not> brk" "\<not> bestLockFound ps1" "\<not> firstUnlockFound ps1"
    using shift_turn_no_relock [OF p [unfolded pp] Suc.prems(2)] by auto
  then show ?case using Suc.IH [of "count_shift ps1" u] rest by (simp add: pp)
qed

lemma bindM_cong_val:
  "(\<And>x u. m s = Some (Val x, u) \<Longrightarrow> k x u = k' x u) \<Longrightarrow> bindM m k s = bindM m k' s"
  by (auto simp: bindM_cases split: option.split outcome.split)

text \<open>
  C27 (a search without relock fails): with \<^verbatim>\<open>relock\<close> and \<^verbatim>\<open>modeBC0\<close> both false the procedure is, on every device and in
  every state, one that answers \<^verbatim>\<open>Unable to find lock\<close> after its search, however good the locks
  were, and never resets the MMCM: the search for the best lock sits inside the branch for
  \<^verbatim>\<open>relock\<close>, so nothing ever sets \<^verbatim>\<open>bestLockFound\<close>.
\<close>

theorem ttcMMCMPhaseShiftLocal_no_relock:
  "ttcMMCMPhaseShiftLocal la False False scan =
     bindM (loopM ttcCtrlRegs (write_readback la)) (\<lambda>failed. case failed of
       Some _ \<Rightarrow> ret ()
     | None \<Rightarrow>
         bindM (readReg la (ttc_ctrl @ ''DISABLE_PHASE_ALIGNMENT'')) (\<lambda>dis.
         if dis = 0x0 then set_error ''Automatic phase alignment is turned off!!''
         else
           bindM (readReg la ''GEM_AMC.TTC.STATUS.CLK.PA_MANUAL_SHIFT_CNT'') (\<lambda>mmcm.
           bindM (readReg la ''GEM_AMC.TTC.STATUS.CLK.PA_MANUAL_GTH_SHIFT_CNT'') (\<lambda>gth.
           bindM (checkPLLLockLocal la 10) (\<lambda>pllLockCnt.
           thenM (bindM (shift_turns (max_shift scan) la False False scan 10 (start_search mmcm gth)) (\<lambda>_. ret ()))
             (set_error ''Unable to find lock''))))))"
proof -
  have "bindM (shift_turns n la False False scan 10 (start_search mmcm gth)) (finish_search la) s =
      bindM (shift_turns n la False False scan 10 (start_search mmcm gth)) (\<lambda>_. set_error ''Unable to find lock'') s"
    for n mmcm gth s
    by (rule bindM_cong_val)
      (auto dest!: shift_turns_no_relock simp: start_search_def finish_search_def)
  then have eq: "bindM (shift_turns n la False False scan 10 (start_search mmcm gth)) (finish_search la) =
      thenM (bindM (shift_turns n la False False scan 10 (start_search mmcm gth)) (\<lambda>_. ret ()))
        (set_error ''Unable to find lock'')" for n mmcm gth
    by (simp add: fun_eq_iff thenM_def)
  show ?thesis
    unfolding ttcMMCMPhaseShiftLocal_def
    by (simp add: eq read_attempts_def PLL_LOCK_READ_ATTEMPTS_def cong: option.case_cong if_cong)
qed

end
