(* ===== verification/SbitScan.thy ===== *)
theory SbitScan
  imports Calibration
begin

text \<open>
  The trigger (sbit) methods of \<^verbatim>\<open>src/calibration_routines.cpp\<close>: rate scans of one VFAT and of all
  OptoHybrids in parallel, and the checks of the channel mapping and of the rates with calibration
  pulses.
\<close>

section \<open>The rate scan of one VFAT\<close>

text \<open>\<^verbatim>\<open>sprintf\<close> into a buffer of 200 characters.\<close>

definition sprintf_200 :: "string \<Rightarrow> string prog" where
  "sprintf_200 s = (if length s < 200 then ret s else abortM Undefined)"

definition map_maskOh2vfatN :: "(u32 \<times> nat) list" where
  "map_maskOh2vfatN =
    [(0xfffffe, 0), (0xfffffd, 1), (0xfffffb, 2), (0xfffff7, 3), (0xffffef, 4), (0xffffdf, 5), (0xffffbf, 6),
     (0xffff7f, 7), (0xfffeff, 8), (0xfffdff, 9), (0xfffbff, 10), (0xfff7ff, 11), (0xffefff, 12), (0xffdfff, 13),
     (0xffbfff, 14), (0xff7fff, 15), (0xfeffff, 16), (0xfdffff, 17), (0xfbffff, 18), (0xf7ffff, 19), (0xefffff, 20),
     (0xdfffff, 21), (0xbfffff, 22), (0x7fffff, 23)]"

definition trigger_rate_reg :: "u32 \<Rightarrow> string" where
  "trigger_rate_reg ohN = ''GEM_AMC.TRIGGER.OH'' @ fmt_i ohN @ ''.TRIGGER_RATE''"

definition trig_reg :: "u32 \<Rightarrow> string \<Rightarrow> string" where
  "trig_reg ohN leaf = oh_base ohN @ ''.FPGA.TRIG.'' @ leaf"

abbreviation sc_only_mode :: string where
  "sc_only_mode \<equiv> ''GEM_AMC.GEM_SYSTEM.VFAT3.SC_ONLY_MODE''"

definition sbit_rate_dac ::
  "localArgs \<Rightarrow> u32 \<Rightarrow> nat \<Rightarrow> u32 \<Rightarrow> u32 \<Rightarrow> string \<Rightarrow> u32 \<Rightarrow> u32 \<Rightarrow> u32 \<Rightarrow> u32 list \<times> u32 list \<Rightarrow>
     (unit + u32 list \<times> u32 list) prog" where
  "sbit_rate_dac la ohN vfatN dacMin dacStep scanReg waitTime ohTrigRateAddr dacVal out =
     bindM (sprintf_200 (cfg_reg ohN vfatN scanReg)) (\<lambda>regBuf.
     thenM (writeReg la regBuf dacVal) (
     thenM (sleep_ms (unat waitTime)) (
     bindM (scan_slot 0 dacMin dacMin dacStep dacVal) (\<lambda>idx.
     bindM (arr_set (fst out) idx dacVal) (\<lambda>outDataDacVal.
     bindM (readRawAddress la ohTrigRateAddr) (\<lambda>w.
     bindM (arr_set (snd out) idx w) (\<lambda>outDataTrigRate.
       ret (Inr (outDataDacVal, outDataTrigRate)))))))))"

definition sbitRateScanLocal ::
  "localArgs \<Rightarrow> u32 list \<Rightarrow> u32 list \<Rightarrow> u32 \<Rightarrow> u32 \<Rightarrow> bool \<Rightarrow> u32 \<Rightarrow> u32 \<Rightarrow> u32 \<Rightarrow> u32 \<Rightarrow> string \<Rightarrow> u32 \<Rightarrow>
     (u32 list \<times> u32 list) prog" where
  "sbitRateScanLocal la outDataDacVal outDataTrigRate ohN maskOh invertVFATPos ch dacMin dacMax dacStep scanReg waitTime =
     (let out = (outDataDacVal, outDataTrigRate)
      in bindM (fw_version_check la) (\<lambda>fw.
         if fw \<noteq> 3
         then thenM (set_error ''sbitRateScan is only supported in V3 electronics'') (ret out)
         else
           (case map_of map_maskOh2vfatN maskOh of
              None \<Rightarrow> thenM (set_error (''Input maskOh: '' @ fmt_x maskOh
                @ '' not recgonized. Please make sure all but one VFAT is unmasked and then try again'')) (ret out)
            | Some v \<Rightarrow>
                (let vfatN = (if invertVFATPos then 23 - v else v)
                 in bindM (vfatSyncCheckLocal la ohN) (\<lambda>goodVFATs.
                    if \<not> bit goodVFATs vfatN
                    then thenM (set_error (vfat_not_synced goodVFATs vfatN maskOh)) (ret out)
                    else
                      bindM (if ch \<noteq> 128 then setSingleChanMask ohN vfatN ch la else ret []) (\<lambda>map_chanOrigMask.
                      bindM (getAddress la (trigger_rate_reg ohN)) (\<lambda>ohTrigRateAddr.
                      bindM (getAddress la (trig_reg ohN ''CTRL.VFAT_MASK'')) (\<lambda>ohVFATMaskAddr.
                      bindM (readRawAddress la ohVFATMaskAddr) (\<lambda>maskOhOrig.
                      thenM (writeRawAddress la ohVFATMaskAddr maskOh) (
                      thenM (writeReg la sc_only_mode 0x0) (
                      bindM (for_step dacMax dacStep
                          (sbit_rate_dac la ohN vfatN dacMin dacStep scanReg waitTime ohTrigRateAddr) dacMin out) (\<lambda>r.
                      thenM (whenM (ch \<noteq> 128) (applyChanMask map_chanOrigMask la)) (
                      thenM (writeRawAddress la ohVFATMaskAddr maskOhOrig)
                        (ret (case r of Inl _ \<Rightarrow> out | Inr out' \<Rightarrow> out')))))))))))))))"

section \<open>The rate scan of all OptoHybrids\<close>

text \<open>The arrays of the scan: the DAC values, the rates of each VFAT, the overall rates.\<close>

record rate_data =
  dac_vals :: "u32 list"
  vfat_rates :: "u32 list"
  oh_rates :: "u32 list"

definition rate_slot :: "nat \<Rightarrow> nat \<Rightarrow> u32 \<Rightarrow> u32 \<Rightarrow> u32 \<Rightarrow> u32 \<Rightarrow> nat prog" where
  "rate_slot ohN vfat dacMin dacMax dacStep dacVal =
     (if dacStep = 0 then abortM Trap
      else ret (unat (scan_len (ohN * 24) dacMin dacMax dacStep + scan_idx vfat dacMin dacMax dacStep dacVal)))"

definition read_rates ::
  "localArgs \<Rightarrow> u32 \<Rightarrow> u32 \<Rightarrow> u32 \<Rightarrow> u32 \<Rightarrow> u32 \<Rightarrow> u32 list \<Rightarrow> nat \<Rightarrow> rate_data \<Rightarrow> rate_data prog" where
  "read_rates la notmask dacMin dacMax dacStep dacVal addrs ohN d =
     bindM (scan_slot ohN dacMin dacMax dacStep dacVal) (\<lambda>idx.
     bindM (arr_set (dac_vals d) idx dacVal) (\<lambda>dv.
     bindM (readRawAddress la (addrs ! 24)) (\<lambda>w.
     bindM (arr_set (oh_rates d) idx w) (\<lambda>ov.
     bindM (foldM (\<lambda>vfat rates.
         if \<not> bit notmask vfat then ret rates
         else
           bindM (rate_slot ohN vfat dacMin dacMax dacStep dacVal) (\<lambda>idx.
           bindM (readRawAddress la (addrs ! vfat)) (\<lambda>w. arr_set rates idx w))) [0..<24] (vfat_rates d)) (\<lambda>vr.
       ret \<lparr>dac_vals = dv, vfat_rates = vr, oh_rates = ov\<rparr>)))))"

definition sbit_rates_dac ::
  "localArgs \<Rightarrow> nat list \<Rightarrow> (nat \<Rightarrow> u32) \<Rightarrow> u32 \<Rightarrow> u32 \<Rightarrow> u32 \<Rightarrow> string \<Rightarrow> (nat \<Rightarrow> u32 list) \<Rightarrow>
     u32 \<Rightarrow> rate_data \<Rightarrow> (unit + rate_data) prog" where
  "sbit_rates_dac la ohs notmask dacMin dacMax dacStep scanReg addrs dacVal d =
     thenM (forM ohs (\<lambda>ohN. forM [0..<24] (\<lambda>vfat. whenM (bit (notmask ohN) vfat)
       (bindM (sprintf_200 (cfg_reg (of_nat ohN) vfat scanReg)) (\<lambda>regBuf. writeReg la regBuf dacVal))))) (
     thenM (forM ohs (\<lambda>ohN. writeReg la (trig_reg (of_nat ohN) ''CNT.RESET'') 0x1)) (
     thenM (sleep_ms 1005) (
     bindM (foldM (\<lambda>ohN. read_rates la (notmask ohN) dacMin dacMax dacStep dacVal (addrs ohN) ohN) ohs d)
       (\<lambda>d. ret (Inr d)))))"

definition vfat_sbits_reg :: "u32 \<Rightarrow> nat \<Rightarrow> string" where
  "vfat_sbits_reg ohN vfat = trig_reg ohN (''CNT.VFAT'' @ dec vfat @ ''_SBITS'')"

text \<open>The loops over the OptoHybrids run over the enabled ones; \<open>ohs\<close> are their numbers.\<close>

definition enabled_ohs :: "u32 \<Rightarrow> nat list" where
  "enabled_ohs ohMask = filter (bit ohMask) [0..<12]"

definition prepare_oh :: "localArgs \<Rightarrow> u32 \<Rightarrow> nat \<Rightarrow> (u32 \<times> (u32 \<times> u32) list list) prog" where
  "prepare_oh la ch ohN =
     bindM (getOHVFATMaskLocal la (of_nat ohN)) (\<lambda>vfatmask.
     bindM (if ch \<noteq> 128
            then collectM [0..<24] (\<lambda>vfat.
                   if bit (not_mask vfatmask) vfat then setSingleChanMask (of_nat ohN) vfat ch la else ret [])
            else ret (replicate 24 [])) (\<lambda>maps.
       ret (vfatmask, maps)))"

definition rate_addresses :: "localArgs \<Rightarrow> nat \<Rightarrow> u32 list prog" where
  "rate_addresses la ohN =
     bindM (getAddress la (trigger_rate_reg (of_nat ohN))) (\<lambda>overall.
     bindM (collectM [0..<24] (\<lambda>vfat. getAddress la (vfat_sbits_reg (of_nat ohN) vfat))) (\<lambda>addrs.
       ret (addrs @ [overall])))"

definition set_persist :: "localArgs \<Rightarrow> nat \<Rightarrow> u32 prog" where
  "set_persist la ohN =
     bindM (readReg la (trig_reg (of_nat ohN) ''CNT.SBIT_CNT_PERSIST'')) (\<lambda>w.
     thenM (writeReg la (trig_reg (of_nat ohN) ''CNT.SBIT_CNT_PERSIST'') 0x1) (ret w))"

definition at_oh :: "nat list \<Rightarrow> 'a list \<Rightarrow> nat \<Rightarrow> 'a" where
  "at_oh ohs xs ohN = the (map_of (zip ohs xs) ohN)"

definition sbitRateScanParallelLocal ::
  "localArgs \<Rightarrow> rate_data \<Rightarrow> u32 \<Rightarrow> u32 \<Rightarrow> u32 \<Rightarrow> u32 \<Rightarrow> string \<Rightarrow> u32 \<Rightarrow> rate_data prog" where
  "sbitRateScanParallelLocal la d ch dacMin dacMax dacStep scanReg ohMask =
     (if ohMask > 0xFFF
      then thenM (set_error ''sbitRateScan supports only up to 12 optohybrids per CTP7'') (ret d)
      else
        bindM (fw_version_check la) (\<lambda>fw.
        if fw \<noteq> 3
        then thenM (set_error ''sbitRateScan is only supported in V3 electronics'') (ret d)
        else
          (let ohs = enabled_ohs ohMask
           in bindM (collectM ohs (prepare_oh la ch)) (\<lambda>orig.
              bindM (collectM ohs (rate_addresses la)) (\<lambda>addrs.
              thenM (writeReg la sc_only_mode 0x0) (
              bindM (collectM ohs (set_persist la)) (\<lambda>persist.
              (let notmask = (\<lambda>ohN. not_mask (fst (at_oh ohs orig ohN)))
               in bindM (for_step dacMax dacStep
                      (sbit_rates_dac la ohs notmask dacMin dacMax dacStep scanReg (at_oh ohs addrs)) dacMin d) (\<lambda>r.
                  thenM (forM ohs (\<lambda>ohN.
                    writeReg la (trig_reg (of_nat ohN) ''CNT.SBIT_CNT_PERSIST'') (at_oh ohs persist ohN))) (
                  thenM (whenM (ch \<noteq> 128)
                    (forM ohs (\<lambda>ohN. forM [0..<24] (\<lambda>vfat. whenM (bit (notmask ohN) vfat)
                      (applyChanMask (snd (at_oh ohs orig ohN) ! vfat) la)))))
                    (ret (case r of Inl _ \<Rightarrow> d | Inr d' \<Rightarrow> d'))))))))))))"

definition sbitRateScan :: "localArgs \<Rightarrow> rpc_request \<Rightarrow> unit prog" where
  "sbitRateScan la request =
     bindM (get_word request ''ohMask'') (\<lambda>ohMask.
     bindM (get_word request ''ch'') (\<lambda>ch.
     bindM (get_word request ''dacMin'') (\<lambda>dacMin.
     bindM (get_word request ''dacMax'') (\<lambda>dacMax.
     bindM (get_word request ''dacStep'') (\<lambda>dacStep.
     bindM (get_string request ''scanReg'') (\<lambda>scanReg.
     bindM (scan_array la (12 * 24) dacMin dacMax dacStep) (\<lambda>perVFAT.
     bindM (scan_array la 12 dacMin dacMax dacStep) (\<lambda>perOH.
     bindM (sbitRateScanParallelLocal la \<lparr>dac_vals = perOH, vfat_rates = perVFAT, oh_rates = perOH\<rparr>
              ch dacMin dacMax dacStep scanReg ohMask) (\<lambda>d.
       seqM [set_word_array ''outDataVFATRate'' (vfat_rates d),
             set_word_array ''outDataDacValue'' (dac_vals d),
             set_word_array ''outDataCTP7Rate'' (oh_rates d)])))))))))"


section \<open>Pulsing every channel of a VFAT\<close>

text \<open>
  What the two checks share: the preparation up to the channel registers, and the frame around the
  pulses of a channel. The words for the temporary channel registers are to mask the channel and to
  switch its pulse off, by an addition and a subtraction.
\<close>

definition quiet_word :: "u32 \<Rightarrow> u32" where
  "quiet_word w = (w + push_bit 14 0x1) - push_bit 15 0x1"

definition one_vfat :: "u32 \<Rightarrow> u32" where
  "one_vfat vfatN = NOT (push_bit (unat vfatN) 1) AND 0xFFFFFF"

definition prepare_check :: "localArgs \<Rightarrow> string \<Rightarrow> u32 \<Rightarrow> u32 \<Rightarrow> bool \<Rightarrow> u32 \<Rightarrow> u32 list option prog" where
  "prepare_check la caller ohN vmask currentPulse calScaleFactor =
     bindM (fw_version_check la) (\<lambda>fw.
     if fw < 3 then thenM (set_error (caller @ '' is only supported in V3 electronics'')) (ret None)
     else
       bindM (checked_vfats la ohN vmask currentPulse calScaleFactor) (\<lambda>good.
       if \<not> good then ret None
       else
         bindM (getChannelRegistersVFAT3Local la ohN vmask (stack_array la 3072)) (\<lambda>chanRegData_orig.
         thenM (setChannelRegistersVFAT3SimpleLocal la ohN vmask (map quiet_word chanRegData_orig))
           (ret (Some chanRegData_orig)))))"

text \<open>
  One channel: unmask, pulse, \<open>body\<close>, stop the pulse, mask. The message for a pulse that cannot be
  switched on uses the conversion \<^verbatim>\<open>%b\<close>, which \<^verbatim>\<open>printf\<close> does not define.
\<close>

definition pulse_channel ::
  "localArgs \<Rightarrow> u32 \<Rightarrow> u32 \<Rightarrow> bool \<Rightarrow> bool \<Rightarrow> u32 \<Rightarrow> (nat \<Rightarrow> 'a \<Rightarrow> 'a prog) \<Rightarrow> nat \<Rightarrow> 'a \<Rightarrow> ('a + 'a) prog" where
  "pulse_channel la ohN vfatN useCalPulse currentPulse calScaleFactor body chan a =
     thenM (writeReg la (chan_mask_reg ohN (unat vfatN) chan) 0x0) (
     bindM (confCalPulseLocal la ohN (one_vfat vfatN) (of_nat chan) useCalPulse currentPulse calScaleFactor) (\<lambda>conf.
     if \<not> conf then abortM Undefined
     else
       bindM (body chan a) (\<lambda>a.
       bindM (confCalPulseLocal la ohN (one_vfat vfatN) (of_nat chan) False currentPulse calScaleFactor) (\<lambda>conf.
       if \<not> conf
       then thenM (set_error (calpulse_error ''OFF'' ohN (one_vfat vfatN) (of_nat chan))) (ret (Inl a))
       else thenM (writeReg la (chan_mask_reg ohN (unat vfatN) chan) 0x1) (ret (Inr a))))))"

definition masked_vfat_error :: "u32 \<Rightarrow> u32 \<Rightarrow> string" where
  "masked_vfat_error vfatN vmask = ''The vfat of interest '' @ fmt_i vfatN
     @ '' should not be part of the vfats to be masked: '' @ fmt_x vmask"

definition pulse_all ::
  "localArgs \<Rightarrow> u32 \<Rightarrow> u32 \<Rightarrow> u32 \<Rightarrow> u32 list \<Rightarrow> (nat \<Rightarrow> 'a \<Rightarrow> ('a + 'a) prog) \<Rightarrow> 'a \<Rightarrow> 'a prog" where
  "pulse_all la ohN vfatN vmask chanRegData_orig channel a =
     bindM (oh_enabled (not_mask vmask) (unat vfatN)) (\<lambda>present.
     if \<not> present then thenM (set_error (masked_vfat_error vfatN vmask)) (ret a)
     else
       thenM (writeReg la (trig_reg ohN ''CTRL.VFAT_MASK'') (one_vfat vfatN)) (
       thenM (writeReg la (vfat_reg ohN (unat vfatN) ''CFG_RUN'') 0x1) (
       bindM (foldE channel [0..<128] a) (\<lambda>r. case r of
           Inl a \<Rightarrow> ret a
         | Inr a \<Rightarrow>
             thenM (writeReg la (vfat_reg ohN (unat vfatN) ''CFG_RUN'') 0x0) (
             thenM (ttcGenToggleLocal la ohN False) (
             thenM (setChannelRegistersVFAT3SimpleLocal la ohN vmask chanRegData_orig) (
             thenM (writeReg la (trig_reg ohN ''CTRL.VFAT_MASK'') 0x0) (ret a))))))))"

section \<open>The mapping of sbits\<close>

definition vfat_observed :: "u32 \<Rightarrow> int" where
  "vfat_observed sbitAddress = 7 - int (unat sbitAddress div 192) + int (unat sbitAddress mod 192 div 64) * 8"

definition sbit_observed :: "u32 \<Rightarrow> u32" where
  "sbit_observed sbitAddress = sbitAddress mod 64"

definition mapping_word :: "u32 \<Rightarrow> u32 \<Rightarrow> nat \<Rightarrow> u32" where
  "mapping_word thisCluster vfatN chan =
     (let clusterSize = drop_bit 12 thisCluster AND 0x7; sbitAddress = thisCluster AND 0x7ff
      in push_bit 27 (clusterSize AND 0x7) + push_bit 26 (if sbitAddress < 1536 then 1 else 0)
         + push_bit 21 (word_of_int (vfat_observed sbitAddress) AND 0x1f) + push_bit 16 (vfatN AND 0x1f)
         + push_bit 8 (sbit_observed sbitAddress AND 0xff) + (of_nat chan AND 0xff))"

definition mapping_idx :: "u32 \<Rightarrow> nat \<Rightarrow> nat \<Rightarrow> nat \<Rightarrow> nat" where
  "mapping_idx nevts chan iPulse cluster = unat (of_nat chan * (nevts * 8) + (of_nat iPulse * 8 + of_nat cluster) :: u32)"

text \<open>\<^verbatim>\<open>200+int(ceil(pulseDelay*25*0.001))\<close>, the product taken in 32 bits.\<close>

definition pulse_wait_us :: "u32 \<Rightarrow> nat" where
  "pulse_wait_us pulseDelay = 200 + (unat (pulseDelay * 25) + 999) div 1000"

definition mapping_pulses ::
  "localArgs \<Rightarrow> u32 \<Rightarrow> bool \<Rightarrow> u32 \<Rightarrow> u32 \<Rightarrow> u32 \<Rightarrow> u32 \<Rightarrow> u32 list \<Rightarrow> nat \<Rightarrow> u32 list \<Rightarrow> u32 list prog" where
  "mapping_pulses la vfatN useCalPulse nevts pulseDelay addrSbitMonReset addrTtcStart addrSbitCluster chan outData =
     foldM (\<lambda>iPulse outData.
       thenM (writeRawAddress la addrSbitMonReset 0x1) (
       thenM (whenM useCalPulse (writeRawAddress la addrTtcStart 0x1)) (
       thenM (sleep_us (pulse_wait_us pulseDelay)) (
         foldM (\<lambda>cluster outData.
           bindM (readRawAddress la (addrSbitCluster ! cluster)) (\<lambda>thisCluster.
             arr_set outData (mapping_idx nevts chan iPulse cluster) (mapping_word thisCluster vfatN chan)))
           [0..<8] outData)))) [0..<unat nevts] outData"

definition checkSbitMappingWithCalPulseLocal ::
  "localArgs \<Rightarrow> u32 list \<Rightarrow> u32 \<Rightarrow> u32 \<Rightarrow> u32 \<Rightarrow> bool \<Rightarrow> bool \<Rightarrow> u32 \<Rightarrow> u32 \<Rightarrow> u32 \<Rightarrow> u32 \<Rightarrow> u32 list prog" where
  "checkSbitMappingWithCalPulseLocal la outData ohN vfatN vmask useCalPulse currentPulse calScaleFactor nevts L1Ainterval pulseDelay =
     bindM (prepare_check la ''checkSbitMappingWithCalPulse'' ohN vmask currentPulse calScaleFactor) (\<lambda>r. case r of
       None \<Rightarrow> ret outData
     | Some chanRegData_orig \<Rightarrow>
         thenM (ttcGenConfLocal la ohN 0 0 pulseDelay L1Ainterval nevts True) (
         thenM (writeReg la (ttc_gen @ ''SINGLE_RESYNC'') 0x1) (
         thenM (writeReg la (ttc_gen @ ''CYCLIC_L1A_COUNT'') 0x1) (
         bindM (getAddress la (ttc_gen @ ''CYCLIC_START'')) (\<lambda>addrTtcStart.
         thenM (broadcastWriteLocal la ohN ''CFG_RUN'' 0x0 vmask) (
         thenM (writeReg la sc_only_mode 0x0) (
         thenM (writeReg la (sbit_monitor @ ''OH_SELECT'') ohN) (
         bindM (getAddress la (sbit_monitor @ ''RESET'')) (\<lambda>addrSbitMonReset.
         bindM (collectM [0..<8] (\<lambda>iCluster. getAddress la (sbit_monitor @ ''CLUSTER'' @ dec iCluster))) (\<lambda>addrSbitCluster.
           pulse_all la ohN vfatN vmask chanRegData_orig
             (pulse_channel la ohN vfatN useCalPulse currentPulse calScaleFactor
               (mapping_pulses la vfatN useCalPulse nevts pulseDelay addrSbitMonReset addrTtcStart addrSbitCluster)) outData))))))))))"

definition checkSbitMappingWithCalPulse :: "localArgs \<Rightarrow> rpc_request \<Rightarrow> unit prog" where
  "checkSbitMappingWithCalPulse la request =
     bindM (get_word request ''ohN'') (\<lambda>ohN.
     bindM (get_word request ''vfatN'') (\<lambda>vfatN.
     bindM (get_word request ''mask'') (\<lambda>vmask.
     bindM (get_word request ''useCalPulse'') (\<lambda>useCalPulse.
     bindM (get_word request ''currentPulse'') (\<lambda>currentPulse.
     bindM (get_word request ''calScaleFactor'') (\<lambda>calScaleFactor.
     bindM (get_word request ''nevts'') (\<lambda>nevts.
     bindM (get_word request ''L1Ainterval'') (\<lambda>L1Ainterval.
     bindM (get_word request ''pulseDelay'') (\<lambda>pulseDelay.
     bindM (checkSbitMappingWithCalPulseLocal la (stack_array la (unat (128 * 8 * nevts))) ohN vfatN vmask
              (useCalPulse \<noteq> 0) (currentPulse \<noteq> 0) calScaleFactor nevts L1Ainterval pulseDelay) (\<lambda>outData.
       set_word_array ''data'' outData))))))))))"

section \<open>The rates of sbits\<close>

text \<open>
  \<^verbatim>\<open>uint32_t(0x02638e98*waitTime/1000.)\<close> and \<^verbatim>\<open>rate*waitTime/1000.\<close>: the products are taken in 32 bits, the
  quotient in floating point; its integer part is that of the integer division.
\<close>

definition counting_window :: "u32 \<Rightarrow> u32" where
  "counting_window waitTime = (0x02638e98 * waitTime) div 1000"

definition scaled_count :: "u32 \<Rightarrow> u32 \<Rightarrow> u32" where
  "scaled_count w waitTime = (w * waitTime) div 1000"

definition L1A_interval :: "u32 \<Rightarrow> u32" where
  "L1A_interval pulseRate = (if pulseRate > 0 then 40079000 div pulseRate else 0)"

type_synonym sbit_rates = "u32 list \<times> u32 list \<times> u32 list"

text \<open>The addresses: 24 VFAT counters, the cluster counter of the OptoHybrid, the trigger rate of the CTP7.\<close>

definition rate_pulse ::
  "localArgs \<Rightarrow> u32 \<Rightarrow> u32 \<Rightarrow> u32 \<Rightarrow> u32 \<Rightarrow> u32 \<Rightarrow> u32 list \<Rightarrow> u32 \<Rightarrow> u32 \<Rightarrow> u32 \<Rightarrow> u32 \<Rightarrow>
     nat \<Rightarrow> sbit_rates \<Rightarrow> sbit_rates prog" where
  "rate_pulse la ohN vfatN waitTime L1Ainterval pulseDelay ohTrigRateAddr addTrgCntResetOH addTrgCntResetCTP7
       addrTtcStart addrTtcReset chan out =
     thenM (writeRawAddress la addTrgCntResetOH 0x1) (
     thenM (writeRawAddress la addTrgCntResetCTP7 0x1) (
     thenM (ttcGenConfLocal la ohN 0 0 pulseDelay L1Ainterval 0 True) (
     thenM (writeReg la (ttc_gen @ ''SINGLE_RESYNC'') 0x1) (
     thenM (writeReg la (ttc_gen @ ''CYCLIC_L1A_COUNT'') 0x0) (
     thenM (writeRawAddress la addrTtcStart 0x1) (
     thenM (sleep_ms (unat waitTime)) (
     bindM (readRawAddress la (ohTrigRateAddr ! 25)) (\<lambda>w.
     bindM (arr_set (fst out) chan w) (\<lambda>outDataCTP7Rate.
     bindM (readRawAddress la (ohTrigRateAddr ! 24)) (\<lambda>w.
     bindM (arr_set (fst (snd out)) chan (scaled_count w waitTime)) (\<lambda>outDataFPGAClusterCntRate.
     bindM (readRawAddress la (ohTrigRateAddr ! unat vfatN)) (\<lambda>w.
     bindM (arr_set (snd (snd out)) chan (scaled_count w waitTime)) (\<lambda>outDataVFATSBits.
     thenM (writeRawAddress la addrTtcReset 0x1)
       (ret (outDataCTP7Rate, outDataFPGAClusterCntRate, outDataVFATSBits)))))))))))))))"

definition checkSbitRateWithCalPulseLocal ::
  "localArgs \<Rightarrow> sbit_rates \<Rightarrow> u32 \<Rightarrow> u32 \<Rightarrow> u32 \<Rightarrow> bool \<Rightarrow> bool \<Rightarrow> u32 \<Rightarrow> u32 \<Rightarrow> u32 \<Rightarrow> u32 \<Rightarrow> sbit_rates prog" where
  "checkSbitRateWithCalPulseLocal la out ohN vfatN vmask useCalPulse currentPulse calScaleFactor waitTime pulseRate pulseDelay =
     bindM (prepare_check la ''checkSbitRateWithCalPulse'' ohN vmask currentPulse calScaleFactor) (\<lambda>r. case r of
       None \<Rightarrow> ret out
     | Some chanRegData_orig \<Rightarrow>
         bindM (getAddress la (ttc_gen @ ''RESET'')) (\<lambda>addrTtcReset.
         bindM (getAddress la (ttc_gen @ ''CYCLIC_START'')) (\<lambda>addrTtcStart.
         bindM (collectM (map (vfat_sbits_reg ohN) [0..<24] @ [trig_reg ohN ''CNT.CLUSTER_COUNT'', trigger_rate_reg ohN])
                  (getAddress la)) (\<lambda>ohTrigRateAddr.
         bindM (getAddress la (trig_reg ohN ''CNT.RESET'')) (\<lambda>addTrgCntResetOH.
         bindM (getAddress la ''GEM_AMC.TRIGGER.CTRL.CNT_RESET'') (\<lambda>addTrgCntResetCTP7.
         thenM (broadcastWriteLocal la ohN ''CFG_RUN'' 0x0 vmask) (
         thenM (writeReg la sc_only_mode 0x0) (
         thenM (writeReg la (trig_reg ohN ''CNT.SBIT_CNT_PERSIST'') 0x0) (
         thenM (writeReg la (trig_reg ohN ''CNT.SBIT_CNT_TIME_MAX'') (counting_window waitTime)) (
           pulse_all la ohN vfatN vmask chanRegData_orig
             (pulse_channel la ohN vfatN useCalPulse currentPulse calScaleFactor
               (rate_pulse la ohN vfatN waitTime (L1A_interval pulseRate) pulseDelay ohTrigRateAddr
                  addTrgCntResetOH addTrgCntResetCTP7 addrTtcStart addrTtcReset)) out))))))))))"

definition checkSbitRateWithCalPulse :: "localArgs \<Rightarrow> rpc_request \<Rightarrow> unit prog" where
  "checkSbitRateWithCalPulse la request =
     bindM (get_word request ''ohN'') (\<lambda>ohN.
     bindM (get_word request ''vfatN'') (\<lambda>vfatN.
     bindM (get_word request ''mask'') (\<lambda>vmask.
     bindM (get_word request ''useCalPulse'') (\<lambda>useCalPulse.
     bindM (get_word request ''currentPulse'') (\<lambda>currentPulse.
     bindM (get_word request ''calScaleFactor'') (\<lambda>calScaleFactor.
     bindM (get_word request ''waitTime'') (\<lambda>waitTime.
     bindM (get_word request ''pulseRate'') (\<lambda>pulseRate.
     bindM (get_word request ''pulseDelay'') (\<lambda>pulseDelay.
     bindM (checkSbitRateWithCalPulseLocal la (stack_array la 128, stack_array la 128, stack_array la 128) ohN vfatN vmask
              (useCalPulse \<noteq> 0) (currentPulse \<noteq> 0) calScaleFactor waitTime pulseRate pulseDelay) (\<lambda>out.
       seqM [set_word_array ''outDataCTP7Rate'' (fst out),
             set_word_array ''outDataFPGAClusterCntRate'' (fst (snd out)),
             set_word_array ''outDataVFATSBits'' (snd (snd out))]))))))))))"

section \<open>Sbit addresses\<close>

text \<open>The address of the strip pair \<open>s\<close> of VFAT \<open>v\<close> in the numbering of the trigger firmware.\<close>

definition sbit_address :: "nat \<Rightarrow> nat \<Rightarrow> nat" where
  "sbit_address v s = (7 - v mod 8) * 192 + v div 8 * 64 + s"

lemma sbit_address_bound:
  assumes "v < 24" "s < 64"
  shows "sbit_address v s < 1536"
proof -
  have "(7 - v mod 8) * 192 \<le> 7 * 192" by (intro mult_le_mono1) simp
  moreover have "v div 8 * 64 \<le> 2 * 64" using assms(1) by (intro mult_le_mono1) simp
  ultimately show ?thesis using assms(2) by (simp add: sbit_address_def)
qed

lemma sbit_address_parts:
  assumes "v < 24" "s < 64"
  shows "sbit_address v s div 192 = 7 - v mod 8" "sbit_address v s mod 192 div 64 = v div 8" "sbit_address v s mod 64 = s"
proof -
  have "v div 8 \<le> 2" using assms(1) by simp
  then have d: "v div 8 * 64 + s < 192" using assms(2) by simp
  have split: "sbit_address v s = (v div 8 * 64 + s) + 192 * (7 - v mod 8)" by (simp add: sbit_address_def)
  show "sbit_address v s div 192 = 7 - v mod 8"
    unfolding split using d by simp
  have m: "sbit_address v s mod 192 = v div 8 * 64 + s"
    unfolding split using d by simp
  show "sbit_address v s mod 192 div 64 = v div 8" unfolding m using assms(2) by simp
  have "sbit_address v s = s + 64 * (3 * (7 - v mod 8) + v div 8)" by (simp add: sbit_address_def)
  then show "sbit_address v s mod 64 = s" using assms(2) by (simp only: mod_mult_self2 mod_less)
qed

lemma sbit_address_observed:
  assumes "v < 24" "s < 64"
  shows "vfat_observed (of_nat (sbit_address v s)) = int v" "sbit_observed (of_nat (sbit_address v s)) = of_nat s"
    "(of_nat (sbit_address v s) :: u32) < 1536"
proof -
  have u: "unat (of_nat (sbit_address v s) :: u32) = sbit_address v s"
    using sbit_address_bound [OF assms] by (intro unat_small) simp
  have "int v = int (v mod 8) + int (v div 8) * 8" by (simp add: zmod_int zdiv_int)
  moreover have "int (7 - v mod 8) = 7 - int (v mod 8)"
    using mod_less_divisor [of 8 v] by (simp add: of_nat_diff)
  ultimately show "vfat_observed (of_nat (sbit_address v s)) = int v"
    unfolding vfat_observed_def u sbit_address_parts [OF assms] by simp
  show "sbit_observed (of_nat (sbit_address v s)) = of_nat s"
  proof (rule unsigned_word_eqI)
    show "unat (sbit_observed (of_nat (sbit_address v s))) = unat (of_nat s :: u32)"
      using sbit_address_parts(3) [OF assms] assms(2) u unat_small [of s]
      unfolding sbit_observed_def unat_mod by simp
  qed
  show "(of_nat (sbit_address v s) :: u32) < 1536"
    using sbit_address_bound [OF assms] u by (simp add: word_less_nat_alt)
qed

lemma sbit_address_onto:
  assumes "a < 1536"
  shows "\<exists>v<24. \<exists>s<64. a = sbit_address v s"
proof -
  define r where "r = 7 - a div 192"
  define q where "q = a mod 192 div 64"
  have row: "a div 192 < 8" and col: "q < 3" using assms by (auto simp: q_def less_mult_imp_div_less)
  have "r < 8" by (simp add: r_def)
  then have m: "(r + q * 8) mod 8 = r" "(r + q * 8) div 8 = q" by simp_all
  have "q * 64 + a mod 64 = a mod 192"
  proof -
    have "a mod 192 mod 64 = a mod 64" by (rule mod_mod_cancel) simp
    then show ?thesis using div_mult_mod_eq [of "a mod 192" 64] by (simp add: q_def)
  qed
  then have "a = a div 192 * 192 + (q * 64 + a mod 64)" by (simp only: div_mult_mod_eq)
  moreover have "7 - r = a div 192" using row by (simp add: r_def)
  ultimately have "a = sbit_address (r + q * 8) (a mod 64)"
    unfolding sbit_address_def m by (simp only: add.assoc)
  moreover have "r + q * 8 < 24" using \<open>r < 8\<close> col by simp
  ultimately show ?thesis by (metis mod_less_divisor zero_less_numeral)
qed

section \<open>The word of a cluster\<close>

lemma bit_1f: "bit (0x1f :: u32) n \<longleftrightarrow> n < 5"
proof -
  have "(0x1f :: u32) = mask 5" by (simp add: mask_eq_exp_minus_1)
  then show ?thesis by (simp only: bit_mask_iff) auto
qed

lemma bit_ff: "bit (0xff :: u32) n \<longleftrightarrow> n < 8"
proof -
  have "(0xff :: u32) = mask 8" by (simp add: mask_eq_exp_minus_1)
  then show ?thesis by (simp only: bit_mask_iff) auto
qed

lemma bit_7: "bit (0x7 :: u32) n \<longleftrightarrow> n < 3"
proof -
  have "(0x7 :: u32) = mask 3" by (simp add: mask_eq_exp_minus_1)
  then show ?thesis by (simp only: bit_mask_iff) auto
qed

text \<open>Six fields of a word, added up, do not overlap.\<close>

lemma six_fields:
  fixes k b v n s c :: u32
  assumes "\<And>i. bit k i \<Longrightarrow> i < 3" "\<And>i. bit b i \<Longrightarrow> i < 1" "\<And>i. bit v i \<Longrightarrow> i < 5" "\<And>i. bit n i \<Longrightarrow> i < 5"
    "\<And>i. bit s i \<Longrightarrow> i < 8" "\<And>i. bit c i \<Longrightarrow> i < 8"
  shows "push_bit 27 k + push_bit 26 b + push_bit 21 v + push_bit 16 n + push_bit 8 s + c =
    push_bit 27 k OR push_bit 26 b OR push_bit 21 v OR push_bit 16 n OR push_bit 8 s OR c"
proof -
  have "push_bit 27 k + push_bit 26 b + push_bit 21 v + push_bit 16 n + push_bit 8 s + c =
      push_bit 27 k + (push_bit 26 b + (push_bit 21 v + (push_bit 16 n + (push_bit 8 s + c))))"
    by (simp only: add.assoc)
  also have "push_bit 8 s + c = push_bit 8 s OR c"
    by (rule add_is_or, simp only: word_bits) (auto dest!: assms)
  also have "push_bit 16 n + \<dots> = push_bit 16 n OR \<dots>"
    by (rule add_is_or, simp only: word_bits) (auto dest!: assms)
  also have "push_bit 21 v + \<dots> = push_bit 21 v OR \<dots>"
    by (rule add_is_or, simp only: word_bits) (auto dest!: assms)
  also have "push_bit 26 b + \<dots> = push_bit 26 b OR \<dots>"
    by (rule add_is_or, simp only: word_bits) (auto dest!: assms)
  also have "push_bit 27 k + \<dots> = push_bit 27 k OR \<dots>"
    by (rule add_is_or, simp only: word_bits) (auto dest!: assms)
  finally show ?thesis .
qed

lemma six_fields_get:
  fixes k b v n s c :: u32
  assumes "\<And>i. bit k i \<Longrightarrow> i < 3" "\<And>i. bit b i \<Longrightarrow> i < 1" "\<And>i. bit v i \<Longrightarrow> i < 5" "\<And>i. bit n i \<Longrightarrow> i < 5"
    "\<And>i. bit s i \<Longrightarrow> i < 8" "\<And>i. bit c i \<Longrightarrow> i < 8"
    and w: "w = push_bit 27 k + push_bit 26 b + push_bit 21 v + push_bit 16 n + push_bit 8 s + c"
  shows "drop_bit 27 w AND 0x7 = k" "bit w 26 = bit b 0" "drop_bit 21 w AND 0x1f = v" "drop_bit 16 w AND 0x1f = n"
    "drop_bit 8 w AND 0xff = s" "w AND 0xff = c"
proof -
  note p = assms(1-6)
  have w: "w = push_bit 27 k OR push_bit 26 b OR push_bit 21 v OR push_bit 16 n OR push_bit 8 s OR c"
    unfolding w using assms(1-6) by (rule six_fields)
  note bits = word_bits bit_7 bit_1f bit_ff comp_def
  show "bit w 26 = bit b 0" unfolding w by (simp only: bits) (auto dest: p)
  show "drop_bit 27 w AND 0x7 = k" "drop_bit 21 w AND 0x1f = v" "drop_bit 16 w AND 0x1f = n"
    "drop_bit 8 w AND 0xff = s" "w AND 0xff = c"
    unfolding w by (rule bit_word_eqI, simp only: bits, auto dest: p)+
qed

text \<open>
  C36 (sbit mapping): every address below 1536 belongs to exactly one VFAT and strip pair. For a
  cluster at the address of strip pair \<open>s\<close> of VFAT \<open>v\<close>, the word that
  \<^verbatim>\<open>checkSbitMappingWithCalPulseLocal\<close> stores has the valid flag set, and \<open>v\<close>, \<open>s\<close>, the size of the
  cluster, the pulsed VFAT and the channel can each be taken out of it.
\<close>

theorem sbit_mapping_decodes:
  assumes "v < 24" "s < 64" and a: "thisCluster AND 0x7ff = of_nat (sbit_address v s)"
    and "vfatN < 32" "chan < 128"
  shows "bit (mapping_word thisCluster vfatN chan) 26
    \<and> drop_bit 21 (mapping_word thisCluster vfatN chan) AND 0x1f = of_nat v
    \<and> drop_bit 8 (mapping_word thisCluster vfatN chan) AND 0xff = of_nat s
    \<and> drop_bit 27 (mapping_word thisCluster vfatN chan) AND 0x7 = drop_bit 12 thisCluster AND 0x7
    \<and> drop_bit 16 (mapping_word thisCluster vfatN chan) AND 0x1f = vfatN
    \<and> mapping_word thisCluster vfatN chan AND 0xff = of_nat chan
    \<and> (\<forall>a<1536. \<exists>v'<24. \<exists>s'<64. a = sbit_address v' s')"
proof -
  have small: "bit (w AND 0x7) i \<Longrightarrow> i < 3" "bit (w AND 0x1f) i \<Longrightarrow> i < 5" "bit (w AND 0xff) i \<Longrightarrow> i < 8" for w :: u32 and i
    by (simp_all only: bit_and_iff bit_7 bit_1f bit_ff)
  have one: "bit (1 :: u32) i \<Longrightarrow> i < 1" for i by (simp add: bit_1_iff)
  have id: "w AND m = w" if "\<And>i. bit w i \<Longrightarrow> bit m i" for w m :: u32
    by (rule bit_word_eqI) (use that in \<open>auto simp: bit_and_iff\<close>)
  have nat5: "of_nat n AND 0x1f = (of_nat n :: u32)" if "n < 32" for n
    by (rule id, simp only: bit_1f, rule small_bits) (use that unat_small [of n] in auto)
  have nat8: "of_nat n AND 0xff = (of_nat n :: u32)" if "n < 256" for n
    by (rule id, simp only: bit_ff, rule small_bits) (use that unat_small [of n] in auto)
  have v: "word_of_int (vfat_observed (thisCluster AND 0x7ff)) AND 0x1f = (of_nat v :: u32)"
    unfolding a sbit_address_observed(1) [OF assms(1,2)] using nat5 [of v] assms(1) by simp
  have s: "sbit_observed (thisCluster AND 0x7ff) AND 0xff = of_nat s"
    unfolding a sbit_address_observed(2) [OF assms(1,2)] using nat8 [of s] assms(2) by simp
  have n: "vfatN AND 0x1f = vfatN"
    by (rule id, simp only: bit_1f, rule small_bits) (use assms(4) in \<open>auto simp: word_less_nat_alt\<close>)
  have c: "of_nat chan AND 0xff = (of_nat chan :: u32)" using nat8 assms(5) by simp
  have k: "(drop_bit 12 thisCluster AND 0x7) AND 0x7 = drop_bit 12 thisCluster AND (0x7 :: u32)"
    by (simp add: and.assoc)
  have word: "mapping_word thisCluster vfatN chan = push_bit 27 (drop_bit 12 thisCluster AND 0x7) + push_bit 26 1
      + push_bit 21 (of_nat v) + push_bit 16 vfatN + push_bit 8 (of_nat s) + of_nat chan"
    unfolding mapping_word_def Let_def
    using sbit_address_observed(3) [OF assms(1,2), folded a] by (simp only: v s n c k if_True)
  have vb: "bit (of_nat v :: u32) i \<Longrightarrow> i < 5" for i using small(2) [of "of_nat v" i] nat5 [of v] assms(1) by simp
  have sb: "bit (of_nat s :: u32) i \<Longrightarrow> i < 8" for i using small(3) [of "of_nat s" i] nat8 [of s] assms(2) by simp
  have nb: "bit vfatN i \<Longrightarrow> i < 5" for i using small(2) [of vfatN i] n by simp
  have cb: "bit (of_nat chan :: u32) i \<Longrightarrow> i < 8" for i using small(3) [of "of_nat chan" i] c by simp
  show ?thesis
    using six_fields_get [OF small(1) one vb nb sb cb word] sbit_address_onto by simp
qed

theorem sbit_mapping_decodes_witness:
  "drop_bit 21 (mapping_word 0x5f7 3 17) AND 0x1f = 16 \<and> drop_bit 8 (mapping_word 0x5f7 3 17) AND 0xff = 55"
proof -
  have "(0x5f7 :: u32) AND 0x7ff = of_nat (sbit_address 16 55)" by (simp add: sbit_address_def)
  from sbit_mapping_decodes [OF _ _ this, of 3 17] show ?thesis by simp
qed

section \<open>Quiet channels\<close>

lemma quiet_word_sub: "quiet_word w = w - 0x4000"
  by (simp add: quiet_word_def)

lemma channel_word_flags:
  "channel_word 1 m zp z ap a = channel_word 0 m zp z ap a + 0x8000"
  "channel_word c 1 zp z ap a = channel_word c 0 zp z ap a + 0x4000"
  by (simp_all add: channel_word_def)

lemma top_bits:
  fixes w :: u32
  assumes low: "\<And>n. bit w n \<Longrightarrow> n < 14"
  shows "bit (w - 0x4000) 15 \<and> bit (w - 0x4000) 14"
proof -
  have hi: "bit (0xFFFFC000 :: u32) n \<longleftrightarrow> 14 \<le> n \<and> n < 32" for n
  proof -
    have "(0xFFFFC000 :: u32) = NOT (mask 14)" by (simp add: mask_eq_exp_minus_1)
    then show ?thesis by (simp only: bit_not_iff bit_mask_iff) (auto simp: possible_bit_def)
  qed
  have "w - 0x4000 = w + 0xFFFFC000" by simp
  also have "\<dots> = w OR 0xFFFFC000"
    by (rule add_is_or) (use low hi in force)
  finally show ?thesis by (simp only: bit_or_iff hi) simp
qed

text \<open>
  The temporary channel registers: the addition and subtraction that are to mask a channel and switch
  its pulse off do that only for a channel that is not masked and pulses. An idle channel, neither
  masked nor pulsed, gets both bits set, so its pulse is switched on; a masked channel is unmasked.
\<close>

theorem quiet_word_cases:
  assumes "zccPol < 2" "zcc \<le> 0x3F" "armPol < 2" "arm \<le> 0x3F"
  shows "quiet_word (channel_word 1 0 zccPol zcc armPol arm) = channel_word 0 1 zccPol zcc armPol arm
    \<and> bit (quiet_word (channel_word 0 0 zccPol zcc armPol arm)) 15
    \<and> bit (quiet_word (channel_word 0 0 zccPol zcc armPol arm)) 14
    \<and> quiet_word (channel_word 0 1 zccPol zcc armPol arm) = channel_word 0 0 zccPol zcc armPol arm
    \<and> quiet_word (channel_word 1 1 zccPol zcc armPol arm) = channel_word 1 0 zccPol zcc armPol arm"
proof -
  have trim: "zcc < 64" "arm < 64" using assms(2,4) by (simp_all add: word_less_nat_alt word_le_nat_alt)
  have b: "bit zccPol n \<Longrightarrow> n < 1" "bit zcc n \<Longrightarrow> n < 6" "bit armPol n \<Longrightarrow> n < 1" "bit arm n \<Longrightarrow> n < 6" for n
    using small_bits [of _ 1 n] small_bits [of _ 6 n] assms(1,3) trim by (simp_all add: word_less_nat_alt)
  have "bit (channel_word 0 0 zccPol zcc armPol arm) n \<Longrightarrow> n < 14" for n
    unfolding channel_word_or [of 0 0, simplified, OF assms(1) trim(1) assms(3) trim(2)]
    by (simp only: word_bits) (auto dest!: b)
  then have "bit (quiet_word (channel_word 0 0 zccPol zcc armPol arm)) 15 \<and> bit (quiet_word (channel_word 0 0 zccPol zcc armPol arm)) 14"
    unfolding quiet_word_sub by (rule top_bits)
  then show ?thesis by (simp add: quiet_word_sub channel_word_flags)
qed

theorem quiet_word_cases_witness:
  "quiet_word (channel_word 1 0 1 5 0 7) = channel_word 0 1 1 5 0 7 \<and> bit (quiet_word (channel_word 0 0 1 5 0 7)) 15"
  using quiet_word_cases [of 1 5 0 7] by simp

section \<open>The counting window\<close>

text \<open>
  The counting window: the number of bunch crossings to count for, 40079 for each millisecond, is right up to 107
  ms; from 108 ms on the product of 32 bits can wrap around: 108 ms give less than 1 ms, and the
  second that a user would ask for gives 36 ms.
\<close>

theorem counting_window_wraps:
  "(waitTime \<le> 107 \<longrightarrow> unat (counting_window waitTime) = 40079 * unat waitTime)
    \<and> unat (counting_window 108) = 33564 \<and> unat (counting_window 1000) = 1424294"
proof -
  have right: "unat (counting_window waitTime) = 40079 * unat waitTime" if "waitTime \<le> 107"
  proof -
    have "unat waitTime \<le> 107" using that by (simp add: word_le_nat_alt)
    then have "40079000 * unat waitTime < 2 ^ 32" by simp
    then have "unat (0x02638e98 * waitTime) = 40079000 * unat waitTime" by (simp add: unat_word_ariths)
    then have "unat (counting_window waitTime) = 40079000 * unat waitTime div 1000"
      unfolding counting_window_def unat_div by simp
    then show ?thesis by simp
  qed
  have "unat (0x02638e98 * 108 :: u32) = 33564704" "unat (0x02638e98 * 1000 :: u32) = 1424294336" by simp_all
  then have "unat (counting_window 108) = 33564" "unat (counting_window 1000) = 1424294"
    unfolding counting_window_def unat_div by simp_all
  with right show ?thesis by blast
qed

theorem counting_window_wraps_witness: "unat (counting_window 100) = 4007900"
  using counting_window_wraps [of 100] by simp

section \<open>The table of masks\<close>


section \<open>Positions of the clusters\<close>

lemma mapping_idx_value:
  assumes "128 * 8 * unat nevts < 2 ^ 32" "chan < 128" "iPulse < unat nevts" "cluster < 8"
  shows "mapping_idx nevts chan iPulse cluster = cluster + 8 * (iPulse + unat nevts * chan)"
    and "mapping_idx nevts chan iPulse cluster < unat (128 * 8 * nevts)"
proof -
  let ?N = "unat nevts"
  have in8: "iPulse * 8 + cluster < ?N * 8" using assms(3,4) by linarith
  have "(chan + 1) * (?N * 8) \<le> 128 * (?N * 8)" using assms(2) by (intro mult_le_mono1) simp
  then have "chan * (?N * 8) + ?N * 8 \<le> 128 * (?N * 8)" by (simp only: add_mult_distrib mult_1)
  then have b: "chan * (?N * 8) + (iPulse * 8 + cluster) < 128 * 8 * ?N" using in8 by linarith
  have n8: "unat (nevts * 8) = ?N * 8" using assms(1) by (simp add: unat_word_ariths)
  have c: "unat (of_nat chan :: u32) = chan" "unat (of_nat iPulse :: u32) = iPulse" "unat (of_nat cluster :: u32) = cluster"
    using assms by (auto intro!: unat_small)
  have i8: "unat (of_nat iPulse * 8 + of_nat cluster :: u32) = iPulse * 8 + cluster"
    using in8 assms(1) by (simp add: unat_word_ariths c)
  have "chan * (?N * 8) < 2 ^ 32" using b assms(1) by linarith
  then have idx: "mapping_idx nevts chan iPulse cluster = chan * (?N * 8) + (iPulse * 8 + cluster)"
    unfolding mapping_idx_def using b assms(1) by (simp add: unat_word_ariths(1,2) c n8 i8 del: of_nat_add of_nat_mult)
  also have "\<dots> = cluster + 8 * (iPulse + ?N * chan)" by simp
  finally show "mapping_idx nevts chan iPulse cluster = cluster + 8 * (iPulse + ?N * chan)" .
  have "unat (128 * 8 * nevts) = 128 * 8 * ?N" using assms(1) by (simp add: unat_word_ariths)
  then show "mapping_idx nevts chan iPulse cluster < unat (128 * 8 * nevts)" using b idx by simp
qed

text \<open>
  No overlap of the clusters: while the array for the clusters fits 32 bits, each pulse of
  each channel has its own eight places in it, and channel, pulse and cluster can be read back from the position.
\<close>

theorem mapping_idx_slots:
  assumes "128 * 8 * unat nevts < 2 ^ 32" "chan < 128" "iPulse < unat nevts" "cluster < 8"
  shows "mapping_idx nevts chan iPulse cluster < unat (128 * 8 * nevts)
    \<and> mapping_idx nevts chan iPulse cluster mod 8 = cluster
    \<and> mapping_idx nevts chan iPulse cluster div 8 mod unat nevts = iPulse
    \<and> mapping_idx nevts chan iPulse cluster div 8 div unat nevts = chan"
proof -
  let ?N = "unat nevts"
  have "(cluster + 8 * (iPulse + ?N * chan)) div 8 = iPulse + ?N * chan" using assms(4) by simp
  moreover have "(cluster + 8 * (iPulse + ?N * chan)) mod 8 = cluster" using assms(4) by (simp only: mod_mult_self2 mod_less)
  moreover have "(iPulse + ?N * chan) mod ?N = iPulse" "(iPulse + ?N * chan) div ?N = chan" using assms(3) by simp_all
  ultimately show ?thesis using mapping_idx_value [OF assms] by (metis (no_types, lifting))
qed

theorem mapping_idx_slots_witness: "mapping_idx 100 127 99 7 < unat (128 * 8 * 100 :: u32) \<and> mapping_idx 100 127 99 7 mod 8 = 7"
  using mapping_idx_slots [of 100 127 99 7] by simp

end
