(* ===== verification/Polling.thy ===== *)
theory Polling
  imports RegisterSpec TtcPhaseShift SbitScan
begin

text \<open>
  The loops that wait for the device. They read a register, and go round again while it shows that the
  device is busy; whether they end depends on the device. The locale \<open>poll_loop\<close> is what they have in
  common, with the conditions on a device under which such a loop ends; each waiting loop of the
  modules is an instance. From these follows when the registered methods that wait return.
\<close>

section \<open>Devices that settle\<close>

fun reads_at :: "u32 \<Rightarrow> event \<Rightarrow> bool" where
  "reads_at a (MemRead b n r) = (b = a)"
| "reads_at a _ = False"

definition looks_at :: "u32 \<Rightarrow> event list \<Rightarrow> nat" where
  "looks_at a h = length (filter (reads_at a) h)"

lemma looks_at_append [simp]: "looks_at a (g @ h) = looks_at a g + looks_at a h"
  by (simp add: looks_at_def)

lemma looks_at_Cons: "looks_at a (e # h) = (if reads_at a e then 1 else 0) + looks_at a h"
  by (simp add: looks_at_def)

text \<open>The word at an address shows \<open>P\<close>, when it is read after this history.\<close>

definition shows_at :: "localArgs \<Rightarrow> u32 \<Rightarrow> (u32 \<Rightarrow> bool) \<Rightarrow> event list \<Rightarrow> bool" where
  "shows_at la a P h \<longleftrightarrow> (case mem_rd la h a 1 of None \<Rightarrow> False | Some f \<Rightarrow> P (f 0))"

text \<open>
  While nothing is written, at the latest after \<open>K\<close> readings of the word at \<open>a\<close> it shows \<open>P\<close>, and goes on
  to do so.
\<close>

definition settles :: "localArgs \<Rightarrow> nat \<Rightarrow> u32 \<Rightarrow> (u32 \<Rightarrow> bool) \<Rightarrow> bool" where
  "settles la K a P \<longleftrightarrow> (\<forall>g h. (\<forall>e\<in>set h. no_write e) \<longrightarrow> K \<le> looks_at a h \<longrightarrow> shows_at la a P (g @ h))"

text \<open>From \<open>s\<close> to \<open>t\<close> nothing was written, and one reading of the word did not show \<open>P\<close>.\<close>

definition busy :: "localArgs \<Rightarrow> u32 \<Rightarrow> (u32 \<Rightarrow> bool) \<Rightarrow> mach \<Rightarrow> mach \<Rightarrow> bool" where
  "busy la a P s t \<longleftrightarrow> (\<exists>h e h'. hist t = hist s @ h @ e # h' \<and> (\<forall>e\<in>set (h @ e # h'). no_write e)
     \<and> reads_at a e \<and> \<not> shows_at la a P (hist s @ h))"

lemma busyI:
  assumes "hist u = hist s @ h @ [e]" "\<forall>e\<in>set h. no_write e" "reads_at a e" "\<not> shows_at la a P (hist s @ h)"
    and "extends no_write K u t"
  shows "busy la a P s t"
proof -
  have "no_write e" using assms(3) by (cases e) simp_all
  then show ?thesis using assms unfolding busy_def extends_def by fastforce
qed

section \<open>The interface\<close>

text \<open>One round of the loop ends it (\<open>Inl\<close>) or goes on with new local variables.\<close>

locale poll_loop =
  fixes turn :: "'x \<Rightarrow> ('r + 'x) prog" and loop :: "'x \<Rightarrow> 'r prog"
  assumes turns: "returns (turn x)"
    and unfold: "loop x s = bindM (turn x) (\<lambda>r. case r of Inl v \<Rightarrow> ret v | Inr y \<Rightarrow> loop y) s"
begin

lemma goes_round:
  assumes "\<And>y t. turn x s = Some (Val (Inr y), t) \<Longrightarrow> loop y t \<noteq> None"
  shows "loop x s \<noteq> None"
proof -
  obtain r t where t: "turn x s = Some (r, t)" using returnsD [OF turns] by blast
  show ?thesis
  proof (cases r)
    case (Val q)
    then show ?thesis using t assms unfolding unfold [of x s] by (cases q) (simp_all add: bindM_Val ret_def)
  next
    case (Abort e)
    then show ?thesis using t unfolding unfold [of x s] by (simp add: bindM_Abort)
  qed
qed

text \<open>A loop under an invariant, with rounds that come nearer to an end.\<close>

lemma ranked_returns:
  assumes step: "\<And>x s y t. I x s \<Longrightarrow> turn x s = Some (Val (Inr y), t) \<Longrightarrow> I y t \<and> rank y t < (rank x s :: nat)"
  shows "I x s \<Longrightarrow> loop x s \<noteq> None"
proof (induction "rank x s" arbitrary: x s rule: less_induct)
  case less
  show ?case
  proof (rule goes_round)
    fix y t
    assume "turn x s = Some (Val (Inr y), t)"
    with step [OF less.prems] show "loop y t \<noteq> None" by (intro less.hyps) simp_all
  qed
qed

text \<open>Waiting for a device that settles: every round that goes on has found it busy.\<close>

lemma settles_returns:
  assumes dev: "settles la K a P"
    and go: "\<And>x s y t. turn x s = Some (Val (Inr y), t) \<Longrightarrow> busy la a P s t"
  shows "returns (loop x)"
  unfolding returns_def
proof
  fix s :: mach
  let ?g = "hist s"
  let ?I = "\<lambda>(x :: 'x) u. \<exists>h. hist u = ?g @ h \<and> (\<forall>e\<in>set h. no_write e)"
  let ?rank = "\<lambda>(x :: 'x) u. K - looks_at a (drop (length ?g) (hist u))"
  have "?I y t \<and> ?rank y t < ?rank z u" if I: "?I z u" and run: "turn z u = Some (Val (Inr y), t)" for z u y t
  proof -
    obtain h where h: "hist u = ?g @ h" "\<forall>e\<in>set h. no_write e" using I by blast
    obtain h1 e h2 where b: "hist t = hist u @ h1 @ e # h2" "\<forall>e\<in>set (h1 @ e # h2). no_write e" "reads_at a e"
      "\<not> shows_at la a P (hist u @ h1)" using go [OF run] unfolding busy_def by blast
    have "\<not> K \<le> looks_at a (h @ h1)"
    proof
      assume "K \<le> looks_at a (h @ h1)"
      moreover have "\<forall>e\<in>set (h @ h1). no_write e" using h(2) b(2) by auto
      ultimately have "shows_at la a P (?g @ h @ h1)" using dev unfolding settles_def by blast
      then show False using b(4) h(1) by simp
    qed
    then have "K - looks_at a (h @ h1 @ e # h2) < K - looks_at a h" using b(3) by (simp add: looks_at_Cons)
    then show ?thesis using h b(1,2) by (intro conjI exI [of _ "h @ h1 @ e # h2"]) auto
  qed
  then show "loop x s \<noteq> None"
    by (rule ranked_returns [where I = ?I and rank = ?rank]) auto
qed

end

section \<open>The status of a broadcast\<close>

definition broadcast_turn :: "localArgs \<Rightarrow> string \<Rightarrow> unit \<Rightarrow> (unit + unit) prog" where
  "broadcast_turn la reg _ = bindM (readRawReg la reg) (\<lambda>t_res.
     if t_res = 0 \<or> t_res = 0xdeaddead then ret (Inl ()) else thenM (sleep_us 1000) (ret (Inr ())))"

interpretation bw: poll_loop "broadcast_turn la reg" "\<lambda>_. broadcast_wait la reg"
proof
  show "returns (broadcast_turn la reg x)" for x
    unfolding broadcast_turn_def by (intro returning)
  show "broadcast_wait la reg s = bindM (broadcast_turn la reg x)
      (\<lambda>r. case r of Inl v \<Rightarrow> ret v | Inr y \<Rightarrow> broadcast_wait la reg) s" for x s
    by (subst broadcast_wait.simps)
      (auto simp: broadcast_turn_def bindM_cases thenM_def ret_def split: option.split outcome.split)
qed

lemma readAddress_loop_value:
  "readAddress_loop la a n s = Some (Val v, u) \<Longrightarrow> v \<noteq> 0xdeaddead \<Longrightarrow>
     \<exists>h f. hist u = hist s @ h @ [MemRead a 1 (Some [v])] \<and> (\<forall>e\<in>set h. no_write e)
       \<and> mem_rd la (hist s @ h) a 1 = Some f \<and> f 0 = v"
proof (induction la a n arbitrary: s rule: readAddress_loop.induct)
  case (1 la a n)
  show ?case
  proof (cases "mem_rd la (hist s) a 1")
    case None
    let ?s = "s\<lparr>hist := hist s @ [MemRead a 1 None]\<rparr>"
    have "n < 9 \<and> readAddress_loop la a (n + 1) ?s = Some (Val v, u)"
      using "1.prems" None by (subst (asm) readAddress_loop.simps) (auto simp: prog_simps split: if_splits)
    then obtain h f where h: "hist u = hist ?s @ h @ [MemRead a 1 (Some [v])]" "\<forall>e\<in>set h. no_write e"
      "mem_rd la (hist ?s @ h) a 1 = Some f" "f 0 = v" using "1.IH" "1.prems"(2) by blast
    then show ?thesis by (intro exI [of _ "MemRead a 1 None # h"] exI [of _ f]) simp
  next
    case (Some f)
    then show ?thesis
      using "1.prems" by (subst (asm) readAddress_loop.simps) (auto simp: prog_simps intro!: exI [of _ "[]"])
  qed
qed

lemma broadcast_wait_busy:
  assumes "has_node la reg n" "broadcast_turn la reg x s = Some (Val (Inr y), t)"
  shows "busy la (real_address n) (\<lambda>w. w = 0) s t"
proof -
  obtain v u where v: "readRawReg la reg s = Some (Val v, u)" "v \<noteq> 0" "v \<noteq> 0xdeaddead" "thenM (sleep_us 1000) (ret (Inr ())) u = Some (Val (Inr y :: unit + unit), t)"
    using assms(2) unfolding broadcast_turn_def by (auto elim!: bindM_ValE simp: ret_def split: if_splits)
  have run: "readAddress_loop la (real_address n) 0 s = Some (Val v, u)"
    using v(1) has_node_wf [OF assms(1)] by (simp add: readRawReg_def db_text_node [OF assms(1)] readAddress_node)
  obtain h f where h: "hist u = hist s @ h @ [MemRead (real_address n) 1 (Some [v])]" "\<forall>e\<in>set h. no_write e"
    "mem_rd la (hist s @ h) (real_address n) 1 = Some f" "f 0 = v"
    using readAddress_loop_value [OF run v(3)] by blast
  have "extends no_write no_key u t"
    using v(4) by (auto simp: thenM_def sleep_us_def sleep_ns_def prog_simps extends_def)
  then show ?thesis using h v(2) by (intro busyI [OF h(1,2)]) (simp_all add: shows_at_def)
qed

lemma readRawReg_missing: "db_text la r = None \<Longrightarrow> readRawReg la r s = Some (Val 0xdeaddead, s\<lparr>resp := (resp s)(''error'' \<mapsto> RStr ''Register not found'')\<rparr>)"
  by (simp add: readRawReg_def set_string_def prog_simps)

lemma returns_broadcast_wait:
  assumes "wf_db la" "\<And>n. has_node la reg n \<Longrightarrow> settles la K (real_address n) (\<lambda>w. w = 0)"
  shows "returns (broadcast_wait la reg)"
proof (cases "db_text la reg")
  case None
  then show ?thesis
    by (intro returnsI) (subst broadcast_wait.simps, simp add: bindM_Val readRawReg_missing ret_def)
next
  case (Some db_res)
  obtain n where n: "has_node la reg n" by (rule wf_db_text [OF assms(1) Some])
  show ?thesis by (rule bw.settles_returns [OF assms(2) [OF n] broadcast_wait_busy [OF n]])
qed

section \<open>A register read by its mask\<close>

definition settles_reg :: "localArgs \<Rightarrow> nat \<Rightarrow> string \<Rightarrow> (u32 \<Rightarrow> bool) \<Rightarrow> bool" where
  "settles_reg la K r P \<longleftrightarrow> (\<exists>n. has_node la r n \<and> CHR ''r'' \<in> set (permission n)
     \<and> settles la K (real_address n) (\<lambda>w. P (applyMask w (node_mask n))))"

lemma readReg_busy:
  assumes "has_node la r n" "CHR ''r'' \<in> set (permission n)" "readReg la r s = Some (Val v, u)" "\<not> P v"
    and "extends no_write K u t"
  shows "busy la (real_address n) (\<lambda>w. P (applyMask w (node_mask n))) s t"
  using assms(3,4) unfolding readReg_node [OF assms(1,2)]
  by (intro busyI [where u = u and h = "[]" and e = "rd_event la (hist s) (real_address n) 1", OF _ _ _ _ assms(5)])
    (auto simp: shows_at_def rd_event_def split: option.splits)

lemma readReg_shows:
  assumes "has_node la r n" "CHR ''r'' \<in> set (permission n)" "readReg la r s = Some (Val v, u)"
    and "shows_at la (real_address n) (\<lambda>w. P (applyMask w (node_mask n))) (hist s)"
  shows "P v"
  using assms(3,4) unfolding readReg_node [OF assms(1,2)] by (auto simp: shows_at_def split: option.splits)

definition cyclic_turn :: "localArgs \<Rightarrow> unit \<Rightarrow> (unit + unit) prog" where
  "cyclic_turn la _ = bindM (readReg la (ttc_gen @ ''CYCLIC_RUNNING'')) (\<lambda>running.
     if running \<noteq> 0 then thenM (sleep_us 50) (ret (Inr ())) else ret (Inl ()))"

interpretation cw: poll_loop "cyclic_turn la" "\<lambda>_. cyclic_wait la"
proof
  show "returns (cyclic_turn la x)" for x
    unfolding cyclic_turn_def by (intro returning)
  show "cyclic_wait la s = bindM (cyclic_turn la x) (\<lambda>r. case r of Inl v \<Rightarrow> ret v | Inr y \<Rightarrow> cyclic_wait la) s" for x s
    by (subst cyclic_wait.simps) (auto simp: cyclic_turn_def bindM_cases thenM_def ret_def split: option.split outcome.split)
qed

lemma returns_cyclic_wait:
  assumes "settles_reg la K (ttc_gen @ ''CYCLIC_RUNNING'') (\<lambda>v. v = 0)"
  shows "returns (cyclic_wait la)"
proof -
  obtain n where n: "has_node la (ttc_gen @ ''CYCLIC_RUNNING'') n" "CHR ''r'' \<in> set (permission n)"
    "settles la K (real_address n) (\<lambda>w. applyMask w (node_mask n) = 0)"
    using assms by (auto simp: settles_reg_def)
  show ?thesis
  proof (rule cw.settles_returns [OF n(3)])
    fix x s y t
    assume "cyclic_turn la x s = Some (Val (Inr y), t)"
    then obtain v u where v: "readReg la (ttc_gen @ ''CYCLIC_RUNNING'') s = Some (Val v, u)" "v \<noteq> 0"
      "thenM (sleep_us 50) (ret (Inr () :: unit + unit)) u = Some (Val (Inr y), t)"
      unfolding cyclic_turn_def by (auto elim!: bindM_ValE simp: ret_def split: if_splits)
    have "preserves (extends no_write no_key) (thenM (sleep_us 50) (ret (Inr () :: unit + unit)))"
      by (intro keeps) simp
    then show "busy la (real_address n) (\<lambda>w. applyMask w (node_mask n) = 0) s t"
      using readReg_busy [OF n(1,2) v(1), of "\<lambda>v. v = 0"] v(2,3) by (blast dest: preservesD)
  qed
qed

definition l1a_turn :: "localArgs \<Rightarrow> u32 \<Rightarrow> u32 \<Rightarrow> u32 \<Rightarrow> (unit + u32) prog" where
  "l1a_turn la l1CntAddr nevts l1aCnt =
     (if l1aCnt < nevts then bindM (readRawAddress la l1CntAddr) (\<lambda>c. thenM (sleep_us 200) (ret (Inr c))) else ret (Inl ()))"

interpretation lw: poll_loop "l1a_turn la a nevts" "l1a_wait la a nevts"
proof
  show "returns (l1a_turn la a nevts x)" for x
    unfolding l1a_turn_def by (intro returning)
  show "l1a_wait la a nevts x s = bindM (l1a_turn la a nevts x) (\<lambda>r. case r of Inl v \<Rightarrow> ret v | Inr y \<Rightarrow> l1a_wait la a nevts y) s" for x s
    by (subst l1a_wait.simps) (auto simp: l1a_turn_def bindM_cases thenM_def ret_def split: option.split outcome.split)
qed


text \<open>The counter is read at the end of a round and looked at in the next.\<close>

lemma returns_l1a_wait:
  assumes dev: "settles la K a (\<lambda>w. nevts \<le> w)"
  shows "returns (l1a_wait la a nevts c)"
  unfolding returns_def
proof
  fix s :: mach
  let ?g = "hist s"
  let ?I = "\<lambda>c u. \<exists>h. hist u = ?g @ h \<and> (\<forall>e\<in>set h. no_write e) \<and> (c < nevts \<longrightarrow> looks_at a h \<le> K)"
  let ?rank = "\<lambda>(c :: u32) u. Suc K - looks_at a (drop (length ?g) (hist u))"
  have "?I y t \<and> ?rank y t < ?rank x u" if I: "?I x u" and run: "l1a_turn la a nevts x u = Some (Val (Inr y), t)" for x u y t
  proof -
    obtain h where h: "hist u = ?g @ h" "\<forall>e\<in>set h. no_write e" "x < nevts \<longrightarrow> looks_at a h \<le> K" using I by blast
    have lt: "x < nevts" using run by (auto simp: l1a_turn_def ret_def split: if_splits)
    let ?es = "[rd_event la (hist u) a 1, Sleep 200000]"
    have t: "hist t = hist u @ ?es" and y: "\<forall>f. mem_rd la (hist u) a 1 = Some f \<longrightarrow> y = f 0"
      using run lt by (auto simp: l1a_turn_def readRawAddress_def thenM_def sleep_us_def sleep_ns_def
          memsvc_error_def rd_event_def prog_simps split: option.splits)
    have more: "looks_at a (h @ ?es) = Suc (looks_at a h)" by (simp add: looks_at_def rd_event_def)
    have "\<not> y < nevts" if "K \<le> looks_at a h"
    proof -
      have "shows_at la a (\<lambda>w. nevts \<le> w) (hist u)" using dev that h(1,2) unfolding settles_def by simp
      then show ?thesis using y by (auto simp: shows_at_def not_less split: option.splits)
    qed
    then have late: "y < nevts \<longrightarrow> Suc (looks_at a h) \<le> K" using not_less_eq_eq by blast
    have "looks_at a h \<le> K" using h(3) lt by simp
    moreover have "hist t = ?g @ h @ ?es" using t h(1) by simp
    moreover have "\<forall>e\<in>set (h @ ?es). no_write e" using h(2) by (auto simp: rd_event_def)
    moreover have "looks_at a (drop (length ?g) (hist t)) = Suc (looks_at a h)"
      unfolding \<open>hist t = ?g @ h @ ?es\<close> using more by (simp del: looks_at_append)
    moreover have "looks_at a (drop (length ?g) (hist u)) = looks_at a h" using h(1) by simp
    ultimately show ?thesis
      using more late by (intro conjI exI [of _ "h @ ?es"]) (assumption, assumption, simp only:, linarith)
  qed
  then show "l1a_wait la a nevts c s \<noteq> None"
    by (rule lw.ranked_returns [where I = ?I and rank = ?rank]) (auto simp: looks_at_def)
qed

section \<open>The scan module\<close>

definition ultra_turn :: "localArgs \<Rightarrow> string \<Rightarrow> string \<Rightarrow> bool \<Rightarrow> u32 \<Rightarrow> u32 \<Rightarrow> (unit + u32) prog" where
  "ultra_turn la status_reg l1a_reg bIsLatency numtrigs ohnL1A =
     bindM (readReg la status_reg) (\<lambda>status.
       if \<not> status > 0 then ret (Inl ())
       else
         bindM (readReg la status_reg) (\<lambda>_.
         bindM (if bIsLatency
                then bindM (readReg la l1a_reg) (\<lambda>l1a.
                     if l1a - ohnL1A > numtrigs
                     then bindM (readReg la l1a_reg) (\<lambda>_.
                          bindM (readReg la l1a_reg) (\<lambda>_. readReg la l1a_reg))
                     else ret ohnL1A)
                else ret ohnL1A) (\<lambda>ohnL1A'.
         thenM (sleep_ns 0) (ret (Inr ohnL1A')))))"

interpretation uw: poll_loop "ultra_turn la sr lr lat nt" "ultra_wait la sr lr lat nt"
proof
  show "returns (ultra_turn la sr lr lat nt x)" for x
    unfolding ultra_turn_def by (intro returning)
  have body: "bindM m (\<lambda>x t. if P x then ret v t else k x t) s = bindM m (\<lambda>x. if P x then ret v else k x) s"
    for m :: "u32 prog" and P :: "u32 \<Rightarrow> bool" and v :: unit and k :: "u32 \<Rightarrow> unit prog" and s
    by (rule bindM_cong_val) simp
  show "ultra_wait la sr lr lat nt x s = bindM (ultra_turn la sr lr lat nt x)
      (\<lambda>r. case r of Inl v \<Rightarrow> ret v | Inr y \<Rightarrow> ultra_wait la sr lr lat nt y) s" for x s
    unfolding ultra_turn_def
    by (subst ultra_wait.simps) (simp add: body thenM_def if_distrib [where f = "\<lambda>m. bindM m k" for k] cong: if_cong)
qed

lemma returns_ultra_wait:
  assumes "settles_reg la K sr (\<lambda>v. v = 0)"
  shows "returns (ultra_wait la sr lr lat nt c)"
proof -
  obtain n where n: "has_node la sr n" "CHR ''r'' \<in> set (permission n)"
    "settles la K (real_address n) (\<lambda>w. applyMask w (node_mask n) = 0)"
    using assms by (auto simp: settles_reg_def)
  show ?thesis
  proof (rule uw.settles_returns [OF n(3)])
    fix x s y t
    assume "ultra_turn la sr lr lat nt x s = Some (Val (Inr y), t)"
    then obtain v u where v: "readReg la sr s = Some (Val v, u)" "v \<noteq> 0"
      "bindM (readReg la sr) (\<lambda>_.
         bindM (if lat
                then bindM (readReg la lr) (\<lambda>l1a.
                     if l1a - x > nt
                     then bindM (readReg la lr) (\<lambda>_. bindM (readReg la lr) (\<lambda>_. readReg la lr))
                     else ret x)
                else ret x) (\<lambda>c. thenM (sleep_ns 0) (ret (Inr c :: unit + u32)))) u = Some (Val (Inr y), t)"
      unfolding ultra_turn_def by (auto elim!: bindM_ValE simp: ret_def split: if_splits)
    have "preserves (extends no_write no_key) (bindM (readReg la sr) (\<lambda>_.
         bindM (if lat
                then bindM (readReg la lr) (\<lambda>l1a.
                     if l1a - x > nt
                     then bindM (readReg la lr) (\<lambda>_. bindM (readReg la lr) (\<lambda>_. readReg la lr))
                     else ret x)
                else ret x) (\<lambda>c. thenM (sleep_ns 0) (ret (Inr c :: unit + u32)))))"
      by (intro keeps) simp_all
    then show "busy la (real_address n) (\<lambda>w. applyMask w (node_mask n) = 0) s t"
      using readReg_busy [OF n(1,2) v(1), of "\<lambda>v. v = 0"] v(2,3) by (blast dest: preservesD)
  qed
qed


section \<open>The phase shift of the transceivers\<close>

text \<open>
  Here every round shifts the phase by a write to one register and looks at the counter of another. Whether
  the counter shows \<open>P\<close> after one of the writes of a history:
\<close>

fun writes_at :: "u32 \<Rightarrow> event \<Rightarrow> bool" where
  "writes_at a (MemWrite b ws ok) = (b = a)"
| "writes_at a _ = False"

fun shown :: "localArgs \<Rightarrow> u32 \<Rightarrow> u32 \<Rightarrow> (u32 \<Rightarrow> bool) \<Rightarrow> event list \<Rightarrow> event list \<Rightarrow> bool" where
  "shown la ae ac P g [] = False"
| "shown la ae ac P g (e # h) = (writes_at ae e \<and> shows_at la ac P (g @ [e]) \<or> shown la ae ac P (g @ [e]) h)"

definition shifts :: "u32 \<Rightarrow> event list \<Rightarrow> nat" where
  "shifts a h = length (filter (writes_at a) h)"

text \<open>Among any \<open>K\<close> shifts, with no other write between them, there is one after which the counter shows \<open>P\<close>.\<close>

definition comes_by :: "localArgs \<Rightarrow> nat \<Rightarrow> u32 \<Rightarrow> u32 \<Rightarrow> (u32 \<Rightarrow> bool) \<Rightarrow> bool" where
  "comes_by la K ae ac P \<longleftrightarrow> (\<forall>g h. (\<forall>e\<in>set h. no_write e \<or> writes_at ae e) \<longrightarrow> K \<le> shifts ae h \<longrightarrow> shown la ae ac P g h)"

lemma shown_append: "shown la ae ac P g (h @ h') \<longleftrightarrow> shown la ae ac P g h \<or> shown la ae ac P (g @ h) h'"
  by (induction h arbitrary: g) auto

lemma shown_quiet: "\<forall>e\<in>set h. no_write e \<Longrightarrow> \<not> shown la ae ac P g h"
proof (induction h arbitrary: g)
  case (Cons e h)
  then show ?case by (cases e) auto
qed simp

lemma shifts_append [simp]: "shifts a (g @ h) = shifts a g + shifts a h"
  by (simp add: shifts_def)

lemma shifts_quiet: "\<forall>e\<in>set h. no_write e \<Longrightarrow> shifts a h = 0"
proof (induction h)
  case (Cons e h)
  then show ?case by (cases e) (auto simp: shifts_def)
qed (simp add: shifts_def)

text \<open>A write by name that always gets through to the memory service.\<close>

lemma writeReg_writes:
  assumes n: "has_node la r n" "node_mask n \<noteq> 0" and dev: "\<And>h. shows_at la (real_address n) (\<lambda>w. w \<noteq> 0xdeaddead) h"
    and run: "writeReg la r v s = Some (q, t)"
  shows "\<exists>h w ok. hist t = hist s @ h @ [MemWrite (real_address n) [w] ok] \<and> (\<forall>e\<in>set h. no_write e)"
proof -
  have wf: "wf_node n" by (rule has_node_wf [OF n(1)])
  have lb: "shift_loop 32 (node_mask n) 0 < 32" using low_bit_props(1) [OF n(2)] by (simp add: low_bit_def)
  have wr: "\<exists>ok. hist b = hist a @ [MemWrite (real_address n) [w] ok]"
    if "writeAddress la (serialize n) w a = Some (x, b)" for w a x b
    using that by (auto simp: writeAddress_node [OF wf] whenM_def prog_simps split: if_splits)
  obtain f where f: "mem_rd la (hist s) (real_address n) 1 = Some f" "f 0 \<noteq> 0xdeaddead"
    using dev [of "hist s"] by (auto simp: shows_at_def split: option.splits)
  have rd: "readAddress la (serialize n) s = Some (Val (f 0), s\<lparr>hist := hist s @ [MemRead (real_address n) 1 (Some [f 0])]\<rparr>)"
    using f(1) by (simp add: readAddress_node [OF wf]) (subst readAddress_loop.simps, simp add: prog_simps)
  show ?thesis
  proof (cases "node_mask n = 0xFFFFFFFF")
    case True
    then have "writeAddress la (serialize n) v s = Some (q, t)"
      using run wf by (simp add: writeReg_def db_text_node [OF n(1)] node_simps)
    from wr [OF this] show ?thesis by (intro exI [of _ "[]"]) auto
  next
    case False
    then have "\<exists>w. writeAddress la (serialize n) w (s\<lparr>hist := hist s @ [MemRead (real_address n) 1 (Some [f 0])]\<rparr>) = Some (q, t)"
      using run wf f(2) lb by (auto simp: writeReg_def db_text_node [OF n(1)] node_simps rd bindM_Val Let_def)
    then obtain w where w: "writeAddress la (serialize n) w (s\<lparr>hist := hist s @ [MemRead (real_address n) 1 (Some [f 0])]\<rparr>) = Some (q, t)" ..
    from wr [OF this] show ?thesis by (intro exI [of _ "[MemRead (real_address n) 1 (Some [f 0])]"]) auto
  qed
qed

abbreviation gth_shift_en :: string where
  "gth_shift_en \<equiv> ''GEM_AMC.TTC.CTRL.PA_GTH_MANUAL_SHIFT_EN''"

definition gth_turn :: "localArgs \<Rightarrow> u32 \<Rightarrow> u32 \<Rightarrow> (unit + u32) prog" where
  "gth_turn la expected tmpGthShiftCnt =
     (if expected = tmpGthShiftCnt then ret (Inl ())
      else thenM (writeReg la gth_shift_en 0x1) (bindM (readReg la gth_shift_cnt) (\<lambda>tmp. ret (Inr tmp))))"

interpretation gw: poll_loop "gth_turn la expected" "gth_wait la expected"
proof
  show "returns (gth_turn la expected x)" for x
    unfolding gth_turn_def by (intro returning)
  show "gth_wait la expected x s = bindM (gth_turn la expected x)
      (\<lambda>r. case r of Inl v \<Rightarrow> ret v | Inr y \<Rightarrow> gth_wait la expected y) s" for x s
    by (subst gth_wait.simps) (simp add: gth_turn_def thenM_def)
qed

text \<open>
  What the procedure needs of the board: shifting gets through, the counter can be read and stays below
  40, and comes by each of these values.
\<close>

definition shifts_round :: "localArgs \<Rightarrow> nat \<Rightarrow> bool" where
  "shifts_round la K \<longleftrightarrow> (\<exists>ne nc.
     has_node la gth_shift_en ne \<and> node_mask ne \<noteq> 0 \<and> (\<forall>h. shows_at la (real_address ne) (\<lambda>w. w \<noteq> 0xdeaddead) h) \<and>
     has_node la gth_shift_cnt nc \<and> CHR ''r'' \<in> set (permission nc) \<and>
     (\<forall>h. shows_at la (real_address nc) (\<lambda>w. applyMask w (node_mask nc) < 40) h) \<and>
     (\<forall>v<40. comes_by la K (real_address ne) (real_address nc) (\<lambda>w. applyMask w (node_mask nc) = v)))"

lemma gth_turn_shifts:
  assumes n: "has_node la gth_shift_en ne" "node_mask ne \<noteq> 0" "\<And>h. shows_at la (real_address ne) (\<lambda>w. w \<noteq> 0xdeaddead) h"
    and c: "has_node la gth_shift_cnt nc" "CHR ''r'' \<in> set (permission nc)"
    and run: "gth_turn la expected x s = Some (Val (Inr y), t)"
  obtains h where "hist t = hist s @ h" "\<forall>e\<in>set h. no_write e \<or> writes_at (real_address ne) e"
    "shifts (real_address ne) h = 1" "x \<noteq> expected"
    "y \<noteq> expected \<longrightarrow> \<not> shown la (real_address ne) (real_address nc) (\<lambda>w. applyMask w (node_mask nc) = expected) (hist s) h"
proof -
  obtain u where u: "writeReg la gth_shift_en 0x1 s = Some (Val (), u)" "readReg la gth_shift_cnt u = Some (Val y, t)" "x \<noteq> expected"
    using run unfolding gth_turn_def by (auto simp: thenM_def ret_def split: if_splits elim!: bindM_ValE)
  obtain h w ok where h: "hist u = hist s @ h @ [MemWrite (real_address ne) [w] ok]" "\<forall>e\<in>set h. no_write e"
    using writeReg_writes [OF n u(1)] by blast
  let ?r = "rd_event la (hist u) (real_address nc) 1"
  have t: "hist t = hist u @ [?r]"
    and y: "y = (case mem_rd la (hist u) (real_address nc) 1 of None \<Rightarrow> 0xdeaddead | Some f \<Rightarrow> applyMask (f 0) (node_mask nc))"
    using u(2) unfolding readReg_node [OF c] by auto
  show thesis
  proof
    show "hist t = hist s @ h @ [MemWrite (real_address ne) [w] ok, ?r]" using t h(1) by simp
    show "\<forall>e\<in>set (h @ [MemWrite (real_address ne) [w] ok, ?r]). no_write e \<or> writes_at (real_address ne) e"
      using h(2) by (auto simp: rd_event_def)
    show "shifts (real_address ne) (h @ [MemWrite (real_address ne) [w] ok, ?r]) = 1"
      using shifts_quiet [OF h(2)] by (simp add: shifts_def rd_event_def)
    show "x \<noteq> expected" by (rule u(3))
    show "y \<noteq> expected \<longrightarrow> \<not> shown la (real_address ne) (real_address nc) (\<lambda>w. applyMask w (node_mask nc) = expected) (hist s)
        (h @ [MemWrite (real_address ne) [w] ok, ?r])"
      using y h(1) shown_quiet [OF h(2)]
      by (auto simp: shown_append shows_at_def rd_event_def split: option.splits)
  qed
qed

lemma returns_gth_wait:
  assumes dev: "shifts_round la K" and small: "expected < 40"
  shows "returns (gth_wait la expected c)"
  unfolding returns_def
proof
  fix s :: mach
  obtain ne nc where n: "has_node la gth_shift_en ne" "node_mask ne \<noteq> 0" "\<And>h. shows_at la (real_address ne) (\<lambda>w. w \<noteq> 0xdeaddead) h"
    and c: "has_node la gth_shift_cnt nc" "CHR ''r'' \<in> set (permission nc)"
    and cb: "comes_by la K (real_address ne) (real_address nc) (\<lambda>w. applyMask w (node_mask nc) = expected)"
    using dev small unfolding shifts_round_def by blast
  let ?g = "hist s" and ?shown = "shown la (real_address ne) (real_address nc) (\<lambda>w. applyMask w (node_mask nc) = expected)"
  let ?I = "\<lambda>x u. \<exists>h. hist u = ?g @ h \<and> (\<forall>e\<in>set h. no_write e \<or> writes_at (real_address ne) e) \<and> (x \<noteq> expected \<longrightarrow> \<not> ?shown ?g h)"
  let ?rank = "\<lambda>(x :: u32) u. K - shifts (real_address ne) (drop (length ?g) (hist u))"
  have "?I y t \<and> ?rank y t < ?rank x u" if I: "?I x u" and run: "gth_turn la expected x u = Some (Val (Inr y), t)" for x u y t
  proof -
    obtain h where h: "hist u = ?g @ h" "\<forall>e\<in>set h. no_write e \<or> writes_at (real_address ne) e" "x \<noteq> expected \<longrightarrow> \<not> ?shown ?g h"
      using I by blast
    obtain h' where h': "hist t = hist u @ h'" "\<forall>e\<in>set h'. no_write e \<or> writes_at (real_address ne) e"
      "shifts (real_address ne) h' = 1" "x \<noteq> expected" "y \<noteq> expected \<longrightarrow> \<not> ?shown (hist u) h'"
      by (rule gth_turn_shifts [OF n c run])
    have "\<not> K \<le> shifts (real_address ne) h" using cb h(2,3) h'(4) unfolding comes_by_def by blast
    then have "?rank y t < ?rank x u" using h(1) h'(1,3) by simp
    then show ?thesis using h h' by (intro conjI exI [of _ "h @ h'"]) (auto simp: shown_append)
  qed
  then show "gth_wait la expected c s \<noteq> None"
    by (rule gw.ranked_returns [where I = ?I and rank = ?rank]) auto
qed

end
