(* ===== verification/BlasterRam.thy ===== *)
theory BlasterRam
  imports Gbt MemoryModules
begin

text \<open>
  The configuration RAM of the front-end links: \<^verbatim>\<open>src/amc/blaster_ram.cpp\<close>. A blob is a C array of
  words: a pointer with an offset is the list and a position in it, a null pointer is \<open>None\<close>.
  Arguments of a call are evaluated from left to right.
\<close>

section \<open>Types and sizes\<close>

type_synonym blaster_type = u32

definition BLASTER_GBT :: blaster_type where "BLASTER_GBT = 0x1"
definition BLASTER_OptoHybrid :: blaster_type where "BLASTER_OptoHybrid = 0x2"
definition BLASTER_VFAT :: blaster_type where "BLASTER_VFAT = 0x4"
definition BLASTER_ALL :: blaster_type where "BLASTER_ALL = 0x7"

lemmas blaster_types = BLASTER_GBT_def BLASTER_OptoHybrid_def BLASTER_VFAT_def BLASTER_ALL_def

definition invalid_type :: "blaster_type \<Rightarrow> string" where
  "invalid_type t = ''Invalid BLASTER type '' @ fmt_u t @ '' specified''"

definition ram_size_reg :: "blaster_type \<Rightarrow> string" where
  "ram_size_reg t =
     (if t = BLASTER_GBT then ''GEM_AMC.CONFIG_BLASTER.STATUS.GBT_RAM_SIZE''
      else if t = BLASTER_OptoHybrid then ''GEM_AMC.CONFIG_BLASTER.STATUS.OH_RAM_SIZE''
      else ''GEM_AMC.CONFIG_BLASTER.STATUS.VFAT_RAM_SIZE'')"

definition getRAMMaxSize :: "localArgs \<Rightarrow> blaster_type \<Rightarrow> u32 prog" where
  "getRAMMaxSize la t =
     (if t = BLASTER_GBT \<or> t = BLASTER_OptoHybrid \<or> t = BLASTER_VFAT then readReg la (ram_size_reg t)
      else if t = BLASTER_ALL then
        bindM (readReg la (ram_size_reg BLASTER_GBT)) (\<lambda>a.
        bindM (readReg la (ram_size_reg BLASTER_OptoHybrid)) (\<lambda>b.
        bindM (readReg la (ram_size_reg BLASTER_VFAT)) (\<lambda>c. ret (a + b + c))))
      else throwM (Range_error (invalid_type t)))"

definition checkBLOBSize :: "localArgs \<Rightarrow> blaster_type \<Rightarrow> nat \<Rightarrow> bool prog" where
  "checkBLOBSize la t sz = bindM (getRAMMaxSize la t) (\<lambda>ram_sz. ret (sz = unat ram_sz))"

text \<open>\<^verbatim>\<open>partN\<close> is a \<^verbatim>\<open>uint8_t\<close>: streamed into a message it is one character.\<close>

definition getRAMBaseAddr :: "localArgs \<Rightarrow> blaster_type \<Rightarrow> u8 \<Rightarrow> u8 \<Rightarrow> u32 prog" where
  "getRAMBaseAddr la t ohN partN =
     (if t = BLASTER_GBT then
        (if ucast partN > GBTS_PER_OH - 1
         then throwM (Range_error (''Invalid GBT specified: GBT'' @ [char_of (unat partN)] @ '' > '' @ fmt_u (GBTS_PER_OH - 1)))
         else bindM (getAddress la (''GEM_AMC.CONFIG_BLASTER.RAM.GBT_OH'' @ dec (unat ohN))) (\<lambda>base.
              ret (base + of_nat (GBT_SINGLE_RAM_SIZE * unat partN))))
      else if t = BLASTER_OptoHybrid then
        getAddress la (''GEM_AMC.CONFIG_BLASTER.RAM.OH_FPGA_OH'' @ dec (unat ohN))
      else if t = BLASTER_VFAT then
        (if ucast partN > VFATS_PER_OH - 1
         then throwM (Range_error (''Invalid GBT specified: VFAT'' @ [char_of (unat partN)] @ '' > '' @ fmt_u (VFATS_PER_OH - 1)))
         else bindM (getAddress la (''GEM_AMC.CONFIG_BLASTER.RAM.VFAT_OH'' @ dec (unat ohN))) (\<lambda>base.
              ret (base + of_nat (VFAT_SINGLE_RAM_SIZE * unat partN))))
      else throwM (Runtime_error (invalid_type t)))"

section \<open>Reading\<close>

text \<open>
  A block read into a blob at a position: the blob and the number of words that \<^verbatim>\<open>readBlock\<close>
  claims. A read past the end of the array is undefined behaviour.
\<close>

definition read_into :: "localArgs \<Rightarrow> string \<Rightarrow> u32 list \<Rightarrow> nat \<Rightarrow> u32 \<Rightarrow> (u32 list \<times> u32) prog" where
  "read_into la reg blob pos sz =
     bindM (readBlock la reg sz 0) (\<lambda>(data, n). case data of
         None \<Rightarrow> ret (blob, n)
       | Some ws \<Rightarrow>
           if pos + length ws \<le> length blob
           then ret (take pos blob @ ws @ drop (pos + length ws) blob, n)
           else abortM Undefined)"

definition conf_ram_reg :: "blaster_type \<Rightarrow> string" where
  "conf_ram_reg t = ''GEM_AMC.CONFIG_BLASTER.RAM'' @
     (if t = BLASTER_GBT then ''.GBT'' else if t = BLASTER_OptoHybrid then ''.OH_FPGA'' else ''.VFAT'')"

text \<open>\<^verbatim>\<open>blob\<close> is the whole array, \<open>pos\<close> where the pointer stands in it.\<close>

function readConfRAMLocal :: "localArgs \<Rightarrow> blaster_type \<Rightarrow> u32 list option \<Rightarrow> nat \<Rightarrow> nat \<Rightarrow> (u32 list option \<times> u32) prog" where
  "readConfRAMLocal la t blob pos blob_sz =
     bindM (checkBLOBSize la t blob_sz) (\<lambda>valid.
     if \<not> valid then ret (blob, 0)
     else case blob of
       None \<Rightarrow> ret (blob, 0)
     | Some ws \<Rightarrow>
         if t = BLASTER_GBT \<or> t = BLASTER_OptoHybrid \<or> t = BLASTER_VFAT then
           bindM (read_into la (conf_ram_reg t) ws pos (of_nat blob_sz)) (\<lambda>(ws', n). ret (Some ws', n))
         else if t = BLASTER_ALL then
           bindM (getRAMMaxSize la BLASTER_GBT) (\<lambda>sz1.
           bindM (readConfRAMLocal la BLASTER_GBT blob pos (unat sz1)) (\<lambda>(b1, n1).
           bindM (getRAMMaxSize la BLASTER_OptoHybrid) (\<lambda>sz2.
           bindM (readConfRAMLocal la BLASTER_OptoHybrid b1 (pos + unat n1) (unat sz2)) (\<lambda>(b2, n2).
           bindM (getRAMMaxSize la BLASTER_VFAT) (\<lambda>sz3.
           bindM (readConfRAMLocal la BLASTER_VFAT b2 (pos + unat (n1 + n2)) (unat sz3)) (\<lambda>(b3, n3).
             ret (b3, n1 + n2 + n3)))))))
         else ret (blob, 0))"
  by pat_completeness auto
termination
  by (relation "measure (\<lambda>(la, t, b, p, n). if t = BLASTER_ALL then 1 else 0)") (auto simp: blaster_types)

declare readConfRAMLocal.simps [simp del]

text \<open>
  The methods for one kind of RAM: the whole of it when the mask is 0 or \<^verbatim>\<open>0xfff\<close>, else the blocks of the
  OptoHybrids in the mask one after the other, the pointer moving on by \<open>perblk\<close>.
\<close>

definition read_masked :: "localArgs \<Rightarrow> string \<Rightarrow> u32 \<Rightarrow> u16 \<Rightarrow> u32 list \<Rightarrow> (u32 list \<times> u32) prog" where
  "read_masked la reg perblk ohMask blob =
     bindM (foldM (\<lambda>oh (blob, pos, nwords).
         if bit ohMask oh
         then bindM (read_into la (reg @ dec oh) blob pos perblk) (\<lambda>(blob', n).
                ret (blob', pos + unat perblk, nwords + n))
         else ret (blob, pos, nwords)) [0..<12] (blob, 0, 0))
       (\<lambda>(blob, pos, nwords). ret (blob, nwords))"

definition invalid_size :: "nat \<Rightarrow> string \<Rightarrow> string" where
  "invalid_size sz what = ''Invalid size '' @ dec sz @ '' for '' @ what @ '' BLASTER RAM BLOB''"

definition readGBTConfRAMLocal :: "localArgs \<Rightarrow> u32 list \<Rightarrow> nat \<Rightarrow> u16 \<Rightarrow> (u32 list \<times> u32) prog" where
  "readGBTConfRAMLocal la gbtblob blob_sz ohMask =
     bindM (getRAMMaxSize la BLASTER_GBT) (\<lambda>mx.
     if blob_sz > unat mx then throwM (Range_error (invalid_size blob_sz ''GBT''))
     else if ohMask = 0x0 \<or> ohMask = 0xfff
     then read_into la ''GEM_AMC.CONFIG_BLASTER.RAM.GBT'' gbtblob 0 (of_nat blob_sz)
     else read_masked la ''GEM_AMC.CONFIG_BLASTER.RAM.GBT_OH''
            (of_nat GBT_SINGLE_RAM_SIZE * GBTS_PER_OH) ohMask gbtblob)"

definition readOptoHybridConfRAMLocal :: "localArgs \<Rightarrow> u32 list \<Rightarrow> nat \<Rightarrow> u16 \<Rightarrow> (u32 list \<times> u32) prog" where
  "readOptoHybridConfRAMLocal la ohblob blob_sz ohMask =
     bindM (getRAMMaxSize la BLASTER_OptoHybrid) (\<lambda>mx.
     if blob_sz > unat mx then throwM (Range_error (invalid_size blob_sz ''OptoHybrid''))
     else if ohMask = 0x0 \<or> ohMask = 0xfff
     then read_into la ''GEM_AMC.CONFIG_BLASTER.RAM.OH'' ohblob 0 (of_nat blob_sz)
     else read_masked la ''GEM_AMC.CONFIG_BLASTER.RAM.OH_FPGA_OH'' (of_nat OH_SINGLE_RAM_SIZE) ohMask ohblob)"

definition readVFATConfRAMLocal :: "localArgs \<Rightarrow> u32 list \<Rightarrow> nat \<Rightarrow> u16 \<Rightarrow> (u32 list \<times> u32) prog" where
  "readVFATConfRAMLocal la vfatblob blob_sz ohMask =
     bindM (getRAMMaxSize la BLASTER_VFAT) (\<lambda>mx.
     if blob_sz > unat mx then throwM (Range_error (invalid_size blob_sz ''VFAT''))
     else if ohMask = 0x0 \<or> ohMask = 0xfff
     then read_into la ''GEM_AMC.CONFIG_BLASTER.RAM.VFAT'' vfatblob 0 (of_nat blob_sz)
     else read_masked la ''GEM_AMC.CONFIG_BLASTER.RAM.VFAT_OH''
            (of_nat VFAT_SINGLE_RAM_SIZE * VFATS_PER_OH) ohMask vfatblob)"

section \<open>Writing\<close>

text \<open>The pointer is the rest of the array from where it stands.\<close>

definition write_masked :: "localArgs \<Rightarrow> string \<Rightarrow> u32 \<Rightarrow> u16 \<Rightarrow> u32 list \<Rightarrow> unit prog" where
  "write_masked la reg perblk ohMask blob =
     bindM (foldM (\<lambda>oh pos.
         if bit ohMask oh
         then thenM (writeBlock la (reg @ dec oh) (drop pos blob) perblk 0) (ret (pos + unat perblk))
         else ret pos) [0..<12] 0)
       (\<lambda>_. ret ())"

definition writeGBTConfRAMLocal :: "localArgs \<Rightarrow> u32 list \<Rightarrow> nat \<Rightarrow> u16 \<Rightarrow> unit prog" where
  "writeGBTConfRAMLocal la gbtblob blob_sz ohMask =
     bindM (getRAMMaxSize la BLASTER_GBT) (\<lambda>mx.
     if blob_sz > unat mx then throwM (Range_error (invalid_size blob_sz ''GBT''))
     else if ohMask = 0x0 \<or> ohMask = 0xfff
     then writeBlock la ''GEM_AMC.CONFIG_BLASTER.RAM.GBT'' gbtblob (of_nat blob_sz) 0
     else write_masked la ''GEM_AMC.CONFIG_BLASTER.RAM.GBT_OH''
            (of_nat GBT_SINGLE_RAM_SIZE * GBTS_PER_OH) ohMask gbtblob)"

definition writeOptoHybridConfRAMLocal :: "localArgs \<Rightarrow> u32 list \<Rightarrow> nat \<Rightarrow> u16 \<Rightarrow> unit prog" where
  "writeOptoHybridConfRAMLocal la ohblob blob_sz ohMask =
     bindM (getRAMMaxSize la BLASTER_OptoHybrid) (\<lambda>mx.
     if blob_sz > unat mx then throwM (Range_error (invalid_size blob_sz ''OptoHybrid''))
     else if ohMask = 0x0 \<or> ohMask = 0xfff
     then writeBlock la ''GEM_AMC.CONFIG_BLASTER.RAM.OH'' ohblob (of_nat blob_sz) 0
     else write_masked la ''GEM_AMC.CONFIG_BLASTER.RAM.OH_FPGA_OH'' (of_nat OH_SINGLE_RAM_SIZE) ohMask ohblob)"

definition writeVFATConfRAMLocal :: "localArgs \<Rightarrow> u32 list \<Rightarrow> nat \<Rightarrow> u16 \<Rightarrow> unit prog" where
  "writeVFATConfRAMLocal la vfatblob blob_sz ohMask =
     bindM (getRAMMaxSize la BLASTER_VFAT) (\<lambda>mx.
     if blob_sz > unat mx then throwM (Range_error (invalid_size blob_sz ''VFAT''))
     else if ohMask = 0x0 \<or> ohMask = 0xfff
     then writeBlock la ''GEM_AMC.CONFIG_BLASTER.RAM.VFAT'' vfatblob (of_nat blob_sz) 0
     else write_masked la ''GEM_AMC.CONFIG_BLASTER.RAM.VFAT_OH''
            (of_nat VFAT_SINGLE_RAM_SIZE * VFATS_PER_OH) ohMask vfatblob)"

definition invalid_blob_size :: "nat \<Rightarrow> string" where
  "invalid_blob_size sz = ''Invalid size '' @ dec sz @ '' for BLASTER RAM BLOB''"

text \<open>The parts after the checks, for one kind of RAM.\<close>

definition write_one_ram :: "localArgs \<Rightarrow> blaster_type \<Rightarrow> u32 list \<Rightarrow> unit prog" where
  "write_one_ram la t blob =
     bindM (getRAMMaxSize la t) (\<lambda>sz.
       if t = BLASTER_GBT then writeGBTConfRAMLocal la blob (unat sz) 0xfff
       else if t = BLASTER_OptoHybrid then writeOptoHybridConfRAMLocal la blob (unat sz) 0xfff
       else writeVFATConfRAMLocal la blob (unat sz) 0xfff)"

function writeConfRAMLocal :: "localArgs \<Rightarrow> blaster_type \<Rightarrow> u32 list option \<Rightarrow> nat \<Rightarrow> unit prog" where
  "writeConfRAMLocal la t blob blob_sz =
     bindM (checkBLOBSize la t blob_sz) (\<lambda>valid.
     if \<not> valid then throwM (Runtime_error (invalid_blob_size blob_sz))
     else case blob of
       None \<Rightarrow> throwM (Runtime_error (''Invalid BLOB 00000000 provided to write BLASTER RAM''))
     | Some ws \<Rightarrow>
         if t = BLASTER_GBT \<or> t = BLASTER_OptoHybrid \<or> t = BLASTER_VFAT then write_one_ram la t ws
         else if t = BLASTER_ALL then
           bindM (getRAMMaxSize la BLASTER_GBT) (\<lambda>sz1.
           thenM (writeConfRAMLocal la BLASTER_GBT (Some ws) (unat sz1)) (
           bindM (getRAMMaxSize la BLASTER_GBT) (\<lambda>off2.
           bindM (getRAMMaxSize la BLASTER_OptoHybrid) (\<lambda>sz2.
           thenM (writeConfRAMLocal la BLASTER_OptoHybrid (Some (drop (unat off2) ws)) (unat sz2)) (
           bindM (getRAMMaxSize la BLASTER_GBT) (\<lambda>off3.
           bindM (getRAMMaxSize la BLASTER_OptoHybrid) (\<lambda>off4.
           bindM (getRAMMaxSize la BLASTER_VFAT) (\<lambda>sz3.
             writeConfRAMLocal la BLASTER_VFAT (Some (drop (unat off3 + unat off4) ws)) (unat sz3)))))))))
         else throwM (Runtime_error (''Invalid BLASTER RAM type '' @ replicate (8 - length (fmt_x t)) CHR ''0'' @ fmt_x t
                @ '' selected for write.'')))"
  by pat_completeness auto
termination
  by (relation "measure (\<lambda>(la, t, b, n). if t = BLASTER_ALL then 1 else 0)") (auto simp: blaster_types)

declare writeConfRAMLocal.simps [simp del]

section \<open>RPC callbacks\<close>

text \<open>Words in memory are little-endian.\<close>

definition word_bytes :: "u32 \<Rightarrow> u8 list" where
  "word_bytes w = map (\<lambda>k. ucast (drop_bit (8 * k) w)) [0..<4]"

definition words_to_bytes :: "u32 list \<Rightarrow> u8 list" where
  "words_to_bytes ws = concat (map word_bytes ws)"

fun bytes_to_words :: "u8 list \<Rightarrow> u32 list" where
  "bytes_to_words (a # b # c # d # bs) =
     (ucast a OR push_bit 8 (ucast b) OR push_bit 16 (ucast c) OR push_bit 24 (ucast d)) # bytes_to_words bs"
| "bytes_to_words _ = []"

text \<open>The reserved storage of the vector; nothing is reserved, and \<^verbatim>\<open>data()\<close> is null, for size 0.\<close>

definition readConfRAM :: "localArgs \<Rightarrow> rpc_request \<Rightarrow> unit prog" where
  "readConfRAM la request =
     bindM (get_word request ''type'') (\<lambda>t.
     bindM (getRAMMaxSize la t) (\<lambda>blob_sz.
       (let confblob = (if blob_sz = 0 then None else Some (stack_array la (unat blob_sz)))
        in catch_runtime
             (bindM (readConfRAMLocal la t confblob 0 (unat blob_sz)) (\<lambda>(blob, nwords).
                set_binarydata ''confblob'' (take (unat nwords) (words_to_bytes (case blob of None \<Rightarrow> [] | Some ws \<Rightarrow> ws)))))
             (\<lambda>w. set_error (''Error reading configuration RAM: '' @ w)))))"

definition writeConfRAM :: "localArgs \<Rightarrow> rpc_request \<Rightarrow> unit prog" where
  "writeConfRAM la request =
     bindM (get_word request ''type'') (\<lambda>t.
     bindM (get_binarydata request ''confblob'') (\<lambda>data.
       (let blob_sz = length data;
            confblob = bytes_to_words (data @ drop blob_sz (words_to_bytes (stack_array la blob_sz)))
        in catch_runtime (writeConfRAMLocal la t (Some confblob) blob_sz)
             (\<lambda>w. set_error (''Error writing configuration RAM: '' @ w)))))"

text \<open>These hand a null pointer to \<^verbatim>\<open>get_binarydata\<close>: with any data at all that is undefined.\<close>

definition null_blob_write :: "(u32 list \<Rightarrow> nat \<Rightarrow> u16 \<Rightarrow> unit prog) \<Rightarrow> string \<Rightarrow> string \<Rightarrow> rpc_request \<Rightarrow> unit prog" where
  "null_blob_write wr key what request =
     bindM (get_binarydata request key) (\<lambda>data.
       if data \<noteq> [] then abortM Undefined
       else catch_runtime (wr [] 0 0xfff)
              (\<lambda>w. set_error (''Error writing '' @ what @ '' configuration RAM: '' @ w)))"

definition writeGBTConfRAM :: "localArgs \<Rightarrow> rpc_request \<Rightarrow> unit prog" where
  "writeGBTConfRAM la request = null_blob_write (writeGBTConfRAMLocal la) ''gbtblob'' ''GBT'' request"

definition writeOptoHybridConfRAM :: "localArgs \<Rightarrow> rpc_request \<Rightarrow> unit prog" where
  "writeOptoHybridConfRAM la request = null_blob_write (writeOptoHybridConfRAMLocal la) ''ohblob'' ''OptoHybrid'' request"

definition writeVFATConfRAM :: "localArgs \<Rightarrow> rpc_request \<Rightarrow> unit prog" where
  "writeVFATConfRAM la request = null_blob_write (writeVFATConfRAMLocal la) ''vfatblob'' ''VFAT'' request"

section \<open>Properties\<close>

lemma masked_pos:
  "foldM (\<lambda>oh pos. if P oh then thenM (w oh pos) (ret (pos + c)) else ret pos) ohs (k * c) =
    thenM (forM (zip [k..<k + length (filter P ohs)] (filter P ohs)) (\<lambda>(j, oh). w oh (j * c)))
      (ret ((k + length (filter P ohs)) * c))" for k c :: nat
proof (induction ohs arbitrary: k)
  case (Cons oh ohs)
  show ?case
  proof (cases "P oh")
    case True
    have "k * c + c = Suc k * c" by simp
    then show ?thesis
      using True Cons [of "Suc k"] by (simp add: upt_conv_Cons thenM_def del: upt_Suc mult_Suc)
  qed (use Cons in simp)
qed simp


lemma getRAMMaxSize_frame: "preserves (extends no_write no_key) (getRAMMaxSize la t)"
  unfolding getRAMMaxSize_def by (intro keeps) auto

text \<open>
  Wrong blob size: a blob whose size is not the size of the RAM is refused with a \<^verbatim>\<open>runtime_error\<close>, before
  anything is written and before the blob is looked at.
\<close>

theorem writeConfRAMLocal_wrong_size:
  assumes "getRAMMaxSize la t s = Some (Val ram_sz, u)" and "sz \<noteq> unat ram_sz"
  shows "writeConfRAMLocal la t blob sz s = Some (Abort (Throw (Runtime_error (invalid_blob_size sz))), u)
    \<and> extends no_write no_key s u"
  using assms preservesD [OF getRAMMaxSize_frame assms(1)]
  by (simp add: writeConfRAMLocal.simps checkBLOBSize_def bindM_Val throwM_run ret_def)

theorem writeConfRAMLocal_wrong_size_witness:
  "\<exists>u. writeConfRAMLocal demo_env BLASTER_GBT None 5 start_mach
     = Some (Abort (Throw (Runtime_error (invalid_blob_size 5))), u) \<and> hist u = []"
proof -
  have "getRAMMaxSize demo_env BLASTER_GBT start_mach = Some (Val 0xdeaddead, start_mach)"
    by (simp add: getRAMMaxSize_def readReg_def db_text_def demo_env_def ret_def)
  from writeConfRAMLocal_wrong_size [OF this, of 5 None] show ?thesis by (auto simp: start_mach_def)
qed

lemma length_words_to_bytes: "length (words_to_bytes ws) = 4 * length ws"
  by (induction ws) (simp_all add: words_to_bytes_def word_bytes_def)

lemma readReg_const:
  assumes "has_node la r n" "CHR ''r'' \<in> set (permission n)" "node_mask n = 0xFFFFFFFF"
    and "\<And>h. mem_rd la h (real_address n) 1 = Some (\<lambda>_. v)"
  shows "\<exists>t. readReg la r s = Some (Val v, t) \<and> resp t = resp s"
  using assms(3,4) by (simp add: readReg_node [OF assms(1,2)] applyMask_full)

text \<open>
  Read RAM is cut short: \<^verbatim>\<open>readConfRAM\<close> hands \<^verbatim>\<open>set_binarydata\<close> the number of words as a number of bytes. For a
  RAM of \<open>N\<close> words, all of them read without an error, the response carries \<open>N\<close> bytes: the first
  quarter.
\<close>

theorem readConfRAM_quarter:
  assumes "rq_word request ''type'' = Inr BLASTER_GBT"
    and "has_node la ''GEM_AMC.CONFIG_BLASTER.STATUS.GBT_RAM_SIZE'' n1" and "CHR ''r'' \<in> set (permission n1)"
    and "node_mask n1 = 0xFFFFFFFF" and "\<And>h. mem_rd la h (real_address n1) 1 = Some (\<lambda>_. N)"
    and "has_node la ''GEM_AMC.CONFIG_BLASTER.RAM.GBT'' n2" and "node_mask n2 = 0xFFFFFFFF"
    and "\<not> has_infix ''single'' (mode n2)" and "0 < N" and "N \<le> node_size n2"
    and "\<And>h. mem_rd la h (real_address n2) (unat N) = Some f"
  shows "\<exists>t. readConfRAM la request s = Some (Val (), t)
    \<and> resp t ''confblob'' = Some (RBin (take (unat N) (words_to_bytes (map f [0..<unat N]))))
    \<and> length (take (unat N) (words_to_bytes (map f [0..<unat N]))) = unat N"
proof -
  have sz: "\<exists>t. getRAMMaxSize la BLASTER_GBT s = Some (Val N, t) \<and> resp t = resp s" for s
    using readReg_const [OF assms(2-5), of s] by (simp add: getRAMMaxSize_def ram_size_reg_def)
  obtain a where a: "getRAMMaxSize la BLASTER_GBT s = Some (Val N, a)" using sz by blast
  obtain b where b: "getRAMMaxSize la BLASTER_GBT a = Some (Val N, b)" using sz by blast
  have nN: "N \<noteq> 0" using assms(9) by auto
  have "\<not> N > node_size n2" using assms(10) by (simp add: not_less)
  then obtain c where c: "readBlock la ''GEM_AMC.CONFIG_BLASTER.RAM.GBT'' N 0 b = Some (Val (Some (map f [0..<unat N]), N), c)"
    using assms(7,8,11) by (simp add: block_run(1) [OF assms(6)] prog_simps set_run)
  have "readConfRAMLocal la BLASTER_GBT (Some (stack_array la (unat N))) 0 (unat N) a
      = Some (Val (Some (map f [0..<unat N]), N), c)"
    using b c by (simp add: readConfRAMLocal.simps checkBLOBSize_def bindM_Val read_into_def conf_ram_reg_def
        stack_array_def ret_def)
  then have "readConfRAM la request s = Some (Val (), c\<lparr>resp := (resp c)(''confblob'' \<mapsto>
      RBin (take (unat N) (words_to_bytes (map f [0..<unat N]))))\<rparr>)"
    using a nN by (simp add: readConfRAM_def get_word_def assms(1) liftE_def bindM_Val Let_def
        catch_runtime_def set_binarydata_def set_key_def)
  then show ?thesis by (simp add: length_words_to_bytes)
qed

definition ram_demo_env :: localArgs where
  "ram_demo_env = demo_env\<lparr>
     db_get := (\<lambda>k. if k = ''GEM_AMC.CONFIG_BLASTER.STATUS.GBT_RAM_SIZE''
        then Some (serialize \<lparr>real_address = 0, permission = ''r'', node_mask = 0xFFFFFFFF, mode = ''single'', node_size = 1\<rparr>)
        else Some (serialize block_node)),
     mem_rd := (\<lambda>h a n. Some (\<lambda>i. 8))\<rparr>"

theorem readConfRAM_quarter_witness:
  "\<exists>t bs. readConfRAM ram_demo_env (demo_request\<lparr>rq_word := (\<lambda>k. Inr 1)\<rparr>) start_mach = Some (Val (), t)
     \<and> resp t ''confblob'' = Some (RBin bs) \<and> length bs = 8"
  using readConfRAM_quarter [of "demo_request\<lparr>rq_word := (\<lambda>k. Inr 1)\<rparr>" ram_demo_env
      "\<lparr>real_address = 0, permission = ''r'', node_mask = 0xFFFFFFFF, mode = ''single'', node_size = 1\<rparr>" 8
      block_node "\<lambda>i. 8" start_mach]
  by (auto simp: ram_demo_env_def demo_env_def BLASTER_GBT_def has_node_def wf_node_def clean_def block_node_def c_str_def)

end
