(* ===== verification/Sca.thy ===== *)
theory Sca
  imports Registers
begin

text \<open>
  The slow-control adapter: \<^verbatim>\<open>src/amc/sca.cpp\<close> and the enumerations of
  \<^verbatim>\<open>include/amc/sca_enums.h\<close>. Commands are sent through the manual-control registers, replies
  are collected from the twelve OptoHybrids, and the automatic monitoring is switched off around
  each transaction.
\<close>

section \<open>Enumerations\<close>

datatype SCAChannel =
    CTRL | SPI | GPIO | I2C00 | I2C01 | I2C02 | I2C03 | I2C04 | I2C05 | I2C06 | I2C07 | I2C08
  | I2C09 | I2C10 | I2C11 | I2C12 | I2C13 | I2C14 | I2C15 | JTAG | ADC | DAC

fun channel_code :: "SCAChannel \<Rightarrow> u8" where
  "channel_code CTRL = 0x00" | "channel_code SPI = 0x01" | "channel_code GPIO = 0x02"
| "channel_code I2C00 = 0x03" | "channel_code I2C01 = 0x04" | "channel_code I2C02 = 0x05"
| "channel_code I2C03 = 0x06" | "channel_code I2C04 = 0x07" | "channel_code I2C05 = 0x08"
| "channel_code I2C06 = 0x09" | "channel_code I2C07 = 0x0a" | "channel_code I2C08 = 0x0b"
| "channel_code I2C09 = 0x0c" | "channel_code I2C10 = 0x0d" | "channel_code I2C11 = 0x0e"
| "channel_code I2C12 = 0x0f" | "channel_code I2C13 = 0x10" | "channel_code I2C14 = 0x11"
| "channel_code I2C15 = 0x12" | "channel_code JTAG = 0x13" | "channel_code ADC = 0x14"
| "channel_code DAC = 0x15"

datatype CTRLCommand =
    GET_DATA | CTRL_R_ID_V1 | CTRL_R_ID_V2 | CTRL_W_CRB | CTRL_W_CRC | CTRL_W_CRD
  | CTRL_R_CRB | CTRL_R_CRC | CTRL_R_CRD | CTRL_R_SEU | CTRL_C_SEU

fun ctrl_code :: "CTRLCommand \<Rightarrow> u8" where
  "ctrl_code GET_DATA = 0x00" | "ctrl_code CTRL_R_ID_V1 = 0x91" | "ctrl_code CTRL_R_ID_V2 = 0xD1"
| "ctrl_code CTRL_W_CRB = 0x02" | "ctrl_code CTRL_W_CRC = 0x04" | "ctrl_code CTRL_W_CRD = 0x06"
| "ctrl_code CTRL_R_CRB = 0x03" | "ctrl_code CTRL_R_CRC = 0x05" | "ctrl_code CTRL_R_CRD = 0x07"
| "ctrl_code CTRL_R_SEU = 0xF1" | "ctrl_code CTRL_C_SEU = 0xF0"

datatype I2CCommand =
    I2C_W_CTRL | I2C_R_CTRL | I2C_R_STR | I2C_W_MSK | I2C_R_MSK
  | I2C_W_DATA0 | I2C_R_DATA0 | I2C_W_DATA1 | I2C_R_DATA1 | I2C_W_DATA2 | I2C_R_DATA2
  | I2C_W_DATA3 | I2C_R_DATA3 | I2C_S_7B_W | I2C_S_7B_R | I2C_S_10B_W | I2C_S_10B_R
  | I2C_M_7B_W | I2C_M_7B_R | I2C_M_10B_W | I2C_M_10B_R | I2C_RMW_OR | I2C_RMW_XOR

fun i2c_code :: "I2CCommand \<Rightarrow> u8" where
  "i2c_code I2C_W_CTRL = 0x30" | "i2c_code I2C_R_CTRL = 0x31" | "i2c_code I2C_R_STR = 0x11"
| "i2c_code I2C_W_MSK = 0x20" | "i2c_code I2C_R_MSK = 0x21"
| "i2c_code I2C_W_DATA0 = 0x40" | "i2c_code I2C_R_DATA0 = 0x41"
| "i2c_code I2C_W_DATA1 = 0x50" | "i2c_code I2C_R_DATA1 = 0x51"
| "i2c_code I2C_W_DATA2 = 0x60" | "i2c_code I2C_R_DATA2 = 0x61"
| "i2c_code I2C_W_DATA3 = 0x70" | "i2c_code I2C_R_DATA3 = 0x71"
| "i2c_code I2C_S_7B_W = 0x82" | "i2c_code I2C_S_7B_R = 0x86"
| "i2c_code I2C_S_10B_W = 0x8A" | "i2c_code I2C_S_10B_R = 0x8E"
| "i2c_code I2C_M_7B_W = 0xDA" | "i2c_code I2C_M_7B_R = 0xDE"
| "i2c_code I2C_M_10B_W = 0xE2" | "i2c_code I2C_M_10B_R = 0xE6"
| "i2c_code I2C_RMW_OR = 0xC6" | "i2c_code I2C_RMW_XOR = 0xCA"

datatype GPIOCommand =
    GPIO_W_DATAOUT | GPIO_R_DATAOUT | GPIO_R_DATAIN | GPIO_W_DIRECTION | GPIO_R_DIRECTION
  | GPIO_W_INTENABLE | GPIO_R_INTENABLE | GPIO_W_INTSEL | GPIO_R_INTSEL
  | GPIO_W_INTTRIG | GPIO_R_INTTRIG | GPIO_W_INTS | GPIO_R_INTS
  | GPIO_W_CLKSEL | GPIO_R_CLKSEL | GPIO_W_EDGESEL | GPIO_R_EDGESEL

fun gpio_code :: "GPIOCommand \<Rightarrow> u8" where
  "gpio_code GPIO_W_DATAOUT = 0x10" | "gpio_code GPIO_R_DATAOUT = 0x11"
| "gpio_code GPIO_R_DATAIN = 0x01"
| "gpio_code GPIO_W_DIRECTION = 0x20" | "gpio_code GPIO_R_DIRECTION = 0x21"
| "gpio_code GPIO_W_INTENABLE = 0x60" | "gpio_code GPIO_R_INTENABLE = 0x61"
| "gpio_code GPIO_W_INTSEL = 0x30" | "gpio_code GPIO_R_INTSEL = 0x31"
| "gpio_code GPIO_W_INTTRIG = 0x40" | "gpio_code GPIO_R_INTTRIG = 0x41"
| "gpio_code GPIO_W_INTS = 0x70" | "gpio_code GPIO_R_INTS = 0x71"
| "gpio_code GPIO_W_CLKSEL = 0x80" | "gpio_code GPIO_R_CLKSEL = 0x81"
| "gpio_code GPIO_W_EDGESEL = 0x90" | "gpio_code GPIO_R_EDGESEL = 0x91"

datatype ADCCommand =
    ADC_GO | ADC_W_MUX | ADC_R_MUX | ADC_W_CURR | ADC_R_CURR | ADC_W_GAIN | ADC_R_GAIN
  | ADC_R_DATA | ADC_R_RAW | ADC_R_OFS
  | ADC_V1_GO | ADC_V1_W_INSEL | ADC_V1_R_INSEL | ADC_V1_W_CURREN | ADC_V1_R_CURREN

fun adc_code :: "ADCCommand \<Rightarrow> u8" where
  "adc_code ADC_GO = 0x02" | "adc_code ADC_W_MUX = 0x50" | "adc_code ADC_R_MUX = 0x51"
| "adc_code ADC_W_CURR = 0x60" | "adc_code ADC_R_CURR = 0x61"
| "adc_code ADC_W_GAIN = 0x10" | "adc_code ADC_R_GAIN = 0x11"
| "adc_code ADC_R_DATA = 0x21" | "adc_code ADC_R_RAW = 0x31" | "adc_code ADC_R_OFS = 0x41"
| "adc_code ADC_V1_GO = 0xB2" | "adc_code ADC_V1_W_INSEL = 0x30" | "adc_code ADC_V1_R_INSEL = 0x31"
| "adc_code ADC_V1_W_CURREN = 0x40" | "adc_code ADC_V1_R_CURREN = 0x41"

text \<open>The channels of the converter, with the names the firmware monitoring uses for some of them.\<close>

datatype ADCChannel =
    ADC_CH00 | ADC_CH01 | ADC_CH02 | ADC_CH03 | ADC_CH04 | ADC_CH05 | ADC_CH06 | ADC_CH07
  | ADC_CH08 | ADC_CH09 | ADC_CH10 | ADC_CH11 | ADC_CH12 | ADC_CH13 | ADC_CH14 | ADC_CH15
  | ADC_CH16 | ADC_CH17 | ADC_CH18 | ADC_CH19 | ADC_CH20 | ADC_CH21 | ADC_CH22 | ADC_CH23
  | ADC_CH24 | ADC_CH25 | ADC_CH26 | ADC_CH27 | ADC_CH28 | ADC_CH29 | ADC_CH30 | ADC_CH31

fun adc_channel :: "ADCChannel \<Rightarrow> nat" where
  "adc_channel ADC_CH00 = 0" | "adc_channel ADC_CH01 = 1" | "adc_channel ADC_CH02 = 2" | "adc_channel ADC_CH03 = 3"
| "adc_channel ADC_CH04 = 4" | "adc_channel ADC_CH05 = 5" | "adc_channel ADC_CH06 = 6" | "adc_channel ADC_CH07 = 7"
| "adc_channel ADC_CH08 = 8" | "adc_channel ADC_CH09 = 9" | "adc_channel ADC_CH10 = 10" | "adc_channel ADC_CH11 = 11"
| "adc_channel ADC_CH12 = 12" | "adc_channel ADC_CH13 = 13" | "adc_channel ADC_CH14 = 14" | "adc_channel ADC_CH15 = 15"
| "adc_channel ADC_CH16 = 16" | "adc_channel ADC_CH17 = 17" | "adc_channel ADC_CH18 = 18" | "adc_channel ADC_CH19 = 19"
| "adc_channel ADC_CH20 = 20" | "adc_channel ADC_CH21 = 21" | "adc_channel ADC_CH22 = 22" | "adc_channel ADC_CH23 = 23"
| "adc_channel ADC_CH24 = 24" | "adc_channel ADC_CH25 = 25" | "adc_channel ADC_CH26 = 26" | "adc_channel ADC_CH27 = 27"
| "adc_channel ADC_CH28 = 28" | "adc_channel ADC_CH29 = 29" | "adc_channel ADC_CH30 = 30" | "adc_channel ADC_CH31 = 31"

definition AVCCN_V1P0 :: ADCChannel where "AVCCN_V1P0 = ADC_CH27"
definition AVTTN_V1P2 :: ADCChannel where "AVTTN_V1P2 = ADC_CH30"
definition INT_V1P0 :: ADCChannel where "INT_V1P0 = ADC_CH17"
definition ADC_V1P8 :: ADCChannel where "ADC_V1P8 = ADC_CH14"
definition ADC_V1P5 :: ADCChannel where "ADC_V1P5 = ADC_CH24"
definition ADC_2V5 :: ADCChannel where "ADC_2V5 = ADC_CH15"
definition SCA_TEMP :: ADCChannel where "SCA_TEMP = ADC_CH31"

section \<open>Commands\<close>

text \<open>The four bytes in reverse order.\<close>

definition formatSCAData :: "u32 \<Rightarrow> u32" where
  "formatSCAData data =
     drop_bit 24 (data AND 0xff000000) + (drop_bit 8 data AND 0x0000ff00)
       + push_bit 8 (data AND 0x0000ff00) + push_bit 24 (data AND 0x000000ff)"

definition sendSCACommand :: "localArgs \<Rightarrow> u8 \<Rightarrow> u8 \<Rightarrow> u8 \<Rightarrow> u32 \<Rightarrow> u16 \<Rightarrow> unit prog" where
  "sendSCACommand la ch cmd len data ohMask = seqM
     [writeReg la ''GEM_AMC.SLOW_CONTROL.SCA.MANUAL_CONTROL.LINK_ENABLE_MASK'' (ucast ohMask),
      writeReg la ''GEM_AMC.SLOW_CONTROL.SCA.MANUAL_CONTROL.SCA_CMD.SCA_CMD_CHANNEL'' (ucast ch),
      writeReg la ''GEM_AMC.SLOW_CONTROL.SCA.MANUAL_CONTROL.SCA_CMD.SCA_CMD_COMMAND'' (ucast cmd),
      writeReg la ''GEM_AMC.SLOW_CONTROL.SCA.MANUAL_CONTROL.SCA_CMD.SCA_CMD_LENGTH'' (ucast len),
      writeReg la ''GEM_AMC.SLOW_CONTROL.SCA.MANUAL_CONTROL.SCA_CMD.SCA_CMD_DATA'' (formatSCAData data),
      writeReg la ''GEM_AMC.SLOW_CONTROL.SCA.MANUAL_CONTROL.SCA_CMD.SCA_CMD_EXECUTE'' 0x1]"

definition reply_reg :: "nat \<Rightarrow> string" where
  "reply_reg oh = ''GEM_AMC.SLOW_CONTROL.SCA.MANUAL_CONTROL.SCA_REPLY_OH'' @ dec oh @ ''.SCA_RPY_DATA''"

definition sendSCACommandWithReply ::
  "localArgs \<Rightarrow> u8 \<Rightarrow> u8 \<Rightarrow> u8 \<Rightarrow> u32 \<Rightarrow> u16 \<Rightarrow> u32 list prog" where
  "sendSCACommandWithReply la ch cmd len data ohMask =
     thenM (sendSCACommand la ch cmd len data ohMask)
       (collectM [0..<12] (\<lambda>oh.
          if drop_bit oh ohMask AND 0x1 \<noteq> 0
          then bindM (readReg la (reply_reg oh)) (\<lambda>v. ret (formatSCAData v))
          else ret 0))"

abbreviation monitoring_off :: string where
  "monitoring_off \<equiv> ''GEM_AMC.SLOW_CONTROL.SCA.ADC_MONITORING.MONITORING_OFF''"

text \<open>The cases of the \<^verbatim>\<open>switch\<close>, in order. None of them ends with a \<^verbatim>\<open>break\<close>.\<close>

definition ctrl_cases ::
  "localArgs \<Rightarrow> CTRLCommand \<Rightarrow> u16 \<Rightarrow> u8 \<Rightarrow> u32 \<Rightarrow> (CTRLCommand \<times> (u32 list \<Rightarrow> u32 list prog)) list" where
  "ctrl_cases la cmd ohMask len data =
    [(CTRL_R_ID_V2, \<lambda>result. sendSCACommandWithReply la 0x14 (ctrl_code cmd) 0x1 0x1 ohMask),
     (CTRL_R_ID_V1, \<lambda>result. sendSCACommandWithReply la 0x14 (ctrl_code cmd) 0x1 0x1 ohMask),
     (CTRL_R_SEU, \<lambda>result. sendSCACommandWithReply la 0x13 (ctrl_code cmd) 0x1 0x0 ohMask),
     (CTRL_C_SEU, \<lambda>result. sendSCACommandWithReply la 0x13 (ctrl_code cmd) 0x1 0x0 ohMask),
     (CTRL_W_CRB, \<lambda>result. thenM (sendSCACommand la (channel_code CTRL) (ctrl_code cmd) len data ohMask) (ret result)),
     (CTRL_W_CRC, \<lambda>result. thenM (sendSCACommand la (channel_code CTRL) (ctrl_code cmd) len data ohMask) (ret result)),
     (CTRL_W_CRD, \<lambda>result. thenM (sendSCACommand la (channel_code CTRL) (ctrl_code cmd) len data ohMask) (ret result)),
     (CTRL_R_CRB, \<lambda>result. sendSCACommandWithReply la (channel_code CTRL) (ctrl_code cmd) len data ohMask),
     (CTRL_R_CRC, \<lambda>result. sendSCACommandWithReply la (channel_code CTRL) (ctrl_code cmd) len data ohMask),
     (CTRL_R_CRD, \<lambda>result. sendSCACommandWithReply la (channel_code CTRL) (ctrl_code cmd) len data ohMask)]"

definition ctrl_switch :: "localArgs \<Rightarrow> CTRLCommand \<Rightarrow> u16 \<Rightarrow> u8 \<Rightarrow> u32 \<Rightarrow> u32 list prog" where
  "ctrl_switch la cmd ohMask len data =
     bindM (foldM (\<lambda>(c, step) result. step result)
              (dropWhile (\<lambda>(c, step). c \<noteq> cmd) (ctrl_cases la cmd ohMask len data)) [])
       (\<lambda>result. sendSCACommandWithReply la (channel_code CTRL) (ctrl_code GET_DATA) len data ohMask)"

definition scaCTRLCommand :: "localArgs \<Rightarrow> CTRLCommand \<Rightarrow> u16 \<Rightarrow> u8 \<Rightarrow> u32 \<Rightarrow> u32 list prog" where
  "scaCTRLCommand la cmd ohMask len data =
     bindM (readReg la monitoring_off) (\<lambda>monMask.
     thenM (writeReg la monitoring_off 0xffffffff) (
     bindM (ctrl_switch la cmd ohMask len data) (\<lambda>result.
     thenM (writeReg la monitoring_off monMask) (ret result))))"

definition scaI2CCommand :: "localArgs \<Rightarrow> SCAChannel \<Rightarrow> I2CCommand \<Rightarrow> u8 \<Rightarrow> u32 \<Rightarrow> u16 \<Rightarrow> u32 list prog" where
  "scaI2CCommand la ch cmd len data ohMask =
     bindM (readReg la monitoring_off) (\<lambda>monMask.
     thenM (writeReg la monitoring_off 0xffffffff) (
     thenM (sendSCACommand la (channel_code ch) (i2c_code cmd) len data ohMask) (
     thenM (writeReg la monitoring_off monMask) (ret []))))"

definition scaGPIOCommandLocal :: "localArgs \<Rightarrow> GPIOCommand \<Rightarrow> u8 \<Rightarrow> u32 \<Rightarrow> u16 \<Rightarrow> u32 list prog" where
  "scaGPIOCommandLocal la cmd len data ohMask =
     bindM (readReg la monitoring_off) (\<lambda>monMask.
     thenM (writeReg la monitoring_off 0xffffffff) (
     bindM (sendSCACommandWithReply la (channel_code GPIO) (gpio_code cmd) len data ohMask) (\<lambda>reply.
     thenM (writeReg la monitoring_off monMask) (ret reply))))"

definition scaADCCommand :: "localArgs \<Rightarrow> ADCChannel \<Rightarrow> ADCCommand \<Rightarrow> u8 \<Rightarrow> u32 \<Rightarrow> u16 \<Rightarrow> u32 list prog" where
  "scaADCCommand la ch cmd len data ohMask =
     bindM (readReg la monitoring_off) (\<lambda>monMask.
     thenM (writeReg la monitoring_off 0xffffffff) (
     thenM (sendSCACommand la (channel_code ADC) (adc_code ADC_W_MUX) 0x4 (of_nat (adc_channel ch)) ohMask) (
     thenM (sendSCACommand la (channel_code ADC) (adc_code ADC_W_CURR) 0x4 (push_bit (adc_channel ch) 1) ohMask) (
     bindM (sendSCACommandWithReply la (channel_code ADC) (adc_code ADC_GO) 0x4 0x1 ohMask) (\<lambda>result.
     thenM (writeReg la monitoring_off monMask) (ret result))))))"

definition readSCAChipIDLocal :: "localArgs \<Rightarrow> u16 \<Rightarrow> bool \<Rightarrow> u32 list prog" where
  "readSCAChipIDLocal la ohMask scaV1 =
     (if scaV1 then scaCTRLCommand la CTRL_R_ID_V1 ohMask 0x1 0x0
      else scaCTRLCommand la CTRL_R_ID_V2 ohMask 0x1 0x0)"

definition resetSCASEUCounterLocal :: "localArgs \<Rightarrow> u16 \<Rightarrow> unit prog" where
  "resetSCASEUCounterLocal la ohMask = bindM (scaCTRLCommand la CTRL_C_SEU ohMask 0x1 0x0) (\<lambda>_. ret ())"

definition readSCASEUCounterLocal :: "localArgs \<Rightarrow> u16 \<Rightarrow> bool \<Rightarrow> u32 list prog" where
  "readSCASEUCounterLocal la ohMask reset =
     thenM (whenM reset (resetSCASEUCounterLocal la ohMask))
       (scaCTRLCommand la CTRL_R_SEU ohMask 0x1 0x0)"

abbreviation sca_reset_mask :: string where
  "sca_reset_mask \<equiv> ''GEM_AMC.SLOW_CONTROL.SCA.CTRL.SCA_RESET_ENABLE_MASK''"

abbreviation sca_module_reset :: string where
  "sca_module_reset \<equiv> ''GEM_AMC.SLOW_CONTROL.SCA.CTRL.MODULE_RESET''"

definition scaModuleResetLocal :: "localArgs \<Rightarrow> u16 \<Rightarrow> unit prog" where
  "scaModuleResetLocal la ohMask =
     bindM (readReg la sca_reset_mask) (\<lambda>origMask. seqM
       [writeReg la sca_reset_mask (ucast ohMask),
        writeReg la sca_module_reset 0x1,
        writeReg la sca_reset_mask origMask])"

definition scaHardResetEnableLocal :: "localArgs \<Rightarrow> bool \<Rightarrow> unit prog" where
  "scaHardResetEnableLocal la en =
     writeReg la ''GEM_AMC.SLOW_CONTROL.SCA.CTRL.TTC_HARD_RESET_EN'' (if en then 1 else 0)"

section \<open>RPC callbacks\<close>

definition scaModuleReset :: "localArgs \<Rightarrow> rpc_request \<Rightarrow> unit prog" where
  "scaModuleReset la request =
     bindM (get_word request ''ohMask'') (\<lambda>ohMask. scaModuleResetLocal la (ucast ohMask))"

definition readSCAChipID :: "localArgs \<Rightarrow> rpc_request \<Rightarrow> unit prog" where
  "readSCAChipID la request =
     bindM (get_word request ''ohMask'') (\<lambda>ohMask.
     bindM (get_word request ''scaV1'') (\<lambda>scaV1.
     bindM (readSCAChipIDLocal la (ucast ohMask) (scaV1 \<noteq> 0)) (\<lambda>scaChipIDs. ret ())))"

definition readSCASEUCounter :: "localArgs \<Rightarrow> rpc_request \<Rightarrow> unit prog" where
  "readSCASEUCounter la request =
     bindM (get_word request ''ohMask'') (\<lambda>ohMask.
     bindM (get_word request ''reset'') (\<lambda>reset.
     bindM (readSCASEUCounterLocal la (ucast ohMask) (reset \<noteq> 0)) (\<lambda>seuCounts. ret ())))"

definition resetSCASEUCounter :: "localArgs \<Rightarrow> rpc_request \<Rightarrow> unit prog" where
  "resetSCASEUCounter la request =
     bindM (get_word request ''ohMask'') (\<lambda>ohMask. resetSCASEUCounterLocal la (ucast ohMask))"

section \<open>Byte order\<close>

lemma add_or: "(\<And>n. \<not> (bit a n \<and> bit b n)) \<Longrightarrow> a + b = a OR (b :: u32)"
  by (rule disjunctive_add_eq_or) (auto simp: bit_eq_iff bit_simps)

lemma bit_byte:
  "bit (0xff000000 :: u32) n = (24 \<le> n \<and> n < 32)" "bit (0x0000ff00 :: u32) n = (8 \<le> n \<and> n < 16)"
  "bit (0x000000ff :: u32) n = (n < 8)" "bit (0x00ff0000 :: u32) n = (16 \<le> n \<and> n < 24)"
proof -
  have "(0xff000000 :: u32) = push_bit 24 (mask 8)" "(0x0000ff00 :: u32) = push_bit 8 (mask 8)"
    "(0x000000ff :: u32) = mask 8" "(0x00ff0000 :: u32) = push_bit 16 (mask 8)"
    by (simp_all add: mask_eq_exp_minus_1)
  note e = this
  show "bit (0xff000000 :: u32) n = (24 \<le> n \<and> n < 32)"
    "bit (0x0000ff00 :: u32) n = (8 \<le> n \<and> n < 16)" "bit (0x000000ff :: u32) n = (n < 8)"
    "bit (0x00ff0000 :: u32) n = (16 \<le> n \<and> n < 24)"
    unfolding e by (auto simp only: bit_push_bit_iff bit_mask_iff) auto
qed

lemma formatSCAData_or:
  "formatSCAData d = drop_bit 24 (d AND 0xff000000) OR (drop_bit 8 d AND 0x0000ff00)
     OR push_bit 8 (d AND 0x0000ff00) OR push_bit 24 (d AND 0x000000ff)"
proof -
  let ?a = "drop_bit 24 (d AND 0xff000000)" and ?b = "drop_bit 8 d AND 0x0000ff00"
    and ?c = "push_bit 8 (d AND 0x0000ff00)" and ?d = "push_bit 24 (d AND 0x000000ff)"
  have "?a + ?b = ?a OR ?b" by (rule add_or) (auto simp: bit_simps bit_byte simp del: bit_numeral_word_iff)
  moreover have "(?a OR ?b) + ?c = (?a OR ?b) OR ?c" by (rule add_or) (auto simp: bit_simps bit_byte simp del: bit_numeral_word_iff)
  moreover have "((?a OR ?b) OR ?c) + ?d = ((?a OR ?b) OR ?c) OR ?d"
    by (rule add_or) (auto simp: bit_simps bit_byte simp del: bit_numeral_word_iff)
  ultimately show ?thesis by (simp only: formatSCAData_def or.assoc)
qed

lemma bit_formatSCAData:
  "bit (formatSCAData d) n = (n < 32 \<and> bit d (8 * (3 - n div 8) + n mod 8))"
proof (cases "n < 32")
  case True
  then consider "n < 8" | "8 \<le> n" "n < 16" | "16 \<le> n" "n < 24" | "24 \<le> n" "n < 32" by linarith
  then show ?thesis
  proof cases
    case 1
    then show ?thesis
      by (simp only: formatSCAData_or bit_or_iff bit_and_iff bit_drop_bit_eq bit_push_bit_iff bit_byte comp_def)
        (simp add: add.commute)
  next
    case 2
    then have "n div 8 = 1" "n mod 8 = n - 8" by (auto simp: le_mod_geq)
    with 2 show ?thesis by (simp add: formatSCAData_or bit_simps bit_byte add.commute del: bit_numeral_word_iff)
  next
    case 3
    then have "n div 8 = 2" "n mod 8 = n - 16" by (auto simp: le_mod_geq)
    with 3 show ?thesis by (simp add: formatSCAData_or bit_simps bit_byte del: bit_numeral_word_iff)
  next
    case 4
    then have "n div 8 = 3" "n mod 8 = n - 24" by (auto simp: le_mod_geq)
    with 4 show ?thesis by (simp add: formatSCAData_or bit_simps bit_byte del: bit_numeral_word_iff)
  qed
next
  case False
  then show ?thesis using bit_u32_out [of n] by simp
qed

lemma formatSCAData_involution: "formatSCAData (formatSCAData d) = d"
proof (rule word_bit_eqI)
  fix n
  assume "n < LENGTH(32)"
  then have n: "n < 32" by simp
  have "n div 8 < 4" using n by (simp add: less_mult_imp_div_less)
  then have "8 * (3 - n div 8) + n mod 8 < 32" by linarith
  moreover have "(8 * (3 - n div 8) + n mod 8) div 8 = 3 - n div 8"
    "(8 * (3 - n div 8) + n mod 8) mod 8 = n mod 8" by simp_all
  moreover have "8 * (3 - (3 - n div 8)) + n mod 8 = n"
    using \<open>n div 8 < 4\<close> by (simp add: diff_diff_cancel)
  ultimately show "bit (formatSCAData (formatSCAData d)) n = bit d n"
    using n by (simp add: bit_formatSCAData)
qed

text \<open>
  SCA byte order: \<^verbatim>\<open>formatSCAData\<close> puts byte \<open>3 - k\<close> of the data at byte \<open>k\<close>, bit by bit, and applying
  it twice gives the data back, so the format of a command and of a reply is the same.
\<close>

theorem formatSCAData_reverses:
  "bit (formatSCAData d) n = (n < 32 \<and> bit d (8 * (3 - n div 8) + n mod 8))
    \<and> formatSCAData (formatSCAData d) = d"
  using bit_formatSCAData formatSCAData_involution by blast

section \<open>Transactions on registers that behave as variables\<close>

definition cmd_regs :: "string set" where
  "cmd_regs = {''GEM_AMC.SLOW_CONTROL.SCA.MANUAL_CONTROL.LINK_ENABLE_MASK'',
     ''GEM_AMC.SLOW_CONTROL.SCA.MANUAL_CONTROL.SCA_CMD.SCA_CMD_CHANNEL'',
     ''GEM_AMC.SLOW_CONTROL.SCA.MANUAL_CONTROL.SCA_CMD.SCA_CMD_COMMAND'',
     ''GEM_AMC.SLOW_CONTROL.SCA.MANUAL_CONTROL.SCA_CMD.SCA_CMD_LENGTH'',
     ''GEM_AMC.SLOW_CONTROL.SCA.MANUAL_CONTROL.SCA_CMD.SCA_CMD_DATA'',
     ''GEM_AMC.SLOW_CONTROL.SCA.MANUAL_CONTROL.SCA_CMD.SCA_CMD_EXECUTE''}"

definition reply_regs :: "string set" where
  "reply_regs = reply_reg ` {..<12}"

abbreviation command_reg :: string where
  "command_reg \<equiv> ''GEM_AMC.SLOW_CONTROL.SCA.MANUAL_CONTROL.SCA_CMD.SCA_CMD_COMMAND''"

abbreviation channel_reg :: string where
  "channel_reg \<equiv> ''GEM_AMC.SLOW_CONTROL.SCA.MANUAL_CONTROL.SCA_CMD.SCA_CMD_CHANNEL''"

lemma reply_reg_not_cmd: "reply_reg oh \<notin> cmd_regs" "reply_reg oh \<noteq> monitoring_off"
  by (simp_all add: reply_reg_def cmd_regs_def)

lemma monitoring_not_cmd: "monitoring_off \<notin> cmd_regs"
  by (simp add: cmd_regs_def)

text \<open>The step every transaction makes: a command with this code and channel was the last one sent.\<close>

definition sent :: "localArgs \<Rightarrow> (string \<Rightarrow> node) \<Rightarrow> string set \<Rightarrow> (u32 \<Rightarrow> u32) \<Rightarrow> u8 \<Rightarrow> u8 \<Rightarrow> mach \<Rightarrow> mach \<Rightarrow> bool" where
  "sent la nd R v0 ch cmd s t \<longleftrightarrow> reg_ok la nd R v0 t \<and> resp t = resp s \<and>
     (\<forall>q\<in>R - cmd_regs. reg_val nd v0 q t = reg_val nd v0 q s) \<and>
     reg_val nd v0 command_reg t = reg_fits nd command_reg (ucast cmd) \<and>
     reg_val nd v0 channel_reg t = reg_fits nd channel_reg (ucast ch)"

lemma sent_trans: "sent la nd R v0 c d s t \<Longrightarrow> sent la nd R v0 ch cmd t u \<Longrightarrow> sent la nd R v0 ch cmd s u"
  by (simp add: sent_def)

lemma sendSCACommand_sent:
  assumes "cmd_regs \<subseteq> R" and "reg_ok la nd R v0 s"
  shows "\<exists>t. sendSCACommand la ch cmd len data ohMask s = Some (Val (), t) \<and> sent la nd R v0 ch cmd s t"
proof -
  let ?ws = "[(''GEM_AMC.SLOW_CONTROL.SCA.MANUAL_CONTROL.LINK_ENABLE_MASK'', ucast ohMask),
      (channel_reg, ucast ch), (command_reg, ucast cmd),
      (''GEM_AMC.SLOW_CONTROL.SCA.MANUAL_CONTROL.SCA_CMD.SCA_CMD_LENGTH'', ucast len),
      (''GEM_AMC.SLOW_CONTROL.SCA.MANUAL_CONTROL.SCA_CMD.SCA_CMD_DATA'', formatSCAData data),
      (''GEM_AMC.SLOW_CONTROL.SCA.MANUAL_CONTROL.SCA_CMD.SCA_CMD_EXECUTE'', 0x1 :: u32)]"
  have sub: "fst ` set ?ws \<subseteq> R" using assms(1) by (simp add: cmd_regs_def)
  obtain t where t: "forM ?ws (\<lambda>(r, v). writeReg la r v) s = Some (Val (), t)" "reg_ok la nd R v0 t"
    "resp t = resp s" "\<forall>q\<in>R. reg_val nd v0 q t = rf.last_write nd ?ws q (reg_val nd v0 q s)"
    using rf.writes_run [OF sub assms(2)] by blast
  have "sendSCACommand la ch cmd len data ohMask s = Some (Val (), t)"
    using t(1) by (simp add: sendSCACommand_def)
  moreover have "reg_val nd v0 q t = reg_val nd v0 q s" if "q \<in> R - cmd_regs" for q
    using t(4) that by (simp add: cmd_regs_def)
  moreover have "command_reg \<in> R" "channel_reg \<in> R" using assms(1) by (simp_all add: cmd_regs_def)
  ultimately show ?thesis using t by (simp add: sent_def)
qed

text \<open>The replies of the links in the mask, null for the others.\<close>

definition replies :: "(string \<Rightarrow> node) \<Rightarrow> (u32 \<Rightarrow> u32) \<Rightarrow> u16 \<Rightarrow> mach \<Rightarrow> u32 list" where
  "replies nd v0 ohMask s = map (\<lambda>oh. if drop_bit oh ohMask AND 0x1 \<noteq> 0
     then formatSCAData (reg_val nd v0 (reply_reg oh) s) else 0) [0..<12]"

lemma replies_sent:
  "reply_regs \<subseteq> R \<Longrightarrow> sent la nd R v0 ch cmd s t \<Longrightarrow> replies nd v0 ohMask t = replies nd v0 ohMask s"
  unfolding replies_def
  by (rule map_cong) (auto simp: sent_def reply_regs_def reply_reg_not_cmd)

lemma sendSCACommandWithReply_sent:
  assumes "cmd_regs \<subseteq> R" and "reply_regs \<subseteq> R" and "reg_ok la nd R v0 s"
  shows "\<exists>t. sendSCACommandWithReply la ch cmd len data ohMask s = Some (Val (replies nd v0 ohMask s), t)
    \<and> sent la nd R v0 ch cmd s t"
proof -
  let ?f = "\<lambda>oh. if drop_bit oh ohMask AND 0x1 \<noteq> 0
      then bindM (readReg la (reply_reg oh)) (\<lambda>v. ret (formatSCAData v)) else ret 0"
  obtain u where u: "sendSCACommand la ch cmd len data ohMask s = Some (Val (), u)" "sent la nd R v0 ch cmd s u"
    using sendSCACommand_sent [OF assms(1,3)] by blast
  have "rf.observes R nd v0 la (collectM [0..<12] ?f)
      (\<lambda>s. map (\<lambda>oh. if drop_bit oh ohMask AND 0x1 \<noteq> 0 then formatSCAData (reg_val nd v0 (reply_reg oh) s) else 0) [0..<12])"
    using assms(2)
    by (intro rf.observes_collect rf.observes_if rf.observes_bind [where h = "\<lambda>v s. formatSCAData v"]
        rf.observes_rd rf.observes_ret) (auto simp: reply_regs_def)
  moreover have "reg_ok la nd R v0 u" using u(2) by (simp add: sent_def)
  ultimately obtain t where t: "collectM [0..<12] ?f u = Some (Val (replies nd v0 ohMask u), t)"
    "reg_ok la nd R v0 t" "resp t = resp u" "\<And>q. q \<in> R \<Longrightarrow> reg_val nd v0 q t = reg_val nd v0 q u"
    unfolding replies_def by (rule rf.observes_run) blast
  have "command_reg \<in> R" "channel_reg \<in> R" using assms(1) by (simp_all add: cmd_regs_def)
  then have "sent la nd R v0 ch cmd s t" using u(2) t(2-4) by (simp add: sent_def)
  moreover have "sendSCACommandWithReply la ch cmd len data ohMask s = Some (Val (replies nd v0 ohMask s), t)"
    using t(1) u by (simp add: sendSCACommandWithReply_def thenM_Val replies_sent [OF assms(2)])
  ultimately show ?thesis by blast
qed

lemma monitoring_written:
  assumes "monitoring_off \<in> R" and "cmd_regs \<subseteq> R" and "reg_ok la nd R v0 s"
  shows "\<exists>t. writeReg la monitoring_off v s = Some (Val (), t) \<and> reg_ok la nd R v0 t \<and> resp t = resp s
    \<and> reg_val nd v0 monitoring_off t = reg_fits nd monitoring_off v
    \<and> (\<forall>q\<in>R. q \<noteq> monitoring_off \<longrightarrow> reg_val nd v0 q t = reg_val nd v0 q s)"
  by (rule rf.wr_run [OF assms(1,3), of v]) blast

lemma switch_steps:
  assumes "cmd_regs \<subseteq> R" and "reply_regs \<subseteq> R"
  shows "set cs \<subseteq> set (ctrl_cases la cmd ohMask len data) \<Longrightarrow> reg_ok la nd R v0 s \<Longrightarrow>
    \<exists>xs t. foldM (\<lambda>(c, step) result. step result) cs xs0 s = Some (Val xs, t)
      \<and> (t = s \<or> (\<exists>ch. sent la nd R v0 ch (ctrl_code cmd) s t))"
proof (induction cs arbitrary: xs0 s)
  case Nil
  then show ?case by (simp add: ret_def)
next
  case (Cons p cs)
  obtain c step where p: "p = (c, step)" by (cases p)
  have "(c, step) \<in> set (ctrl_cases la cmd ohMask len data)" using Cons.prems(1) p by simp
  then obtain ch ln d where cs: "step = (\<lambda>result. sendSCACommandWithReply la ch (ctrl_code cmd) ln d ohMask)
      \<or> step = (\<lambda>result. thenM (sendSCACommand la ch (ctrl_code cmd) ln d ohMask) (ret result))"
    by (auto simp: ctrl_cases_def)
  have "\<exists>xs u. step xs0 s = Some (Val xs, u) \<and> sent la nd R v0 ch (ctrl_code cmd) s u"
    using cs
  proof
    assume "step = (\<lambda>result. sendSCACommandWithReply la ch (ctrl_code cmd) ln d ohMask)"
    then show ?thesis using sendSCACommandWithReply_sent [OF assms Cons.prems(2)] by blast
  next
    assume "step = (\<lambda>result. thenM (sendSCACommand la ch (ctrl_code cmd) ln d ohMask) (ret result))"
    moreover obtain u where "sendSCACommand la ch (ctrl_code cmd) ln d ohMask s = Some (Val (), u)"
      "sent la nd R v0 ch (ctrl_code cmd) s u" using sendSCACommand_sent [OF assms(1) Cons.prems(2)] by blast
    ultimately show ?thesis by (auto simp: thenM_Val ret_def)
  qed
  then obtain xs u where u: "step xs0 s = Some (Val xs, u)" "sent la nd R v0 ch (ctrl_code cmd) s u" by blast
  then have "reg_ok la nd R v0 u" by (simp add: sent_def)
  then obtain ys t where t: "foldM (\<lambda>(c, step) result. step result) cs xs u = Some (Val ys, t)"
    "t = u \<or> (\<exists>ch. sent la nd R v0 ch (ctrl_code cmd) u t)"
    using Cons.IH [of u xs] Cons.prems(1) by auto
  then show ?case using u by (auto simp: p bindM_Val intro: sent_trans)
qed

lemma ctrl_switch_sent:
  assumes "cmd_regs \<subseteq> R" and "reply_regs \<subseteq> R" and "reg_ok la nd R v0 s"
  shows "\<exists>t. ctrl_switch la cmd ohMask len data s = Some (Val (replies nd v0 ohMask s), t)
    \<and> sent la nd R v0 (channel_code CTRL) (ctrl_code GET_DATA) s t"
proof -
  have "set (dropWhile (\<lambda>(c, step). c \<noteq> cmd) (ctrl_cases la cmd ohMask len data)) \<subseteq> set (ctrl_cases la cmd ohMask len data)"
    using set_dropWhileD by fast
  from switch_steps [OF assms(1,2) this assms(3), of "[]"]
  obtain xs u where u: "foldM (\<lambda>(c, step) result. step result)
      (dropWhile (\<lambda>(c, step). c \<noteq> cmd) (ctrl_cases la cmd ohMask len data)) [] s = Some (Val xs, u)"
    and su: "u = s \<or> (\<exists>ch. sent la nd R v0 ch (ctrl_code cmd) s u)" by blast
  then have "reg_ok la nd R v0 u" using assms(3) by (auto simp: sent_def)
  then obtain t where t: "sendSCACommandWithReply la (channel_code CTRL) (ctrl_code GET_DATA) len data ohMask u
      = Some (Val (replies nd v0 ohMask u), t)" "sent la nd R v0 (channel_code CTRL) (ctrl_code GET_DATA) u t"
    using sendSCACommandWithReply_sent [OF assms(1,2)] by blast
  have "replies nd v0 ohMask u = replies nd v0 ohMask s" using su replies_sent [OF assms(2)] by blast
  with t u su show ?thesis by (auto simp: ctrl_switch_def bindM_Val intro: sent_trans)
qed

text \<open>
  C25 (SCA control commands fall through): whatever the command, \<^verbatim>\<open>scaCTRLCommand\<close> ends up sending
  \<^verbatim>\<open>GET_DATA\<close> to channel 0, since no case of its \<^verbatim>\<open>switch\<close> breaks, and returns the replies to that; it
  restores \<^verbatim>\<open>MONITORING_OFF\<close> and changes no register besides the manual-control ones.
\<close>

theorem scaCTRLCommand_falls_through:
  assumes "cmd_regs \<subseteq> R" and "reply_regs \<subseteq> R" and "monitoring_off \<in> R" and "reg_ok la nd R v0 s"
  shows "\<exists>t. scaCTRLCommand la cmd ohMask len data s = Some (Val (replies nd v0 ohMask s), t) \<and> resp t = resp s
    \<and> reg_val nd v0 command_reg t = 0 \<and> reg_val nd v0 channel_reg t = 0
    \<and> (\<forall>q\<in>R - cmd_regs. reg_val nd v0 q t = reg_val nd v0 q s)"
proof -
  have cr: "command_reg \<in> R" "channel_reg \<in> R" "command_reg \<noteq> monitoring_off" "channel_reg \<noteq> monitoring_off"
    using assms(1) by (simp_all add: cmd_regs_def)
  obtain a where a: "readReg la monitoring_off s = Some (Val (reg_val nd v0 monitoring_off s), a)"
    "reg_ok la nd R v0 a" "resp a = resp s" "\<And>q. q \<in> R \<Longrightarrow> reg_val nd v0 q a = reg_val nd v0 q s"
    by (rule rf.rd_run [OF assms(3,4)]) blast
  obtain b where b: "writeReg la monitoring_off 0xffffffff a = Some (Val (), b)" "reg_ok la nd R v0 b"
    "resp b = resp a" "\<forall>q\<in>R. q \<noteq> monitoring_off \<longrightarrow> reg_val nd v0 q b = reg_val nd v0 q a"
    using monitoring_written [OF assms(3,1) a(2)] by blast
  obtain c where c: "ctrl_switch la cmd ohMask len data b = Some (Val (replies nd v0 ohMask b), c)"
    "sent la nd R v0 (channel_code CTRL) (ctrl_code GET_DATA) b c"
    using ctrl_switch_sent [OF assms(1,2) b(2)] by blast
  then have "reg_ok la nd R v0 c" by (simp add: sent_def)
  then obtain t where t: "writeReg la monitoring_off (reg_val nd v0 monitoring_off s) c = Some (Val (), t)"
    "resp t = resp c" "reg_val nd v0 monitoring_off t = reg_fits nd monitoring_off (reg_val nd v0 monitoring_off s)"
    "\<forall>q\<in>R. q \<noteq> monitoring_off \<longrightarrow> reg_val nd v0 q t = reg_val nd v0 q c"
    using monitoring_written [OF assms(3,1)] by blast
  have z: "reg_fits nd r 0 = 0" for r by (simp add: reg_fits_def field_part_def)
  have rep: "replies nd v0 ohMask b = replies nd v0 ohMask s"
    unfolding replies_def using assms(2) a(4) b(4) reply_reg_not_cmd(2)
    by (intro map_cong) (auto simp: reply_regs_def)
  have "reg_val nd v0 q t = reg_val nd v0 q s" if q: "q \<in> R - cmd_regs" for q
  proof (cases "q = monitoring_off")
    case True
    then show ?thesis using t(3) rf.fits_val [OF assms(3)] by simp
  next
    case False
    then show ?thesis using q t(4) c(2) b(4) a(4) by (simp add: sent_def)
  qed
  moreover have "reg_val nd v0 command_reg t = 0" "reg_val nd v0 channel_reg t = 0"
    using c(2) t(4) cr by (simp_all add: sent_def z)
  moreover have "scaCTRLCommand la cmd ohMask len data s = Some (Val (replies nd v0 ohMask s), t)"
    using a(1) b(1) c(1) t(1) rep by (simp add: scaCTRLCommand_def bindM_Val thenM_Val ret_def)
  ultimately show ?thesis using t(2) c(2) b(3) a(3) by (simp add: sent_def)
qed

definition sca_demo_regs :: "string list" where
  "sca_demo_regs = [monitoring_off, sca_reset_mask, sca_module_reset,
     ''GEM_AMC.SLOW_CONTROL.SCA.MANUAL_CONTROL.LINK_ENABLE_MASK'', channel_reg, command_reg,
     ''GEM_AMC.SLOW_CONTROL.SCA.MANUAL_CONTROL.SCA_CMD.SCA_CMD_LENGTH'',
     ''GEM_AMC.SLOW_CONTROL.SCA.MANUAL_CONTROL.SCA_CMD.SCA_CMD_DATA'',
     ''GEM_AMC.SLOW_CONTROL.SCA.MANUAL_CONTROL.SCA_CMD.SCA_CMD_EXECUTE''] @ map reply_reg [0..<12]"

lemma sca_demo_ok: "reg_ok (flat_env sca_demo_regs) (flat_node sca_demo_regs) (set sca_demo_regs) (\<lambda>a. 0) s"
  by (rule flat_ok) (auto simp: sca_demo_regs_def reply_reg_def dec_no_nul)

lemma sca_demo_sub: "cmd_regs \<subseteq> set sca_demo_regs" "reply_regs \<subseteq> set sca_demo_regs" "monitoring_off \<in> set sca_demo_regs"
  "sca_reset_mask \<in> set sca_demo_regs" "sca_module_reset \<in> set sca_demo_regs"
  by (auto simp: cmd_regs_def reply_regs_def sca_demo_regs_def)

theorem scaCTRLCommand_falls_through_witness:
  "\<exists>xs t. scaCTRLCommand (flat_env sca_demo_regs) CTRL_R_SEU 0xfff 1 0 start_mach = Some (Val xs, t)
     \<and> reg_val (flat_node sca_demo_regs) (\<lambda>a. 0) command_reg t = 0"
  using scaCTRLCommand_falls_through [OF sca_demo_sub(1-3) sca_demo_ok] by blast

text \<open>
  C26 (SCA reset): \<^verbatim>\<open>scaModuleResetLocal\<close> pulses \<^verbatim>\<open>MODULE_RESET\<close> while the enable mask is the given one and leaves
  the enable mask and every other register as they were.
\<close>

theorem scaModuleResetLocal_restores:
  assumes "sca_reset_mask \<in> R" and "sca_module_reset \<in> R" and "reg_ok la nd R v0 s"
  shows "\<exists>u t. reg_val nd v0 sca_reset_mask u = reg_fits nd sca_reset_mask (ucast ohMask)
    \<and> writeReg la sca_module_reset 1 u = Some (Val (), t)
    \<and> (\<exists>v. scaModuleResetLocal la ohMask s = Some (Val (), v) \<and> resp v = resp s \<and> take (length (hist t)) (hist v) = hist t
        \<and> (\<forall>q\<in>R. reg_val nd v0 q v = (if q = sca_module_reset then reg_fits nd q 1 else reg_val nd v0 q s)))"
proof -
  obtain a where a: "readReg la sca_reset_mask s = Some (Val (reg_val nd v0 sca_reset_mask s), a)"
    "reg_ok la nd R v0 a" "resp a = resp s" "\<And>q. q \<in> R \<Longrightarrow> reg_val nd v0 q a = reg_val nd v0 q s"
    by (rule rf.rd_run [OF assms(1,3)]) blast
  obtain u where u: "writeReg la sca_reset_mask (ucast ohMask) a = Some (Val (), u)" "reg_ok la nd R v0 u" "resp u = resp a"
    "reg_val nd v0 sca_reset_mask u = reg_fits nd sca_reset_mask (ucast ohMask)"
    "\<And>q. q \<in> R \<Longrightarrow> q \<noteq> sca_reset_mask \<Longrightarrow> reg_val nd v0 q u = reg_val nd v0 q a"
    by (rule rf.wr_run [OF assms(1) a(2)]) blast
  obtain t where t: "writeReg la sca_module_reset 1 u = Some (Val (), t)" "reg_ok la nd R v0 t" "resp t = resp u"
    "reg_val nd v0 sca_module_reset t = reg_fits nd sca_module_reset 1"
    "\<And>q. q \<in> R \<Longrightarrow> q \<noteq> sca_module_reset \<Longrightarrow> reg_val nd v0 q t = reg_val nd v0 q u"
    by (rule rf.wr_run [OF assms(2) u(2)]) blast
  obtain v where v: "writeReg la sca_reset_mask (reg_val nd v0 sca_reset_mask s) t = Some (Val (), v)" "resp v = resp t"
    "reg_val nd v0 sca_reset_mask v = reg_fits nd sca_reset_mask (reg_val nd v0 sca_reset_mask s)"
    "\<And>q. q \<in> R \<Longrightarrow> q \<noteq> sca_reset_mask \<Longrightarrow> reg_val nd v0 q v = reg_val nd v0 q t"
    by (rule rf.wr_run [OF assms(1) t(2)]) blast
  have "extends is_access (\<lambda>k. k = ''error'') t v" using writeReg_frame v(1) by (rule preservesD)
  then have "take (length (hist t)) (hist v) = hist t" by (auto simp: extends_def)
  moreover have "scaModuleResetLocal la ohMask s = Some (Val (), v)"
    using a(1) u(1) t(1) v(1) by (simp add: scaModuleResetLocal_def bindM_Val thenM_Val ret_def)
  moreover have "reg_val nd v0 q v = (if q = sca_module_reset then reg_fits nd q 1 else reg_val nd v0 q s)" if "q \<in> R" for q
  proof (cases "q = sca_reset_mask")
    case True
    then show ?thesis using v(3) rf.fits_val [OF assms(1)] by simp
  next
    case False
    then show ?thesis using that v(4) t(4,5) u(5) a(4) by auto
  qed
  ultimately show ?thesis using u(4) t(1,3) v(2) u(3) a(3) by auto
qed

theorem scaModuleResetLocal_restores_witness:
  "\<exists>v. scaModuleResetLocal (flat_env sca_demo_regs) 3 start_mach = Some (Val (), v)
     \<and> reg_val (flat_node sca_demo_regs) (\<lambda>a. 0) sca_reset_mask v = 0"
  using scaModuleResetLocal_restores [OF sca_demo_sub(4,5) sca_demo_ok [of start_mach], of 3] sca_demo_sub(4)
  by (auto simp: flat_val)

section \<open>Responses\<close>

lemma keep_sendSCACommand [keeps]:
  "(\<And>a n x. P (MemRead a n x)) \<Longrightarrow> (\<And>a ws x. P (MemWrite a ws x)) \<Longrightarrow> K ''error'' \<Longrightarrow>
     preserves (extends P K) (sendSCACommand la ch cmd len data ohMask)"
  unfolding sendSCACommand_def by (auto intro!: keeps)

lemma keep_sendSCACommandWithReply [keeps]:
  "(\<And>a n x. P (MemRead a n x)) \<Longrightarrow> (\<And>a ws x. P (MemWrite a ws x)) \<Longrightarrow> K ''error'' \<Longrightarrow>
     preserves (extends P K) (sendSCACommandWithReply la ch cmd len data ohMask)"
  unfolding sendSCACommandWithReply_def by (auto intro!: keeps)

lemma keep_ctrl_switch [keeps]:
  assumes "\<And>a n x. P (MemRead a n x)" "\<And>a ws x. P (MemWrite a ws x)" "K ''error''"
  shows "preserves (extends P K) (ctrl_switch la cmd ohMask len data)"
proof -
  have step: "preserves (extends P K) (step r)" if "(c, step) \<in> set (ctrl_cases la cmd ohMask len data)" for c step r
    using that assms by (auto simp: ctrl_cases_def intro!: keeps)
  show ?thesis
    unfolding ctrl_switch_def
    by (rule ext.keep_bind, rule ext.keep_fold)
      (use assms step in \<open>auto dest: set_dropWhileD intro!: keep_sendSCACommandWithReply\<close>)
qed

lemma keep_scaCTRLCommand [keeps]:
  "(\<And>a n x. P (MemRead a n x)) \<Longrightarrow> (\<And>a ws x. P (MemWrite a ws x)) \<Longrightarrow> K ''error'' \<Longrightarrow>
     preserves (extends P K) (scaCTRLCommand la cmd ohMask len data)"
  unfolding scaCTRLCommand_def by (intro keeps) auto

text \<open>
  SCA results are lost: the RPC methods that read the chip identifiers and the SEU counters touch no
  key of the response except \<^verbatim>\<open>error\<close>; what they read never reaches the client.
\<close>

theorem sca_results_dropped:
  "preserves (extends (\<lambda>e. True) (\<lambda>k. k = ''error'')) (readSCAChipID la request)
    \<and> preserves (extends (\<lambda>e. True) (\<lambda>k. k = ''error'')) (readSCASEUCounter la request)"
  unfolding readSCAChipID_def readSCASEUCounter_def readSCAChipIDLocal_def readSCASEUCounterLocal_def
    resetSCASEUCounterLocal_def
  by (intro conjI keeps) auto

end
