(* ===== verification/Daq.thy ===== *)
theory Daq
  imports TtcPhaseShift Sca
begin

text \<open>
  The DAQ link of the AMC: \<^verbatim>\<open>src/amc/daq.cpp\<close>. The methods marked as not implemented in the source
  return 0 or do nothing here as there. \<^verbatim>\<open>configureDAQModule\<close> and \<^verbatim>\<open>enableDAQModule\<close> compose methods of
  this file with those of the TTC and the SCA.
\<close>

section \<open>Local methods\<close>

definition enableDAQLinkLocal :: "localArgs \<Rightarrow> u32 \<Rightarrow> unit prog" where
  "enableDAQLinkLocal la enableMask = writeReg la ''GEM_AMC.DAQ.CONTROL.DAQ_ENABLE'' 0x1"

definition disableDAQLinkLocal :: "localArgs \<Rightarrow> unit prog" where
  "disableDAQLinkLocal la = seqM
     [writeReg la ''GEM_AMC.DAQ.CONTROL.INPUT_ENABLE_MASK'' 0x0,
      writeReg la ''GEM_AMC.DAQ.CONTROL.DAQ_ENABLE'' 0x0]"

definition setZSLocal :: "localArgs \<Rightarrow> bool \<Rightarrow> unit prog" where
  "setZSLocal la en = writeReg la ''GEM_AMC.DAQ.CONTROL.ZERO_SUPPRESSION_EN'' (bool_word en)"

definition disableZSLocal :: "localArgs \<Rightarrow> unit prog" where
  "disableZSLocal la = writeReg la ''GEM_AMC.DAQ.CONTROL.ZERO_SUPPRESSION_EN'' 0x0"

definition setDAQLinkInputTimeoutLocal :: "localArgs \<Rightarrow> u32 \<Rightarrow> unit prog" where
  "setDAQLinkInputTimeoutLocal la inputTO = ret ()"

definition resetDAQLinkLocal :: "localArgs \<Rightarrow> u32 \<Rightarrow> u32 \<Rightarrow> unit prog" where
  "resetDAQLinkLocal la davTO ttsOverride = seqM
     [writeReg la ''GEM_AMC.DAQ.CONTROL.RESET'' 0x1,
      writeReg la ''GEM_AMC.DAQ.CONTROL.RESET'' 0x0,
      disableDAQLinkLocal la,
      writeReg la ''GEM_AMC.DAQ.CONTROL.DAV_TIMEOUT'' davTO,
      setDAQLinkInputTimeoutLocal la 0x100]"

definition getDAQLinkControlLocal :: "localArgs \<Rightarrow> u32 prog" where
  "getDAQLinkControlLocal la = ret 0x0"

definition getDAQLinkStatusLocal :: "localArgs \<Rightarrow> u32 prog" where
  "getDAQLinkStatusLocal la = ret 0x0"

definition getDAQLinkL1ARateLocal :: "localArgs \<Rightarrow> u32 prog" where
  "getDAQLinkL1ARateLocal la = ret 0x0"

definition daqLinkReadyLocal :: "localArgs \<Rightarrow> bool prog" where
  "daqLinkReadyLocal la = bindM (readReg la ''GEM_AMC.DAQ.STATUS.DAQ_LINK_RDY'') (\<lambda>v. ret (v \<noteq> 0))"

definition daqClockLockedLocal :: "localArgs \<Rightarrow> bool prog" where
  "daqClockLockedLocal la = bindM (readReg la ''GEM_AMC.DAQ.STATUS.DAQ_CLK_LOCKED'') (\<lambda>v. ret (v \<noteq> 0))"

definition daqTTCReadyLocal :: "localArgs \<Rightarrow> bool prog" where
  "daqTTCReadyLocal la = bindM (readReg la ''GEM_AMC.DAQ.STATUS.TTC_RDY'') (\<lambda>v. ret (v \<noteq> 0))"

definition daqAlmostFullLocal :: "localArgs \<Rightarrow> bool prog" where
  "daqAlmostFullLocal la = bindM (readReg la ''GEM_AMC.DAQ.STATUS.DAQ_AFULL'') (\<lambda>v. ret (v \<noteq> 0))"

definition l1aFIFOIsEmptyLocal :: "localArgs \<Rightarrow> bool prog" where
  "l1aFIFOIsEmptyLocal la = bindM (readReg la ''GEM_AMC.DAQ.STATUS.L1A_FIFO_IS_EMPTY'') (\<lambda>v. ret (v \<noteq> 0))"

definition l1aFIFOIsAlmostFullLocal :: "localArgs \<Rightarrow> bool prog" where
  "l1aFIFOIsAlmostFullLocal la = bindM (readReg la ''GEM_AMC.DAQ.STATUS.L1A_FIFO_IS_NEAR_FULL'') (\<lambda>v. ret (v \<noteq> 0))"

definition l1aFIFOIsFullLocal :: "localArgs \<Rightarrow> bool prog" where
  "l1aFIFOIsFullLocal la = bindM (readReg la ''GEM_AMC.DAQ.STATUS.L1A_FIFO_IS_FULL'') (\<lambda>v. ret (v \<noteq> 0))"

definition l1aFIFOIsUnderflowLocal :: "localArgs \<Rightarrow> bool prog" where
  "l1aFIFOIsUnderflowLocal la = bindM (readReg la ''GEM_AMC.DAQ.STATUS.L1A_FIFO_IS_UNDERFLOW'') (\<lambda>v. ret (v \<noteq> 0))"

definition daqTTSStateLocal :: "localArgs \<Rightarrow> u8 prog" where
  "daqTTSStateLocal la = bindM (readReg la ''GEM_AMC.DAQ.STATUS.TTS_STATE'') (\<lambda>v. ret (ucast v))"

definition getDAQLinkEventsSentLocal :: "localArgs \<Rightarrow> u32 prog" where
  "getDAQLinkEventsSentLocal la = readReg la ''GEM_AMC.DAQ.EXT_STATUS.EVT_SENT''"

definition getDAQLinkL1AIDLocal :: "localArgs \<Rightarrow> u32 prog" where
  "getDAQLinkL1AIDLocal la = readReg la ''GEM_AMC.DAQ.EXT_STATUS.L1AID''"

definition getDAQLinkDisperErrorsLocal :: "localArgs \<Rightarrow> u32 prog" where
  "getDAQLinkDisperErrorsLocal la = readReg la ''GEM_AMC.DAQ.EXT_STATUS.DISPER_ERR''"

definition getDAQLinkNonidentifiableErrorsLocal :: "localArgs \<Rightarrow> u32 prog" where
  "getDAQLinkNonidentifiableErrorsLocal la = readReg la ''GEM_AMC.DAQ.EXT_STATUS.NOTINTABLE_ERR''"

definition getDAQLinkInputMaskLocal :: "localArgs \<Rightarrow> u32 prog" where
  "getDAQLinkInputMaskLocal la = readReg la ''GEM_AMC.DAQ.CONTROL.INPUT_ENABLE_MASK''"

definition getDAQLinkDAVTimeoutLocal :: "localArgs \<Rightarrow> u32 prog" where
  "getDAQLinkDAVTimeoutLocal la = readReg la ''GEM_AMC.DAQ.CONTROL.DAV_TIMEOUT''"

definition getDAQLinkInputTimeoutLocal :: "localArgs \<Rightarrow> u32 prog" where
  "getDAQLinkInputTimeoutLocal la = readReg la ''GEM_AMC.DAQ.EXT_CONTROL.INPUT_TIMEOUT''"

definition getDAQLinkRunTypeLocal :: "localArgs \<Rightarrow> u32 prog" where
  "getDAQLinkRunTypeLocal la = readReg la ''GEM_AMC.DAQ.EXT_CONTROL.RUN_TYPE''"

definition getDAQLinkRunParametersLocal :: "localArgs \<Rightarrow> u32 prog" where
  "getDAQLinkRunParametersLocal la = readReg la ''GEM_AMC.DAQ.EXT_CONTROL.RUN_PARAMS''"

definition getDAQLinkDAVTimerLocal :: "localArgs \<Rightarrow> bool \<Rightarrow> u32 prog" where
  "getDAQLinkDAVTimerLocal la want_max = 
     bindM (readReg la ''GEM_AMC.DAQ.EXT_STATUS.MAX_DAV_TIMER'') (\<lambda>maxtimer.
     bindM (readReg la ''GEM_AMC.DAQ.EXT_STATUS.LAST_DAV_TIMER'') (\<lambda>lasttimer.
     thenM (set_word ''max'' maxtimer) (
     thenM (set_word ''last'' lasttimer) (
       ret (if want_max then maxtimer else lasttimer)))))"

definition getLinkDAQStatusLocal :: "localArgs \<Rightarrow> u8 \<Rightarrow> u32 prog" where
  "getLinkDAQStatusLocal la gtx = ret 0x0"

definition getLinkDAQCountersLocal :: "localArgs \<Rightarrow> u8 \<Rightarrow> u8 \<Rightarrow> u32 prog" where
  "getLinkDAQCountersLocal la gtx md = ret 0x0"

definition getLinkLastDAQBlockLocal :: "localArgs \<Rightarrow> u8 \<Rightarrow> u32 prog" where
  "getLinkLastDAQBlockLocal la gtx = ret 0x0"

definition getDAQLinkRunParameterLocal :: "localArgs \<Rightarrow> u8 \<Rightarrow> u32 prog" where
  "getDAQLinkRunParameterLocal la parameter = readReg la (''GEM_AMC.DAQ.EXT_CONTROL.RUN_PARAM'' @ fmt_hhu parameter)"

definition setDAQLinkRunTypeLocal :: "localArgs \<Rightarrow> u32 \<Rightarrow> unit prog" where
  "setDAQLinkRunTypeLocal la rtype = writeReg la ''GEM_AMC.DAQ.EXT_CONTROL.RUN_TYPE'' rtype"

text \<open>The message streams \<^verbatim>\<open>parN\<close>, a \<^verbatim>\<open>uint8_t\<close>, as the character with that code.\<close>

definition setDAQLinkRunParameterLocal :: "localArgs \<Rightarrow> u8 \<Rightarrow> u8 \<Rightarrow> unit prog" where
  "setDAQLinkRunParameterLocal la parN rparam = 
     (if parN < 1 \<or> parN > 3
      then set_error (''Attempting to set DAQ link run parameter '' @ [char_of (unat parN)] @ '': outside expectation (1-3)'')
      else writeReg la (''GEM_AMC.DAQ.EXT_CONTROL.RUN_PARAM'' @ fmt_hhu parN) (ucast rparam))"

definition setDAQLinkRunParametersLocal :: "localArgs \<Rightarrow> u32 \<Rightarrow> unit prog" where
  "setDAQLinkRunParametersLocal la rparams = writeReg la ''GEM_AMC.DAQ.EXT_CONTROL.RUN_PARAMS'' rparams"

section \<open>RPC callbacks\<close>

definition enableDAQLink :: "localArgs \<Rightarrow> rpc_request \<Rightarrow> unit prog" where
  "enableDAQLink la request = 
     bindM (get_word request ''enableMask'') (\<lambda>enableMask.
       enableDAQLinkLocal la enableMask)"

definition disableDAQLink :: "localArgs \<Rightarrow> rpc_request \<Rightarrow> unit prog" where
  "disableDAQLink la request = disableDAQLinkLocal la"

definition setZS :: "localArgs \<Rightarrow> rpc_request \<Rightarrow> unit prog" where
  "setZS la request = 
     bindM (get_word request ''enable'') (\<lambda>enable.
       setZSLocal la (enable \<noteq> 0))"

definition disableZS :: "localArgs \<Rightarrow> rpc_request \<Rightarrow> unit prog" where
  "disableZS la request = disableZSLocal la"

definition resetDAQLink :: "localArgs \<Rightarrow> rpc_request \<Rightarrow> unit prog" where
  "resetDAQLink la request = 
     bindM (get_word request ''davTO'') (\<lambda>davTO.
     bindM (get_word request ''ttsOverride'') (\<lambda>ttsOverride.
       resetDAQLinkLocal la davTO ttsOverride))"

definition getDAQLinkControl :: "localArgs \<Rightarrow> rpc_request \<Rightarrow> unit prog" where
  "getDAQLinkControl la request = answer (getDAQLinkControlLocal la)"

definition getDAQLinkStatus :: "localArgs \<Rightarrow> rpc_request \<Rightarrow> unit prog" where
  "getDAQLinkStatus la request = answer (getDAQLinkStatusLocal la)"

definition daqLinkReady :: "localArgs \<Rightarrow> rpc_request \<Rightarrow> unit prog" where
  "daqLinkReady la request = answer_bool (daqLinkReadyLocal la)"

definition daqClockLocked :: "localArgs \<Rightarrow> rpc_request \<Rightarrow> unit prog" where
  "daqClockLocked la request = answer_bool (daqClockLockedLocal la)"

definition daqTTCReady :: "localArgs \<Rightarrow> rpc_request \<Rightarrow> unit prog" where
  "daqTTCReady la request = answer_bool (daqTTCReadyLocal la)"

definition daqTTSState :: "localArgs \<Rightarrow> rpc_request \<Rightarrow> unit prog" where
  "daqTTSState la request = bindM (daqTTSStateLocal la) (\<lambda>res. set_word ''result'' (ucast res))"

definition daqAlmostFull :: "localArgs \<Rightarrow> rpc_request \<Rightarrow> unit prog" where
  "daqAlmostFull la request = answer_bool (daqAlmostFullLocal la)"

definition l1aFIFOIsEmpty :: "localArgs \<Rightarrow> rpc_request \<Rightarrow> unit prog" where
  "l1aFIFOIsEmpty la request = answer_bool (l1aFIFOIsEmptyLocal la)"

definition l1aFIFOIsAlmostFull :: "localArgs \<Rightarrow> rpc_request \<Rightarrow> unit prog" where
  "l1aFIFOIsAlmostFull la request = answer_bool (l1aFIFOIsAlmostFullLocal la)"

definition l1aFIFOIsFull :: "localArgs \<Rightarrow> rpc_request \<Rightarrow> unit prog" where
  "l1aFIFOIsFull la request = answer_bool (l1aFIFOIsFullLocal la)"

definition l1aFIFOIsUnderflow :: "localArgs \<Rightarrow> rpc_request \<Rightarrow> unit prog" where
  "l1aFIFOIsUnderflow la request = answer_bool (l1aFIFOIsUnderflowLocal la)"

definition getDAQLinkEventsSent :: "localArgs \<Rightarrow> rpc_request \<Rightarrow> unit prog" where
  "getDAQLinkEventsSent la request = answer (getDAQLinkEventsSentLocal la)"

definition getDAQLinkL1AID :: "localArgs \<Rightarrow> rpc_request \<Rightarrow> unit prog" where
  "getDAQLinkL1AID la request = answer (getDAQLinkL1AIDLocal la)"

definition getDAQLinkL1ARate :: "localArgs \<Rightarrow> rpc_request \<Rightarrow> unit prog" where
  "getDAQLinkL1ARate la request = answer (getDAQLinkL1ARateLocal la)"

definition getDAQLinkDisperErrors :: "localArgs \<Rightarrow> rpc_request \<Rightarrow> unit prog" where
  "getDAQLinkDisperErrors la request = answer (getDAQLinkDisperErrorsLocal la)"

definition getDAQLinkNonidentifiableErrors :: "localArgs \<Rightarrow> rpc_request \<Rightarrow> unit prog" where
  "getDAQLinkNonidentifiableErrors la request = answer (getDAQLinkNonidentifiableErrorsLocal la)"

definition getDAQLinkInputMask :: "localArgs \<Rightarrow> rpc_request \<Rightarrow> unit prog" where
  "getDAQLinkInputMask la request = answer (getDAQLinkInputMaskLocal la)"

definition getDAQLinkDAVTimeout :: "localArgs \<Rightarrow> rpc_request \<Rightarrow> unit prog" where
  "getDAQLinkDAVTimeout la request = answer (getDAQLinkDAVTimeoutLocal la)"

definition getDAQLinkDAVTimer :: "localArgs \<Rightarrow> rpc_request \<Rightarrow> unit prog" where
  "getDAQLinkDAVTimer la request = 
     bindM (get_word request ''max'') (\<lambda>want_max.
       answer (getDAQLinkDAVTimerLocal la (want_max \<noteq> 0)))"

definition getLinkDAQStatus :: "localArgs \<Rightarrow> rpc_request \<Rightarrow> unit prog" where
  "getLinkDAQStatus la request = 
     bindM (get_word request ''gtx'') (\<lambda>gtx.
       answer (getLinkDAQStatusLocal la (ucast gtx)))"

definition getLinkDAQCounters :: "localArgs \<Rightarrow> rpc_request \<Rightarrow> unit prog" where
  "getLinkDAQCounters la request = 
     bindM (get_word request ''gtx'') (\<lambda>gtx.
     bindM (get_word request ''mode'') (\<lambda>md.
       answer (getLinkDAQCountersLocal la (ucast gtx) (ucast md))))"

definition getLinkLastDAQBlock :: "localArgs \<Rightarrow> rpc_request \<Rightarrow> unit prog" where
  "getLinkLastDAQBlock la request = 
     bindM (get_word request ''gtx'') (\<lambda>gtx.
       answer (getLinkLastDAQBlockLocal la (ucast gtx)))"

definition getDAQLinkInputTimeout :: "localArgs \<Rightarrow> rpc_request \<Rightarrow> unit prog" where
  "getDAQLinkInputTimeout la request = answer (getDAQLinkInputTimeoutLocal la)"

definition getDAQLinkRunType :: "localArgs \<Rightarrow> rpc_request \<Rightarrow> unit prog" where
  "getDAQLinkRunType la request = answer (getDAQLinkRunTypeLocal la)"

definition getDAQLinkRunParameters :: "localArgs \<Rightarrow> rpc_request \<Rightarrow> unit prog" where
  "getDAQLinkRunParameters la request = answer (getDAQLinkRunParametersLocal la)"

definition getDAQLinkRunParameter :: "localArgs \<Rightarrow> rpc_request \<Rightarrow> unit prog" where
  "getDAQLinkRunParameter la request = 
     bindM (get_word request ''parameter'') (\<lambda>parameter.
       answer (getDAQLinkRunParameterLocal la (ucast parameter)))"

definition setDAQLinkInputTimeout :: "localArgs \<Rightarrow> rpc_request \<Rightarrow> unit prog" where
  "setDAQLinkInputTimeout la request = 
     bindM (get_word request ''inputTO'') (\<lambda>inputTO.
       setDAQLinkInputTimeoutLocal la inputTO)"

definition setDAQLinkRunType :: "localArgs \<Rightarrow> rpc_request \<Rightarrow> unit prog" where
  "setDAQLinkRunType la request = 
     bindM (get_word request ''runType'') (\<lambda>runType.
       setDAQLinkRunTypeLocal la runType)"

definition setDAQLinkRunParameter :: "localArgs \<Rightarrow> rpc_request \<Rightarrow> unit prog" where
  "setDAQLinkRunParameter la request = 
     bindM (get_word request ''parameterN'') (\<lambda>parN.
     bindM (get_word request ''runParameter'') (\<lambda>runPar.
       setDAQLinkRunParameterLocal la (ucast parN) (ucast runPar)))"

definition setDAQLinkRunParameters :: "localArgs \<Rightarrow> rpc_request \<Rightarrow> unit prog" where
  "setDAQLinkRunParameters la request = 
     bindM (get_word request ''runParameters'') (\<lambda>runPars.
       setDAQLinkRunParametersLocal la runPars)"

section \<open>Composite RPC methods\<close>

definition configureDAQModule :: "localArgs \<Rightarrow> rpc_request \<Rightarrow> unit prog" where
  "configureDAQModule la request = 
     bindM (get_word request ''enableZS'') (\<lambda>enableZS.
     bindM (get_word request ''doPhaseShift'') (\<lambda>doPhaseShift.
     bindM (get_word request ''runType'') (\<lambda>runType.
       thenM (scaHardResetEnableLocal la False) (
       thenM (ttcCounterResetLocal la) (
       thenM (whenM (doPhaseShift \<noteq> 0)
         (bindM (get_word request ''relock'') (\<lambda>relock.
          bindM (get_word request ''bc0LockPSMode'') (\<lambda>bc0LockPSMode.
            ttcMMCMPhaseShiftLocal la (relock \<noteq> 0) (bc0LockPSMode \<noteq> 0) False)))) (
       seqM
         [setL1AEnableLocal la False,
          disableDAQLinkLocal la,
          resetDAQLinkLocal la 0x500 0x0,
          enableDAQLinkLocal la 0x4,
          setZSLocal la (enableZS \<noteq> 0),
          setDAQLinkRunTypeLocal la 0x0,
          setDAQLinkRunParametersLocal la 0xfaac]))))))"

definition enableDAQModule :: "localArgs \<Rightarrow> rpc_request \<Rightarrow> unit prog" where
  "enableDAQModule la request = 
     bindM (get_word request ''enableZS'') (\<lambda>enableZS.
       seqM
         [ttcModuleResetLocal la,
          enableDAQLinkLocal la 0x4,
          resetDAQLinkLocal la 0x500 0x0,
          setZSLocal la (enableZS \<noteq> 0),
          setL1AEnableLocal la True])"

section \<open>What the composite methods leave behind\<close>

definition daq_regs :: "string list" where
  "daq_regs = [''GEM_AMC.DAQ.CONTROL.INPUT_ENABLE_MASK'', ''GEM_AMC.DAQ.CONTROL.DAQ_ENABLE'',
     ''GEM_AMC.DAQ.CONTROL.ZERO_SUPPRESSION_EN'', ''GEM_AMC.DAQ.CONTROL.RESET'',
     ''GEM_AMC.DAQ.CONTROL.DAV_TIMEOUT'', ''GEM_AMC.TTC.CTRL.L1A_ENABLE'', ''GEM_AMC.TTC.CTRL.CNT_RESET'',
     ''GEM_AMC.SLOW_CONTROL.SCA.CTRL.TTC_HARD_RESET_EN'',
     ''GEM_AMC.DAQ.EXT_CONTROL.RUN_TYPE'', ''GEM_AMC.DAQ.EXT_CONTROL.RUN_PARAMS'']"

text \<open>The writes of the two methods, in order.\<close>

definition reset_writes :: "(string \<times> u32) list" where
  "reset_writes = [(''GEM_AMC.DAQ.CONTROL.RESET'', 1), (''GEM_AMC.DAQ.CONTROL.RESET'', 0),
     (''GEM_AMC.DAQ.CONTROL.INPUT_ENABLE_MASK'', 0), (''GEM_AMC.DAQ.CONTROL.DAQ_ENABLE'', 0),
     (''GEM_AMC.DAQ.CONTROL.DAV_TIMEOUT'', 0x500)]"

definition configure_writes :: "bool \<Rightarrow> (string \<times> u32) list" where
  "configure_writes zs =
     [(''GEM_AMC.SLOW_CONTROL.SCA.CTRL.TTC_HARD_RESET_EN'', 0), (''GEM_AMC.TTC.CTRL.CNT_RESET'', 1),
      (''GEM_AMC.TTC.CTRL.L1A_ENABLE'', 0), (''GEM_AMC.DAQ.CONTROL.INPUT_ENABLE_MASK'', 0),
      (''GEM_AMC.DAQ.CONTROL.DAQ_ENABLE'', 0)] @ reset_writes @
     [(''GEM_AMC.DAQ.CONTROL.DAQ_ENABLE'', 1), (''GEM_AMC.DAQ.CONTROL.ZERO_SUPPRESSION_EN'', bool_word zs),
      (''GEM_AMC.DAQ.EXT_CONTROL.RUN_TYPE'', 0), (''GEM_AMC.DAQ.EXT_CONTROL.RUN_PARAMS'', 0xfaac)]"

definition enable_writes :: "bool \<Rightarrow> (string \<times> u32) list" where
  "enable_writes zs = [(''GEM_AMC.DAQ.CONTROL.DAQ_ENABLE'', 1)] @ reset_writes @
     [(''GEM_AMC.DAQ.CONTROL.ZERO_SUPPRESSION_EN'', bool_word zs), (''GEM_AMC.TTC.CTRL.L1A_ENABLE'', 1)]"

lemma daq_writes_in:
  "fst ` set (configure_writes zs) \<subseteq> set daq_regs" "fst ` set (enable_writes zs) \<subseteq> set daq_regs"
  by (simp_all add: configure_writes_def enable_writes_def reset_writes_def daq_regs_def)

lemma configureDAQModule_writes:
  assumes "rq_word rq ''enableZS'' = Inr zs" "rq_word rq ''doPhaseShift'' = Inr 0" "rq_word rq ''runType'' = Inr rt"
  shows "configureDAQModule la rq = forM (configure_writes (zs \<noteq> 0)) (\<lambda>(r, v). writeReg la r v)"
  using assms
  by (simp add: configureDAQModule_def get_word_def liftE_def whenM_def scaHardResetEnableLocal_def ttcCounterResetLocal_def
      setL1AEnableLocal_def disableDAQLinkLocal_def resetDAQLinkLocal_def setDAQLinkInputTimeoutLocal_def enableDAQLinkLocal_def
      setZSLocal_def setDAQLinkRunTypeLocal_def setDAQLinkRunParametersLocal_def configure_writes_def reset_writes_def
      bool_word_def [of False])

lemma enableDAQModule_writes:
  assumes "rq_word rq ''enableZS'' = Inr zs"
  shows "enableDAQModule la rq = forM (enable_writes (zs \<noteq> 0)) (\<lambda>(r, v). writeReg la r v)"
  using assms
  by (simp add: enableDAQModule_def get_word_def liftE_def ttcModuleResetLocal_def setL1AEnableLocal_def
      disableDAQLinkLocal_def resetDAQLinkLocal_def setDAQLinkInputTimeoutLocal_def enableDAQLinkLocal_def
      setZSLocal_def enable_writes_def reset_writes_def bool_word_def [of True])

lemma reg_fits_zero [simp]: "reg_fits nd r 0 = 0"
  by (simp add: reg_fits_def field_part_def)

text \<open>
  Configuring the DAQ: without a phase shift, \<^verbatim>\<open>configureDAQModule\<close> ends with the DAQ enabled and all
  inputs masked off, the reset released, the L1As and the TTC hard reset disabled, the timeout at its
  default and the run parameters at \<^verbatim>\<open>0xfaac\<close>; the run type is 0 whatever \<^verbatim>\<open>runType\<close> the request gives.
\<close>

theorem configureDAQModule_state:
  assumes "set daq_regs \<subseteq> R" and "reg_ok la nd R v0 s"
    and "rq_word rq ''enableZS'' = Inr zs" "rq_word rq ''doPhaseShift'' = Inr 0" "rq_word rq ''runType'' = Inr rt"
  shows "\<exists>t. configureDAQModule la rq s = Some (Val (), t) \<and> resp t = resp s
    \<and> (let now = (\<lambda>r. reg_val nd v0 r t)
       in now ''GEM_AMC.DAQ.CONTROL.DAQ_ENABLE'' = reg_fits nd ''GEM_AMC.DAQ.CONTROL.DAQ_ENABLE'' 1
        \<and> now ''GEM_AMC.DAQ.CONTROL.INPUT_ENABLE_MASK'' = 0
        \<and> now ''GEM_AMC.DAQ.CONTROL.RESET'' = 0
        \<and> now ''GEM_AMC.TTC.CTRL.L1A_ENABLE'' = 0
        \<and> now ''GEM_AMC.SLOW_CONTROL.SCA.CTRL.TTC_HARD_RESET_EN'' = 0
        \<and> now ''GEM_AMC.DAQ.CONTROL.DAV_TIMEOUT'' = reg_fits nd ''GEM_AMC.DAQ.CONTROL.DAV_TIMEOUT'' 0x500
        \<and> now ''GEM_AMC.DAQ.EXT_CONTROL.RUN_PARAMS'' = reg_fits nd ''GEM_AMC.DAQ.EXT_CONTROL.RUN_PARAMS'' 0xfaac
        \<and> now ''GEM_AMC.DAQ.EXT_CONTROL.RUN_TYPE'' = 0)"
proof -
  have "fst ` set (configure_writes (zs \<noteq> 0)) \<subseteq> R" using daq_writes_in(1) assms(1) by (rule order_trans)
  from rf.writes_run [OF this assms(2)]
  obtain t where t: "configureDAQModule la rq s = Some (Val (), t)" "resp t = resp s"
    "\<forall>q\<in>R. reg_val nd v0 q t = rf.last_write nd (configure_writes (zs \<noteq> 0)) q (reg_val nd v0 q s)"
    unfolding configureDAQModule_writes [OF assms(3-5)] by blast
  have "\<forall>q\<in>set daq_regs. reg_val nd v0 q t = rf.last_write nd (configure_writes (zs \<noteq> 0)) q (reg_val nd v0 q s)"
    using t(3) assms(1) by blast
  then show ?thesis
    using t(1,2) by (simp add: daq_regs_def configure_writes_def reset_writes_def Let_def)
qed

definition daq_request :: rpc_request where
  "daq_request = demo_request\<lparr>rq_word := (\<lambda>k. Inr (if k = ''doPhaseShift'' then 0 else 1))\<rparr>"

lemma daq_demo_ok: "reg_ok (flat_env daq_regs) (flat_node daq_regs) (set daq_regs) (\<lambda>a. 0) s"
  by (rule flat_ok) (auto simp: daq_regs_def)

theorem configureDAQModule_state_witness:
  "\<exists>t. configureDAQModule (flat_env daq_regs) daq_request start_mach = Some (Val (), t)
     \<and> reg_val (flat_node daq_regs) (\<lambda>a. 0) ''GEM_AMC.DAQ.EXT_CONTROL.RUN_TYPE'' t = 0"
  using configureDAQModule_state [OF subset_refl daq_demo_ok [of start_mach], of daq_request 1 1]
  by (auto simp: daq_request_def Let_def)

text \<open>
  C24 (enabling the DAQ disables it): \<^verbatim>\<open>enableDAQModule\<close> enables the DAQ link and then resets it, which disables
  it again: the method ends with \<^verbatim>\<open>DAQ_ENABLE\<close> 0 and all inputs masked off, while the L1As are enabled.
\<close>

theorem enableDAQModule_disables:
  assumes "set daq_regs \<subseteq> R" and "reg_ok la nd R v0 s" and "rq_word rq ''enableZS'' = Inr zs"
  shows "\<exists>t. enableDAQModule la rq s = Some (Val (), t) \<and> resp t = resp s
    \<and> reg_val nd v0 ''GEM_AMC.DAQ.CONTROL.DAQ_ENABLE'' t = 0
    \<and> reg_val nd v0 ''GEM_AMC.DAQ.CONTROL.INPUT_ENABLE_MASK'' t = 0
    \<and> reg_val nd v0 ''GEM_AMC.TTC.CTRL.L1A_ENABLE'' t = reg_fits nd ''GEM_AMC.TTC.CTRL.L1A_ENABLE'' 1"
proof -
  have "fst ` set (enable_writes (zs \<noteq> 0)) \<subseteq> R" using daq_writes_in(2) assms(1) by (rule order_trans)
  from rf.writes_run [OF this assms(2)]
  obtain t where t: "enableDAQModule la rq s = Some (Val (), t)" "resp t = resp s"
    "\<forall>q\<in>R. reg_val nd v0 q t = rf.last_write nd (enable_writes (zs \<noteq> 0)) q (reg_val nd v0 q s)"
    unfolding enableDAQModule_writes [OF assms(3)] by blast
  have "\<forall>q\<in>set daq_regs. reg_val nd v0 q t = rf.last_write nd (enable_writes (zs \<noteq> 0)) q (reg_val nd v0 q s)"
    using t(3) assms(1) by blast
  then show ?thesis
    using t(1,2) by (simp add: daq_regs_def enable_writes_def reset_writes_def)
qed

theorem enableDAQModule_disables_witness:
  "\<exists>t. enableDAQModule (flat_env daq_regs) daq_request start_mach = Some (Val (), t)
     \<and> reg_val (flat_node daq_regs) (\<lambda>a. 0) ''GEM_AMC.DAQ.CONTROL.DAQ_ENABLE'' t = 0"
  using enableDAQModule_disables [OF subset_refl daq_demo_ok [of start_mach], of daq_request 1]
  by (auto simp: daq_request_def)

end
