(* ===== verification/DaqMonitor.thy ===== *)
theory DaqMonitor
  imports Vfat3 Sca RegisterSpec
begin

text \<open>
  Hardware monitoring, \<^verbatim>\<open>src/daq_monitor.cpp\<close>: every method copies registers into the response, one key
  for each; the keys of a masked OptoHybrid get \<^verbatim>\<open>0xdeaddead\<close> instead. The tables below give, for a
  component, the keys with their registers in the order of the code. The number of OptoHybrids is
  an \<^verbatim>\<open>int\<close> in the local methods.
\<close>

section \<open>Reports\<close>

definition report :: "localArgs \<Rightarrow> string \<times> string \<Rightarrow> unit prog" where
  "report la kr = bindM (readReg la (snd kr)) (\<lambda>w. set_word (fst kr) w)"

text \<open>The entries of one OptoHybrid, or the value that stands for a masked one.\<close>

definition report_oh :: "localArgs \<Rightarrow> u32 \<Rightarrow> nat \<Rightarrow> (string \<times> string) list \<Rightarrow> unit prog" where
  "report_oh la ohMask ohN entries =
     bindM (oh_enabled ohMask ohN) (\<lambda>enabled.
       if enabled then forM entries (report la) else forM entries (\<lambda>kr. set_word (fst kr) 0xdeaddead))"

text \<open>\<^verbatim>\<open>if (NOH_local < NOH) NOH = NOH_local\<close>.\<close>

definition local_NOH :: "localArgs \<Rightarrow> int \<Rightarrow> int prog" where
  "local_NOH la NOH = bindM (readReg la num_of_oh) (\<lambda>w.
     let NOH_local = sint w in ret (if NOH_local < NOH then NOH_local else NOH))"

definition oh_key :: "nat \<Rightarrow> string \<Rightarrow> string" where
  "oh_key ohN leaf = ''OH'' @ dec ohN @ ''.'' @ leaf"

text \<open>
  The optional keys of the callbacks: a request for more OptoHybrids than there are restricts the
  mask but is kept. \<^verbatim>\<open>0xfff >> (NOH_MAX-NOH)\<close> is undefined when the register exceeds \<^verbatim>\<open>NOH_MAX\<close>.
\<close>

definition NOH_MAX :: u32 where "NOH_MAX = 12"

definition monitored :: "localArgs \<Rightarrow> rpc_request \<Rightarrow> (int \<times> u32) prog" where
  "monitored la request =
     bindM (readReg la num_of_oh) (\<lambda>NOH.
     bindM (requested_ohMask request) (\<lambda>ohMask.
     if \<not> rq_exists request ''NOH'' then ret (sint NOH, ohMask)
     else
       bindM (get_word request ''NOH'') (\<lambda>NOH_requested.
       if NOH_requested > NOH
       then (if NOH > NOH_MAX then abortM Undefined
             else ret (sint NOH_requested, ohMask AND drop_bit (unat (NOH_MAX - NOH)) 0xfff))
       else ret (sint NOH_requested, ohMask))))"

definition monitored_links :: "localArgs \<Rightarrow> rpc_request \<Rightarrow> (int \<times> bool) prog" where
  "monitored_links la request =
     bindM (readReg la num_of_oh) (\<lambda>NOH.
     bindM (optional_word request ''NOH'' NOH) (\<lambda>NOH.
     bindM (optional_word request ''doReset'' 0) (\<lambda>doReset.
       ret (sint NOH, doReset \<noteq> 0))))"

section \<open>TTC\<close>

definition ttc_table :: "(string \<times> string) list" where
  "ttc_table =
    [(''MMCM_LOCKED'', ''GEM_AMC.TTC.STATUS.CLK.MMCM_LOCKED''),
     (''TTC_SINGLE_ERROR_CNT'', ''GEM_AMC.TTC.STATUS.TTC_SINGLE_ERROR_CNT''),
     (''BC0_LOCKED'', ''GEM_AMC.TTC.STATUS.BC0.LOCKED''),
     (''L1A_ID'', ''GEM_AMC.TTC.L1A_ID''),
     (''L1A_RATE'', ''GEM_AMC.TTC.L1A_RATE'')]"

definition getmonTTCmainLocal :: "localArgs \<Rightarrow> unit prog" where
  "getmonTTCmainLocal la = forM ttc_table (report la)"

definition getmonTTCmain :: "localArgs \<Rightarrow> rpc_request \<Rightarrow> unit prog" where
  "getmonTTCmain la request = getmonTTCmainLocal la"

section \<open>Trigger\<close>

definition getmonTRIGGERmainLocal :: "localArgs \<Rightarrow> int \<Rightarrow> u32 \<Rightarrow> unit prog" where
  "getmonTRIGGERmainLocal la NOH ohMask =
     thenM (report la (''OR_TRIGGER_RATE'', ''GEM_AMC.TRIGGER.STATUS.OR_TRIGGER_RATE'')) (
     bindM (local_NOH la NOH) (\<lambda>NOH.
       forM [0..<nat NOH] (\<lambda>ohN. bindM (oh_enabled ohMask ohN) (\<lambda>enabled. whenM enabled
         (report la (oh_key ohN ''TRIGGER_RATE'', ''GEM_AMC.TRIGGER.OH'' @ dec ohN @ ''.TRIGGER_RATE''))))))"

definition getmonTRIGGERmain :: "localArgs \<Rightarrow> rpc_request \<Rightarrow> unit prog" where
  "getmonTRIGGERmain la request = bindM (monitored la request) (\<lambda>(NOH, ohMask). getmonTRIGGERmainLocal la NOH ohMask)"

definition trigger_leaves :: "string list" where
  "trigger_leaves =
    [''LINK0_MISSED_COMMA_CNT'', ''LINK1_MISSED_COMMA_CNT'', ''LINK0_OVERFLOW_CNT'', ''LINK1_OVERFLOW_CNT'',
     ''LINK0_UNDERFLOW_CNT'', ''LINK1_UNDERFLOW_CNT'', ''LINK0_SBIT_OVERFLOW_CNT'', ''LINK1_SBIT_OVERFLOW_CNT'']"

definition trigger_table :: "nat \<Rightarrow> (string \<times> string) list" where
  "trigger_table ohN = map (\<lambda>leaf. (oh_key ohN leaf, ''GEM_AMC.TRIGGER.'' @ oh_key ohN leaf)) trigger_leaves"

definition getmonTRIGGEROHmainLocal :: "localArgs \<Rightarrow> int \<Rightarrow> u32 \<Rightarrow> unit prog" where
  "getmonTRIGGEROHmainLocal la NOH ohMask =
     bindM (local_NOH la NOH) (\<lambda>NOH. forM [0..<nat NOH] (\<lambda>ohN. report_oh la ohMask ohN (trigger_table ohN)))"

definition getmonTRIGGEROHmain :: "localArgs \<Rightarrow> rpc_request \<Rightarrow> unit prog" where
  "getmonTRIGGEROHmain la request = bindM (monitored la request) (\<lambda>(NOH, ohMask). getmonTRIGGEROHmainLocal la NOH ohMask)"

section \<open>DAQ\<close>

definition daq_table :: "(string \<times> string) list" where
  "daq_table =
    [(''DAQ_ENABLE'', ''GEM_AMC.DAQ.CONTROL.DAQ_ENABLE''),
     (''DAQ_LINK_READY'', ''GEM_AMC.DAQ.STATUS.DAQ_LINK_RDY''),
     (''DAQ_LINK_AFULL'', ''GEM_AMC.DAQ.STATUS.DAQ_LINK_AFULL''),
     (''DAQ_OFIFO_HAD_OFLOW'', ''GEM_AMC.DAQ.STATUS.DAQ_OUTPUT_FIFO_HAD_OVERFLOW''),
     (''L1A_FIFO_HAD_OFLOW'', ''GEM_AMC.DAQ.STATUS.L1A_FIFO_HAD_OVERFLOW''),
     (''L1A_FIFO_DATA_COUNT'', ''GEM_AMC.DAQ.EXT_STATUS.L1A_FIFO_DATA_CNT''),
     (''DAQ_FIFO_DATA_COUNT'', ''GEM_AMC.DAQ.EXT_STATUS.DAQ_FIFO_DATA_CNT''),
     (''EVENT_SENT'', ''GEM_AMC.DAQ.EXT_STATUS.EVT_SENT''),
     (''TTS_STATE'', ''GEM_AMC.DAQ.STATUS.TTS_STATE''),
     (''INPUT_ENABLE_MASK'', ''GEM_AMC.DAQ.CONTROL.INPUT_ENABLE_MASK''),
     (''INPUT_AUTOKILL_MASK'', ''GEM_AMC.DAQ.STATUS.INPUT_AUTOKILL_MASK'')]"

definition getmonDAQmainLocal :: "localArgs \<Rightarrow> unit prog" where
  "getmonDAQmainLocal la = forM daq_table (report la)"

definition getmonDAQmain :: "localArgs \<Rightarrow> rpc_request \<Rightarrow> unit prog" where
  "getmonDAQmain la request = getmonDAQmainLocal la"

definition daq_leaves :: "string list" where
  "daq_leaves =
    [''STATUS.EVT_SIZE_ERR'', ''STATUS.EVENT_FIFO_HAD_OFLOW'', ''STATUS.INPUT_FIFO_HAD_OFLOW'',
     ''STATUS.INPUT_FIFO_HAD_UFLOW'', ''STATUS.VFAT_TOO_MANY'', ''STATUS.VFAT_NO_MARKER'']"

definition daq_oh_table :: "nat \<Rightarrow> (string \<times> string) list" where
  "daq_oh_table ohN = map (\<lambda>leaf. (oh_key ohN leaf, ''GEM_AMC.DAQ.'' @ oh_key ohN leaf)) daq_leaves"

definition getmonDAQOHmainLocal :: "localArgs \<Rightarrow> int \<Rightarrow> u32 \<Rightarrow> unit prog" where
  "getmonDAQOHmainLocal la NOH ohMask =
     bindM (local_NOH la NOH) (\<lambda>NOH. forM [0..<nat NOH] (\<lambda>ohN. report_oh la ohMask ohN (daq_oh_table ohN)))"

definition getmonDAQOHmain :: "localArgs \<Rightarrow> rpc_request \<Rightarrow> unit prog" where
  "getmonDAQOHmain la request = bindM (monitored la request) (\<lambda>(NOH, ohMask). getmonDAQOHmainLocal la NOH ohMask)"

section \<open>Links\<close>

definition gbt_leaves :: "string list" where
  "gbt_leaves = [''READY'', ''WAS_NOT_READY'', ''RX_HAD_OVERFLOW'', ''RX_HAD_UNDERFLOW'']"

definition gbt_table :: "nat \<Rightarrow> nat \<Rightarrow> (string \<times> string) list" where
  "gbt_table ohN gbtN = map (\<lambda>leaf. (''OH'' @ dec ohN @ ''.GBT'' @ dec gbtN @ ''.'' @ leaf,
     ''GEM_AMC.OH_LINKS.OH'' @ dec ohN @ ''.GBT'' @ dec gbtN @ ''_'' @ leaf)) gbt_leaves"

definition getmonGBTLinkLocal :: "localArgs \<Rightarrow> int \<Rightarrow> bool \<Rightarrow> unit prog" where
  "getmonGBTLinkLocal la NOH doReset =
     thenM (whenM doReset (writeReg la ''GEM_AMC.GEM_SYSTEM.CTRL.LINK_RESET'' 0x1)) (
       forM [0..<nat NOH] (\<lambda>ohN. forM [0..<unat GBTS_PER_OH] (\<lambda>gbtN. forM (gbt_table ohN gbtN) (report la))))"

definition getmonGBTLink :: "localArgs \<Rightarrow> rpc_request \<Rightarrow> unit prog" where
  "getmonGBTLink la request = bindM (monitored_links la request) (\<lambda>(NOH, doReset). getmonGBTLinkLocal la NOH doReset)"

text \<open>The counter is an \<^verbatim>\<open>int\<close>: a value with the top bit set, \<^verbatim>\<open>0xdeaddead\<close> included, is not greater than 0.\<close>

definition vfat_link :: "localArgs \<Rightarrow> nat \<Rightarrow> nat \<Rightarrow> bool \<Rightarrow> bool prog" where
  "vfat_link la ohN vfatN vfatOutOfSync =
     (let key = (\<lambda>leaf. ''OH'' @ dec ohN @ ''.VFAT'' @ dec vfatN @ ''.'' @ leaf)
      in bindM (readReg la (''GEM_AMC.OH_LINKS.'' @ key ''SYNC_ERR_CNT'')) (\<lambda>nSyncErrs.
         thenM (set_word (key ''SYNC_ERR_CNT'') nSyncErrs) (
         thenM (report la (key ''DAQ_EVENT_CNT'', ''GEM_AMC.OH_LINKS.'' @ key ''DAQ_EVENT_CNT'')) (
         thenM (report la (key ''DAQ_CRC_ERROR_CNT'', ''GEM_AMC.OH_LINKS.'' @ key ''DAQ_CRC_ERROR_CNT'')) (
           ret (vfatOutOfSync \<or> sint nSyncErrs > 0))))))"

definition getmonVFATLinkLocal :: "localArgs \<Rightarrow> int \<Rightarrow> bool \<Rightarrow> unit prog" where
  "getmonVFATLinkLocal la NOH doReset =
     thenM (whenM doReset (thenM (writeReg la ''GEM_AMC.GEM_SYSTEM.CTRL.LINK_RESET'' 0x1) (sleep_us 92))) (
     bindM (foldM (\<lambda>ohN. foldM (vfat_link la ohN) [0..<unat VFATS_PER_OH]) [0..<nat NOH] False) (\<lambda>vfatOutOfSync.
       whenM vfatOutOfSync
         (set_string ''warning'' (''One or more VFATs found to be out of sync'' @ [CHR 0x0a]))))"

definition getmonVFATLink :: "localArgs \<Rightarrow> rpc_request \<Rightarrow> unit prog" where
  "getmonVFATLink la request = bindM (monitored_links la request) (\<lambda>(NOH, doReset). getmonVFATLinkLocal la NOH doReset)"

definition getmonOHLink :: "localArgs \<Rightarrow> rpc_request \<Rightarrow> unit prog" where
  "getmonOHLink la request = bindM (monitored_links la request) (\<lambda>(NOH, doReset).
     thenM (getmonGBTLinkLocal la NOH doReset) (getmonVFATLinkLocal la NOH doReset))"

section \<open>OptoHybrids\<close>

definition oh_table :: "nat \<Rightarrow> (string \<times> string) list" where
  "oh_table ohN = map (\<lambda>(leaf, base, reg). (oh_key ohN leaf, base @ dec ohN @ ''.'' @ reg))
    [(''EVENT_COUNTER'', ''GEM_AMC.DAQ.OH'', ''COUNTERS.EVN''),
     (''EVENT_RATE'', ''GEM_AMC.DAQ.OH'', ''COUNTERS.EVT_RATE''),
     (''GTX.TRK_ERR'', ''GEM_AMC.OH.OH'', ''COUNTERS.GTX_LINK.TRK_ERR''),
     (''GTX.TRG_ERR'', ''GEM_AMC.OH.OH'', ''COUNTERS.GTX_LINK.TRG_ERR''),
     (''GBT.TRK_ERR'', ''GEM_AMC.OH.OH'', ''COUNTERS.GBT_LINK.TRK_ERR''),
     (''CORR_VFAT_BLK_CNT'', ''GEM_AMC.DAQ.OH'', ''COUNTERS.CORRUPT_VFAT_BLK_CNT''),
     (''COUNTERS.SEU'', ''GEM_AMC.OH.OH'', ''COUNTERS.SEU''),
     (''STATUS.SEU'', ''GEM_AMC.OH.OH'', ''STATUS.SEU'')]"

text \<open>Each part of the version is read a second time for the log message.\<close>

definition read_version :: "localArgs \<Rightarrow> nat \<Rightarrow> string \<Rightarrow> u32 prog" where
  "read_version la ohN part =
     (let t2 = ''GEM_AMC.OH.OH'' @ dec ohN @ ''.FPGA.CONTROL.RELEASE.VERSION.'' @ part
      in bindM (readReg la t2) (\<lambda>v. bindM (readReg la t2) (\<lambda>_. ret v)))"

definition fw_version :: "localArgs \<Rightarrow> nat \<Rightarrow> u32 prog" where
  "fw_version la ohN =
     bindM (fw_version_check la) (\<lambda>fw.
     if fw = 3 then
       bindM (read_version la ohN ''MAJOR'') (\<lambda>major.
       bindM (read_version la ohN ''MINOR'') (\<lambda>minor.
       bindM (read_version la ohN ''BUILD'') (\<lambda>build.
       bindM (read_version la ohN ''GENERATION'') (\<lambda>generation.
         ret ((((0xffffffff AND (0x00ffffff OR push_bit 24 major)) AND (0xff00ffff OR push_bit 16 minor))
           AND (0xffff00ff OR push_bit 8 build)) AND (0xffffff00 OR generation))))))
     else readReg la (''GEM_AMC.OH.OH'' @ dec ohN @ ''.STATUS.FW.VERSION''))"

definition getmonOHmainLocal :: "localArgs \<Rightarrow> int \<Rightarrow> u32 \<Rightarrow> unit prog" where
  "getmonOHmainLocal la NOH ohMask =
     bindM (local_NOH la NOH) (\<lambda>NOH.
       forM [0..<nat NOH] (\<lambda>ohN. bindM (oh_enabled ohMask ohN) (\<lambda>enabled.
         if \<not> enabled
         then forM (oh_key ohN ''FW_VERSION'' # map fst (oh_table ohN)) (\<lambda>k. set_word k 0xdeaddead)
         else thenM (bindM (fw_version la ohN) (\<lambda>v. set_word (oh_key ohN ''FW_VERSION'') v))
                (forM (oh_table ohN) (report la)))))"

definition getmonOHmain :: "localArgs \<Rightarrow> rpc_request \<Rightarrow> unit prog" where
  "getmonOHmain la request = bindM (monitored la request) (\<lambda>(NOH, ohMask). getmonOHmainLocal la NOH ohMask)"

section \<open>SCA\<close>

definition sca_leaves :: "string list" where
  "sca_leaves = [''SCA_TEMP''] @ map (\<lambda>k. ''BOARD_TEMP'' @ dec k) [1..<10] @
     [''AVCCN'', ''AVTTN'', ''1V0_INT'', ''1V8F'', ''1V5'', ''2V5_IO'', ''3V0'', ''1V8'', ''VTRX_RSSI2'', ''VTRX_RSSI1'']"

definition sca_table :: "nat \<Rightarrow> (string \<times> string) list" where
  "sca_table ohN = map (\<lambda>leaf. (oh_key ohN leaf, ''GEM_AMC.SLOW_CONTROL.SCA.ADC_MONITORING.'' @ oh_key ohN leaf)) sca_leaves"

definition getmonOHSCAmainLocal :: "localArgs \<Rightarrow> int \<Rightarrow> u32 \<Rightarrow> unit prog" where
  "getmonOHSCAmainLocal la NOH ohMask =
     bindM (readReg la monitoring_off) (\<lambda>initSCAMonOffMask.
     thenM (writeReg la monitoring_off (NOT ohMask AND 0x3fc)) (
     bindM (local_NOH la NOH) (\<lambda>NOH.
     thenM (forM [0..<nat NOH] (\<lambda>ohN. report_oh la ohMask ohN (sca_table ohN)))
       (writeReg la monitoring_off initSCAMonOffMask))))"

definition getmonOHSCAmain :: "localArgs \<Rightarrow> rpc_request \<Rightarrow> unit prog" where
  "getmonOHSCAmain la request = bindM (monitored la request) (\<lambda>(NOH, ohMask). getmonOHSCAmainLocal la NOH ohMask)"

definition getmonSCALocal :: "localArgs \<Rightarrow> int \<Rightarrow> unit prog" where
  "getmonSCALocal la NOH =
     bindM (local_NOH la NOH) (\<lambda>NOH.
     thenM (report la (''SCA.STATUS.READY'', ''GEM_AMC.SLOW_CONTROL.SCA.STATUS.READY'')) (
     thenM (report la (''SCA.STATUS.CRITICAL_ERROR'', ''GEM_AMC.SLOW_CONTROL.SCA.STATUS.CRITICAL_ERROR'')) (
       forM [0..<nat NOH] (\<lambda>i. report la (''SCA.STATUS.NOT_READY_CNT_OH'' @ dec i,
         ''GEM_AMC.SLOW_CONTROL.SCA.STATUS.NOT_READY_CNT_OH'' @ dec i)))))"

definition getmonSCA :: "localArgs \<Rightarrow> rpc_request \<Rightarrow> unit prog" where
  "getmonSCA la request = bindM (get_word request ''NOH'') (\<lambda>NOH. getmonSCALocal la (sint NOH))"

section \<open>System monitor of the FPGA\<close>

definition alarm_leaves :: "string list" where
  "alarm_leaves = [''OVERTEMP'', ''CNT_OVERTEMP'', ''VCCAUX_ALARM'', ''CNT_VCCAUX_ALARM'', ''VCCINT_ALARM'', ''CNT_VCCINT_ALARM'']"

definition core_leaves :: "string list" where
  "core_leaves = [''FPGA_CORE_TEMP'', ''FPGA_CORE_1V0'', ''FPGA_CORE_2V5_IO'']"

definition report_adc :: "localArgs \<Rightarrow> string \<Rightarrow> string \<Rightarrow> unit prog" where
  "report_adc la key reg = bindM (readReg la reg) (\<lambda>w. set_word key (drop_bit 6 w AND 0x3ff))"

definition sysmon_v3 :: "localArgs \<Rightarrow> bool \<Rightarrow> nat \<Rightarrow> unit prog" where
  "sysmon_v3 la doReset ohN =
     (let base = ''GEM_AMC.OH.OH'' @ dec ohN @ ''.FPGA.ADC.CTRL.''
      in seqM
        [whenM doReset (writeReg la (base @ ''RESET'') 0x1),
         forM alarm_leaves (\<lambda>leaf. report la (oh_key ohN leaf, base @ leaf)),
         writeReg la (base @ ''ENABLE'') 0x1,
         forM [0..<3] (\<lambda>k. thenM (writeReg la (base @ ''ADR_IN'') (of_nat k))
           (report_adc la (oh_key ohN (core_leaves ! k)) (base @ ''DATA_OUT''))),
         writeReg la (base @ ''ENABLE'') 0x0])"

definition sysmon_v2 :: "localArgs \<Rightarrow> nat \<Rightarrow> unit prog" where
  "sysmon_v2 la ohN =
     (let base = ''GEM_AMC.OH.OH'' @ dec ohN @ ''.ADC.''
      in forM (zip core_leaves [''TEMP'', ''VCCINT'', ''VCCAUX'']) (\<lambda>(leaf, reg). report_adc la (oh_key ohN leaf) (base @ reg)))"

definition getmonOHSysmonLocal :: "localArgs \<Rightarrow> int \<Rightarrow> u32 \<Rightarrow> bool \<Rightarrow> unit prog" where
  "getmonOHSysmonLocal la NOH ohMask doReset =
     bindM (local_NOH la NOH) (\<lambda>NOH.
     bindM (fw_version_check la) (\<lambda>fw.
       forM [0..<nat NOH] (\<lambda>ohN. bindM (oh_enabled ohMask ohN) (\<lambda>enabled.
         if fw = 3
         then (if enabled then sysmon_v3 la doReset ohN
               else forM (alarm_leaves @ core_leaves) (\<lambda>leaf. set_word (oh_key ohN leaf) 0xdeaddead))
         else (if enabled then sysmon_v2 la ohN
               else forM core_leaves (\<lambda>leaf. set_word (oh_key ohN leaf) 0xdeaddead))))))"

definition getmonOHSysmon :: "localArgs \<Rightarrow> rpc_request \<Rightarrow> unit prog" where
  "getmonOHSysmon la request =
     bindM (monitored la request) (\<lambda>(NOH, ohMask).
     bindM (get_word request ''doReset'') (\<lambda>doReset.
       getmonOHSysmonLocal la NOH ohMask (doReset \<noteq> 0)))"

section \<open>Monitoring only looks\<close>


section \<open>What a report holds\<close>

lemma report_run:
  assumes "snd kr \<in> R" "reg_ok la nd R v0 u"
  shows "\<exists>t. report la kr u = Some (Val (), t) \<and> reg_ok la nd R v0 t
    \<and> (\<forall>q\<in>R. reg_val nd v0 q t = reg_val nd v0 q u)
    \<and> resp t = (resp u)(fst kr \<mapsto> RWord (reg_val nd v0 (snd kr) u))"
proof -
  obtain c where c: "readReg la (snd kr) u = Some (Val (reg_val nd v0 (snd kr) u), c)" "reg_ok la nd R v0 c"
    "resp c = resp u" "\<And>q. q \<in> R \<Longrightarrow> reg_val nd v0 q c = reg_val nd v0 q u"
    by (rule rf.rd_run [OF assms]) (rule that)
  show ?thesis
    using c rf.quiet [of "\<lambda>k. True" c "c\<lparr>resp := m\<rparr>" la nd R v0 for m]
    by (auto simp: report_def bindM_Val set_run extends_def)
qed

lemma set_word_run:
  assumes "reg_ok la nd R v0 u"
  shows "\<exists>t. set_word k w u = Some (Val (), t) \<and> reg_ok la nd R v0 t
    \<and> (\<forall>q\<in>R. reg_val nd v0 q t = reg_val nd v0 q u) \<and> resp t = (resp u)(k \<mapsto> RWord w)"
  using assms rf.quiet [of "\<lambda>k. True" u "u\<lparr>resp := m\<rparr>" la nd R v0 for m]
  by (auto simp: set_run extends_def)

text \<open>The word that a report gives for a register of an OptoHybrid, masked or not.\<close>

definition oh_word :: "(string \<Rightarrow> u32) \<Rightarrow> u32 \<Rightarrow> nat \<Rightarrow> string \<Rightarrow> u32" where
  "oh_word val ohMask ohN reg = (if bit ohMask ohN then val reg else 0xdeaddead)"

lemma report_oh_run:
  assumes "\<And>kr. kr \<in> set entries \<Longrightarrow> snd kr \<in> R" "ohN < 32" "reg_ok la nd R v0 u"
    and same: "\<And>q. q \<in> R \<Longrightarrow> reg_val nd v0 q u = val q"
  shows "\<exists>t. report_oh la ohMask ohN entries u = Some (Val (), t) \<and> (reg_ok la nd R v0 t \<and> (\<forall>q\<in>R. reg_val nd v0 q t = val q))
    \<and> resp t = fold (\<lambda>kr m. m(fst kr \<mapsto> RWord (oh_word val ohMask ohN (snd kr)))) entries (resp u)"
proof -
  let ?I = "\<lambda>u. reg_ok la nd R v0 u \<and> (\<forall>q\<in>R. reg_val nd v0 q u = val q)"
  let ?U = "\<lambda>kr m. m(fst kr \<mapsto> RWord (oh_word val ohMask ohN (snd kr)))"
  have I: "?I u" using assms(3) same by simp
  have masked: "\<exists>t. forM entries (\<lambda>kr. set_word (fst kr) 0xdeaddead) u = Some (Val (), t) \<and> ?I t \<and> resp t = fold ?U entries (resp u)"
    if "\<not> bit ohMask ohN"
  proof (rule forM_run [where A = resp and I = ?I])
    fix kr w
    assume "?I w"
    then show "\<exists>t. set_word (fst kr) 0xdeaddead w = Some (Val (), t) \<and> ?I t \<and> resp t = ?U kr (resp w)"
      using set_word_run [of la nd R v0 w "fst kr" "0xdeaddead"] that by (auto simp: oh_word_def)
  qed (fact I)
  have read: "\<exists>t. forM entries (report la) u = Some (Val (), t) \<and> ?I t \<and> resp t = fold ?U entries (resp u)"
    if "bit ohMask ohN"
  proof (rule forM_run [where A = resp and I = ?I])
    fix kr w
    assume "kr \<in> set entries" "?I w"
    then show "\<exists>t. report la kr w = Some (Val (), t) \<and> ?I t \<and> resp t = ?U kr (resp w)"
      using report_run [of kr R la nd v0 w] assms(1) that by (auto simp: oh_word_def)
  qed (fact I)
  show ?thesis
    using masked read assms(2) by (cases "bit ohMask ohN") (auto simp: report_oh_def oh_enabled_def)
qed

lemma oh_key_inj: "oh_key a x = oh_key b y \<longleftrightarrow> a = b \<and> x = y"
  using dec_dot [of a x b y] by (auto simp: oh_key_def)

lemma local_NOH_run:
  assumes "num_of_oh \<in> R" "reg_ok la nd R v0 s"
  obtains t where "local_NOH la NOH s = Some (Val (min (sint (reg_val nd v0 num_of_oh s)) NOH), t)" "reg_ok la nd R v0 t"
    "resp t = resp s" "\<And>q. q \<in> R \<Longrightarrow> reg_val nd v0 q t = reg_val nd v0 q s"
proof -
  obtain c where "readReg la num_of_oh s = Some (Val (reg_val nd v0 num_of_oh s), c)" "reg_ok la nd R v0 c"
    "resp c = resp s" "\<And>q. q \<in> R \<Longrightarrow> reg_val nd v0 q c = reg_val nd v0 q s"
    by (rule rf.rd_run [OF assms]) (rule that)
  then show thesis using that [of c] by (simp add: local_NOH_def bindM_Val Let_def ret_def min_def not_less)
qed

text \<open>
  C34 (trigger report): the report on the trigger links answers, for every OptoHybrid below the smaller of the
  number asked for and the number the firmware has, with each of its eight counters, or with
  \<^verbatim>\<open>0xdeaddead\<close> when the OptoHybrid is masked, and sets no other key.
\<close>

theorem trigger_report:
  assumes ok: "reg_ok la nd R v0 s" and oh: "num_of_oh \<in> R"
    and n: "n = nat (min (sint (reg_val nd v0 num_of_oh s)) NOH)" "n \<le> 32"
    and regs: "\<And>ohN leaf. ohN < n \<Longrightarrow> leaf \<in> set trigger_leaves \<Longrightarrow> ''GEM_AMC.TRIGGER.'' @ oh_key ohN leaf \<in> R"
  shows "\<exists>t. getmonTRIGGEROHmainLocal la NOH ohMask s = Some (Val (), t)
    \<and> (\<forall>ohN<n. \<forall>leaf\<in>set trigger_leaves. resp t (oh_key ohN leaf) = Some (RWord
        (if bit ohMask ohN then reg_val nd v0 (''GEM_AMC.TRIGGER.'' @ oh_key ohN leaf) s else 0xdeaddead)))
    \<and> (\<forall>k. (\<forall>ohN<n. \<forall>leaf\<in>set trigger_leaves. k \<noteq> oh_key ohN leaf) \<longrightarrow> resp t k = resp s k)"
proof -
  let ?val = "\<lambda>q. reg_val nd v0 q s"
  let ?I = "\<lambda>u. reg_ok la nd R v0 u \<and> (\<forall>q\<in>R. reg_val nd v0 q u = ?val q)"
  let ?h = "\<lambda>ohN kr m. m(fst kr \<mapsto> RWord (oh_word ?val ohMask ohN (snd kr)))"
  let ?P = "concat (map (\<lambda>ohN. map (Pair ohN) (trigger_table ohN)) [0..<n])"
  obtain c where c: "local_NOH la NOH s = Some (Val (min (sint (?val num_of_oh)) NOH), c)" "reg_ok la nd R v0 c"
    "resp c = resp s" "\<And>q. q \<in> R \<Longrightarrow> reg_val nd v0 q c = ?val q"
    by (rule local_NOH_run [OF oh ok]) (rule that)
  have "\<exists>t. forM [0..<n] (\<lambda>ohN. report_oh la ohMask ohN (trigger_table ohN)) c = Some (Val (), t) \<and> ?I t
      \<and> resp t = fold (\<lambda>ohN. fold (?h ohN) (trigger_table ohN)) [0..<n] (resp c)"
  proof (rule forM_run [where A = resp and I = ?I])
    fix ohN w
    assume "ohN \<in> set [0..<n]" "?I w"
    then show "\<exists>t. report_oh la ohMask ohN (trigger_table ohN) w = Some (Val (), t) \<and> ?I t
        \<and> resp t = fold (?h ohN) (trigger_table ohN) (resp w)"
      using regs n(2) by (intro report_oh_run) (auto simp: trigger_table_def)
  qed (use c in simp)
  then obtain t where t: "forM [0..<n] (\<lambda>ohN. report_oh la ohMask ohN (trigger_table ohN)) c = Some (Val (), t)"
    "resp t = fold (\<lambda>(ohN, kr) m. m(fst kr := Some (RWord (oh_word ?val ohMask ohN (snd kr))))) ?P (resp s)"
    using c(3) fold_nested [of ?h trigger_table "[0..<n]"] by auto
  have fold: "resp t = fold (\<lambda>x m. m((fst \<circ> snd) x := Some (RWord (oh_word ?val ohMask (fst x) (snd (snd x)))))) ?P (resp s)"
    unfolding t(2) by (rule arg_cong [where f = "\<lambda>f. fold f ?P (resp s)"]) (auto simp: fun_eq_iff)
  have inj: "inj_on (fst \<circ> snd) (set ?P)"
    by (auto simp: inj_on_def trigger_table_def oh_key_inj)
  have hit: "resp t (oh_key ohN leaf) = Some (RWord (oh_word ?val ohMask ohN (''GEM_AMC.TRIGGER.'' @ oh_key ohN leaf)))"
    if "ohN < n" "leaf \<in> set trigger_leaves" for ohN leaf
  proof -
    let ?x = "(ohN, oh_key ohN leaf, ''GEM_AMC.TRIGGER.'' @ oh_key ohN leaf)"
    have "?x \<in> set ?P" using that by (auto simp: trigger_table_def)
    from fold_upd [OF inj this, of "\<lambda>x. Some (RWord (oh_word ?val ohMask (fst x) (snd (snd x))))" "resp s"]
    show ?thesis unfolding fold by simp
  qed
  have miss: "resp t k = resp s k" if "\<forall>ohN<n. \<forall>leaf\<in>set trigger_leaves. k \<noteq> oh_key ohN leaf" for k
    unfolding fold by (rule fold_upd_other) (use that in \<open>auto simp: trigger_table_def oh_key_inj\<close>)
  have "getmonTRIGGEROHmainLocal la NOH ohMask s = Some (Val (), t)"
    using c(1) t(1) n(1) by (simp add: getmonTRIGGEROHmainLocal_def bindM_Val)
  then show ?thesis using hit miss by (auto simp: oh_word_def)
qed

definition trigger_demo_regs :: "string list" where
  "trigger_demo_regs = num_of_oh # map (\<lambda>leaf. ''GEM_AMC.TRIGGER.'' @ oh_key 0 leaf) trigger_leaves"

lemma trigger_demo_ok:
  "reg_ok (flat_env trigger_demo_regs) (flat_node trigger_demo_regs) (set trigger_demo_regs) (\<lambda>a. 0) s"
  by (rule flat_ok) (auto simp: trigger_demo_regs_def trigger_leaves_def oh_key_def dec_no_nul)

theorem trigger_report_witness:
  "\<exists>t. getmonTRIGGEROHmainLocal (flat_env trigger_demo_regs) 3 0 (start_mach\<lparr>hist := [MemWrite 0 [1] True]\<rparr>) = Some (Val (), t)
    \<and> resp t (oh_key 0 ''LINK1_OVERFLOW_CNT'') = Some (RWord 0xdeaddead)"
proof -
  let ?s = "start_mach\<lparr>hist := [MemWrite 0 [1] True]\<rparr>"
  have one: "reg_val (flat_node trigger_demo_regs) (\<lambda>a. 0) num_of_oh ?s = 1"
    by (subst flat_val_one) (simp_all add: trigger_demo_regs_def trigger_leaves_def place_def)
  have "1 = nat (min (sint (reg_val (flat_node trigger_demo_regs) (\<lambda>a. 0) num_of_oh ?s)) 3)"
    unfolding one by simp
  from trigger_report [OF trigger_demo_ok _ this, of 0]
  show ?thesis by (auto simp: trigger_demo_regs_def trigger_leaves_def)
qed

section \<open>The SCA mask\<close>

lemma right_primitive [right]: "n < 32 \<Longrightarrow> goes_right (oh_enabled m n)"
  by (simp add: oh_enabled_def right)

lemma keep_report_oh: "preserves (extends no_write (\<lambda>k. True)) (report_oh la ohMask ohN entries)"
  by (auto simp: report_oh_def report_def intro!: keeps)

lemma report_oh_ends:
  assumes "wf_db la" "ohN < 32"
  shows "\<exists>t. report_oh la ohMask ohN entries s = Some (Val (), t)"
proof -
  have "returns (report_oh la ohMask ohN entries)"
    by (auto simp: report_oh_def report_def intro!: returning)
  moreover have "goes_right (report_oh la ohMask ohN entries)"
    using assms by (auto simp: report_oh_def report_def intro!: right)
  ultimately show ?thesis using ends_normally [of "report_oh la ohMask ohN entries" s] by simp
qed

text \<open>
  C35 (the SCA mask is restored): over a well-typed address table \<^verbatim>\<open>getmonOHSCAmainLocal\<close> ends normally and
  leaves every register, the mask of the SCA monitoring that it changes in between included, with the
  value it had.
\<close>

theorem getmonOHSCAmain_restores:
  assumes ok: "reg_ok la nd R v0 s" and db: "wf_db la" and mon: "monitoring_off \<in> R" and oh: "num_of_oh \<in> R"
    and ne: "monitoring_off \<noteq> num_of_oh" and n: "min (sint (reg_val nd v0 num_of_oh s)) NOH \<le> 32"
  shows "\<exists>t. getmonOHSCAmainLocal la NOH ohMask s = Some (Val (), t)
    \<and> (\<forall>q\<in>R. reg_val nd v0 q t = reg_val nd v0 q s)"
proof -
  let ?I = "\<lambda>w u. reg_ok la nd R v0 u \<and> (\<forall>q\<in>R. reg_val nd v0 q u = reg_val nd v0 q w)"
  obtain a where a: "readReg la monitoring_off s = Some (Val (reg_val nd v0 monitoring_off s), a)" "reg_ok la nd R v0 a"
    "\<And>q. q \<in> R \<Longrightarrow> reg_val nd v0 q a = reg_val nd v0 q s"
    by (rule rf.rd_run [OF mon ok]) (rule that)
  obtain b where b: "writeReg la monitoring_off (NOT ohMask AND 0x3fc) a = Some (Val (), b)" "reg_ok la nd R v0 b"
    "\<And>q. q \<in> R \<Longrightarrow> q \<noteq> monitoring_off \<Longrightarrow> reg_val nd v0 q b = reg_val nd v0 q a"
    by (rule rf.wr_run [OF mon a(2)]) (rule that)
  obtain c where c: "local_NOH la NOH b = Some (Val (min (sint (reg_val nd v0 num_of_oh s)) NOH), c)" "reg_ok la nd R v0 c"
    "\<And>q. q \<in> R \<Longrightarrow> reg_val nd v0 q c = reg_val nd v0 q b"
    using local_NOH_run [OF oh b(2), of NOH] a(3) [OF oh] b(3) [OF oh] ne by metis
  let ?n = "nat (min (sint (reg_val nd v0 num_of_oh s)) NOH)"
  have "\<exists>d. forM [0..<?n] (\<lambda>ohN. report_oh la ohMask ohN (sca_table ohN)) c = Some (Val (), d) \<and> ?I c d \<and> () = fold (\<lambda>x y. y) [0..<?n] ()"
  proof (rule forM_run [where A = "\<lambda>s. ()" and I = "?I c"])
    fix ohN u
    assume "ohN \<in> set [0..<?n]" and u: "?I c u"
    then have "ohN < 32" using n by auto
    then obtain d where d: "report_oh la ohMask ohN (sca_table ohN) u = Some (Val (), d)"
      using report_oh_ends [OF db] by blast
    then have "extends no_write (\<lambda>k. True) u d" by (rule preservesD [OF keep_report_oh])
    then show "\<exists>d. report_oh la ohMask ohN (sca_table ohN) u = Some (Val (), d) \<and> ?I c d \<and> () = ()"
      using d u rf.quiet by auto
  qed (use c in simp)
  then obtain d where d: "forM [0..<?n] (\<lambda>ohN. report_oh la ohMask ohN (sca_table ohN)) c = Some (Val (), d)"
    "reg_ok la nd R v0 d" "\<And>q. q \<in> R \<Longrightarrow> reg_val nd v0 q d = reg_val nd v0 q c" by blast
  obtain t where t: "writeReg la monitoring_off (reg_val nd v0 monitoring_off s) d = Some (Val (), t)"
    "reg_val nd v0 monitoring_off t = reg_fits nd monitoring_off (reg_val nd v0 monitoring_off s)"
    "\<And>q. q \<in> R \<Longrightarrow> q \<noteq> monitoring_off \<Longrightarrow> reg_val nd v0 q t = reg_val nd v0 q d"
    by (rule rf.wr_run [OF mon d(2)]) (rule that)
  have "getmonOHSCAmainLocal la NOH ohMask s = Some (Val (), t)"
    using a(1) b(1) c(1) d(1) t(1) by (simp add: getmonOHSCAmainLocal_def bindM_Val thenM_Val)
  moreover have "reg_val nd v0 q t = reg_val nd v0 q s" if "q \<in> R" for q
    using t(2,3) d(3) c(3) b(3) a(3) that rf.fits_val [OF mon] by (cases "q = monitoring_off") auto
  ultimately show ?thesis by blast
qed

definition sca_mon_regs :: "string list" where
  "sca_mon_regs = [monitoring_off, num_of_oh]"

lemma sca_mon_ok: "reg_ok (flat_env sca_mon_regs) (flat_node sca_mon_regs) (set sca_mon_regs) (\<lambda>a. 0) s"
  by (rule flat_ok) (auto simp: sca_mon_regs_def)

lemma flat_wf_db: "wf_db (flat_env rs)"
  by (auto simp: wf_db_def flat_env_def flat_node_def ram_env_db wf_node_def clean_def intro!: exI)

theorem getmonOHSCAmain_restores_witness:
  "\<exists>t. getmonOHSCAmainLocal (flat_env sca_mon_regs) 2 1 (start_mach\<lparr>hist := [MemWrite 0 [0xabc] True]\<rparr>) = Some (Val (), t)
    \<and> reg_val (flat_node sca_mon_regs) (\<lambda>a. 0) monitoring_off t = 0xabc"
proof -
  let ?s = "start_mach\<lparr>hist := [MemWrite 0 [0xabc] True]\<rparr>"
  have v: "reg_val (flat_node sca_mon_regs) (\<lambda>a. 0) monitoring_off ?s = 0xabc"
    by (subst flat_val_one) (simp_all add: sca_mon_regs_def place_def)
  show ?thesis
    using getmonOHSCAmain_restores [OF sca_mon_ok flat_wf_db, of ?s 2 1] v by (auto simp: sca_mon_regs_def min.coboundedI2)
qed

end
