(* ===== verification/DacScan.thy ===== *)
theory DacScan
  imports Calibration
begin

text \<open>
  The DAC scans of \<^verbatim>\<open>src/calibration_routines.cpp\<close>: each value of a DAC is written to every VFAT that is
  not masked, and the average of 100 readings of the ADC is stored.
\<close>

section \<open>The table of DACs\<close>

text \<open>\<^verbatim>\<open>vfat3DACAndSize::map_dacInfo\<close> of \<^verbatim>\<open>include/calibration_routines.h\<close>: register, smallest and largest value.\<close>

definition map_dacInfo :: "(u32 \<times> string \<times> u32 \<times> u32) list" where
  "map_dacInfo =
    [(1, ''CFG_CAL_DAC'', 0, 0xff), (2, ''CFG_BIAS_PRE_I_BIT'', 0, 0xff), (3, ''CFG_BIAS_PRE_I_BLCC'', 0, 0x3f),
     (4, ''CFG_BIAS_PRE_I_BSF'', 0, 0x3f), (5, ''CFG_BIAS_SH_I_BFCAS'', 0, 0xff), (6, ''CFG_BIAS_SH_I_BDIFF'', 0, 0xff),
     (7, ''CFG_BIAS_SD_I_BDIFF'', 0, 0xff), (8, ''CFG_BIAS_SD_I_BFCAS'', 0, 0xff), (9, ''CFG_BIAS_SD_I_BSF'', 0, 0x3f),
     (10, ''CFG_BIAS_CFD_DAC_1'', 0, 0x3f), (11, ''CFG_BIAS_CFD_DAC_2'', 0, 0x3f), (12, ''CFG_HYST'', 0, 0x3f),
     (14, ''CFG_THR_ARM_DAC'', 0, 0xff), (15, ''CFG_THR_ZCC_DAC'', 0, 0xff), (33, ''CFG_CAL_DAC'', 0, 0xff),
     (34, ''CFG_BIAS_PRE_VREF'', 0, 0xff), (35, ''CFG_THR_ARM_DAC'', 0, 0xff), (36, ''CFG_THR_ZCC_DAC'', 0, 0xff),
     (39, ''CFG_VREF_ADC'', 0, 0x3)]"

section \<open>The scan of one OptoHybrid\<close>

definition dac_select_error :: "localArgs \<Rightarrow> u32 \<Rightarrow> string" where
  "dac_select_error la dacSelect =
     ''Monitoring Select value '' @ fmt_u dacSelect @ '' not found, possible values are:'' @ [CHR 0x0a] @
     concat (map (\<lambda>(k, regName, _). [CHR 0x09] @ fmt_u k @ [CHR 0x09] @ regName @ [CHR 0x0a]) (map_iter la map_dacInfo))"

text \<open>
  The registers of the ADC: the cached one with its update register where the address table has it.
  \<^verbatim>\<open>foundAdcCached\<close> keeps what the last VFAT had.
\<close>

definition find_adc ::
  "localArgs \<Rightarrow> u32 \<Rightarrow> u32 \<Rightarrow> bool \<Rightarrow> nat \<Rightarrow> u32 list \<times> u32 list \<times> bool \<Rightarrow> (u32 list \<times> u32 list \<times> bool) prog" where
  "find_adc la ohN notmask useExtRefADC vfatN acc = (case acc of (adcAddr, adcCacheUpdateAddr, foundAdcCached) \<Rightarrow>
     if \<not> bit notmask vfatN then ret (adcAddr, adcCacheUpdateAddr, foundAdcCached)
     else
       (let adc = (if useExtRefADC then ''ADC1'' else ''ADC0'')
        in if db_get la (vfat_reg ohN vfatN (adc @ ''_CACHED'')) \<noteq> None
           then bindM (getAddress la (vfat_reg ohN vfatN (adc @ ''_CACHED''))) (\<lambda>a.
                bindM (getAddress la (vfat_reg ohN vfatN (adc @ ''_UPDATE''))) (\<lambda>u.
                  ret (adcAddr[vfatN := a], adcCacheUpdateAddr[vfatN := u], True)))
           else bindM (getAddress la (vfat_reg ohN vfatN adc)) (\<lambda>a.
                  ret (adcAddr[vfatN := a], adcCacheUpdateAddr, False))))"

definition adc_average :: "localArgs \<Rightarrow> bool \<Rightarrow> u32 \<Rightarrow> u32 \<Rightarrow> u32 prog" where
  "adc_average la foundAdcCached updateAddr adcAddr =
     bindM (foldM (\<lambda>i adcVal.
         thenM (whenM foundAdcCached
             (thenM (bindM (readRawAddress la updateAddr) (\<lambda>_. ret ())) (sleep_us 20)))
           (bindM (readRawAddress la adcAddr) (\<lambda>w. ret (adcVal + w)))) [0..<100] 0) (\<lambda>adcVal.
       ret (adcVal div 100))"

definition dac_word :: "u32 \<Rightarrow> nat \<Rightarrow> u32 \<Rightarrow> u32 \<Rightarrow> u32" where
  "dac_word ohN vfatN adcVal dacVal =
     push_bit 23 (ohN AND 0xf) + push_bit 18 (of_nat vfatN AND 0x1f) + push_bit 8 (adcVal AND 0x3ff) + (dacVal AND 0xff)"

definition dac_step_vfat ::
  "localArgs \<Rightarrow> u32 \<Rightarrow> u32 \<Rightarrow> string \<Rightarrow> u32 \<Rightarrow> u32 \<Rightarrow> u32 \<Rightarrow> u32 list \<times> u32 list \<times> bool \<Rightarrow> u32 \<Rightarrow> nat \<Rightarrow>
     u32 list \<Rightarrow> u32 list prog" where
  "dac_step_vfat la ohN notmask regName dacMin dacMax dacStep adc dacVal vfatN d =
     (case adc of (adcAddr, adcCacheUpdateAddr, foundAdcCached) \<Rightarrow>
        if \<not> bit notmask vfatN
        then bindM (scan_slot vfatN dacMin dacMax dacStep dacVal) (\<lambda>idx. arr_set d idx (dac_word ohN vfatN 0 dacVal))
        else
          thenM (writeReg la (vfat_reg ohN vfatN regName) dacVal) (
          bindM (adc_average la foundAdcCached (adcCacheUpdateAddr ! vfatN) (adcAddr ! vfatN)) (\<lambda>adcVal.
          bindM (scan_slot vfatN dacMin dacMax dacStep dacVal) (\<lambda>idx.
            arr_set d idx (dac_word ohN vfatN adcVal dacVal)))))"

definition dac_step ::
  "localArgs \<Rightarrow> u32 \<Rightarrow> u32 \<Rightarrow> string \<Rightarrow> u32 \<Rightarrow> u32 \<Rightarrow> u32 \<Rightarrow> u32 list \<times> u32 list \<times> bool \<Rightarrow> u32 \<Rightarrow>
     u32 list \<Rightarrow> (unit + u32 list) prog" where
  "dac_step la ohN notmask regName dacMin dacMax dacStep adc dacVal d =
     bindM (foldM (dac_step_vfat la ohN notmask regName dacMin dacMax dacStep adc dacVal) [0..<24] d)
       (\<lambda>d. ret (Inr d))"

text \<open>The result vector has \<^verbatim>\<open>24*((dacMax-dacMin+1)/dacStep)\<close> words.\<close>

definition dac_results :: "u32 \<Rightarrow> u32 \<Rightarrow> u32 \<Rightarrow> u32 list prog" where
  "dac_results dacMin dacMax dacStep =
     (if dacStep = 0 then abortM Trap
      else ret (replicate (24 * unat ((dacMax - dacMin + 1) div dacStep)) 0))"

definition dacScanLocal :: "localArgs \<Rightarrow> u32 \<Rightarrow> u32 \<Rightarrow> u32 \<Rightarrow> u32 \<Rightarrow> bool \<Rightarrow> u32 list prog" where
  "dacScanLocal la ohN dacSelect dacStep vmask useExtRefADC =
     bindM (fw_version_check la) (\<lambda>fw.
     if fw < 3 then thenM (set_error ''dacScanLocal is only supported in V3 electronics'') (ret [])
     else (case map_of map_dacInfo dacSelect of
         None \<Rightarrow> thenM (set_error (dac_select_error la dacSelect)) (ret [])
       | Some (regName, dacMin, dacMax) \<Rightarrow>
           bindM (vfatSyncCheckLocal la ohN) (\<lambda>goodVFATs.
           if not_mask vmask AND goodVFATs \<noteq> not_mask vmask
           then thenM (set_error (not_synced_error goodVFATs (not_mask vmask))) (ret [])
           else
             bindM (foldM (find_adc la ohN (not_mask vmask) useExtRefADC) [0..<24]
                      (stack_array la 24, stack_array la 24, False)) (\<lambda>adc.
             bindM (dac_results dacMin dacMax dacStep) (\<lambda>d.
             thenM (configureVFAT3DacMonitorLocal la ohN vmask dacSelect) (
             thenM (writeReg la ''GEM_AMC.GEM_SYSTEM.VFAT3.SC_ONLY_MODE'' 0x0) (
             thenM (broadcastWriteLocal la ohN ''CFG_RUN'' 0x1 vmask) (
             thenM (sleep_ms 1000) (
             bindM (for_step dacMax dacStep
                 (dac_step la ohN (not_mask vmask) regName dacMin dacMax dacStep adc) dacMin d) (\<lambda>r.
             thenM (broadcastWriteLocal la ohN ''CFG_RUN'' 0x0 vmask)
               (ret (case r of Inl _ \<Rightarrow> d | Inr d \<Rightarrow> d))))))))))))"

definition dacScan :: "localArgs \<Rightarrow> rpc_request \<Rightarrow> unit prog" where
  "dacScan la request =
     bindM (get_word request ''ohN'') (\<lambda>ohN.
     bindM (get_word request ''dacSelect'') (\<lambda>dacSelect.
     bindM (get_word request ''dacStep'') (\<lambda>dacStep.
     bindM (get_word request ''mask'') (\<lambda>vmask.
     bindM (get_word request ''useExtRefADC'') (\<lambda>useExtRefADC.
     bindM (dacScanLocal la ohN dacSelect dacStep vmask (useExtRefADC \<noteq> 0)) (\<lambda>dacScanResults.
       set_word_array ''dacScanResults'' dacScanResults))))))"

section \<open>All OptoHybrids\<close>

text \<open>
  The words of an OptoHybrid that is left out are \<^verbatim>\<open>(dacMax+1)*24/dacStep\<close> times \<^verbatim>\<open>0xdeaddead\<close>;
  \<^verbatim>\<open>map_dacInfo[dacSelect]\<close> of an unknown key has a largest value of 0.
\<close>

definition masked_words :: "u32 \<Rightarrow> u32 \<Rightarrow> u32 list prog" where
  "masked_words dacSelect dacStep =
     (let dacMax = (case map_of map_dacInfo dacSelect of Some (_, _, dacMax) \<Rightarrow> dacMax | None \<Rightarrow> 0)
      in if dacStep = 0 then abortM Trap else ret (replicate (unat ((dacMax + 1) * 24 div dacStep)) 0xdeaddead))"

definition dacScanMultiLink :: "localArgs \<Rightarrow> rpc_request \<Rightarrow> unit prog" where
  "dacScanMultiLink la request =
     bindM (get_word request ''ohMask'') (\<lambda>ohMask.
     bindM (get_word request ''dacSelect'') (\<lambda>dacSelect.
     bindM (get_word request ''dacStep'') (\<lambda>dacStep.
     bindM (get_word request ''useExtRefADC'') (\<lambda>useExtRefADC.
     bindM (requested_NOH la request) (\<lambda>NOH.
     bindM (foldM (\<lambda>ohN dacScanResultsAll.
         bindM (oh_enabled ohMask ohN) (\<lambda>enabled.
         bindM (if \<not> enabled then masked_words dacSelect dacStep
                else bindM (getOHVFATMaskLocal la (of_nat ohN)) (\<lambda>vfatMask.
                       dacScanLocal la (of_nat ohN) dacSelect dacStep vfatMask (useExtRefADC \<noteq> 0))) (\<lambda>dacScanResults.
           ret (dacScanResultsAll @ dacScanResults)))) [0..<unat NOH] []) (\<lambda>dacScanResultsAll.
       set_word_array ''dacScanResultsAll'' dacScanResultsAll))))))"

section \<open>The size of the results\<close>

text \<open>The value \<open>d\<close> of the DAC is one that the scan reaches.\<close>

definition reached :: "u32 \<Rightarrow> u32 \<Rightarrow> u32 \<Rightarrow> u32 \<Rightarrow> bool" where
  "reached dacMin dacMax dacStep d \<longleftrightarrow> d \<in> of_nat ` set (steps_to (unat dacMin) (unat dacMax) (unat dacStep))"

lemma dac_ranges:
  assumes "map_of map_dacInfo dacSelect = Some (regName, dacMin, dacMax)"
  shows "dacMin = 0" "unat dacMax < 256"
proof -
  have "(dacSelect, regName, dacMin, dacMax) \<in> set map_dacInfo" using assms by (rule map_of_SomeD)
  moreover have "list_all (\<lambda>(k, r, lo, hi). lo = 0 \<and> unat hi < 256) map_dacInfo" by (simp add: map_dacInfo_def)
  ultimately show "dacMin = 0" "unat dacMax < 256" by (auto simp: list_all_iff)
qed

lemma scan_idx_small:
  assumes "unat hi < 256" "n < 24" "d \<le> hi"
  shows "unat (scan_idx n 0 hi st d) = n * (unat hi + 1) div unat st + unat d div unat st"
proof -
  have d: "unat d \<le> unat hi" using assms(3) by (simp add: word_le_nat_alt)
  have "n * (unat hi + 1) \<le> 23 * 256" using assms(1,2) by (intro mult_le_mono) auto
  then have p: "unat (of_nat n * (hi + 1) :: u32) = n * (unat hi + 1)"
    using assms(1,2) by (simp add: unat_word_ariths unsigned_of_nat take_bit_nat_eq_self)
  have "n * (unat hi + 1) div unat st \<le> 23 * 256"
    using div_le_dividend \<open>n * (unat hi + 1) \<le> 23 * 256\<close> by (rule order_trans)
  moreover have "unat d div unat st \<le> 255" 
    using order_trans [OF div_le_dividend [of "unat d" "unat st"] d] assms(1) by simp
  ultimately have "n * (unat hi + 1) div unat st + unat d div unat st \<le> 23 * 256 + 255" by (rule add_mono)
  then have "n * (unat hi + 1) div unat st + unat d div unat st < 2 ^ 32" by (rule le_less_trans) simp
  then show ?thesis
    using p by (simp add: scan_idx_def unat_word_ariths(1) unat_div)
qed

lemma uneven_overflow:
  assumes "0 < s" "\<not> s dvd N" "0 < (N :: nat)"
  shows "24 * (N div s) \<le> 23 * N div s + (N - 1) div s"
proof -
  have "N mod s \<noteq> 0" using assms(2) by (simp add: dvd_eq_mod_eq_0)
  then have "(N - 1) div s = N div s"
    using assms(1,3) by (cases N) (simp_all add: div_Suc split: if_splits)
  moreover have "23 * (N div s) \<le> 23 * N div s" by (subst div_mult1_eq) simp
  ultimately show ?thesis by simp
qed

text \<open>
  C38 (room for the DAC scan): for every DAC of the table, all results of a scan lie inside the vector that
  \<^verbatim>\<open>dacScanLocal\<close> allocates exactly when the step divides the number of values; with every other step the
  scan writes behind the vector.
\<close>

theorem dac_scan_fits:
  assumes "map_of map_dacInfo dacSelect = Some (regName, dacMin, dacMax)" "dacStep \<noteq> 0"
    and "dac_results dacMin dacMax dacStep s = Some (Val d, t)"
  shows "(\<forall>vfatN<24. \<forall>dacVal. reached dacMin dacMax dacStep dacVal \<longrightarrow>
      unat (scan_idx vfatN dacMin dacMax dacStep dacVal) < length d)
    \<longleftrightarrow> unat dacStep dvd unat (dacMax - dacMin) + 1"
proof -
  note r = dac_ranges [OF assms(1)]
  let ?N = "unat dacMax + 1" and ?s = "unat dacStep"
  have s: "0 < ?s" using assms(2) by (simp add: unat_gt_0)
  have u: "unat (dacMax + 1) = ?N" using r(2) by (simp add: unat_word_ariths)
  have len: "length d = 24 * (?N div ?s)"
    using assms(2,3) u by (auto simp: dac_results_def ret_def r(1) unat_div)
  have at: "reached 0 dacMax dacStep (of_nat (k * ?s))" if "k * ?s \<le> unat dacMax" for k
  proof -
    have "k \<le> unat dacMax div ?s" using that s by (simp add: less_eq_div_iff_mult_less_eq)
    then have "k * ?s \<in> set (steps_to 0 (unat dacMax) ?s)" by (auto simp: steps_to_def simp del: upt_Suc)
    then show ?thesis unfolding reached_def unsigned_0 by (rule imageI)
  qed
  have le: "dacVal \<le> dacMax" if "reached 0 dacMax dacStep dacVal" for dacVal
  proof -
    have "dacVal \<in> (\<lambda>k. of_nat (k * ?s)) ` set [0..<unat dacMax div ?s + 1]"
      using that by (simp add: reached_def steps_to_def image_image del: upt_Suc set_upt of_nat_mult)
    then obtain k where k: "dacVal = of_nat (k * ?s)" "k \<in> set [0..<unat dacMax div ?s + 1]" by blast
    from k(2) have "k \<le> unat dacMax div ?s" unfolding set_upt by simp
    then have "k * ?s \<le> unat dacMax" using s by (simp add: less_eq_div_iff_mult_less_eq)
    moreover have "unat (of_nat (k * ?s) :: u32) = k * ?s"
      using calculation r(2) by (intro unat_small) simp
    ultimately show ?thesis using k(1) by (simp add: word_le_nat_alt)
  qed
  show ?thesis
    unfolding r(1) len
  proof (standard, goal_cases)
    case 1
    show ?case
    proof (rule ccontr)
      assume "\<not> ?s dvd unat (dacMax - 0) + 1"
      then have uneven: "24 * (?N div ?s) \<le> 23 * ?N div ?s + unat dacMax div ?s"
        using uneven_overflow [OF s, of ?N] by simp
      let ?k = "unat dacMax div ?s"
      have k: "?k * ?s \<le> unat dacMax" by simp
      have dv: "unat (of_nat (?k * ?s) :: u32) = ?k * ?s"
        by (rule unat_small, rule le_less_trans [OF k]) (use r(2) in simp)
      have "unat (scan_idx 23 0 dacMax dacStep (of_nat (?k * ?s))) < 24 * (?N div ?s)"
        using 1 at [OF k] by simp
      then show False
        using scan_idx_small [OF r(2) _ le [OF at [OF k]], of 23 dacStep] dv uneven s by simp
    qed
  next
    case 2
    have small: "24 * (unat (dacMax - 0) + 1) < 2 ^ 32" using r(2) by simp
    show ?case
    proof (intro allI impI)
      fix vfatN :: nat and dacVal
      assume v: "vfatN < (24::nat)" and "reached 0 dacMax dacStep dacVal"
      then have "unat (dacVal - 0) \<le> unat (dacMax - 0)" using le by (simp add: word_le_nat_alt)
      from scan_idx_inside [OF small 2 v this] scan_idx_value(2) [OF small 2 v this]
      show "unat (scan_idx vfatN 0 dacMax dacStep dacVal) < 24 * (?N div ?s)" by simp
    qed
  qed
qed

theorem dac_scan_fits_witness:
  "\<not> (\<forall>vfatN<24. \<forall>dacVal. reached 0 0xff 7 dacVal \<longrightarrow> unat (scan_idx vfatN 0 0xff 7 dacVal) < 864)"
  using dac_scan_fits [of 1 "''CFG_CAL_DAC''" 0 "0xff" 7 start_mach "replicate 864 0" start_mach]
  by (simp add: map_dacInfo_def dac_results_def ret_def unat_div)

end
