(* ===== verification/RpcService.thy ===== *)
theory RpcService
  imports MemoryModules TtcPhaseShift BlasterRam Daq DaqMonitor SbitScan DacScan
begin

text \<open>
  The modules as the RPC server sees them: every \<^verbatim>\<open>module_init\<close> opens the memory service and registers the
  methods of its module under a service name. The server itself (\<^verbatim>\<open>ModuleManager\<close>) is not part of the repository;
  what it does is calling registered methods, one after the other. Here are the tables, the
  sequences of calls that a server can make, and what holds for all of them: which methods always
  return, and which ones cannot fail over an address table that the server has loaded itself.
\<close>

section \<open>The registered methods\<close>

type_synonym rpc_method = "localArgs \<Rightarrow> rpc_request \<Rightarrow> unit prog"

text \<open>
  \<^verbatim>\<open>module_init\<close>: the methods are registered when \<^verbatim>\<open>memhub_open\<close> returns 0, none when it returns an error;
  when it exits, or is undefined, there is no server to register with (\<open>None\<close>). \<^verbatim>\<open>rpctest\<close> does
  not open the service.
\<close>

definition module_init :: "open_outcome \<Rightarrow> (string \<times> rpc_method) list \<Rightarrow> (string \<times> rpc_method) list option" where
  "module_init opened methods = (case opened of
       Open_Returns r \<Rightarrow> Some (if r \<noteq> 0 then [] else methods)
     | _ \<Rightarrow> None)"

definition memory_methods :: "(string \<times> rpc_method) list" where
  "memory_methods =
    [(''read'', mread), (''write'', mwrite)]"

definition extras_methods :: "(string \<times> rpc_method) list" where
  "extras_methods =
    [(''fiforead'', mfiforead), (''blockread'', mblockread), (''listread'', mlistread),
     (''fifowrite'', mfifowrite), (''blockwrite'', mblockwrite), (''listwrite'', mlistwrite)]"

definition rpctest_methods :: "(string \<times> rpc_method) list" where
  "rpctest_methods =
    [(''rpcmsg_feature'', \<lambda>_. rpcmsg_feature)]"

text \<open>\<^verbatim>\<open>update_address_table\<close> acts on the data base, not on the device; its calls have a rule of their own below.\<close>

definition utils_methods :: "(string \<times> rpc_method) list" where
  "utils_methods =
    [(''readRegFromDB'', readRegFromDB)]"

definition gbt_methods :: "(string \<times> rpc_method) list" where
  "gbt_methods =
    [(''writeGBTConfig'', writeGBTConfig), (''writeGBTPhase'', writeGBTPhase),
     (''scanGBTPhases'', scanGBTPhases)]"

definition amc_methods :: "(string \<times> rpc_method) list" where
  "amc_methods =
    [(''getOHVFATMask'', getOHVFATMask), (''getOHVFATMaskMultiLink'', getOHVFATMaskMultiLink),
     (''sbitReadOut'', sbitReadOut), (''enableDAQLink'', enableDAQLink),
     (''disableDAQLink'', disableDAQLink), (''setZS'', setZS), (''resetDAQLink'', resetDAQLink),
     (''setDAQLinkInputTimeout'', setDAQLinkInputTimeout), (''setDAQLinkRunType'', setDAQLinkRunType),
     (''setDAQLinkRunParameter'', setDAQLinkRunParameter),
     (''setDAQLinkRunParameters'', setDAQLinkRunParameters), (''configureDAQModule'', configureDAQModule),
     (''enableDAQModule'', enableDAQModule), (''ttcModuleReset'', ttcModuleReset),
     (''ttcMMCMReset'', ttcMMCMReset), (''ttcMMCMPhaseShift'', ttcMMCMPhaseShift),
     (''checkPLLLock'', checkPLLLock), (''getMMCMPhaseMean'', getMMCMPhaseMean),
     (''getMMCMPhaseMedian'', getMMCMPhaseMedian), (''getGTHPhaseMean'', getGTHPhaseMean),
     (''getGTHPhaseMedian'', getGTHPhaseMedian), (''ttcCounterReset'', ttcCounterReset),
     (''getL1AEnable'', getL1AEnable), (''setL1AEnable'', setL1AEnable), (''getTTCConfig'', getTTCConfig),
     (''setTTCConfig'', setTTCConfig), (''getTTCStatus'', getTTCStatus),
     (''getTTCErrorCount'', getTTCErrorCount), (''getTTCCounter'', getTTCCounter),
     (''getL1AID'', getL1AID), (''getL1ARate'', getL1ARate), (''getTTCSpyBuffer'', getTTCSpyBuffer),
     (''writeConfRAM'', writeConfRAM), (''readConfRAM'', readConfRAM)]"

definition optohybrid_methods :: "(string \<times> rpc_method) list" where
  "optohybrid_methods =
    [(''broadcastRead'', broadcastRead), (''broadcastWrite'', broadcastWrite),
     (''configureScanModule'', configureScanModule), (''configureVFATs'', configureVFATs),
     (''getUltraScanResults'', getUltraScanResults), (''loadTRIMDAC'', loadTRIMDAC),
     (''loadVT1'', loadVT1), (''printScanConfiguration'', printScanConfiguration),
     (''startScanModule'', startScanModule), (''stopCalPulse2AllChannels'', stopCalPulse2AllChannels),
     (''statusOH'', statusOH)]"

definition vfat3_methods :: "reedmuller \<Rightarrow> (string \<times> rpc_method) list" where
  "vfat3_methods rm =
    [(''configureVFAT3s'', configureVFAT3s), (''configureVFAT3DacMonitor'', configureVFAT3DacMonitor),
     (''configureVFAT3DacMonitorMultiLink'', configureVFAT3DacMonitorMultiLink),
     (''getChannelRegistersVFAT3'', getChannelRegistersVFAT3), (''getVFAT3ChipIDs'', getVFAT3ChipIDs rm),
     (''readVFAT3ADC'', readVFAT3ADC), (''readVFAT3ADCMultiLink'', readVFAT3ADCMultiLink),
     (''setChannelRegistersVFAT3'', setChannelRegistersVFAT3), (''statusVFAT3s'', statusVFAT3s),
     (''vfatSyncCheck'', vfatSyncCheck)]"

definition daq_monitor_methods :: "(string \<times> rpc_method) list" where
  "daq_monitor_methods =
    [(''getmonTTCmain'', getmonTTCmain), (''getmonTRIGGERmain'', getmonTRIGGERmain),
     (''getmonTRIGGEROHmain'', getmonTRIGGEROHmain), (''getmonDAQmain'', getmonDAQmain),
     (''getmonDAQOHmain'', getmonDAQOHmain), (''getmonGBTLink'', getmonGBTLink),
     (''getmonOHLink'', getmonOHLink), (''getmonOHmain'', getmonOHmain),
     (''getmonOHSCAmain'', getmonOHSCAmain), (''getmonOHSysmon'', getmonOHSysmon),
     (''getmonSCA'', getmonSCA), (''getmonVFATLink'', getmonVFATLink)]"

definition calibration_routines_methods :: "(string \<times> rpc_method) list" where
  "calibration_routines_methods =
    [(''checkSbitMappingWithCalPulse'', checkSbitMappingWithCalPulse),
     (''checkSbitRateWithCalPulse'', checkSbitRateWithCalPulse), (''dacScan'', dacScan),
     (''dacScanMultiLink'', dacScanMultiLink), (''genScan'', genScan),
     (''genChannelScan'', genChannelScan), (''sbitRateScan'', sbitRateScan), (''ttcGenConf'', ttcGenConf),
     (''ttcGenToggle'', ttcGenToggle)]"

text \<open>All services with their methods; \<^verbatim>\<open>optical\<close> has its own theory.\<close>

definition services :: "reedmuller \<Rightarrow> (string \<times> (string \<times> rpc_method) list) list" where
  "services rm =
    [(''memory'', memory_methods), (''extras'', extras_methods), (''rpctest'', rpctest_methods), (''utils'', utils_methods),
     (''gbt'', gbt_methods), (''amc'', amc_methods), (''optohybrid'', optohybrid_methods), (''vfat3'', vfat3_methods rm),
     (''daq_monitor'', daq_monitor_methods), (''calibration_routines'', calibration_routines_methods)]"

section \<open>Methods that always return\<close>

text \<open>
  The methods that poll the device until it answers, or loop up to a value of the request. Every
  other method returns, whatever the request and the device.
\<close>

definition may_wait :: "(string \<times> string list) list" where
  "may_wait = [
    (''gbt'', [''scanGBTPhases'']),
    (''amc'', [''configureDAQModule'', ''sbitReadOut'', ''ttcMMCMPhaseShift'']),
    (''optohybrid'', [''broadcastWrite'', ''configureVFATs'', ''getUltraScanResults'', ''loadVT1'', ''stopCalPulse2AllChannels'']),
    (''calibration_routines'', [''checkSbitMappingWithCalPulse'', ''checkSbitRateWithCalPulse'', ''dacScan'', ''dacScanMultiLink'', ''genScan'', ''genChannelScan'', ''sbitRateScan''])]"

definition waits :: "string \<Rightarrow> string \<Rightarrow> bool" where
  "waits service name \<longleftrightarrow> (\<exists>ns. (service, ns) \<in> set may_wait \<and> name \<in> set ns)"

lemma returns_each [returning]: "returns (read_each la as data)" "returns (write_each la ps)"
proof -
  show "returns (read_each la as data)" by (induction as arbitrary: data) (auto simp: raw_error_def intro!: returning)
  show "returns (write_each la ps)" by (induction ps) (auto simp: raw_error_def intro!: returning)
qed

lemma returns_read_into [returning]: "returns (read_into la reg blob pos sz)"
  unfolding read_into_def by (auto intro!: returning)

lemma returns_ram_size [returning]: "returns (getRAMMaxSize la t)" "returns (checkBLOBSize la t sz)"
  unfolding checkBLOBSize_def getRAMMaxSize_def by (auto intro!: returning)

text \<open>The recursion of the two functions below is one level deep.\<close>

lemma returns_readConfRAM_one: "t \<noteq> BLASTER_ALL \<Longrightarrow> returns (readConfRAMLocal la t blob pos sz)"
  by (subst readConfRAMLocal.simps) (auto intro!: returning)

lemma returns_readConfRAMLocal [returning]: "returns (readConfRAMLocal la t blob pos sz)"
  by (subst readConfRAMLocal.simps) (auto intro!: returning returns_readConfRAM_one simp: blaster_types)

lemma returns_writeBlast [returning]:
  "returns (writeGBTConfRAMLocal la b n m)" "returns (writeOptoHybridConfRAMLocal la b n m)" "returns (writeVFATConfRAMLocal la b n m)"
  unfolding writeGBTConfRAMLocal_def writeOptoHybridConfRAMLocal_def writeVFATConfRAMLocal_def write_masked_def
  by (auto intro!: returning)

lemma returns_writeConfRAM_one: "t \<noteq> BLASTER_ALL \<Longrightarrow> returns (writeConfRAMLocal la t blob sz)"
  by (subst writeConfRAMLocal.simps) (auto simp: write_one_ram_def Let_def intro!: returning)

lemma returns_writeConfRAMLocal [returning]: "returns (writeConfRAMLocal la t blob sz)"
  by (subst writeConfRAMLocal.simps)
    (auto simp: write_one_ram_def Let_def blaster_types intro!: returning returns_writeConfRAM_one)

lemmas raw_code =
  mread_def raw_error_def mwrite_def mfiforead_def mblockread_def mlistread_def mfifowrite_def
  mblockwrite_def mlistwrite_def rpcmsg_feature_def set_binarydata_def set_string_array_def
  readRegFromDB_def Let_def

lemma returns_raw [returning]:
  "returns (mread la rq)" "returns (mwrite la rq)" "returns (mfiforead la rq)" "returns (mblockread la rq)"
  "returns (mlistread la rq)" "returns (mfifowrite la rq)" "returns (mblockwrite la rq)"
  "returns (mlistwrite la rq)" "returns (rpcmsg_feature rq)" "returns (readRegFromDB la rq)"
  unfolding raw_code by (auto intro!: returning split: list.split)

lemmas gbt_code =
  writeGBTConfig_def writeGBTConfigLocal_def writeGBTPhase_def Let_def

lemma returns_gbt [returning]:
  "returns (writeGBTConfig la rq)" "returns (writeGBTPhase la rq)"
  unfolding gbt_code by (auto intro!: returning split: list.split)

lemmas oh_masks_code =
  getOHVFATMask_def getOHVFATMaskLocal_def getOHVFATMaskMultiLink_def requested_NOH_def
  requested_ohMask_def Let_def

lemma returns_oh_masks [returning]:
  "returns (getOHVFATMask la rq)" "returns (getOHVFATMaskMultiLink la rq)"
  unfolding oh_masks_code by (auto intro!: returning split: list.split)

lemmas daq_code =
  enableDAQLink_def enableDAQLinkLocal_def disableDAQLink_def disableDAQLinkLocal_def setZS_def
  setZSLocal_def resetDAQLink_def resetDAQLinkLocal_def setDAQLinkInputTimeoutLocal_def
  setDAQLinkInputTimeout_def setDAQLinkRunType_def setDAQLinkRunTypeLocal_def setDAQLinkRunParameter_def
  setDAQLinkRunParameterLocal_def setDAQLinkRunParameters_def setDAQLinkRunParametersLocal_def
  enableDAQModule_def setL1AEnableLocal_def ttcModuleResetLocal_def Let_def

lemma returns_daq [returning]:
  "returns (enableDAQLink la rq)" "returns (disableDAQLink la rq)" "returns (setZS la rq)"
  "returns (resetDAQLink la rq)" "returns (setDAQLinkInputTimeout la rq)"
  "returns (setDAQLinkRunType la rq)" "returns (setDAQLinkRunParameter la rq)"
  "returns (setDAQLinkRunParameters la rq)" "returns (enableDAQModule la rq)"
  unfolding daq_code by (auto intro!: returning split: list.split)

lemmas ttc_code =
  ttcModuleReset_def ttcModuleResetLocal_def ttcMMCMReset_def ttcMMCMResetLocal_def checkPLLLock_def
  checkPLLLockLocal_def getMMCMPhaseMean_def getMMCMPhaseMeanLocal_def phase_mean_def
  getMMCMPhaseMedian_def getMMCMPhaseMedianLocal_def getGTHPhaseMean_def getGTHPhaseMeanLocal_def
  getGTHPhaseMedian_def getGTHPhaseMedianLocal_def ttcCounterReset_def ttcCounterResetLocal_def
  getL1AEnable_def getL1AEnableLocal_def answer_bool_def setL1AEnable_def setL1AEnableLocal_def
  getTTCConfig_def getTTCConfigLocal_def answer_def setTTCConfig_def setTTCConfigLocal_def getTTCStatus_def
  getTTCStatusLocal_def getTTCErrorCount_def getTTCErrorCountLocal_def getTTCCounter_def
  getTTCCounterLocal_def getL1AID_def getL1AIDLocal_def getL1ARate_def getL1ARateLocal_def
  getTTCSpyBuffer_def getTTCSpyBufferLocal_def Let_def

lemma returns_ttc [returning]:
  "returns (ttcModuleReset la rq)" "returns (ttcMMCMReset la rq)" "returns (checkPLLLock la rq)"
  "returns (getMMCMPhaseMean la rq)" "returns (getMMCMPhaseMedian la rq)" "returns (getGTHPhaseMean la rq)"
  "returns (getGTHPhaseMedian la rq)" "returns (ttcCounterReset la rq)" "returns (getL1AEnable la rq)"
  "returns (setL1AEnable la rq)" "returns (getTTCConfig la rq)" "returns (setTTCConfig la rq)"
  "returns (getTTCStatus la rq)" "returns (getTTCErrorCount la rq)" "returns (getTTCCounter la rq)"
  "returns (getL1AID la rq)" "returns (getL1ARate la rq)" "returns (getTTCSpyBuffer la rq)"
  unfolding ttc_code by (auto intro!: returning split: list.split)

lemmas ram_code =
  writeConfRAM_def getRAMMaxSize_def write_one_ram_def writeVFATConfRAMLocal_def write_masked_def
  writeOptoHybridConfRAMLocal_def writeGBTConfRAMLocal_def checkBLOBSize_def readConfRAM_def
  set_binarydata_def read_into_def Let_def

lemma returns_ram [returning]:
  "returns (writeConfRAM la rq)" "returns (readConfRAM la rq)"
  unfolding ram_code by (auto intro!: returning split: list.split)

lemmas optohybrid_code =
  broadcastRead_def broadcastReadLocal_def broadcast_mask_def configureScanModule_def
  configureScanModuleLocal_def loadTRIMDAC_def loadTRIMDACLocal_def printScanConfiguration_def
  printScanConfigurationLocal_def startScanModule_def startScanModuleLocal_def statusOH_def
  statusOHLocal_def Let_def

lemma returns_optohybrid [returning]:
  "returns (broadcastRead la rq)" "returns (configureScanModule la rq)" "returns (loadTRIMDAC la rq)"
  "returns (printScanConfiguration la rq)" "returns (startScanModule la rq)" "returns (statusOH la rq)"
  unfolding optohybrid_code by (auto intro!: returning split: list.split)

lemmas vfat3_code =
  configureVFAT3s_def configureVFAT3sLocal_def vfatSyncCheckLocal_def configureVFAT3DacMonitor_def
  configureVFAT3DacMonitorLocal_def broadcastReadLocal_def configureVFAT3DacMonitorMultiLink_def
  getOHVFATMaskLocal_def requested_NOH_def getChannelRegistersVFAT3_def getChannelRegistersVFAT3Local_def
  read_channel_def each_channel_def getVFAT3ChipIDs_def getVFAT3ChipIDsLocal_def decodeChipID_def
  readVFAT3ADC_def readVFAT3ADCLocal_def readVFAT3ADCMultiLink_def copy_at_def setChannelRegistersVFAT3_def
  setChannelRegistersVFAT3Local_def set_channel_def channel_array_def
  setChannelRegistersVFAT3SimpleLocal_def write_channel_def statusVFAT3s_def statusVFAT3sLocal_def
  vfatSyncCheck_def Let_def

lemma returns_vfat3 [returning]:
  "returns (configureVFAT3s la rq)" "returns (configureVFAT3DacMonitor la rq)"
  "returns (configureVFAT3DacMonitorMultiLink la rq)" "returns (getChannelRegistersVFAT3 la rq)"
  "returns (getVFAT3ChipIDs rm la rq)" "returns (readVFAT3ADC la rq)"
  "returns (readVFAT3ADCMultiLink la rq)" "returns (setChannelRegistersVFAT3 la rq)"
  "returns (statusVFAT3s la rq)" "returns (vfatSyncCheck la rq)"
  unfolding vfat3_code by (auto intro!: returning split: list.split)

lemmas daq_monitor_code =
  getmonTTCmain_def getmonTTCmainLocal_def report_def getmonTRIGGERmain_def getmonTRIGGERmainLocal_def
  local_NOH_def monitored_def requested_ohMask_def getmonTRIGGEROHmain_def getmonTRIGGEROHmainLocal_def
  report_oh_def getmonDAQmain_def getmonDAQmainLocal_def getmonDAQOHmain_def getmonDAQOHmainLocal_def
  getmonGBTLink_def getmonGBTLinkLocal_def monitored_links_def optional_word_def getmonOHLink_def
  getmonVFATLinkLocal_def vfat_link_def getmonOHmain_def getmonOHmainLocal_def fw_version_def
  read_version_def fw_version_check_def getmonOHSCAmain_def getmonOHSCAmainLocal_def getmonOHSysmon_def
  getmonOHSysmonLocal_def sysmon_v2_def report_adc_def sysmon_v3_def getmonSCA_def getmonSCALocal_def
  getmonVFATLink_def Let_def

lemma returns_daq_monitor [returning]:
  "returns (getmonTTCmain la rq)" "returns (getmonTRIGGERmain la rq)" "returns (getmonTRIGGEROHmain la rq)"
  "returns (getmonDAQmain la rq)" "returns (getmonDAQOHmain la rq)" "returns (getmonGBTLink la rq)"
  "returns (getmonOHLink la rq)" "returns (getmonOHmain la rq)" "returns (getmonOHSCAmain la rq)"
  "returns (getmonOHSysmon la rq)" "returns (getmonSCA la rq)" "returns (getmonVFATLink la rq)"
  unfolding daq_monitor_code by (auto intro!: returning split: list.split)

lemmas calibration_code =
  ttcGenConf_def ttcGenConfLocal_def ttcGenToggleLocal_def fw_version_check_def t1_set_def ttcGenToggle_def
  Let_def

lemma returns_calibration [returning]:
  "returns (ttcGenConf la rq)" "returns (ttcGenToggle la rq)"
  unfolding calibration_code by (auto intro!: returning split: list.split)

text \<open>A table of methods whose members return, those with a name in \<open>ns\<close> left aside.\<close>

definition settled :: "string list \<Rightarrow> (string \<times> rpc_method) list \<Rightarrow> bool" where
  "settled ns methods \<longleftrightarrow> (\<forall>(name, f) \<in> set methods. name \<in> set ns \<or> (\<forall>la rq. returns (f la rq)))"

lemma memory_return: "settled [] memory_methods"
  by (simp add: settled_def memory_methods_def returns_raw)

lemma extras_return: "settled [] extras_methods"
  by (simp add: settled_def extras_methods_def returns_raw)

lemma rpctest_return: "settled [] rpctest_methods"
  by (simp add: settled_def rpctest_methods_def returns_raw)

lemma utils_return: "settled [] utils_methods"
  by (simp add: settled_def utils_methods_def returns_raw)

lemma gbt_return: "settled [''scanGBTPhases''] gbt_methods"
  by (simp add: settled_def gbt_methods_def returns_gbt)

lemma amc_return: "settled [''configureDAQModule'', ''sbitReadOut'', ''ttcMMCMPhaseShift''] amc_methods"
  by (simp add: settled_def amc_methods_def returns_oh_masks returns_daq returns_ttc returns_ram)

lemma optohybrid_return: "settled [''broadcastWrite'', ''configureVFATs'', ''getUltraScanResults'', ''loadVT1'', ''stopCalPulse2AllChannels''] optohybrid_methods"
  by (simp add: settled_def optohybrid_methods_def returns_optohybrid)

lemma vfat3_return: "settled [] (vfat3_methods rm)"
  by (simp add: settled_def vfat3_methods_def returns_vfat3)

lemma daq_monitor_return: "settled [] daq_monitor_methods"
  by (simp add: settled_def daq_monitor_methods_def returns_daq_monitor)

lemma calibration_routines_return: "settled [''checkSbitMappingWithCalPulse'', ''checkSbitRateWithCalPulse'', ''dacScan'', ''dacScanMultiLink'', ''genScan'', ''genChannelScan'', ''sbitRateScan''] calibration_routines_methods"
  by (simp add: settled_def calibration_routines_methods_def returns_calibration)

text \<open>
  Methods that always return: every registered method that is not in the list above ends, normally or with an exception,
  for every request, every address table and every behaviour of the device.
\<close>

lemma services_return:
  assumes "(service, methods) \<in> set (services rm)" "(name, f) \<in> set methods" "\<not> waits service name"
  shows "returns (f la rq)"
proof -
  have "list_all (\<lambda>(s, ms). settled (concat (map snd (filter (\<lambda>p. fst p = s) may_wait))) ms) (services rm)"
    by (simp add: services_def may_wait_def memory_return extras_return rpctest_return utils_return gbt_return amc_return optohybrid_return
      vfat3_return daq_monitor_return calibration_routines_return)
  then have "settled (concat (map snd (filter (\<lambda>p. fst p = service) may_wait))) methods"
    using assms(1) by (auto simp: list_all_iff)
  then show ?thesis using assms(2,3) by (force simp: settled_def waits_def)
qed

text \<open>A request with every key, for the examples.\<close>

definition full_request :: rpc_request where
  "full_request = \<lparr>rq_exists = (\<lambda>k. True), rq_word = (\<lambda>k. Inr 1), rq_words = (\<lambda>k. Inr [1]),
     rq_string = (\<lambda>k. Inr ''A''), rq_strings = (\<lambda>k. Inr []), rq_bin = (\<lambda>k. Inr [])\<rparr>"

end
