(* ===== verification/Waiting.thy ===== *)
theory Waiting
  imports Polling RpcService
begin

text \<open>
  When the methods that wait return: for each of them what it waits for, as a condition on the board and on
  the request, and the proof that under this condition it returns from every state. The loops
  themselves are instances of the interface of \<open>Polling\<close>.
\<close>

section \<open>Programs that return, with the values at hand\<close>

lemma returns_bind_val:
  assumes "returns m" "\<And>x s t. m s = Some (Val x, t) \<Longrightarrow> returns (k x)"
  shows "returns (bindM m k)"
proof (rule returnsI)
  fix s
  obtain r t where m: "m s = Some (r, t)" using returnsD [OF assms(1)] by blast
  show "\<exists>r t. bindM m k s = Some (r, t)"
  proof (cases r)
    case (Val x)
    then show ?thesis using m returnsD [OF assms(2)] by (simp add: bindM_Val)
  qed (use m in \<open>simp add: bindM_Abort\<close>)
qed

lemma returns_get_word: "(\<And>w. rq_word rq k = Inr w \<Longrightarrow> returns (f w)) \<Longrightarrow> returns (bindM (get_word rq k) f)"
  by (cases "rq_word rq k") (simp_all add: get_word_def liftE_def returns_abort)

lemma returns_scan_array:
  "(\<And>xs. st \<noteq> 0 \<Longrightarrow> returns (f xs)) \<Longrightarrow> returns (bindM (scan_array la n lo hi st) f)"
  by (simp add: scan_array_def returns_abort)

section \<open>What the board shows\<close>

text \<open>A register that always reads as a value with \<open>P\<close>; as the value \<open>v\<close>, the version of the firmware say.\<close>

definition always_shows :: "localArgs \<Rightarrow> string \<Rightarrow> (u32 \<Rightarrow> bool) \<Rightarrow> bool" where
  "always_shows la r P \<longleftrightarrow> (\<exists>n. has_node la r n \<and> CHR ''r'' \<in> set (permission n)
     \<and> (\<forall>h. shows_at la (real_address n) (\<lambda>w. P (applyMask w (node_mask n))) h))"

definition always_reads :: "localArgs \<Rightarrow> string \<Rightarrow> u32 \<Rightarrow> bool" where
  "always_reads la r v \<longleftrightarrow> always_shows la r (\<lambda>w. w = v)"

lemma always_shows_run: "always_shows la r P \<Longrightarrow> readReg la r s = Some (Val w, t) \<Longrightarrow> P w"
  unfolding always_shows_def by (metis readReg_shows [where P = P])

lemma always_reads_run: "always_reads la r v \<Longrightarrow> readReg la r s = Some (Val w, t) \<Longrightarrow> w = v"
  unfolding always_reads_def by (rule always_shows_run [where P = "\<lambda>w. w = v"])

definition broadcasts_end :: "localArgs \<Rightarrow> nat \<Rightarrow> bool" where
  "broadcasts_end la K \<longleftrightarrow> wf_db la \<and>
     (\<forall>ohN n. has_node la (oh_base ohN @ ''.GEB.Broadcast.Running'') n \<longrightarrow> settles la K (real_address n) (\<lambda>w. w = 0))"

lemma returns_broadcast:
  assumes "broadcasts_end la K"
  shows "returns (broadcastWriteLocal la ohN r v m)"
proof -
  have "returns (broadcast_wait la (oh_base ohN @ ''.GEB.Broadcast'' @ ''.Running''))"
    using assms unfolding broadcasts_end_def by (intro returns_broadcast_wait [where K = K]) auto
  then show ?thesis unfolding broadcastWriteLocal_def Let_def by (auto intro!: returning)
qed

section \<open>The phase shift\<close>

lemma decide_gth: "gthShiftCnt (fst (decide relock bc0 scan b n ps)) = gthShiftCnt ps"
  by (auto simp: decide_def decide_bc0_def decide_pll_def count_locks_def seek_best_def restart_scan_def Let_def)

lemma next_gth_small: "c < 40 \<Longrightarrow> next_gth back c < 40"
  unfolding next_gth_def by (auto, uint_arith+)

lemma mmcm_step_gth: "mmcm_step la ps s = Some (Val ps', t) \<Longrightarrow> gthShiftCnt ps' = gthShiftCnt ps"
  by (auto simp: mmcm_step_def Let_def ret_def abortM_def split: if_splits elim!: bindM_ValE)

lemma returns_mmcm_step [returning]: "returns (mmcm_step la ps)"
  unfolding mmcm_step_def Let_def by (intro returning)

lemma returns_checkPLLLockLocal [returning]: "returns (checkPLLLockLocal la n)"
  unfolding checkPLLLockLocal_def by (intro returning)

lemma shift_turn_small:
  assumes "shifts_round la K" "gthShiftCnt ps < 40"
  shows "returns (shift_turn la relock bc0 scan n ps)"
    and "shift_turn la relock bc0 scan n ps s = Some (Val (ps', brk), t) \<Longrightarrow> gthShiftCnt ps' < 40"
proof -
  note small = next_gth_small [OF assms(2), of "reversingForLock ps"]
  show "returns (shift_turn la relock bc0 scan n ps)"
    unfolding shift_turn_def shift_look_def Let_def
    by (intro returning returns_gth_wait [OF assms(1)]) (simp_all add: small)
  show "gthShiftCnt ps' < 40" if run: "shift_turn la relock bc0 scan n ps s = Some (Val (ps', brk), t)"
  proof -
    obtain ps2 a b c d where "mmcm_step la (ps\<lparr>gthShiftCnt := next_gth (reversingForLock ps) (gthShiftCnt ps)\<rparr>) a = Some (Val ps2, b)"
      "ps' = fst (decide relock bc0 scan c d ps2)"
      using run unfolding shift_turn_def shift_look_def thenM_def Let_def by (auto simp: ret_def split_beta elim!: bindM_ValE)
    then show ?thesis using small by (auto simp: decide_gth dest: mmcm_step_gth)
  qed
qed

lemma returns_shift_turns:
  assumes "shifts_round la K"
  shows "gthShiftCnt ps < 40 \<Longrightarrow> returns (shift_turns k la relock bc0 scan n ps)"
proof (induction k arbitrary: ps)
  case 0
  then show ?case by (simp add: returns_ret)
next
  case (Suc k)
  show ?case
    unfolding shift_turns.simps
  proof (rule returns_bind_val [OF shift_turn_small(1) [OF assms Suc.prems]])
    fix x s t
    assume run: "shift_turn la relock bc0 scan n ps s = Some (Val x, t)"
    obtain ps' brk where x: "x = (ps', brk)" by (cases x)
    have "gthShiftCnt (count_shift ps') < 40"
      using shift_turn_small(2) [OF assms Suc.prems run [unfolded x]] by (simp add: count_shift_def)
    from Suc.IH [OF this] show "returns (case x of (ps', brk) \<Rightarrow> if brk then ret ps'
        else shift_turns k la relock bc0 scan n (count_shift ps'))" by (simp add: x returns_ret)
  qed
qed

lemma returns_phase_shift:
  assumes "shifts_round la K"
  shows "returns (ttcMMCMPhaseShiftLocal la relock bc0 scan)"
proof -
  have gth: "returns (bindM (readReg la gth_shift_cnt) k)" if "\<And>c. c < 40 \<Longrightarrow> returns (k c)" for k :: "u32 \<Rightarrow> unit prog"
  proof (rule returns_bind_val [OF returns_access(1)])
    fix c s t
    assume "readReg la gth_shift_cnt s = Some (Val c, t)"
    then have "c < 40" using assms unfolding shifts_round_def by (metis readReg_shows [where P = "\<lambda>x. x < 40"])
    then show "returns (k c)" by (rule that)
  qed
  have search: "returns (bindM (shift_turns (max_shift scan) la relock bc0 scan (read_attempts bc0 scan) (start_search mmcm c)) (finish_search la))"
    if "c < 40" for mmcm c
    using that by (intro returns_bind returns_shift_turns [OF assms]) (auto simp: start_search_def finish_search_def intro!: returning)
  have each: "returns (write_readback la r)" for r unfolding write_readback_def by (intro returning)
  show ?thesis
    unfolding ttcMMCMPhaseShiftLocal_def
    by (intro returns_bind returns_loop returns_case_option returns_if returns_ret each gth search returns_access returns_primitive returns_checkPLLLockLocal)
qed


section \<open>Scans\<close>

text \<open>The parameters of a request, with which the counter of a scan does not wrap around.\<close>

definition steps_fit :: "rpc_request \<Rightarrow> bool" where
  "steps_fit rq \<longleftrightarrow> (\<forall>hi st. rq_word rq ''dacMax'' = Inr hi \<longrightarrow> rq_word rq ''dacStep'' = Inr st \<longrightarrow> unat hi + unat st < 2 ^ 32)"

definition scan_ready :: "localArgs \<Rightarrow> nat \<Rightarrow> u32 \<Rightarrow> bool" where
  "scan_ready la K ohN \<longleftrightarrow> settles_reg la K (scan_base ohN True @ ''.MONITOR.STATUS'') (\<lambda>v. v = 0)"

lemma returns_ultra_dac [returning]: "returns (ultra_dac la ohN lo hi st d x)"
  unfolding ultra_dac_def by (intro returning)

lemma returns_getUltraScanResultsLocal:
  assumes "scan_ready la K ohN" "st \<noteq> 0" "unat hi + unat st < 2 ^ 32"
  shows "returns (getUltraScanResultsLocal la d ohN nevts lo hi st)"
  unfolding getUltraScanResultsLocal_def Let_def
  using assms by (auto intro!: returning returns_ultra_wait for_step_returns simp: scan_ready_def)

lemma returns_getUltraScanResults:
  assumes "steps_fit rq" "\<And>ohN. rq_word rq ''ohN'' = Inr ohN \<Longrightarrow> scan_ready la K ohN"
  shows "returns (getUltraScanResults la rq)"
  unfolding getUltraScanResults_def
  using assms by (auto intro!: returns_get_word returns_scan_array returns_getUltraScanResultsLocal [where K = K]
      returning simp: steps_fit_def)

lemma returns_stop [returning]: "returns (stop_v1 la ohN i c x)" "returns (stop_v3 la ohN i c x)"
  unfolding stop_v1_def stop_v3_def by (intro returning)+

lemma returns_stopCalPulse2AllChannels:
  assumes "rq_word rq ''ch_max'' \<noteq> Inr (- 1)"
  shows "returns (stopCalPulse2AllChannels la rq)"
proof -
  have "unat w + 1 < 2 ^ 32" if "w \<noteq> (- 1 :: u32)" for w
  proof -
    have "w < - 1" using that word_order.not_eq_extremum by blast
    then show ?thesis by (simp add: word_less_nat_alt unsigned_minus_1_eq_mask mask_eq_exp_minus_1)
  qed
  then show ?thesis
    using assms unfolding stopCalPulse2AllChannels_def stopCalPulse2AllChannelsLocal_def
    by (auto intro!: returns_get_word returning for_step_returns)
qed

text \<open>With external triggers the counter of the TTC must come to the number of events asked for.\<close>

definition triggers_come :: "localArgs \<Rightarrow> nat \<Rightarrow> u32 \<Rightarrow> bool" where
  "triggers_come la K nevts \<longleftrightarrow>
     (\<exists>n. has_node la ''GEM_AMC.TTC.CMD_COUNTERS.L1A'' n \<and> settles la K (real_address n) (\<lambda>w. nevts \<le> w))"

definition scan_waits :: "localArgs \<Rightarrow> nat \<Rightarrow> u32 \<Rightarrow> u32 \<Rightarrow> bool \<Rightarrow> bool" where
  "scan_waits la K ohN nevts useExtTrig \<longleftrightarrow>
     (always_reads la release_major 3 \<or> scan_ready la K ohN) \<and>
     (always_reads la release_major 1 \<or>
        (if useExtTrig then triggers_come la K nevts else settles_reg la K (ttc_gen @ ''CYCLIC_RUNNING'') (\<lambda>v. v = 0)))"

lemma returns_getAddress:
  assumes "\<And>a. (\<And>n. has_node la r n \<Longrightarrow> a = real_address n) \<Longrightarrow> returns (k a)"
  shows "returns (bindM (getAddress la r) k)"
proof (rule returns_bind_val [OF returns_access(8)])
  fix a s t
  assume "getAddress la r s = Some (Val a, t)"
  then have "a = real_address n" if "has_node la r n" for n
    using that has_node_wf [OF that] by (simp add: getAddress_def db_text_node node_simps ret_def)
  then show "returns (k a)" by (rule assms)
qed

lemma returns_scan_result [returning]: "returns (scan_result la ohN m lo hi st reg as d i x)"
  unfolding scan_result_def by (intro returning)

lemma returns_scan_triggers:
  assumes "if ext then settles la K a (\<lambda>w. nevts \<le> w) else settles_reg la K (ttc_gen @ ''CYCLIC_RUNNING'') (\<lambda>v. v = 0)"
  shows "returns (scan_triggers la ext a nevts)"
  unfolding scan_triggers_def using assms
  by (auto intro!: returning returns_l1a_wait [where K = K] returns_cyclic_wait [where K = K])

lemma returns_cal_setup [returning]:
  "returns (confCalPulseLocal la ohN vm ch on cp fs)" "returns (checked_vfats la ohN vm cp fs)" "returns (fw_version_check la)"
  "returns (dacMonConfLocal la ohN ch)" "returns (configureScanModuleLocal la ohN v md u vm ch ne lo hi st)"
  "returns (printScanConfigurationLocal la ohN u)" "returns (startScanModuleLocal la ohN u)" "returns (trim_pulse la ohN m ch p)"
  "returns (vfatSyncCheckLocal la ohN)" "returns (ttcGenToggleLocal la ohN on)" "returns (ttcGenConfLocal la ohN md ty pd li np on)"
  unfolding confCalPulseLocal_def checked_vfats_def fw_version_check_def dacMonConfLocal_def configureScanModuleLocal_def
    printScanConfigurationLocal_def startScanModuleLocal_def trim_pulse_def vfatSyncCheckLocal_def ttcGenToggleLocal_def
    ttcGenConfLocal_def t1_set_def Let_def
  by (auto intro!: returning)

lemma returns_gen_scan_v3:
  assumes "if ext then triggers_come la K nevts else settles_reg la K (ttc_gen @ ''CYCLIC_RUNNING'') (\<lambda>v. v = 0)"
    and "st \<noteq> 0" "unat hi + unat st < 2 ^ 32"
  shows "returns (gen_scan_v3 la d ohN vm ch cal cp fs nevts lo hi st reg ext)"
proof -
  have dac: "returns (scan_dac la ohN m nevts lo hi st reg ext a as v x)"
    if "\<And>n. has_node la ''GEM_AMC.TTC.CMD_COUNTERS.L1A'' n \<Longrightarrow> a = real_address n" for m a as v x
  proof -
    have "returns (scan_triggers la ext a nevts)"
      using assms(1) that by (intro returns_scan_triggers [where K = K]) (auto simp: triggers_come_def)
    then show ?thesis unfolding scan_dac_def by (auto intro!: returning)
  qed
  have loop: "returns (for_step hi st (scan_dac la ohN m nevts lo hi st reg ext a as) lo d)"
    if "\<And>n. has_node la ''GEM_AMC.TTC.CMD_COUNTERS.L1A'' n \<Longrightarrow> a = real_address n" for m a as
    using assms(2,3) dac [OF that] by (intro for_step_returns) simp_all
  show ?thesis
    unfolding gen_scan_v3_def by (auto intro!: returning returns_getAddress loop)
qed

lemma returns_genScanLocal:
  assumes "scan_waits la K ohN nevts ext" "st \<noteq> 0" "unat hi + unat st < 2 ^ 32"
  shows "returns (genScanLocal la d ohN vm ch cal cp fs nevts lo hi st reg ultra ext)"
proof -
  have fw: "w = v" if "always_reads la release_major v" "fw_version_check la s = Some (Val w, t)" for v w s t
    using that(2) always_reads_run [OF that(1)]
    by (auto simp: fw_version_check_def thenM_def ret_def split: if_splits elim!: bindM_ValE)
  show ?thesis
    unfolding genScanLocal_def
  proof (rule returns_bind_val)
    show "returns (fw_version_check la)" by (rule returns_cal_setup)
    fix w s t
    assume run: "fw_version_check la s = Some (Val w, t)"
    have v3: "w = 3 \<Longrightarrow> returns (gen_scan_v3 la d ohN vm ch cal cp fs nevts lo hi st reg ext)"
      using fw [OF _ run, of 1] assms(1) by (intro returns_gen_scan_v3 [where K = K] assms(2,3)) (auto simp: scan_waits_def)
    have v1: "w = 1 \<Longrightarrow> returns (gen_scan_v1 la d ohN vm ch cal nevts lo hi st reg ultra)"
      using fw [OF _ run, of 3] assms(1) unfolding gen_scan_v1_def Let_def
      by (auto intro!: returning returns_getUltraScanResultsLocal [where K = K] assms(2,3) simp: scan_waits_def)
    show "returns (if w = 3 then gen_scan_v3 la d ohN vm ch cal cp fs nevts lo hi st reg ext
        else if w = 1 then gen_scan_v1 la d ohN vm ch cal nevts lo hi st reg ultra else ret d)"
      using v1 v3 by (simp add: returns_ret)
  qed
qed

text \<open>What a scan request waits for.\<close>

definition scan_request_waits :: "localArgs \<Rightarrow> nat \<Rightarrow> rpc_request \<Rightarrow> bool" where
  "scan_request_waits la K rq \<longleftrightarrow> steps_fit rq \<and>
     (\<forall>ohN nevts ext. rq_word rq ''ohN'' = Inr ohN \<longrightarrow> rq_word rq ''nevts'' = Inr nevts \<longrightarrow> rq_word rq ''useExtTrig'' = Inr ext \<longrightarrow>
        scan_waits la K ohN nevts (ext \<noteq> 0))"

lemma returns_genScan:
  assumes "scan_request_waits la K rq"
  shows "returns (genScan la rq)"
  unfolding genScan_def
  using assms by (auto intro!: returns_get_word returns_scan_array returns_genScanLocal [where K = K]
      returning simp: scan_request_waits_def steps_fit_def)

lemma returns_genChannelScan:
  assumes "scan_request_waits la K rq"
  shows "returns (genChannelScan la rq)"
proof -
  have each: "returns (scan_channel la ohN vm cal cp fs nevts lo hi st reg ultra ext ch d)"
    if "scan_waits la K ohN nevts ext" "st \<noteq> 0" "unat hi + unat st < 2 ^ 32" for ohN vm cal cp fs nevts lo hi st reg ultra ext ch d
    using that unfolding scan_channel_def Let_def by (auto intro!: returning returns_genScanLocal [where K = K])
  show ?thesis
    unfolding genChannelScan_def
    using assms by (auto intro!: returns_get_word returns_scan_array each returning simp: scan_request_waits_def steps_fit_def)
qed


lemma returns_rate_scan_steps [returning]:
  "returns (sprintf_200 x)" "returns (setSingleChanMask ohN v ch la)" "returns (applyChanMask m la)"
  "returns (rate_slot o1 v1 lo hi st d)" "returns (getOHVFATMaskLocal la ohN)"
  unfolding sprintf_200_def setSingleChanMask_def applyChanMask_def rate_slot_def getOHVFATMaskLocal_def Let_def
  by (auto intro!: returning)

lemma returns_rate_steps [returning]:
  "returns (read_rates la nm lo hi st d as o1 x)" "returns (prepare_oh la ch n)" "returns (rate_addresses la n)" "returns (set_persist la n)"
  unfolding read_rates_def prepare_oh_def rate_addresses_def set_persist_def by (auto intro!: returning)

lemma returns_sbit_rates_dac [returning]: "returns (sbit_rates_dac la ohs nm lo hi st reg as d x)"
  unfolding sbit_rates_dac_def by (auto intro!: returning)

lemma returns_sbitRateScan:
  assumes "steps_fit rq"
  shows "returns (sbitRateScan la rq)"
  unfolding sbitRateScan_def sbitRateScanParallelLocal_def Let_def
  using assms by (auto intro!: returns_get_word returns_scan_array returning for_step_returns simp: steps_fit_def)

section \<open>Checks with calibration pulses\<close>

lemma returns_channels [returning]:
  "returns (getChannelRegistersVFAT3Local la ohN m d)" "returns (setChannelRegistersVFAT3SimpleLocal la ohN m d)"
  unfolding getChannelRegistersVFAT3Local_def setChannelRegistersVFAT3SimpleLocal_def each_channel_def read_channel_def
    write_channel_def
  by (auto intro!: returning)

lemma returns_pulse_all:
  "(\<And>c x. returns (body c x)) \<Longrightarrow> returns (pulse_all la ohN v m d (pulse_channel la ohN v cal cp fs body) a)"
  unfolding pulse_all_def pulse_channel_def by (auto intro!: returning)

lemma returns_prepare_check [returning]: "returns (prepare_check la c ohN m cp fs)"
  unfolding prepare_check_def by (auto intro!: returning)

lemma returns_pulses [returning]:
  "returns (mapping_pulses la v cal ne pd a1 a2 cs c x)" "returns (rate_pulse la ohN v wt li pd as a1 a2 a3 a4 c y)"
  unfolding mapping_pulses_def rate_pulse_def by (auto intro!: returning)

lemma returns_checks:
  assumes "broadcasts_end la K"
  shows "returns (checkSbitMappingWithCalPulse la rq)" "returns (checkSbitRateWithCalPulse la rq)"
  unfolding checkSbitMappingWithCalPulse_def checkSbitMappingWithCalPulseLocal_def
    checkSbitRateWithCalPulse_def checkSbitRateWithCalPulseLocal_def
  by (auto intro!: returning returns_broadcast [OF assms] returns_pulse_all)

section \<open>DAC scans\<close>

text \<open>The largest value of a DAC is below 256, so that only a step near \<open>2 ^ 32\<close> can make the counter wrap around.\<close>

definition dac_step_fits :: "rpc_request \<Rightarrow> bool" where
  "dac_step_fits rq \<longleftrightarrow> (\<forall>st. rq_word rq ''dacStep'' = Inr st \<longrightarrow> unat st + 255 < 2 ^ 32)"

lemma returns_dac_steps [returning]:
  "returns (find_adc la ohN m ref v acc)" "returns (dac_step la ohN m reg lo hi st adc d x)"
  "returns (configureVFAT3DacMonitorLocal la ohN m sel)" "returns (masked_words sel st)"
  unfolding find_adc_def dac_step_def dac_step_vfat_def adc_average_def configureVFAT3DacMonitorLocal_def broadcastReadLocal_def
    masked_words_def Let_def
  by (auto intro!: returning)

lemma returns_dac_results: "(\<And>xs. st \<noteq> 0 \<Longrightarrow> returns (f xs)) \<Longrightarrow> returns (bindM (dac_results lo hi st) f)"
  by (simp add: dac_results_def returns_abort)

lemma returns_dacScanLocal:
  assumes "broadcasts_end la K" "unat st + 255 < 2 ^ 32"
  shows "returns (dacScanLocal la ohN sel st m ref)"
proof -
  have loop: "returns (for_step hi st (dac_step la ohN nm reg lo hi st adc) lo d)"
    if "map_of map_dacInfo sel = Some (reg, lo, hi)" "st \<noteq> 0" for reg lo hi nm adc d
    using dac_ranges(2) [OF that(1)] that(2) assms(2) by (intro for_step_returns returning) simp_all
  show ?thesis
  proof (cases "map_of map_dacInfo sel")
    case None
    then show ?thesis unfolding dacScanLocal_def by (simp only: option.case) (auto intro!: returning)
  next
    case (Some p)
    obtain reg lo hi where p: "p = (reg, lo, hi)" by (cases p)
    show ?thesis
      unfolding dacScanLocal_def Some p option.case prod.case
      by (auto intro!: returning returns_broadcast [OF assms(1)] returns_dac_results loop simp: Some p)
  qed
qed

lemma returns_dacScan:
  assumes "broadcasts_end la K" "dac_step_fits rq"
  shows "returns (dacScan la rq)" "returns (dacScanMultiLink la rq)"
  unfolding dacScan_def dacScanMultiLink_def requested_NOH_def
  using assms(2) by (auto intro!: returns_get_word returning returns_dacScanLocal [OF assms(1)] simp: dac_step_fits_def)

section \<open>The other methods\<close>

lemma returns_broadcastWrite:
  assumes "broadcasts_end la K"
  shows "returns (broadcastWrite la rq)" "returns (loadVT1 la rq)" "returns (configureVFATs la rq)"
  unfolding broadcastWrite_def broadcast_mask_def loadVT1_def loadVT1Local_def configureVFATs_def biasAllVFATsLocal_def
    loadTRIMDACLocal_def setAllVFATsToRunModeLocal_def optional_string_def optional_word_def Let_def
  by (auto intro!: returning returns_broadcast [OF assms] split: option.split list.split)


lemma returns_scanGBTPhases:
  assumes "\<And>st. rq_word rq ''phaseStep'' = Inr st \<Longrightarrow> (ucast st :: u8) \<noteq> 0 \<and> (ucast st :: u8) \<le> 240"
  shows "returns (scanGBTPhases la rq)"
  unfolding scanGBTPhases_def
  using assms by (auto intro!: returns_get_word returning scanGBTPhasesLocal_returns)

lemma returns_phase_methods:
  assumes "shifts_round la K"
  shows "returns (ttcMMCMPhaseShift la rq)" "returns (configureDAQModule la rq)"
  unfolding ttcMMCMPhaseShift_def configureDAQModule_def scaHardResetEnableLocal_def ttcCounterResetLocal_def daq_code
  by (auto intro!: returning returns_phase_shift [OF assms])

lemma returns_sbitReadOut:
  assumes "\<And>T. rq_word rq ''acquireTime'' = Inr T \<Longrightarrow> clock_advances la T K" "0 < K"
  shows "returns (sbitReadOut la rq)"
proof -
  have acq: "returns (sbitReadOutLocal la ohN T)" if "clock_advances la T K" for ohN T
    unfolding returns_def
  proof
    show "sbitReadOutLocal la ohN T s \<noteq> None" for s
      using sbitReadOutLocal_result [OF that assms(2), of ohN s]
      by (cases "sbitReadOutLocal la ohN T s") (auto simp: sbit_result_ok_def)
  qed
  show ?thesis
    unfolding sbitReadOut_def using assms(1) by (auto intro!: returns_get_word returning acq)
qed


section \<open>All methods\<close>

text \<open>
  What the call of a method waits for; \<open>K\<close> bounds how often the device is asked before it answers. The methods
  that are not named wait for nothing.
\<close>

definition awaits :: "localArgs \<Rightarrow> nat \<Rightarrow> rpc_request \<Rightarrow> string \<Rightarrow> bool" where
  "awaits la K rq name \<longleftrightarrow>
     (if name = ''scanGBTPhases''
      then \<forall>st. rq_word rq ''phaseStep'' = Inr st \<longrightarrow> (ucast st :: u8) \<noteq> 0 \<and> (ucast st :: u8) \<le> 240
      else if name \<in> {''configureDAQModule'', ''ttcMMCMPhaseShift''} then shifts_round la K
      else if name = ''sbitReadOut'' then 0 < K \<and> (\<forall>T. rq_word rq ''acquireTime'' = Inr T \<longrightarrow> clock_advances la T K)
      else if name \<in> {''broadcastWrite'', ''configureVFATs'', ''loadVT1'', ''checkSbitMappingWithCalPulse'', ''checkSbitRateWithCalPulse''}
      then broadcasts_end la K
      else if name \<in> {''dacScan'', ''dacScanMultiLink''} then broadcasts_end la K \<and> dac_step_fits rq
      else if name = ''stopCalPulse2AllChannels'' then rq_word rq ''ch_max'' \<noteq> Inr (- 1)
      else if name = ''getUltraScanResults'' then steps_fit rq \<and> (\<forall>ohN. rq_word rq ''ohN'' = Inr ohN \<longrightarrow> scan_ready la K ohN)
      else if name = ''sbitRateScan'' then steps_fit rq
      else if name \<in> {''genScan'', ''genChannelScan''} then scan_request_waits la K rq
      else True)"

lemma amc_wait: "list_all (\<lambda>(name, f). name \<in> set [''configureDAQModule'', ''sbitReadOut'', ''ttcMMCMPhaseShift''] \<longrightarrow>
    awaits la K rq name \<longrightarrow> returns (f la rq)) amc_methods"
  by (simp add: amc_methods_def awaits_def returns_phase_methods) (blast intro: returns_sbitReadOut)

lemma optohybrid_wait: "list_all (\<lambda>(name, f). name \<in> set [''broadcastWrite'', ''configureVFATs'', ''getUltraScanResults'', ''loadVT1'',
    ''stopCalPulse2AllChannels''] \<longrightarrow> awaits la K rq name \<longrightarrow> returns (f la rq)) optohybrid_methods"
  by (simp add: optohybrid_methods_def awaits_def returns_broadcastWrite returns_stopCalPulse2AllChannels)
    (blast intro: returns_getUltraScanResults)

lemma calibration_wait: "list_all (\<lambda>(name, f). name \<in> set [''checkSbitMappingWithCalPulse'', ''checkSbitRateWithCalPulse'', ''dacScan'',
    ''dacScanMultiLink'', ''genScan'', ''genChannelScan'', ''sbitRateScan''] \<longrightarrow> awaits la K rq name \<longrightarrow> returns (f la rq))
    calibration_routines_methods"
  by (simp add: calibration_routines_methods_def awaits_def returns_checks returns_genScan returns_genChannelScan
      returns_sbitRateScan)
    (blast intro: returns_dacScan)

lemma gbt_wait: "list_all (\<lambda>(name, f). name \<in> set [''scanGBTPhases''] \<longrightarrow> awaits la K rq name \<longrightarrow> returns (f la rq)) gbt_methods"
  by (simp add: gbt_methods_def awaits_def returns_scanGBTPhases)

lemma methods_return:
  assumes "(service, methods) \<in> set (services rm)" "(name, f) \<in> set methods" "awaits la K rq name"
  shows "returns (f la rq)"
proof (cases "waits service name")
  case False
  then show ?thesis by (rule services_return [OF assms(1,2)])
next
  case True
  have "list_all (\<lambda>(s, ms). list_all (\<lambda>p. fst p = s \<longrightarrow> list_all (\<lambda>(name, f). name \<in> set (snd p) \<longrightarrow>
      awaits la K rq name \<longrightarrow> returns (f la rq)) ms) may_wait) (services rm)"
    using gbt_wait amc_wait optohybrid_wait calibration_wait by (simp add: services_def may_wait_def)
  then show ?thesis using assms True by (fastforce simp: list_all_iff waits_def)
qed


text \<open>
  A board for the example: the phase counter (word 1) counts the shifts (word 0) modulo 40; the generator
  (word 2) shows that it is running for three readings after any write; the firmware (word 3) is
  the third; the PLL (word 4) is locked.
\<close>

definition board_regs :: "string list" where
  "board_regs = [gth_shift_en, gth_shift_cnt, ttc_gen @ ''CYCLIC_RUNNING'', release_major, ''GEM_AMC.TTC.STATUS.CLK.PHASE_LOCKED'']"

definition since_write :: "u32 \<Rightarrow> event list \<Rightarrow> nat" where
  "since_write a h = looks_at a (takeWhile no_write (rev h))"

definition board_word :: "event list \<Rightarrow> u32 \<Rightarrow> u32" where
  "board_word h a = (if a = 1 then of_nat (shifts 0 h mod 40) else if a = 2 then (if since_write 2 h < 3 then 1 else 0)
     else if a = 3 then 3 else if a = 4 then 1 else 0)"

definition board_env :: localArgs where
  "board_env = (flat_env board_regs)\<lparr>mem_rd := (\<lambda>h a n. Some (\<lambda>i. board_word h (a + of_nat i)))\<rparr>"

lemma board_shows: "shows_at board_env a P = (\<lambda>h. P (board_word h a))"
  by (simp add: shows_at_def board_env_def fun_eq_iff)

lemma board_node: "CHR 0x00 \<notin> set r \<Longrightarrow> has_node board_env r (flat_node board_regs r)"
  by (simp add: has_node_def board_env_def flat_env_def ram_env_db c_str_id wf_node_def clean_def flat_node_def)

lemma board_fields:
  "real_address (flat_node board_regs gth_shift_en) = 0" "real_address (flat_node board_regs gth_shift_cnt) = 1"
  "real_address (flat_node board_regs ''GEM_AMC.TTC.GENERATOR.CYCLIC_RUNNING'') = 2" "real_address (flat_node board_regs release_major) = 3"
  "real_address (flat_node board_regs ''GEM_AMC.TTC.STATUS.CLK.PHASE_LOCKED'') = 4"
  "node_mask (flat_node board_regs r) = 0xFFFFFFFF" "CHR ''r'' \<in> set (permission (flat_node board_regs r))"
  by (simp_all add: flat_node_def board_regs_def place_def)

lemma board_shown:
  "0 < j \<Longrightarrow> j \<le> shifts 0 h \<Longrightarrow> (shifts 0 g + j) mod 40 = v \<Longrightarrow> shown board_env 0 1 (\<lambda>w. w = of_nat v) g h"
proof (induction h arbitrary: g j)
  case (Cons e h)
  have one: "shifts 0 [e] = (if writes_at 0 e then 1 else 0)" by (simp add: shifts_def)
  have split: "shifts 0 (e # h) = shifts 0 [e] + shifts 0 h" by (simp add: shifts_def)
  show ?case
  proof (cases "writes_at 0 e \<and> j = 1")
    case True
    then show ?thesis using Cons.prems(3) one by (simp add: board_shows board_word_def)
  next
    case False
    then have "shown board_env 0 1 (\<lambda>w. w = of_nat v) (g @ [e]) h"
      using Cons.prems one split by (intro Cons.IH [of "j - shifts 0 [e]"]) (auto split: if_splits)
    then show ?thesis by simp
  qed
qed (simp add: shifts_def)

lemma mod_reaches:
  assumes "v < (40 :: nat)"
  shows "\<exists>j>0. j \<le> 40 \<and> (n + j) mod 40 = v"
proof -
  define j where "j = (if n mod 40 < v then v - n mod 40 else 40 + v - n mod 40)"
  have "n mod 40 < 40" by simp
  then have "n mod 40 + j = (if n mod 40 < v then v else 40 + v)" "0 < j" "j \<le> 40"
    using assms by (auto simp: j_def)
  moreover have "(n + j) mod 40 = (n mod 40 + j) mod 40" by (simp add: mod_add_left_eq)
  ultimately show ?thesis using assms by (intro exI [of _ j]) auto
qed

lemma board_shifts_round: "shifts_round board_env 40"
proof -
  have c: "comes_by board_env 40 0 1 (\<lambda>w. w = v)" if "v < 40" for v
    unfolding comes_by_def
  proof (intro allI impI)
    fix g h
    assume "40 \<le> shifts 0 h"
    have v: "unat v < 40" using that by (simp add: word_less_nat_alt)
    obtain j where "0 < j" "j \<le> 40" "(shifts 0 g + j) mod 40 = unat v" using mod_reaches [OF v] by blast
    then show "shown board_env 0 1 (\<lambda>w. w = v) g h"
      using board_shown [of j h g "unat v"] \<open>40 \<le> shifts 0 h\<close> by simp
  qed
  have small: "board_word h 1 < 40" for h
    by (simp add: board_word_def word_less_nat_alt unsigned_of_nat take_bit_eq_mod)
  show ?thesis
    unfolding shifts_round_def
    by (rule exI [of _ "flat_node board_regs gth_shift_en"], rule exI [of _ "flat_node board_regs gth_shift_cnt"])
      (use c small in \<open>simp add: board_node board_fields board_shows applyMask_full\<close>, simp add: board_word_def)
qed

lemma board_generator: "settles_reg board_env 3 (ttc_gen @ ''CYCLIC_RUNNING'') (\<lambda>v. v = 0)"
proof -
  have "since_write 2 (g @ h) = looks_at 2 h + since_write 2 g" if "\<forall>e\<in>set h. no_write e" for g h
    using that takeWhile_append2 [of "rev h" no_write "rev g"] by (simp add: since_write_def looks_at_def rev_filter [symmetric])
  then show ?thesis
    unfolding settles_reg_def settles_def
    by (intro exI [of _ "flat_node board_regs ''GEM_AMC.TTC.GENERATOR.CYCLIC_RUNNING''"])
      (auto simp: board_node board_fields board_shows applyMask_full board_word_def)
qed

lemma board_v3: "always_reads board_env release_major 3"
  unfolding always_reads_def always_shows_def
  by (intro exI [of _ "flat_node board_regs release_major"])
    (simp add: board_node board_fields board_shows applyMask_full board_word_def)

lemma board_locked: "always_shows board_env ''GEM_AMC.TTC.STATUS.CLK.PHASE_LOCKED'' (\<lambda>v. v \<noteq> 0)"
  unfolding always_shows_def
  by (intro exI [of _ "flat_node board_regs ''GEM_AMC.TTC.STATUS.CLK.PHASE_LOCKED''"])
    (simp add: board_node board_fields board_shows applyMask_full board_word_def)

definition scan_demo :: rpc_request where
  "scan_demo = full_request\<lparr>rq_word := (\<lambda>k. Inr (if k = ''useExtTrig'' then 0 else 1))\<rparr>"

lemma board_scan_waits: "awaits board_env 3 scan_demo ''genScan''"
  using board_v3 board_generator by (simp add: awaits_def scan_request_waits_def steps_fit_def scan_waits_def scan_demo_def)


end
