(* ===== verification/Ends.thy ===== *)
theory Ends
  imports Waiting
begin

text \<open>
  Programs that end with a value in a set, or with a failure in another, if they end: the rules that go beyond
  \<open>goes_right\<close> of \<open>RegisterSpec\<close> in following the values, so that a position in an array, the number of a
  link or the counter of a loop can be bounded, and in letting through the exceptions of the request.
\<close>

section \<open>How a program ends\<close>

definition ends :: "(abort \<Rightarrow> bool) \<Rightarrow> ('a \<Rightarrow> bool) \<Rightarrow> 'a prog \<Rightarrow> bool" where
  "ends E P m \<longleftrightarrow> (\<forall>s r t. m s = Some (r, t) \<longrightarrow> (case r of Val x \<Rightarrow> P x | Abort e \<Rightarrow> E e))"

definition sound :: "(abort \<Rightarrow> bool) \<Rightarrow> 'a prog \<Rightarrow> bool" where
  "sound E m \<longleftrightarrow> ends E (\<lambda>x. True) m"

named_theorems sounds "rules: the program ends with a value or with a failure in the set, if it ends"

lemma endsD: "ends E P m \<Longrightarrow> m s = Some (Val x, t) \<Longrightarrow> P x" "ends E P m \<Longrightarrow> m s = Some (Abort e, t) \<Longrightarrow> E e"
  unfolding ends_def by force+

lemma ends_right: "goes_right m \<Longrightarrow> (\<And>s x t. m s = Some (Val x, t) \<Longrightarrow> P x) \<Longrightarrow> ends E P m"
  by (auto simp: ends_def goes_right_def split: outcome.split)

lemma ends_true: "sound E m \<Longrightarrow> (\<And>x. P x) \<Longrightarrow> ends E P m"
  unfolding ends_def sound_def by (metis outcome.exhaust outcome.simps(5,6))

lemma ends_sound: "ends E P m \<Longrightarrow> sound E m"
  unfolding ends_def sound_def by (metis outcome.exhaust outcome.simps(5,6))

lemma right_sound: "goes_right m \<Longrightarrow> sound E m"
  unfolding sound_def by (rule ends_right) simp_all

lemma sound_right: "sound (\<lambda>e. False) m \<Longrightarrow> goes_right m"
  by (force simp: goes_right_def sound_def ends_def)

lemma ends_mono: "ends E P m \<Longrightarrow> (\<And>x. P x \<Longrightarrow> Q x) \<Longrightarrow> (\<And>e. E e \<Longrightarrow> F e) \<Longrightarrow> ends F Q m"
  by (fastforce simp: ends_def split: outcome.splits)

lemma ends_bind:
  assumes "ends E P m" "\<And>x. P x \<Longrightarrow> ends E Q (k x)"
  shows "ends E Q (bindM m k)"
  unfolding ends_def
proof (intro allI impI)
  fix s r t
  assume "bindM m k s = Some (r, t)"
  then consider x u where "m s = Some (Val x, u)" "k x u = Some (r, t)" | e where "m s = Some (Abort e, t)" "r = Abort e"
    by (blast dest: bindM_SomeD)
  then show "case r of Val x \<Rightarrow> Q x | Abort e \<Rightarrow> E e"
  proof cases
    case (1 x u)
    then have "P x" using assms(1) by (blast dest: endsD)
    then show ?thesis using assms(2) [of x] 1(2) unfolding ends_def by blast
  next
    case (2 e)
    then show ?thesis using endsD(2) [OF assms(1)] by simp
  qed
qed

lemma ends_after: "sound E m \<Longrightarrow> (\<And>x. ends E Q (k x)) \<Longrightarrow> ends E Q (bindM m k)"
  unfolding sound_def by (rule ends_bind)

lemma sound_after: "ends E P m \<Longrightarrow> (\<And>x. P x \<Longrightarrow> sound E (k x)) \<Longrightarrow> sound E (bindM m k)"
  unfolding sound_def by (rule ends_bind)

lemma ends_then: "sound E m \<Longrightarrow> ends E Q n \<Longrightarrow> ends E Q (thenM m n)"
  by (simp add: thenM_def ends_after)

lemma ends_ret: "P x \<Longrightarrow> ends E P (ret x)"
  by (simp add: ends_def ret_def)

lemma ends_if: "(b \<Longrightarrow> ends E P m) \<Longrightarrow> (\<not> b \<Longrightarrow> ends E P n) \<Longrightarrow> ends E P (if b then m else n)"
  by simp

text \<open>Loops under an invariant of the accumulator.\<close>

lemma ends_fold: "(\<And>x a. x \<in> set xs \<Longrightarrow> I a \<Longrightarrow> ends E I (f x a)) \<Longrightarrow> I a \<Longrightarrow> ends E I (foldM f xs a)"
proof (induction xs arbitrary: a)
  case (Cons x xs)
  then show ?case by (auto intro!: ends_bind [where P = I])
qed (simp add: ends_ret)

lemma ends_foldE:
  "(\<And>x a. x \<in> set xs \<Longrightarrow> I a \<Longrightarrow> ends E (case_sum J I) (f x a)) \<Longrightarrow> I a \<Longrightarrow> ends E (case_sum J I) (foldE f xs a)"
proof (induction xs arbitrary: a)
  case (Cons x xs)
  show ?case
    unfolding foldE.simps
  proof (rule ends_bind)
    show "ends E (case_sum J I) (f x a)" using Cons.prems by simp
    show "ends E (case_sum J I) (case r of Inl e \<Rightarrow> ret (Inl e) | Inr b \<Rightarrow> foldE f xs b)" if "case_sum J I r" for r
      using that Cons by (cases r) (simp_all add: ends_ret)
  qed
qed (simp add: ends_ret)

lemma ends_collect:
  "(\<And>x. x \<in> set xs \<Longrightarrow> ends E P (f x)) \<Longrightarrow> ends E (\<lambda>ys. length ys = length xs \<and> (\<forall>y\<in>set ys. P y)) (collectM xs f)"
proof (induction xs)
  case (Cons x xs)
  show ?case
    unfolding collectM.simps
    by (rule ends_bind [OF Cons.prems], simp, rule ends_bind [OF Cons.IH]) (simp_all add: Cons.prems ends_ret)
qed (simp add: ends_ret)

lemma ends_for_step:
  fixes i :: "'w::len word"
  assumes "step \<noteq> 0" "unat hi + unat step < 2 ^ LENGTH('w)"
    and body: "\<And>j y. lo \<le> j \<Longrightarrow> j \<le> hi \<Longrightarrow> I y \<Longrightarrow> ends E (case_sum J I) (body j y)"
  shows "lo \<le> i \<Longrightarrow> I x \<Longrightarrow> ends E (case_sum J I) (for_step hi step body i x)"
proof (induction i arbitrary: x rule: step_induct [OF assms(1,2)])
  case (1 i)
  then show ?case by (simp add: for_step_done ends_ret)
next
  case (2 i)
  have "lo \<le> i + step" using 2(2,4) by (simp add: word_le_nat_alt)
  then have "ends E (case_sum J I) (case r of Inl e \<Rightarrow> ret (Inl e) | Inr y \<Rightarrow> for_step hi step body (i + step) y)"
    if "case_sum J I r" for r
    using that 2(3) by (cases r) (simp_all add: ends_ret)
  then show ?case unfolding for_step_go [OF 2(1)] using body [OF 2(4,1,5)] by (rule ends_bind [rotated])
qed

section \<open>The structural rules\<close>

lemma sound_bind [sounds]: "sound E m \<Longrightarrow> (\<And>x. sound E (k x)) \<Longrightarrow> sound E (bindM m k)"
  unfolding sound_def by (rule ends_bind)

lemma sound_ret [sounds]: "sound E (ret x)"
  by (simp add: right_sound right_ret)

lemma sound_then [sounds]: "sound E m \<Longrightarrow> sound E n \<Longrightarrow> sound E (thenM m n)"
  by (simp add: thenM_def sound_bind)

lemma sound_when [sounds]: "(b \<Longrightarrow> sound E m) \<Longrightarrow> sound E (whenM b m)"
  by (simp add: whenM_def sound_ret)

lemma sound_if [sounds]: "(b \<Longrightarrow> sound E m) \<Longrightarrow> (\<not> b \<Longrightarrow> sound E n) \<Longrightarrow> sound E (if b then m else n)"
  by simp

lemma sound_seq [sounds]: "(\<And>m. m \<in> set ms \<Longrightarrow> sound E m) \<Longrightarrow> sound E (seqM ms)"
  by (induction ms) (auto intro: sounds)

lemma sound_for [sounds]: "(\<And>x. x \<in> set xs \<Longrightarrow> sound E (f x)) \<Longrightarrow> sound E (forM xs f)"
  by (induction xs) (auto intro: sounds)

lemma sound_collect [sounds]: "(\<And>x. x \<in> set xs \<Longrightarrow> sound E (f x)) \<Longrightarrow> sound E (collectM xs f)"
  by (induction xs) (auto intro!: sounds)

lemma sound_fold [sounds]: "(\<And>x a. x \<in> set xs \<Longrightarrow> sound E (f x a)) \<Longrightarrow> sound E (foldM f xs a)"
  by (induction xs arbitrary: a) (auto intro!: sounds)

lemma sound_loop [sounds]: "(\<And>x. x \<in> set xs \<Longrightarrow> sound E (f x)) \<Longrightarrow> sound E (loopM xs f)"
  by (induction xs) (auto intro!: sounds split: option.split)

lemma sound_foldE [sounds]: "(\<And>x a. x \<in> set xs \<Longrightarrow> sound E (f x a)) \<Longrightarrow> sound E (foldE f xs a)"
  by (induction xs arbitrary: a) (auto intro!: sounds split: sum.split)

lemma sound_case_option [sounds]:
  "(v = None \<Longrightarrow> sound E m) \<Longrightarrow> (\<And>x. v = Some x \<Longrightarrow> sound E (k x)) \<Longrightarrow> sound E (case v of None \<Rightarrow> m | Some x \<Rightarrow> k x)"
  by (cases v) simp_all

lemma sound_case_sum [sounds]:
  "(\<And>x. sound E (h x)) \<Longrightarrow> (\<And>x. sound E (k x)) \<Longrightarrow> sound E (case v of Inl x \<Rightarrow> h x | Inr x \<Rightarrow> k x)"
  by (cases v) simp_all

lemma sound_case_prod [sounds]: "(\<And>x y. sound E (k x y)) \<Longrightarrow> sound E (case p of (x, y) \<Rightarrow> k x y)"
  by (cases p) simp

lemma sound_for_step:
  fixes i :: "'w::len word"
  assumes "step \<noteq> 0" "unat hi + unat step < 2 ^ LENGTH('w)" "\<And>j y. sound E (body j y)"
  shows "sound E (for_step hi step body i x)"
  using assms
  by (intro ends_sound [OF ends_for_step [where lo = 0 and I = "\<lambda>x. True" and J = "\<lambda>x. True"]])
    (auto intro!: ends_true split: sum.split)

text \<open>What a \<^verbatim>\<open>try\<close> lets through.\<close>

lemma sound_catch:
  assumes "sound (\<lambda>e. E e \<or> (\<exists>w. e = Throw (Runtime_error w) \<or> e = Throw (Range_error w))) m" "\<And>w. sound E (h w)"
  shows "sound E (catch_runtime m h)"
  unfolding sound_def ends_def
proof (intro allI impI)
  fix s r t
  assume "catch_runtime m h s = Some (r, t)"
  then obtain q u where q: "m s = Some (q, u)"
    and r: "(case q of Abort (Throw (Runtime_error w)) \<Rightarrow> h w u | Abort (Throw (Range_error w)) \<Rightarrow> h w u | _ \<Rightarrow> Some (q, u)) = Some (r, t)"
    by (auto simp: catch_runtime_def bind_eq_Some_conv)
  have h: "h w u = Some (r, t) \<Longrightarrow> (case r of Val x \<Rightarrow> True | Abort e \<Rightarrow> E e)" for w
    using assms(2) unfolding sound_def ends_def by blast
  have "case q of Val x \<Rightarrow> True | Abort e \<Rightarrow> E e \<or> (\<exists>w. e = Throw (Runtime_error w) \<or> e = Throw (Range_error w))"
    using assms(1) q unfolding sound_def ends_def by blast
  then show "case r of Val x \<Rightarrow> True | Abort e \<Rightarrow> E e"
    using r h by (auto split: outcome.splits abort.splits exn.splits)
qed

section \<open>The request\<close>

text \<open>The failures that the request itself raises, for a key that is missing or of another type.\<close>

definition asks :: "rpc_request \<Rightarrow> abort \<Rightarrow> bool" where
  "asks rq e \<longleftrightarrow> (\<exists>k x. e = Throw x \<and> (rq_word rq k = Inl x \<or> rq_words rq k = Inl x \<or> rq_string rq k = Inl x
     \<or> rq_strings rq k = Inl x \<or> rq_bin rq k = Inl x))"

lemma sound_get [sounds]:
  "sound (asks rq) (get_word rq k)" "sound (asks rq) (get_word_array rq k)" "sound (asks rq) (get_string rq k)"
  "sound (asks rq) (get_string_array rq k)" "sound (asks rq) (get_binarydata rq k)"
  by (auto simp: sound_def ends_def asks_def get_word_def get_word_array_def get_string_def get_string_array_def get_binarydata_def
      liftE_def ret_def throwM_def abortM_def split: sum.splits)

lemma sound_asks: "asks rq (Throw x) \<Longrightarrow> sound (asks rq) (throwM x)"
  by (simp add: sound_def ends_def throwM_def abortM_def)

lemma sound_get_word: "(\<And>w. rq_word rq k = Inr w \<Longrightarrow> sound (asks rq) (f w)) \<Longrightarrow> sound (asks rq) (bindM (get_word rq k) f)"
  by (cases "rq_word rq k") (auto simp: get_word_def liftE_def asks_def intro!: sound_asks)

lemma sound_get_array: "(\<And>w. rq_words rq k = Inr w \<Longrightarrow> sound (asks rq) (f w)) \<Longrightarrow> sound (asks rq) (bindM (get_word_array rq k) f)"
  by (cases "rq_words rq k") (auto simp: get_word_array_def liftE_def asks_def intro!: sound_asks)

lemma sound_get_string: "(\<And>w. rq_string rq k = Inr w \<Longrightarrow> sound (asks rq) (f w)) \<Longrightarrow> sound (asks rq) (bindM (get_string rq k) f)"
  by (cases "rq_string rq k") (auto simp: get_string_def liftE_def asks_def intro!: sound_asks)

section \<open>Effects and accesses\<close>

lemma right_effects [right]:
  "goes_right (set_key k v)" "goes_right (sleep_ns n)" "goes_right (sleep_us n)" "goes_right (sleep_ms n)" "goes_right (clock la)"
  by (auto simp: goes_right_def set_key_def sleep_ns_def sleep_us_def sleep_ms_def emit_def clock_def)

lemma right_errors [right]: "goes_right (memsvc_error la)" "goes_right (raw_error la)"
  unfolding memsvc_error_def raw_error_def by (intro right)+

lemmas sound_effects [sounds] =
  right_effects [THEN right_sound] right_errors [THEN right_sound] right_set [THEN right_sound] right_memhub [THEN right_sound]
  right_raw [THEN right_sound]

lemmas sound_access = right_access [THEN right_sound]

section \<open>Arrays\<close>

lemma ends_arr_set: "i < length xs \<Longrightarrow> ends E (\<lambda>ys. length ys = length xs) (arr_set xs i v)"
  by (simp add: arr_set_def ends_ret)

lemma sound_arr [sounds]: "i < length xs \<Longrightarrow> sound E (arr_get xs i)" "i < length xs \<Longrightarrow> sound E (arr_set xs i v)"
  by (simp_all add: arr_get_def arr_set_def sound_ret)

lemma ends_copy_into: "length xs \<le> length buf \<Longrightarrow> ends E (\<lambda>ys. length ys = length buf) (copy_into buf xs)"
  by (simp add: copy_into_def ends_ret)

lemma sound_copy_into [sounds]: "length xs \<le> length buf \<Longrightarrow> sound E (copy_into buf xs)"
  by (rule ends_sound [OF ends_copy_into])

lemma length_stack_array [simp]: "length (stack_array la n) = n"
  by (simp add: stack_array_def)

lemma sound_oh_enabled [sounds]: "n < 32 \<Longrightarrow> sound E (oh_enabled m n)"
  by (simp add: oh_enabled_def sound_ret)

section \<open>The board\<close>

text \<open>
  The board that the code expects: at most twelve OptoHybrids, and the first or the third version of the
  firmware.
\<close>

definition expected_board :: "localArgs \<Rightarrow> bool" where
  "expected_board la \<longleftrightarrow> wf_db la \<and> always_shows la num_of_oh (\<lambda>n. n \<le> 12) \<and> always_shows la release_major (\<lambda>v. v = 1 \<or> v = 3)"

lemma ends_readReg: "wf_db la \<Longrightarrow> always_shows la r P \<Longrightarrow> ends E P (readReg la r)"
  by (rule ends_right) (auto intro: right always_shows_run)

lemma ends_num_of_oh: "expected_board la \<Longrightarrow> ends E (\<lambda>n. n \<le> 12) (readReg la num_of_oh)"
  by (simp add: expected_board_def ends_readReg)

lemma ends_release: "expected_board la \<Longrightarrow> ends E (\<lambda>v. v = 1 \<or> v = 3) (readReg la release_major)"
  by (simp add: expected_board_def ends_readReg)

lemma ends_NOH:
  assumes "expected_board la"
  shows "ends (asks rq) (\<lambda>n. n \<le> 12) (requested_NOH la rq)"
  unfolding requested_NOH_def
proof (rule ends_bind [OF ends_num_of_oh [OF assms]])
  show "ends (asks rq) (\<lambda>n. n \<le> 12) (if rq_exists rq ''NOH''
      then bindM (get_word rq ''NOH'') (\<lambda>q. ret (if q \<le> n then q else n)) else ret n)" if "n \<le> 12" for n
    using that order.trans [OF _ that] by (auto intro!: ends_after sounds ends_ret)
qed

lemma ends_local_NOH:
  assumes "expected_board la"
  shows "ends E (\<lambda>n. nat n \<le> 12) (local_NOH la NOH)"
  unfolding local_NOH_def
proof (rule ends_bind [OF ends_num_of_oh [OF assms]])
  show "ends E (\<lambda>n. nat n \<le> 12) (let NOH_local = sint w in ret (if NOH_local < NOH then NOH_local else NOH))"
    if "w \<le> 12" for w :: u32
  proof -
    have "uint w \<le> 12" using that by (simp add: word_le_def)
    moreover have "- (2 ^ 31) \<le> uint w" using uint_ge_0 [of w] by (rule order.trans [rotated]) simp
    ultimately have "sint w \<le> 12" by (simp add: sint_uint signed_take_bit_int_eq_self)
    then show ?thesis by (simp add: Let_def ends_ret)
  qed
qed

section \<open>Loops that wait\<close>

text \<open>
  The loops of \<open>Polling\<close> are least fixpoints: what holds of every result that a round produces from results for
  which it holds already, holds of the result of the loop. So a loop ends as its rounds do, if it ends.
\<close>

locale poll_fixpoint = poll_loop +
  assumes induct:
    "(\<And>f x s y. (\<And>x s y. f x s = Some y \<Longrightarrow> Q x s y) \<Longrightarrow>
        bindM (turn x) (\<lambda>r. case r of Inl v \<Rightarrow> ret v | Inr z \<Rightarrow> f z) s = Some y \<Longrightarrow> Q x s y) \<Longrightarrow>
     loop x s = Some y \<Longrightarrow> Q x s y"
begin

lemma loop_ends:
  assumes turn: "\<And>x. I x \<Longrightarrow> ends E (case_sum P I) (turn x)" and "I x"
  shows "ends E P (loop x)"
  unfolding ends_def
proof (intro allI impI)
  fix s r t
  assume run: "loop x s = Some (r, t)"
  let ?Q = "\<lambda>x s (r, t). I x \<longrightarrow> (case r of Val v \<Rightarrow> P v | Abort e \<Rightarrow> E e)"
  have "?Q x s (r, t)"
  proof (rule induct [OF _ run])
    fix f x s y
    assume f: "\<And>x s y. f x s = Some y \<Longrightarrow> ?Q x s y"
      and y: "bindM (turn x) (\<lambda>r. case r of Inl v \<Rightarrow> ret v | Inr z \<Rightarrow> f z) s = Some y"
    have "ends E P (bindM (turn x) (\<lambda>r. case r of Inl v \<Rightarrow> ret v | Inr z \<Rightarrow> f z))" if "I x"
    proof (rule ends_bind [OF turn [OF that]])
      fix q
      assume q: "case_sum P I q"
      show "ends E P (case q of Inl v \<Rightarrow> ret v | Inr z \<Rightarrow> f z)"
        using q f by (cases q) (auto simp: ends_def ret_def)
    qed
    then show "?Q x s y" using y unfolding ends_def by (cases y) blast
  qed
  then show "case r of Val v \<Rightarrow> P v | Abort e \<Rightarrow> E e" using \<open>I x\<close> by simp
qed

lemma loop_sound: "(\<And>x. sound E (turn x)) \<Longrightarrow> sound E (loop x)"
  unfolding sound_def
  by (rule loop_ends [where I = "\<lambda>x. True"]) (auto simp: ends_def split: outcome.splits sum.splits)

lemma loop_keeps:
  assumes "\<And>x. preserves (extends P K) (turn x)"
  shows "preserves (extends P K) (loop x)"
proof (rule preservesI)
  fix s r t
  assume "loop x s = Some (r, t)"
  then have "case (r, t) of (r, t) \<Rightarrow> extends P K s t"
  proof (rule induct [rotated])
    fix f x s y
    assume f: "\<And>x s y. f x s = Some y \<Longrightarrow> case y of (r, t) \<Rightarrow> extends P K s t"
      and y: "bindM (turn x) (\<lambda>r. case r of Inl v \<Rightarrow> ret v | Inr z \<Rightarrow> f z) s = Some y"
    have "preserves (extends P K) (bindM (turn x) (\<lambda>r. case r of Inl v \<Rightarrow> ret v | Inr z \<Rightarrow> f z))"
      by (intro keeps assms preservesI) (use f in auto)
    then show "case y of (r, t) \<Rightarrow> extends P K s t" using y by (cases y) (auto dest: preservesD)
  qed
  then show "extends P K s t" by simp
qed

end

interpretation bf: poll_fixpoint "broadcast_turn la reg" "\<lambda>_. broadcast_wait la reg"
proof
  fix Q x s y
  assume step: "\<And>f x s y. (\<And>x s y. f x s = Some y \<Longrightarrow> Q x s y) \<Longrightarrow>
        bindM (broadcast_turn la reg x) (\<lambda>r. case r of Inl v \<Rightarrow> ret v | Inr z \<Rightarrow> f z) s = Some y \<Longrightarrow> Q x s y"
    and run: "broadcast_wait la reg s = Some y"
  have "l = la \<longrightarrow> r = reg \<longrightarrow> Q x s y" if "broadcast_wait l r s = Some y" for l r s y
  proof (rule broadcast_wait.raw_induct [OF _ that], intro impI)
    fix f l r s y
    assume f: "\<And>l r s y. f l r s = Some y \<Longrightarrow> l = la \<longrightarrow> r = reg \<longrightarrow> Q x s y" and "l = la" "r = reg"
      and y: "bindM (readRawReg l r) (\<lambda>t_res t.
       if t_res = 0 then ret () t
       else if t_res = 0xdeaddead then ret () t
       else bindM (sleep_us 1000) (\<lambda>_ u. f l r u) t) s = Some y"
    show "Q x s y"
    proof (rule step [of "\<lambda>_. f la reg"])
      show "f la reg s = Some y \<Longrightarrow> Q x s y" for x s y using f by simp
      show "bindM (broadcast_turn la reg x) (\<lambda>q. case q of Inl v \<Rightarrow> ret v | Inr z \<Rightarrow> f la reg) s = Some y"
        using y \<open>l = la\<close> \<open>r = reg\<close>
        by (auto simp: broadcast_turn_def bindM_cases thenM_def ret_def split: option.splits outcome.splits)
    qed
  qed
  then show "Q x s y" using run by blast
qed

interpretation cf: poll_fixpoint "cyclic_turn la" "\<lambda>_. cyclic_wait la"
proof
  fix Q x s y
  assume step: "\<And>f x s y. (\<And>x s y. f x s = Some y \<Longrightarrow> Q x s y) \<Longrightarrow>
        bindM (cyclic_turn la x) (\<lambda>r. case r of Inl v \<Rightarrow> ret v | Inr z \<Rightarrow> f z) s = Some y \<Longrightarrow> Q x s y"
    and run: "cyclic_wait la s = Some y"
  have "l = la \<longrightarrow> Q x s y" if "cyclic_wait l s = Some y" for l s y
  proof (rule cyclic_wait.raw_induct [OF _ that], intro impI)
    fix f l s y
    assume f: "\<And>l s y. f l s = Some y \<Longrightarrow> l = la \<longrightarrow> Q x s y" and "l = la"
      and y: "bindM (readReg l (ttc_gen @ ''CYCLIC_RUNNING'')) (\<lambda>running t.
       if running \<noteq> 0 then bindM (sleep_us 50) (\<lambda>_ u. f l u) t else ret () t) s = Some y"
    show "Q x s y"
    proof (rule step [of "\<lambda>_. f la"])
      show "f la s = Some y \<Longrightarrow> Q x s y" for x s y using f by simp
      show "bindM (cyclic_turn la x) (\<lambda>q. case q of Inl v \<Rightarrow> ret v | Inr z \<Rightarrow> f la) s = Some y"
        using y \<open>l = la\<close> by (auto simp: cyclic_turn_def bindM_cases thenM_def ret_def split: option.splits outcome.splits)
    qed
  qed
  then show "Q x s y" using run by blast
qed

interpretation lf: poll_fixpoint "l1a_turn la a nevts" "l1a_wait la a nevts"
proof
  fix Q x s y
  assume step: "\<And>f x s y. (\<And>x s y. f x s = Some y \<Longrightarrow> Q x s y) \<Longrightarrow>
        bindM (l1a_turn la a nevts x) (\<lambda>r. case r of Inl v \<Rightarrow> ret v | Inr z \<Rightarrow> f z) s = Some y \<Longrightarrow> Q x s y"
    and run: "l1a_wait la a nevts x s = Some y"
  have "l = la \<longrightarrow> b = a \<longrightarrow> n = nevts \<longrightarrow> Q x s y" if "l1a_wait l b n x s = Some y" for l b n x s y
  proof (rule l1a_wait.raw_induct [OF _ that], intro impI)
    fix f l b n x s y
    assume f: "\<And>l b n x s y. f l b n x s = Some y \<Longrightarrow> l = la \<longrightarrow> b = a \<longrightarrow> n = nevts \<longrightarrow> Q x s y" and eq: "l = la" "b = a" "n = nevts"
      and y: "(if x < n then bindM (readRawAddress l b) (\<lambda>c. bindM (sleep_us 200) (\<lambda>_ u. f l b n c u)) s else ret () s) = Some y"
    show "Q x s y"
    proof (rule step [of "f la a nevts"])
      show "f la a nevts x s = Some y \<Longrightarrow> Q x s y" for x s y using f by simp
      show "bindM (l1a_turn la a nevts x) (\<lambda>q. case q of Inl v \<Rightarrow> ret v | Inr z \<Rightarrow> f la a nevts z) s = Some y"
        using y unfolding eq by (auto simp: l1a_turn_def bindM_cases thenM_def ret_def split: option.splits outcome.splits)
    qed
  qed
  then show "Q x s y" using run by blast
qed

interpretation gf: poll_fixpoint "gth_turn la expected" "gth_wait la expected"
proof
  fix Q x s y
  assume step: "\<And>f x s y. (\<And>x s y. f x s = Some y \<Longrightarrow> Q x s y) \<Longrightarrow>
        bindM (gth_turn la expected x) (\<lambda>r. case r of Inl v \<Rightarrow> ret v | Inr z \<Rightarrow> f z) s = Some y \<Longrightarrow> Q x s y"
    and run: "gth_wait la expected x s = Some y"
  have "l = la \<longrightarrow> e = expected \<longrightarrow> Q x s y" if "gth_wait l e x s = Some y" for l e x s y
  proof (rule gth_wait.raw_induct [OF _ that], intro impI)
    fix f l e x s y
    assume f: "\<And>l e x s y. f l e x s = Some y \<Longrightarrow> l = la \<longrightarrow> e = expected \<longrightarrow> Q x s y" and eq: "l = la" "e = expected"
      and y: "(if e = x then ret () s else bindM (writeReg l gth_shift_en 0x1) (\<lambda>_. bindM (readReg l gth_shift_cnt) (\<lambda>tmp t. f l e tmp t)) s) = Some y"
    show "Q x s y"
    proof (rule step [of "f la expected"])
      show "f la expected x s = Some y \<Longrightarrow> Q x s y" for x s y using f by simp
      show "bindM (gth_turn la expected x) (\<lambda>q. case q of Inl v \<Rightarrow> ret v | Inr z \<Rightarrow> f la expected z) s = Some y"
        using y unfolding eq by (cases "expected = x") (simp_all add: gth_turn_def thenM_def bindM_Val ret_def)
    qed
  qed
  then show "Q x s y" using run by blast
qed

interpretation uf: poll_fixpoint "ultra_turn la sr lr lat nt" "ultra_wait la sr lr lat nt"
proof
  fix Q x s y
  assume step: "\<And>f x s y. (\<And>x s y. f x s = Some y \<Longrightarrow> Q x s y) \<Longrightarrow>
        bindM (ultra_turn la sr lr lat nt x) (\<lambda>r. case r of Inl v \<Rightarrow> ret v | Inr z \<Rightarrow> f z) s = Some y \<Longrightarrow> Q x s y"
    and run: "ultra_wait la sr lr lat nt x s = Some y"
  have body: "bindM m (\<lambda>x t. if b x then ret v t else k x t) s = bindM m (\<lambda>x. if b x then ret v else k x) s"
    for m :: "u32 prog" and b :: "u32 \<Rightarrow> bool" and v :: unit and k :: "u32 \<Rightarrow> unit prog" and s
    by (rule bindM_cong_val) simp
  have "l = la \<longrightarrow> s1 = sr \<longrightarrow> l1 = lr \<longrightarrow> t1 = lat \<longrightarrow> n1 = nt \<longrightarrow> Q x s y" if "ultra_wait l s1 l1 t1 n1 x s = Some y" for l s1 l1 t1 n1 x s y
  proof (rule ultra_wait.raw_induct [OF _ that], intro impI)
    fix f l s1 l1 t1 n1 x s y
    assume f: "\<And>l s1 l1 t1 n1 x s y. f l s1 l1 t1 n1 x s = Some y \<Longrightarrow> l = la \<longrightarrow> s1 = sr \<longrightarrow> l1 = lr \<longrightarrow> t1 = lat \<longrightarrow> n1 = nt \<longrightarrow> Q x s y"
      and eq: "l = la" "s1 = sr" "l1 = lr" "t1 = lat" "n1 = nt"
      and y: "bindM (readReg l s1) (\<lambda>status t.
       if \<not> status > 0 then ret () t
       else
         bindM (readReg l s1) (\<lambda>_.
         bindM (if t1
                then bindM (readReg l l1) (\<lambda>l1a.
                     if l1a - x > n1
                     then bindM (readReg l l1) (\<lambda>_. bindM (readReg l l1) (\<lambda>_. readReg l l1))
                     else ret x)
                else ret x) (\<lambda>x'.
         bindM (sleep_ns 0) (\<lambda>_ u. f l s1 l1 t1 n1 x' u))) t) s = Some y"
    show "Q x s y"
    proof (rule step [of "f la sr lr lat nt"])
      show "f la sr lr lat nt x s = Some y \<Longrightarrow> Q x s y" for x s y using f by simp
      show "bindM (ultra_turn la sr lr lat nt x) (\<lambda>q. case q of Inl v \<Rightarrow> ret v | Inr z \<Rightarrow> f la sr lr lat nt z) s = Some y"
        using y unfolding eq ultra_turn_def
        by (simp add: body thenM_def if_distrib [where f = "\<lambda>m. bindM m k" for k] cong: if_cong)
    qed
  qed
  then show "Q x s y" using run by blast
qed

text \<open>The acquisition of clusters looks at the clock after every round.\<close>

definition acquire_turn ::
  "localArgs \<Rightarrow> u32 \<Rightarrow> int \<Rightarrow> u32 \<Rightarrow> u32 \<Rightarrow> u32 list \<Rightarrow> u32 list \<Rightarrow> ((u32 list \<times> bool) + u32 list) prog" where
  "acquire_turn la acquireTime startTime addrReset addrDelay addrCluster storedSbits =
     (if 4 * length storedSbits > 65000 then ret (Inl (storedSbits, True))
      else
        bindM (sbit_turn la addrReset addrDelay addrCluster storedSbits) (\<lambda>sbits.
        bindM (clock la) (\<lambda>now.
          ret (if (of_int (now - startTime) :: u32) > acquireTime then Inl (sbits, False) else Inr sbits))))"

interpretation aw: poll_loop "acquire_turn la T t0 a d c" "sbit_acquire la T t0 a d c"
proof
  show "returns (acquire_turn la T t0 a d c x)" for x
    unfolding acquire_turn_def sbit_turn_def Let_def by (intro returning)
  show "sbit_acquire la T t0 a d c x s = bindM (acquire_turn la T t0 a d c x)
      (\<lambda>r. case r of Inl v \<Rightarrow> ret v | Inr y \<Rightarrow> sbit_acquire la T t0 a d c y) s" for x s
    by (subst sbit_acquire.simps)
      (auto simp: acquire_turn_def bindM_cases thenM_def ret_def split: option.split outcome.split)
qed

interpretation af: poll_fixpoint "acquire_turn la T t0 a d c" "sbit_acquire la T t0 a d c"
proof
  fix Q x s y
  assume step: "\<And>f x s y. (\<And>x s y. f x s = Some y \<Longrightarrow> Q x s y) \<Longrightarrow>
        bindM (acquire_turn la T t0 a d c x) (\<lambda>r. case r of Inl v \<Rightarrow> ret v | Inr z \<Rightarrow> f z) s = Some y \<Longrightarrow> Q x s y"
    and run: "sbit_acquire la T t0 a d c x s = Some y"
  have "l = la \<longrightarrow> T1 = T \<longrightarrow> t1 = t0 \<longrightarrow> a1 = a \<longrightarrow> d1 = d \<longrightarrow> c1 = c \<longrightarrow> Q x s y"
    if "sbit_acquire l T1 t1 a1 d1 c1 x s = Some y" for l T1 t1 a1 d1 c1 x s y
  proof (rule sbit_acquire.raw_induct [OF _ that], intro impI)
    fix f l T1 t1 a1 d1 c1 x s y
    assume f: "\<And>l T1 t1 a1 d1 c1 x s y. f l T1 t1 a1 d1 c1 x s = Some y \<Longrightarrow>
        l = la \<longrightarrow> T1 = T \<longrightarrow> t1 = t0 \<longrightarrow> a1 = a \<longrightarrow> d1 = d \<longrightarrow> c1 = c \<longrightarrow> Q x s y"
      and eq: "l = la" "T1 = T" "t1 = t0" "a1 = a" "d1 = d" "c1 = c"
      and y: "(if 4 * length x > 65000 then ret (x, True) s
       else bindM (sbit_turn l a1 d1 c1 x) (\<lambda>sbits.
            bindM (clock l) (\<lambda>now t.
              if (of_int (now - t1) :: u32) > T1 then ret (sbits, False) t else f l T1 t1 a1 d1 c1 sbits t)) s) = Some y"
    show "Q x s y"
    proof (rule step [of "f la T t0 a d c"])
      show "f la T t0 a d c x s = Some y \<Longrightarrow> Q x s y" for x s y using f by simp
      show "bindM (acquire_turn la T t0 a d c x) (\<lambda>q. case q of Inl v \<Rightarrow> ret v | Inr z \<Rightarrow> f la T t0 a d c z) s = Some y"
        using y unfolding eq
        by (auto simp: acquire_turn_def bindM_cases thenM_def ret_def split: option.splits outcome.splits if_splits)
    qed
  qed
  then show "Q x s y" using run by blast
qed

lemma sound_waits [sounds]:
  assumes "wf_db la"
  shows "sound E (broadcast_wait la reg)" "sound E (cyclic_wait la)" "sound E (l1a_wait la a nevts x)"
    "sound E (gth_wait la expected x)" "sound E (ultra_wait la sr lr lat nt x)"
  using assms
  by (auto intro!: bf.loop_sound cf.loop_sound lf.loop_sound gf.loop_sound uf.loop_sound sounds sound_access
      simp: broadcast_turn_def cyclic_turn_def l1a_turn_def gth_turn_def ultra_turn_def)

end
