(* ===== verification/MethodEnds.thy ===== *)
theory MethodEnds
  imports Ends
begin

text \<open>
  How the registered methods end: the failures that are possible are those of the request itself, over a
  well-formed address table, and, for the methods that index arrays or depend on the version of the
  firmware, on the board the code is written for and within the range of the arrays.
\<close>

section \<open>Methods that index nothing\<close>

lemma sound_each [sounds]: "sound E (read_each la as data)" "sound E (write_each la ps)"
proof -
  show "sound E (read_each la as data)" by (induction as arbitrary: data) (auto intro!: sounds)
  show "sound E (write_each la ps)" by (induction ps) (auto intro!: sounds)
qed

lemma sound_raw:
  shows "sound (asks rq) (mread la rq)" "sound (asks rq) (mwrite la rq)" "sound (asks rq) (mfiforead la rq)"
    "sound (asks rq) (mblockread la rq)" "sound (asks rq) (mfifowrite la rq)" "sound (asks rq) (mblockwrite la rq)"
    "sound (asks rq) (rpcmsg_feature rq)"
  unfolding raw_code by (auto intro!: sounds)

lemma sound_readRegFromDB:
  assumes "wf_db la"
  shows "sound (asks rq) (readRegFromDB la rq)"
  unfolding readRegFromDB_def Let_def
proof (rule sound_get_string)
  fix r
  show "sound (asks rq) (case db_text la r of Some t \<Rightarrow>
      bindM (field_word (split t bar) 0) (\<lambda>raddr. bindM (field_word (split t bar) 2) (\<lambda>rmask.
      bindM (field_word (split t bar) 4) (\<lambda>rsize. bindM (field (split t bar) 1) (\<lambda>rperm.
      bindM (field (split t bar) 3) (\<lambda>rmode. seqM [set_string ''permissions'' rperm, set_string ''mode'' rmode,
        set_word ''address'' raddr, set_word ''mask'' rmask, set_word ''size'' rsize])))))
    | None \<Rightarrow> set_error ''Register not found'')"
    using right_table_fields [OF assms, THEN right_sound] by (auto intro!: sounds)
qed

lemma sound_gbt_steps:
  assumes "wf_db la"
  shows "sound E (emit_rpc_error msg x)" "sound E (ic_write la ohN gbtN address v)"
    "sound E (writeGBTRegLocal la ohN gbtN address v)" "sound E (writeGBTPhaseLocal la ohN vfatN phase)"
    "sound E (checkPhase phase)"
  unfolding writeGBTPhaseLocal_def writeGBTRegLocal_def checkPhase_def ic_write_def emit_rpc_error_def Let_def
  using assms by (auto intro!: sounds sound_access)

lemma sound_gbt:
  assumes "wf_db la"
  shows "sound (asks rq) (writeGBTConfig la rq)" "sound (asks rq) (writeGBTPhase la rq)"
  unfolding gbt_code using assms by (auto intro!: sound_gbt_steps sounds sound_access)

lemma sound_oh_mask:
  assumes "wf_db la"
  shows "sound E (getOHVFATMaskLocal la ohN)" "sound (asks rq) (getOHVFATMask la rq)"
  unfolding oh_masks_code using assms by (auto intro!: sounds sound_access)

lemma sound_daq:
  assumes "wf_db la"
  shows "sound (asks rq) (enableDAQLink la rq)" "sound (asks rq) (disableDAQLink la rq)" "sound (asks rq) (setZS la rq)"
    "sound (asks rq) (resetDAQLink la rq)" "sound (asks rq) (setDAQLinkInputTimeout la rq)"
    "sound (asks rq) (setDAQLinkRunType la rq)" "sound (asks rq) (setDAQLinkRunParameter la rq)"
    "sound (asks rq) (setDAQLinkRunParameters la rq)" "sound (asks rq) (enableDAQModule la rq)"
  unfolding daq_code using assms by (auto intro!: sounds sound_access)

lemma sound_ttc:
  assumes "wf_db la"
  shows "sound (asks rq) (ttcModuleReset la rq)" "sound (asks rq) (ttcMMCMReset la rq)" "sound (asks rq) (checkPLLLock la rq)"
    "sound (asks rq) (getMMCMPhaseMean la rq)" "sound (asks rq) (getMMCMPhaseMedian la rq)" "sound (asks rq) (getGTHPhaseMean la rq)"
    "sound (asks rq) (getGTHPhaseMedian la rq)" "sound (asks rq) (ttcCounterReset la rq)" "sound (asks rq) (getL1AEnable la rq)"
    "sound (asks rq) (setL1AEnable la rq)" "sound (asks rq) (getTTCConfig la rq)" "sound (asks rq) (setTTCConfig la rq)"
    "sound (asks rq) (getTTCStatus la rq)" "sound (asks rq) (getTTCErrorCount la rq)" "sound (asks rq) (getTTCCounter la rq)"
    "sound (asks rq) (getL1AID la rq)" "sound (asks rq) (getL1ARate la rq)" "sound (asks rq) (getTTCSpyBuffer la rq)"
  unfolding ttc_code using assms by (auto intro!: sounds sound_access)

lemma sound_optohybrid:
  assumes "wf_db la"
  shows "sound (asks rq) (configureScanModule la rq)" "sound (asks rq) (printScanConfiguration la rq)"
    "sound (asks rq) (startScanModule la rq)" "sound (asks rq) (statusOH la rq)" "sound (asks rq) (loadTRIMDAC la rq)"
  unfolding optohybrid_code loadTRIMDACLocal_def loadTRIMDAC_def
  using assms by (auto intro!: sounds sound_access split: option.split list.split)

lemma sound_vfat3:
  assumes "wf_db la"
  shows "sound (asks rq) (configureVFAT3s la rq)" "sound (asks rq) (statusVFAT3s la rq)" "sound (asks rq) (vfatSyncCheck la rq)"
  unfolding vfat3_code using assms by (auto intro!: sounds sound_access)

lemma sound_decodeChipID: "sound (\<lambda>e. E e \<or> (\<exists>w. e = Throw (Runtime_error w) \<or> e = Throw (Range_error w))) (decodeChipID rm w)"
  by (auto simp: decodeChipID_def sound_def ends_def throwM_def abortM_def ret_def split: option.splits)

lemma sound_getVFAT3ChipIDs:
  assumes "wf_db la"
  shows "sound (asks rq) (getVFAT3ChipIDs rm la rq)"
  unfolding getVFAT3ChipIDs_def getVFAT3ChipIDsLocal_def vfatSyncCheckLocal_def Let_def
  using assms by (auto intro!: sounds sound_access sound_catch sound_decodeChipID)

lemma sound_monitor:
  assumes "wf_db la"
  shows "sound (asks rq) (getmonTTCmain la rq)" "sound (asks rq) (getmonDAQmain la rq)" "sound (asks rq) (getmonGBTLink la rq)"
    "sound (asks rq) (getmonOHLink la rq)" "sound (asks rq) (getmonSCA la rq)" "sound (asks rq) (getmonVFATLink la rq)"
  unfolding daq_monitor_code using assms by (auto intro!: sounds sound_access)

lemma sound_calibration:
  assumes "wf_db la"
  shows "sound (asks rq) (ttcGenConf la rq)" "sound (asks rq) (ttcGenToggle la rq)"
  unfolding calibration_code using assms by (auto intro!: sounds sound_access)


section \<open>Lists of addresses\<close>

text \<open>The addresses fit into the array for them, and there are words to write for all of them.\<close>

definition list_read_fits :: "rpc_request \<Rightarrow> bool" where
  "list_read_fits rq \<longleftrightarrow> (\<forall>n as. rq_word rq ''count'' = Inr n \<longrightarrow> rq_words rq ''addresses'' = Inr as \<longrightarrow> length as \<le> unat n)"

definition list_write_fits :: "rpc_request \<Rightarrow> bool" where
  "list_write_fits rq \<longleftrightarrow> (\<forall>ds as. rq_words rq ''data'' = Inr ds \<longrightarrow> rq_words rq ''addresses'' = Inr as \<longrightarrow> length as \<le> length ds)"

lemma sound_mlistread: "list_read_fits rq \<Longrightarrow> sound (asks rq) (mlistread la rq)"
  unfolding mlistread_def list_read_fits_def by (auto intro!: sound_get_word sound_get_array sounds)

lemma sound_mlistwrite: "list_write_fits rq \<Longrightarrow> sound (asks rq) (mlistwrite la rq)"
  unfolding mlistwrite_def list_write_fits_def by (auto intro!: sound_get_array sounds)

section \<open>Links by number\<close>

lemma small_oh: "n \<le> 12 \<Longrightarrow> k \<in> set [0..<unat n] \<Longrightarrow> k < 12" for n :: u32
  by (simp add: word_le_nat_alt)

lemma sound_getOHVFATMaskMultiLink:
  assumes "expected_board la"
  shows "sound (asks rq) (getOHVFATMaskMultiLink la rq)"
proof -
  have wf: "wf_db la" using assms by (simp add: expected_board_def)
  have fold: "ends (asks rq) (\<lambda>d. length d = 12) (foldM (\<lambda>ohN ohVfatMaskArray.
         bindM (oh_enabled ohMask ohN) (\<lambda>enabled.
         if \<not> enabled
         then arr_set ohVfatMaskArray ohN 0xffffff
         else bindM (getOHVFATMaskLocal la (of_nat ohN)) (\<lambda>msk. arr_set ohVfatMaskArray ohN msk)))
       [0..<unat NOH] (stack_array la 12))" if "NOH \<le> 12" for NOH :: u32 and ohMask
  proof (rule ends_fold)
    fix k and d :: "u32 list"
    assume "k \<in> set [0..<unat NOH]" "length d = 12"
    then have k: "k < 12" using small_oh [OF that] by blast
    have set: "ends (asks rq) (\<lambda>d. length d = 12) (arr_set d k v)" for v
      using ends_arr_set [of k d] k \<open>length d = 12\<close> by simp
    show "ends (asks rq) (\<lambda>d. length d = 12) (bindM (oh_enabled ohMask k) (\<lambda>enabled.
         if \<not> enabled then arr_set d k 0xffffff
         else bindM (getOHVFATMaskLocal la (of_nat k)) (\<lambda>msk. arr_set d k msk)))"
      using k by (intro ends_after ends_if set sound_oh_enabled sound_oh_mask(1) [OF wf]) simp_all
  qed simp
  have mask: "sound (asks rq) (requested_ohMask rq)"
    unfolding requested_ohMask_def by (auto intro!: sounds)
  show ?thesis
    unfolding getOHVFATMaskMultiLink_def
    by (rule sound_bind [OF mask], rule sound_after [OF ends_NOH [OF assms]], rule sound_bind, rule ends_sound, erule fold)
      (intro sounds)
qed

text \<open>The reports by link.\<close>

lemma ends_monitored:
  assumes "expected_board la"
  shows "sound (asks rq) (monitored la rq)"
  unfolding monitored_def requested_ohMask_def
proof (rule sound_after [OF ends_num_of_oh [OF assms]])
  fix NOH :: u32
  assume "NOH \<le> 12"
  then have "\<not> NOH > NOH_MAX" by (simp add: NOH_MAX_def not_less)
  then show "sound (asks rq) (bindM (if rq_exists rq ''ohMask'' then get_word rq ''ohMask'' else ret 0xfff) (\<lambda>ohMask.
      if \<not> rq_exists rq ''NOH'' then ret (sint NOH, ohMask)
      else bindM (get_word rq ''NOH'') (\<lambda>NOH_requested.
        if NOH_requested > NOH
        then (if NOH > NOH_MAX then abortM Undefined
             else ret (sint NOH_requested, ohMask AND drop_bit (unat (NOH_MAX - NOH)) 0xfff))
        else ret (sint NOH_requested, ohMask))))"
    by (simp cong: if_cong) (auto intro!: sounds)
qed

lemma sound_links:
  assumes "expected_board la"
  shows "sound (asks rq) (getmonTRIGGERmain la rq)" "sound (asks rq) (getmonTRIGGEROHmain la rq)"
    "sound (asks rq) (getmonDAQOHmain la rq)" "sound (asks rq) (getmonOHmain la rq)" "sound (asks rq) (getmonOHSCAmain la rq)"
    "sound (asks rq) (getmonOHSysmon la rq)"
proof -
  have wf: "wf_db la" using assms by (simp add: expected_board_def)
  note code = getmonTRIGGERmain_def getmonTRIGGERmainLocal_def getmonTRIGGEROHmain_def getmonTRIGGEROHmainLocal_def
    getmonDAQOHmain_def getmonDAQOHmainLocal_def getmonOHmain_def getmonOHmainLocal_def getmonOHSCAmain_def
    getmonOHSCAmainLocal_def getmonOHSysmon_def getmonOHSysmonLocal_def sysmon_v2_def sysmon_v3_def report_adc_def
    fw_version_def read_version_def fw_version_check_def report_oh_def report_def Let_def
  show "sound (asks rq) (getmonTRIGGERmain la rq)" "sound (asks rq) (getmonTRIGGEROHmain la rq)"
    "sound (asks rq) (getmonDAQOHmain la rq)" "sound (asks rq) (getmonOHmain la rq)" "sound (asks rq) (getmonOHSCAmain la rq)"
    "sound (asks rq) (getmonOHSysmon la rq)"
    unfolding code using wf
    by (auto intro!: sound_after [OF ends_local_NOH [OF assms]] sound_bind [OF ends_monitored [OF assms]] sounds sound_access)
qed


section \<open>Methods that depend on the firmware\<close>

lemma ends_broadcastReadLocal:
  assumes "expected_board la"
  shows "ends E (\<lambda>d. length d = 24) (broadcastReadLocal la ohN r m)"
  unfolding broadcastReadLocal_def
proof (rule ends_bind [OF ends_release [OF assms]])
  fix fw :: u32
  assume "fw = 1 \<or> fw = 3"
  then obtain base where base: "(if fw = 1 then ret (Some (oh_base ohN @ ''.GEB.VFATS.VFAT''))
      else if fw = 3 then ret (Some (oh_base ohN @ ''.GEB.VFAT''))
      else thenM (set_error ''Unexpected value for system release major!'') (ret None)) = ret (Some base)" by fastforce
  have wf: "wf_db la" using assms by (simp add: expected_board_def)
  let ?each = "\<lambda>i. if bit m i then ret 0
         else (case Some base of None \<Rightarrow> abortM Undefined
           | Some base \<Rightarrow>
              (let t_regName = base @ dec i @ ''.'' @ r
               in bindM (readReg la t_regName) (\<lambda>w.
                  thenM (whenM (w = 0xdeaddead) (set_error (''Error reading register '' @ c_str t_regName)))
                    (ret w))))"
  have "ends E (\<lambda>d. length d = length [0..<24] \<and> (\<forall>y\<in>set d. True)) (collectM [0..<24] ?each)"
    using wf by (intro ends_collect) (auto simp: Let_def intro!: ends_true sounds sound_access)
  then show "ends E (\<lambda>d. length d = 24) (bindM (if fw = 1 then ret (Some (oh_base ohN @ ''.GEB.VFATS.VFAT''))
      else if fw = 3 then ret (Some (oh_base ohN @ ''.GEB.VFAT''))
      else thenM (set_error ''Unexpected value for system release major!'') (ret None)) (\<lambda>regBase. collectM [0..<24] (\<lambda>i.
         if bit m i then ret 0
         else (case regBase of None \<Rightarrow> abortM Undefined
           | Some base \<Rightarrow>
              (let t_regName = base @ dec i @ ''.'' @ r
               in bindM (readReg la t_regName) (\<lambda>w.
                  thenM (whenM (w = 0xdeaddead) (set_error (''Error reading register '' @ c_str t_regName)))
                    (ret w)))))))"
    unfolding base by simp
qed

lemmas sound_broadcastReadLocal = ends_broadcastReadLocal [THEN ends_sound]

lemma sound_broadcastRead:
  assumes "expected_board la"
  shows "sound (asks rq) (broadcastRead la rq)"
  unfolding broadcastRead_def broadcast_mask_def using assms by (auto intro!: sounds sound_broadcastReadLocal)

lemma sound_sync:
  assumes "wf_db la"
  shows "sound E (vfatSyncCheckLocal la ohN)"
  unfolding vfatSyncCheckLocal_def using assms by (auto intro!: sounds sound_access)

lemma sound_DacMonitorLocal:
  assumes "expected_board la"
  shows "sound E (configureVFAT3DacMonitorLocal la ohN m sel)"
  unfolding configureVFAT3DacMonitorLocal_def
  using assms by (auto intro!: sounds sound_sync sound_access sound_broadcastReadLocal simp: expected_board_def)

lemma sound_readVFAT3ADCLocal:
  assumes "expected_board la"
  shows "ends E (\<lambda>d. length d = 24) (readVFAT3ADCLocal la ohN ext m)"
  unfolding readVFAT3ADCLocal_def
  using assms by (auto intro!: ends_after ends_then sounds sound_broadcastReadLocal ends_broadcastReadLocal)

lemma sound_adc:
  assumes "expected_board la"
  shows "sound (asks rq) (configureVFAT3DacMonitor la rq)" "sound (asks rq) (readVFAT3ADC la rq)"
    "sound (asks rq) (configureVFAT3DacMonitorMultiLink la rq)"
proof -
  have wf: "wf_db la" using assms by (simp add: expected_board_def)
  show "sound (asks rq) (configureVFAT3DacMonitor la rq)" "sound (asks rq) (readVFAT3ADC la rq)"
    unfolding configureVFAT3DacMonitor_def readVFAT3ADC_def
    using assms by (auto intro!: sounds sound_DacMonitorLocal ends_sound [OF sound_readVFAT3ADCLocal])
  show "sound (asks rq) (configureVFAT3DacMonitorMultiLink la rq)"
    unfolding configureVFAT3DacMonitorMultiLink_def
    using assms by (auto intro!: sound_after [OF ends_NOH [OF assms]] sounds sound_DacMonitorLocal sound_oh_mask [OF wf] dest: small_oh)
qed

lemma sound_readVFAT3ADCMultiLink:
  assumes "expected_board la"
  shows "sound (asks rq) (readVFAT3ADCMultiLink la rq)"
proof -
  have wf: "wf_db la" using assms by (simp add: expected_board_def)
  have fold: "ends (asks rq) (\<lambda>d. length d = 12 * 24) (foldM (\<lambda>ohN adcDataAll.
         bindM (oh_enabled ohMask ohN) (\<lambda>enabled.
         if \<not> enabled then ret adcDataAll
         else
           bindM (getOHVFATMaskLocal la (of_nat ohN)) (\<lambda>vfatMask.
           bindM (readVFAT3ADCLocal la (of_nat ohN) ext vfatMask) (\<lambda>adcData.
             copy_at adcDataAll (24 * ohN) adcData)))) [0..<unat NOH] (replicate (12 * 24) 0))"
    if "NOH \<le> 12" for NOH :: u32 and ohMask ext
  proof (rule ends_fold)
    fix k and d :: "u32 list"
    assume "k \<in> set [0..<unat NOH]" "length d = 12 * 24"
    then have k: "k < 12" using small_oh [OF that] by blast
    have copy: "ends (asks rq) (\<lambda>d. length d = 12 * 24) (copy_at d (24 * k) xs)" if "length xs = 24" for xs
      using that k \<open>length d = 12 * 24\<close> by (simp add: copy_at_def ends_ret)
    show "ends (asks rq) (\<lambda>d. length d = 12 * 24) (bindM (oh_enabled ohMask k) (\<lambda>enabled.
         if \<not> enabled then ret d
         else
           bindM (getOHVFATMaskLocal la (of_nat k)) (\<lambda>vfatMask.
           bindM (readVFAT3ADCLocal la (of_nat k) ext vfatMask) (\<lambda>adcData.
             copy_at d (24 * k) adcData))))"
      using k \<open>length d = 12 * 24\<close>
      by (intro ends_after ends_if ends_ret sound_oh_enabled sound_oh_mask(1) [OF wf]
          ends_bind [OF sound_readVFAT3ADCLocal [OF assms]] copy) simp_all
  qed simp
  show ?thesis
    unfolding readVFAT3ADCMultiLink_def
    by (intro sound_get_word, rule sound_after [OF ends_NOH [OF assms]], rule sound_bind, rule ends_sound, erule fold)
      (intro sounds)
qed

section \<open>Configuration\<close>

lemma sound_broadcast [sounds]:
  assumes "wf_db la"
  shows "sound E (broadcastWriteLocal la ohN r v m)"
  unfolding broadcastWriteLocal_def Let_def using assms by (auto intro!: sounds sound_access)

lemma sound_configure:
  assumes "wf_db la"
  shows "sound (asks rq) (broadcastWrite la rq)" "sound (asks rq) (loadVT1 la rq)" "sound (asks rq) (configureVFATs la rq)"
  unfolding broadcastWrite_def broadcast_mask_def loadVT1_def loadVT1Local_def configureVFATs_def biasAllVFATsLocal_def
    loadTRIMDACLocal_def setAllVFATsToRunModeLocal_def fw_version_check_def optional_string_def optional_word_def Let_def
  using assms by (auto intro!: sounds sound_access split: option.split list.split)

section \<open>Channel registers\<close>

lemma ends_each_channel:
  assumes "wf_db la" "I a"
    and body: "\<And>v c a. v < 24 \<Longrightarrow> c < 128 \<Longrightarrow> I a \<Longrightarrow> ends E (case_sum I I) (body v c a)"
  shows "ends E I (each_channel la ohN m body a)"
  unfolding each_channel_def
proof (rule ends_bind [OF ends_foldE])
  show "ends E I (ret (case r of Inl a \<Rightarrow> a | Inr a \<Rightarrow> a))" if "case_sum I I r" for r
    using that by (cases r) (simp_all add: ends_ret)
  fix v a
  assume v: "v \<in> set [0..<24]" and a: "I a"
  show "ends E (case_sum I I) (if \<not> bit (not_mask m) v then ret (Inr a)
       else
         bindM (vfatSyncCheckLocal la ohN) (\<lambda>good.
         if \<not> bit good v
         then thenM (set_error (vfat_not_synced good v m)) (ret (Inl a))
         else foldE (body v) [0..<128] a))"
    using v a by (intro ends_if ends_ret ends_after [OF sound_sync [OF assms(1)]] ends_then ends_foldE body sounds)
      (simp_all del: upt_rec_numeral)
qed (rule assms(2))

lemma ends_read_channel:
  assumes "wf_db la" "length d = 3072" "v < 24" "c < 128"
  shows "ends E (case_sum (\<lambda>d. length d = 3072) (\<lambda>d. length d = 3072)) (read_channel la ohN v c d)"
proof -
  have i: "v * 128 + c < length d" using assms(2-4) by simp
  show ?thesis
    unfolding read_channel_def
    by (intro ends_after sound_access sounds assms(1) ends_bind [OF ends_arr_set [OF i]] ends_then ends_ret) (simp add: assms(2))
qed

lemma ends_getChannels:
  assumes "wf_db la" "length d = 3072"
  shows "ends E (\<lambda>d. length d = 3072) (getChannelRegistersVFAT3Local la ohN m d)"
  unfolding getChannelRegistersVFAT3Local_def
  by (rule ends_each_channel [OF assms(1)]) (use assms in \<open>simp_all add: ends_read_channel\<close>)

lemma sound_setChannels:
  assumes "wf_db la" "length d = 3072"
  shows "sound E (setChannelRegistersVFAT3SimpleLocal la ohN m d)"
proof -
  have body: "ends E (case_sum (\<lambda>x. True) (\<lambda>x. True)) (write_channel la ohN d v c x)" if "v < 24" "c < 128" for v c x
    unfolding write_channel_def
    using that assms by (intro ends_after sound_access sounds ends_then ends_ret) simp_all
  show ?thesis
    unfolding setChannelRegistersVFAT3SimpleLocal_def
    by (rule ends_sound [OF ends_each_channel [where I = "\<lambda>x. True", OF assms(1) TrueI body]])
qed

definition channels_sized :: "channel_data \<Rightarrow> bool" where
  "channels_sized d \<longleftrightarrow> (\<forall>xs \<in> {calEnable d, masks d, trimARM d, trimARMPol d, trimZCC d, trimZCCPol d}. length xs = 3072)"

lemma sound_setChannels_fields:
  assumes "wf_db la" "channels_sized d"
  shows "sound E (setChannelRegistersVFAT3Local la ohN m d)"
proof -
  have body: "ends E (case_sum (\<lambda>x. True) (\<lambda>x. True)) (set_channel la ohN d v c x)" if "v < 24" "c < 128" for v c x
    unfolding set_channel_def Let_def
    using that assms by (intro ends_after sound_access sounds ends_then ends_ret ends_if) (simp_all add: channels_sized_def)
  show ?thesis
    unfolding setChannelRegistersVFAT3Local_def
    by (rule ends_sound [OF ends_each_channel [where I = "\<lambda>x. True", OF assms(1) TrueI body]])
qed

text \<open>The arrays of a request are copied into arrays of 3072 words.\<close>

definition channel_arrays_fit :: "rpc_request \<Rightarrow> bool" where
  "channel_arrays_fit rq \<longleftrightarrow> (\<forall>k ws. k \<in> {''chanRegData'', ''calEnable'', ''masks'', ''trimARM'', ''trimARMPol'', ''trimZCC'', ''trimZCCPol''}
     \<longrightarrow> rq_words rq k = Inr ws \<longrightarrow> length ws \<le> 3072)"

lemma ends_channel_array:
  assumes "channel_arrays_fit rq" "k \<in> {''chanRegData'', ''calEnable'', ''masks'', ''trimARM'', ''trimARMPol'', ''trimZCC'', ''trimZCCPol''}"
  shows "ends (asks rq) (\<lambda>d. length d = 3072) (channel_array la rq k)"
proof (cases "rq_words rq k")
  case (Inl e)
  then show ?thesis
    by (auto simp: channel_array_def get_word_array_def liftE_def bindM_def throwM_def abortM_def ends_def asks_def)
next
  case (Inr ws)
  then have "length ws \<le> 3072" using assms unfolding channel_arrays_fit_def by blast
  then show ?thesis
    using ends_copy_into [of ws "stack_array la 3072" "asks rq"] Inr by (simp add: channel_array_def get_word_array_def liftE_def)
qed

lemma sound_channels:
  assumes "wf_db la"
  shows "sound (asks rq) (getChannelRegistersVFAT3 la rq)"
    and "channel_arrays_fit rq \<Longrightarrow> sound (asks rq) (setChannelRegistersVFAT3 la rq)"
proof -
  show "sound (asks rq) (getChannelRegistersVFAT3 la rq)"
    unfolding getChannelRegistersVFAT3_def
    by (intro sounds ends_sound [OF ends_getChannels [OF assms]]) simp
  assume fit: "channel_arrays_fit rq"
  note arr = sound_after [OF ends_channel_array [OF fit]]
  show "sound (asks rq) (setChannelRegistersVFAT3 la rq)"
    unfolding setChannelRegistersVFAT3_def
    by (rule sound_bind [OF sound_get(1)], rule sound_bind [OF sound_get(1)], rule sound_if)
      (rule arr, simp, rule sound_setChannels [OF assms], assumption,
       rule arr, simp, rule arr, simp, rule arr, simp, rule arr, simp, rule arr, simp, rule arr, simp,
       rule sound_setChannels_fields [OF assms], simp add: channels_sized_def)
qed

section \<open>Scanning the phases of the GBTs\<close>

definition phase_counts :: "u32 list list \<Rightarrow> bool" where
  "phase_counts rs \<longleftrightarrow> length rs = 24 \<and> (\<forall>r\<in>set rs. length r = 16)"

lemma ends_count_good:
  "phase_counts rs \<Longrightarrow> v < 24 \<Longrightarrow> p < 16 \<Longrightarrow> ends E phase_counts (count_good rs v p)"
  by (auto simp: count_good_def phase_counts_def nth_list_update all_set_conv_all_nth intro!: ends_ret)

lemma ends_scan_repetition:
  assumes "wf_db la" "phase_counts rs" "p \<le> 15"
  shows "ends E phase_counts (scan_repetition la ohN p rs)"
proof -
  have p: "unat p < 16" using assms(3) by (simp add: word_le_nat_alt)
  have good: "sound E (vfat_good la ohN v)" for v
    unfolding vfat_good_def using assms(1) by (auto intro!: sounds sound_access)
  show ?thesis
    unfolding scan_repetition_def
    using assms p
    by (intro ends_then sounds sound_access ends_fold ends_after [OF good] ends_if ends_count_good ends_ret) auto
qed

lemma ends_scan_phase:
  assumes "wf_db la" "phase_counts rs" "p \<le> 15"
  shows "ends E (case_sum (\<lambda>x. True) phase_counts) (scan_phase la ohN N p rs)"
proof -
  have reps: "ends E phase_counts (foldM (\<lambda>repN. scan_repetition la ohN p) [0..<unat N] rs)"
    using assms by (intro ends_fold ends_scan_repetition) auto
  show ?thesis
    unfolding scan_phase_def
  proof (rule ends_after)
    show "sound E (loopM [0..<24] (\<lambda>v. bindM (writeGBTPhaseLocal la ohN (of_nat v) p) (\<lambda>err. ret (if err then Some () else None))))"
      by (intro sounds sound_gbt_steps [OF assms(1)])
    show "ends E (case_sum (\<lambda>x. True) phase_counts) (case r of Some _ \<Rightarrow> ret (Inl ())
        | None \<Rightarrow> thenM (sleep_ms 10) (bindM (foldM (\<lambda>repN. scan_repetition la ohN p) [0..<unat N] rs) (\<lambda>results. ret (Inr results))))"
      for r :: "unit option"
      using reps by (cases r) (auto intro!: ends_then sounds ends_bind ends_ret intro: ends_mono)
  qed
qed

lemma ends_checkPhase: "ends E (\<lambda>bad. \<not> bad \<longrightarrow> p \<le> 15) (checkPhase p)"
  unfolding checkPhase_def emit_rpc_error_def PHASE_MIN_def PHASE_MAX_def
  by (intro ends_if ends_then sounds ends_ret) auto

definition phase_step_fits :: "rpc_request \<Rightarrow> bool" where
  "phase_step_fits rq \<longleftrightarrow> (\<forall>st. rq_word rq ''phaseStep'' = Inr st \<longrightarrow> (ucast st :: u8) \<noteq> 0 \<and> (ucast st :: u8) \<le> 240)"

lemma sound_scanGBTPhasesLocal:
  assumes "wf_db la" "st \<noteq> 0" "st \<le> 240"
  shows "sound E (scanGBTPhasesLocal la ohN N lo hi st)"
proof -
  have loop: "ends E (case_sum (\<lambda>x. True) phase_counts) (scan_loop la ohN N lo hi st)" if "hi \<le> 15" "lo \<le> 15"
  proof -
    have "unat hi + unat st < 2 ^ 8" using that assms(3) by (simp add: word_le_nat_alt)
    then show ?thesis
      unfolding scan_loop_def using assms(1,2) that
      by (intro ends_for_step [where lo = 0]) (auto intro!: ends_scan_phase simp: phase_counts_def)
  qed
  have fin: "sound E (case r of Inl _ \<Rightarrow> ret True | Inr rs \<Rightarrow>
      thenM (forM [0..<24] (\<lambda>v. set_word_array (''OH'' @ fmt_u ohN @ ''.VFAT'' @ dec v) (rs ! v))) (ret False))"
    for r :: "unit + u32 list list"
    by (intro sounds)
  show ?thesis
    unfolding scanGBTPhasesLocal_def
    by (intro sound_bind [OF sound_access(5) [OF assms(1)]] sound_if sound_ret sound_gbt_steps [OF assms(1)] fin
        sound_after [OF ends_checkPhase] sound_after [OF loop])
       auto
qed

lemma sound_scanGBTPhases:
  assumes "wf_db la" "phase_step_fits rq"
  shows "sound (asks rq) (scanGBTPhases la rq)"
  unfolding scanGBTPhases_def
  using assms by (auto intro!: sound_get_word sound_scanGBTPhasesLocal sounds simp: phase_step_fits_def)

section \<open>The phase shift\<close>

lemma sound_checkPLLLockLocal [sounds]: "wf_db la \<Longrightarrow> sound E (checkPLLLockLocal la n)"
  unfolding checkPLLLockLocal_def by (auto intro!: sounds sound_access)

lemma ends_mmcm_step:
  assumes "wf_db la" "gthShiftCnt ps < 40"
  shows "ends E (\<lambda>q. gthShiftCnt q < 40) (mmcm_step la ps)"
proof -
  have "unat (gthShiftCnt ps + 1) < length mmcmShiftTable"
    using assms(2) by (simp add: mmcmShiftTable_def word_less_nat_alt unat_word_ariths)
  then show ?thesis
    unfolding mmcm_step_def Let_def using assms
    by (intro ends_if ends_after sound_access ends_ret) simp_all
qed

lemma ends_shift_turn:
  assumes "wf_db la" "gthShiftCnt ps < 40"
  shows "ends E (\<lambda>(q, b). gthShiftCnt q < 40) (shift_turn la relock bc0 scan n ps)"
proof -
  have small: "gthShiftCnt (ps\<lparr>gthShiftCnt := next_gth (reversingForLock ps) (gthShiftCnt ps)\<rparr>) < 40"
    using next_gth_small [OF assms(2)] by simp
  have look: "ends E (\<lambda>(q, b, c). gthShiftCnt q < 40) (shift_look la n ps)"
    unfolding shift_look_def Let_def
    by (intro ends_then ends_after sounds sound_access assms(1) ends_bind [OF ends_mmcm_step [OF assms(1) small]] ends_ret) simp
  have dec: "ends E (\<lambda>(q, b). gthShiftCnt q < 40) (let (ps3, ws, brk) = decide relock bc0 scan l k q
              in thenM (forM ws (\<lambda>(r, v). writeReg la r v)) (ret (ps3, brk)))" if "gthShiftCnt q < 40" for l k q
    using that decide_gth [of relock bc0 scan l k q]
    by (cases "decide relock bc0 scan l k q") (auto intro!: ends_then sounds sound_access assms(1) ends_ret)
  show ?thesis
    unfolding shift_turn_def by (rule ends_bind [OF look]) (use dec in \<open>simp only: split_paired_all prod.case\<close>)
qed

lemma ends_shift_turns:
  assumes "wf_db la"
  shows "gthShiftCnt ps < 40 \<Longrightarrow> sound E (shift_turns k la relock bc0 scan n ps)"
proof (induction k arbitrary: ps)
  case (Suc k)
  have "sound E (if brk then ret q else shift_turns k la relock bc0 scan n (count_shift q))" if "gthShiftCnt q < 40" for q brk
    using that Suc.IH [of "count_shift q"] by (simp add: sound_ret count_shift_def)
  then show ?case by (auto intro!: sound_after [OF ends_shift_turn [OF assms Suc.prems]])
qed (simp add: sound_ret)

lemma sound_phase_shift:
  assumes "wf_db la" "always_shows la gth_shift_cnt (\<lambda>v. v < 40)"
  shows "sound E (ttcMMCMPhaseShiftLocal la relock bc0 scan)"
proof -
  have each: "sound E (write_readback la r)" for r
    unfolding write_readback_def using assms(1) by (auto intro!: sounds sound_access)
  have search: "sound E (bindM (shift_turns (max_shift scan) la relock bc0 scan (read_attempts bc0 scan) (start_search mmcm c)) (finish_search la))"
    if "c < 40" for mmcm c
    using that by (intro sound_bind ends_shift_turns assms(1)) (auto simp: start_search_def finish_search_def intro!: sounds sound_access assms(1))
  show ?thesis
    unfolding ttcMMCMPhaseShiftLocal_def
    by (intro sound_bind sound_loop sound_case_option sound_if sound_ret each sound_access assms(1)
        sound_after [OF ends_readReg [OF assms]] search sounds)
qed

lemma sound_phase_methods:
  assumes "wf_db la" "always_shows la gth_shift_cnt (\<lambda>v. v < 40)"
  shows "sound (asks rq) (ttcMMCMPhaseShift la rq)" "sound (asks rq) (configureDAQModule la rq)"
  unfolding ttcMMCMPhaseShift_def configureDAQModule_def scaHardResetEnableLocal_def ttcCounterResetLocal_def daq_code
  using assms(1) by (auto intro!: sounds sound_access sound_phase_shift [OF assms])

section \<open>The acquisition of clusters\<close>

lemma sound_sbitReadOut:
  assumes "wf_db la"
  shows "sound (asks rq) (sbitReadOut la rq)"
proof -
  have acq: "sound E (sbit_acquire la T t0 a d c x)" for E T t0 a d c x
    by (rule af.loop_sound) (auto simp: acquire_turn_def sbit_turn_def Let_def intro!: sounds)
  show ?thesis
    unfolding sbitReadOut_def sbitReadOutLocal_def using assms by (auto intro!: sounds sound_access acq)
qed

end
