(* ===== verification/ScanEnds.thy ===== *)
theory ScanEnds
  imports MethodEnds
begin

text \<open>
  How the scans and the checks with calibration pulses end: the results of a scan whose step divides the number of
  values lie inside the arrays, whatever the number of links, channels and chips.
\<close>

section \<open>Positions in the results of a scan\<close>

text \<open>The layout for any number of parts: \<open>n\<close> parts take \<open>n * M\<close> words, with \<open>M\<close> the number of steps.\<close>

abbreviation scan_steps :: "u32 \<Rightarrow> u32 \<Rightarrow> u32 \<Rightarrow> nat" where
  "scan_steps lo hi st \<equiv> (unat (hi - lo) + 1) div unat st"

lemma scan_len_value:
  assumes "N * (unat (hi - lo :: u32) + 1) < 2 ^ 32" "unat st dvd unat (hi - lo) + 1" "n \<le> N"
  shows "unat (scan_len n lo hi st) = n * scan_steps lo hi st"
proof (cases "N = 0")
  case False
  then have "unat (of_nat n * (hi - lo + 1) :: u32) = n * (unat (hi - lo) + 1)"
    using unat_range [OF assms(1)] assms(3) by blast
  then show ?thesis using assms(2) unfolding scan_len_def unat_div by (simp only: div_mult_swap)
qed (use assms(3) in \<open>simp add: scan_len_def unat_div\<close>)

lemma scan_steps_pos: "unat st dvd unat (hi - lo :: u32) + 1 \<Longrightarrow> 0 < unat st"
  by (cases "unat st = 0") simp_all

lemma scan_step_less:
  assumes "unat st dvd unat (hi - lo :: u32) + 1" "lo \<le> d" "d \<le> hi"
  shows "unat (d - lo) div unat st < scan_steps lo hi st"
proof -
  have "unat (d - lo) \<le> unat (hi - lo)"
    using assms(2,3) by (simp add: unat_sub word_le_nat_alt diff_le_mono)
  then show ?thesis using assms(1) scan_steps_pos [OF assms(1)] by (simp add: less_mult_imp_div_less)
qed

lemma scan_idx_less:
  assumes "N * (unat (hi - lo :: u32) + 1) < 2 ^ 32" "unat st dvd unat (hi - lo) + 1" "n < N" "lo \<le> d" "d \<le> hi"
  shows "unat (scan_idx n lo hi st d) = n * scan_steps lo hi st + unat (d - lo) div unat st"
    and "unat (scan_idx n lo hi st d) < N * scan_steps lo hi st"
proof -
  let ?M = "scan_steps lo hi st" and ?k = "unat (d - lo) div unat st"
  have k: "?k < ?M" by (rule scan_step_less [OF assms(2,4,5)])
  have "n * ?M + ?k < (n + 1) * ?M" using k by simp
  also have "\<dots> \<le> N * ?M" using assms(3) by (intro mult_le_mono1) simp
  finally have in_range: "n * ?M + ?k < N * ?M" .
  have "N * ?M \<le> N * (unat (hi - lo) + 1)" by (intro mult_le_mono2 div_le_dividend)
  then have "n * ?M + ?k < 2 ^ 32" using in_range assms(1) by linarith
  moreover have "unat (of_nat n * (hi - lo + 1) div st) = n * ?M"
    using scan_len_value [OF assms(1,2), of n] assms(3) by (simp add: scan_len_def)
  moreover have "unat ((d - lo) div st) = ?k" by (rule unat_div)
  ultimately show v: "unat (scan_idx n lo hi st d) = n * ?M + ?k"
    unfolding scan_idx_def unat_word_ariths(1) by simp
  show "unat (scan_idx n lo hi st d) < N * ?M" unfolding v by (rule in_range)
qed

section \<open>The parameters of a scan\<close>

text \<open>The step divides the number of values, the array for \<open>N\<close> parts fits into 32 bits, and the counter does not wrap around.\<close>

definition scan_fits :: "nat \<Rightarrow> u32 \<Rightarrow> u32 \<Rightarrow> u32 \<Rightarrow> bool" where
  "scan_fits N lo hi st \<longleftrightarrow> unat st dvd unat (hi - lo) + 1 \<and> N * (unat (hi - lo) + 1) < 2 ^ 32 \<and> unat hi + unat st < 2 ^ 32"

definition scan_request_fits :: "nat \<Rightarrow> rpc_request \<Rightarrow> bool" where
  "scan_request_fits N rq \<longleftrightarrow> (\<forall>lo hi st. rq_word rq ''dacMin'' = Inr lo \<longrightarrow> rq_word rq ''dacMax'' = Inr hi \<longrightarrow>
     rq_word rq ''dacStep'' = Inr st \<longrightarrow> scan_fits N lo hi st)"

lemma scan_fits_step: "scan_fits N lo hi st \<Longrightarrow> st \<noteq> 0"
  by (auto simp: scan_fits_def)

lemma ends_scan_slot:
  assumes "scan_fits N lo hi st" "n < N" "lo \<le> d" "d \<le> hi"
  shows "ends E (\<lambda>i. i = n * scan_steps lo hi st + unat (d - lo) div unat st \<and> i < N * scan_steps lo hi st) (scan_slot n lo hi st d)"
  using assms scan_idx_less [of N hi lo st n d] scan_fits_step [OF assms(1)]
  by (auto simp: scan_slot_def scan_fits_def intro!: ends_ret)

lemma ends_scan_array:
  assumes "scan_fits N lo hi st" "n \<le> N"
  shows "ends E (\<lambda>xs. length xs = n * scan_steps lo hi st) (scan_array la n lo hi st)"
  using assms scan_len_value [of N hi lo st n] scan_fits_step [OF assms(1)]
  by (auto simp: scan_array_def scan_fits_def intro!: ends_ret)

lemma scan_fits_le: "scan_fits N lo hi st \<Longrightarrow> n \<le> N \<Longrightarrow> scan_fits n lo hi st"
  unfolding scan_fits_def by (blast intro: le_less_trans [OF mult_le_mono1])

lemma ends_scan_loop:
  assumes "scan_fits N lo hi st"
    and "\<And>d x. lo \<le> d \<Longrightarrow> d \<le> hi \<Longrightarrow> I x \<Longrightarrow> ends E (case_sum J I) (body d x)" and "I x"
  shows "ends E (case_sum J I) (for_step hi st body lo x)"
  using assms scan_fits_step [OF assms(1)]
  by (intro ends_for_step [where lo = lo]) (auto simp: scan_fits_def)

section \<open>The scan module\<close>

lemma ends_ultra_dac:
  assumes "wf_db la" "scan_fits 24 lo hi st" "lo \<le> d" "d \<le> hi" "24 * scan_steps lo hi st \<le> length xs"
  shows "ends E (case_sum (\<lambda>_. True) (\<lambda>ys. length ys = length xs)) (ultra_dac la ohN lo hi st d xs)"
  unfolding ultra_dac_def
proof (rule ends_bind [OF ends_fold [where I = "\<lambda>ys. length ys = length xs"]])
  fix v and ys :: "u32 list"
  assume v: "v \<in> set [0..<24]" and ys: "length ys = length xs"
  have set: "ends E (\<lambda>zs. length zs = length xs) (arr_set ys i w)" if "i < 24 * scan_steps lo hi st" for i w
    using ends_arr_set [of i ys E w] that assms(5) ys by simp
  show "ends E (\<lambda>ys. length ys = length xs) (bindM (scan_slot v lo hi st d) (\<lambda>idx.
         bindM (readReg la (oh_base ohN @ ''.ScanController.ULTRA.RESULTS.VFAT'' @ dec v)) (\<lambda>w. arr_set ys idx w)))"
    using v assms(1) by (intro ends_bind [OF ends_scan_slot [OF assms(2) _ assms(3,4)]] ends_after sound_access set) auto
qed (auto intro: ends_ret)

lemma ends_getUltra:
  assumes "wf_db la" "scan_fits 24 lo hi st" "24 * scan_steps lo hi st \<le> length xs"
  shows "ends E (\<lambda>ys. length ys = length xs) (getUltraScanResultsLocal la xs ohN nevts lo hi st)"
proof -
  have loop: "ends E (case_sum (\<lambda>_. True) (\<lambda>ys. length ys = length xs)) (for_step hi st (ultra_dac la ohN lo hi st) lo xs)"
    using assms(3)
    by (intro ends_scan_loop [OF assms(2)]) (auto intro!: ends_ultra_dac [OF assms(1,2), THEN ends_mono] split: sum.split)
  have fin: "ends E (\<lambda>ys. length ys = length xs) (ret (case r of Inl _ \<Rightarrow> xs | Inr d \<Rightarrow> d))"
    if "case_sum (\<lambda>_. True) (\<lambda>ys. length ys = length xs) r" for r :: "unit + u32 list"
    using that by (cases r) (simp_all add: ends_ret)
  show ?thesis
    unfolding getUltraScanResultsLocal_def Let_def
    by (intro ends_after ends_then ends_bind [OF loop] fin sounds sound_access assms(1))
qed

lemma sound_getUltraScanResults:
  assumes "wf_db la" "scan_request_fits 24 rq"
  shows "sound (asks rq) (getUltraScanResults la rq)"
  unfolding getUltraScanResults_def
proof ((rule sound_get_word)+)
  fix ohN nevts lo hi st
  assume "rq_word rq ''dacMin'' = Inr lo" "rq_word rq ''dacMax'' = Inr hi" "rq_word rq ''dacStep'' = Inr st"
  then have fits: "scan_fits 24 lo hi st" using assms(2) by (simp add: scan_request_fits_def)
  show "sound (asks rq) (bindM (scan_array la 24 lo hi st) (\<lambda>arr.
     bindM (getUltraScanResultsLocal la arr ohN nevts lo hi st) (\<lambda>outData. set_word_array ''data'' outData)))"
    by (rule sound_after [OF ends_scan_array [OF fits]]) (auto intro!: ends_sound [OF ends_getUltra] assms(1) fits sounds)
qed

lemma sound_stopCalPulse2AllChannels:
  assumes "wf_db la" "rq_word rq ''ch_max'' \<noteq> Inr (- 1)"
  shows "sound (asks rq) (stopCalPulse2AllChannels la rq)"
proof -
  have "unat w + 1 < 2 ^ 32" if "w \<noteq> (- 1 :: u32)" for w
  proof -
    have "w < - 1" using that word_order.not_eq_extremum by blast
    then show ?thesis by (simp add: word_less_nat_alt unsigned_minus_1_eq_mask mask_eq_exp_minus_1)
  qed
  moreover have "sound E (stop_v1 la ohN i c x)" "sound E (stop_v3 la ohN i c x)" for E ohN i c x
    unfolding stop_v1_def stop_v3_def using assms(1) by (auto intro!: sounds sound_access)
  ultimately show ?thesis
    using assms unfolding stopCalPulse2AllChannels_def stopCalPulse2AllChannelsLocal_def
    by (auto intro!: sound_get_word sounds sound_access sound_for_step)
qed

section \<open>The scan of a register\<close>

lemma sound_cal_setup:
  assumes "wf_db la"
  shows "sound E (confCalPulseLocal la ohN vm ch on cp fs)" "sound E (checked_vfats la ohN vm cp fs)" "sound E (fw_version_check la)"
    "sound E (dacMonConfLocal la ohN ch)" "sound E (configureScanModuleLocal la ohN v md u vm ch ne lo hi st)"
    "sound E (printScanConfigurationLocal la ohN u)" "sound E (startScanModuleLocal la ohN u)" "sound E (trim_pulse la ohN m ch p)"
    "sound E (ttcGenToggleLocal la ohN on)" "sound E (ttcGenConfLocal la ohN md ty pd li np on)"
    "sound E (scan_triggers la ext a nevts)"
  unfolding confCalPulseLocal_def checked_vfats_def fw_version_check_def dacMonConfLocal_def configureScanModuleLocal_def
    printScanConfigurationLocal_def startScanModuleLocal_def trim_pulse_def ttcGenToggleLocal_def
    ttcGenConfLocal_def t1_set_def scan_triggers_def Let_def
  using assms by (auto intro!: sounds sound_sync sound_access)

lemma ends_scan_dac:
  assumes "wf_db la" "scan_fits 24 lo hi st" "lo \<le> d" "d \<le> hi" "24 * scan_steps lo hi st \<le> length xs"
  shows "ends E (case_sum (\<lambda>_. True) (\<lambda>ys. length ys = length xs)) (scan_dac la ohN m nevts lo hi st reg ext a as d xs)"
proof -
  have one: "ends E (\<lambda>ys. length ys = length xs) (scan_result la ohN m lo hi st reg as d v ys)"
    if v: "v < 24" and ys: "length ys = length xs" for v ys
  proof -
    have set: "ends E (\<lambda>zs. length zs = length xs) (arr_set ys i w)" if "i < 24 * scan_steps lo hi st" for i w
      using ends_arr_set [of i ys E w] that assms(5) ys by simp
    show ?thesis
      unfolding scan_result_def using v ys
      by (intro ends_if ends_ret ends_bind [OF ends_scan_slot [OF assms(2) _ assms(3,4)]] ends_after ends_bind [OF set] ends_then
          sounds sound_access assms(1)) auto
  qed
  have "ends E (\<lambda>ys. length ys = length xs) (foldM (scan_result la ohN m lo hi st reg as d) [0..<24] xs)"
    by (intro ends_fold one) auto
  then show ?thesis
    unfolding scan_dac_def
    by (intro ends_then sounds sound_access assms(1) sound_cal_setup ends_bind [where P = "\<lambda>ys. length ys = length xs"] ends_ret) simp_all
qed

lemma ends_gen_scan_v3:
  assumes "wf_db la" "scan_fits 24 lo hi st" "24 * scan_steps lo hi st \<le> length xs"
  shows "ends E (\<lambda>ys. length ys = length xs) (gen_scan_v3 la xs ohN vm ch cal cp fs nevts lo hi st reg ext)"
proof -
  have loop: "ends E (case_sum (\<lambda>_. True) (\<lambda>ys. length ys = length xs)) (for_step hi st (scan_dac la ohN m nevts lo hi st reg ext a as) lo xs)"
    for m a as
    using assms(3)
    by (intro ends_scan_loop [OF assms(2)]) (auto intro!: ends_scan_dac [OF assms(1,2), THEN ends_mono] split: sum.split)
  have fin: "ends E (\<lambda>ys. length ys = length xs) (ret (case r of Inl _ \<Rightarrow> xs | Inr d \<Rightarrow> d))"
    if "case_sum (\<lambda>_. True) (\<lambda>ys. length ys = length xs) r" for r :: "unit + u32 list"
    using that by (cases r) (simp_all add: ends_ret)
  have conf: "sound E (if cal then confCalPulseLocal la ohN vm ch on cp fs else ret True)" for on
    by (intro sounds sound_cal_setup assms(1))
  show ?thesis
    unfolding gen_scan_v3_def
    by (intro ends_after [OF sound_cal_setup(2)] ends_if ends_then ends_after [OF conf] ends_after [OF sound_access(2)]
        ends_after [OF sound_collect] ends_bind [OF loop] ends_bind [OF fin] ends_ret sounds sound_access sound_cal_setup assms(1)) simp_all
qed

lemma ends_genScanLocal:
  assumes "wf_db la" "scan_fits 24 lo hi st" "24 * scan_steps lo hi st \<le> length xs"
  shows "ends E (\<lambda>ys. length ys = length xs) (genScanLocal la xs ohN vm ch cal cp fs nevts lo hi st reg ultra ext)"
  unfolding genScanLocal_def gen_scan_v1_def Let_def
  by (intro ends_after [OF sound_cal_setup(3)] ends_if ends_gen_scan_v3 [OF assms] ends_then ends_getUltra [OF assms] ends_ret
      sounds sound_cal_setup assms(1)) simp_all

lemma sound_genScan:
  assumes "wf_db la" "scan_request_fits 24 rq"
  shows "sound (asks rq) (genScan la rq)"
proof -
  have run: "sound (asks rq) (bindM (scan_array la 24 lo hi st) (\<lambda>outData.
     bindM (genScanLocal la outData ohN vm ch cal cp fs nevts lo hi st reg ultra ext) (\<lambda>outData. set_word_array ''data'' outData)))"
    if "scan_fits 24 lo hi st" for lo hi st ohN vm ch cal cp fs nevts reg ultra ext
    by (rule sound_after [OF ends_scan_array [OF that]]) (auto intro!: ends_sound [OF ends_genScanLocal] assms(1) that sounds)
  show ?thesis
    unfolding genScan_def
    using assms(2) by (auto intro!: sound_get_word sound_get_string run simp: scan_request_fits_def)
qed

lemma sound_genChannelScan:
  assumes "wf_db la" "scan_request_fits (128 * 24) rq"
  shows "sound (asks rq) (genChannelScan la rq)"
proof -
  have one: "ends (asks rq) (\<lambda>ys. length ys = 128 * 24 * scan_steps lo hi st)
      (scan_channel la ohN vm cal cp fs nevts lo hi st reg ultra ext ch xs)"
    if fits: "scan_fits (128 * 24) lo hi st" and ch: "ch < 128" and xs: "length xs = 128 * 24 * scan_steps lo hi st"
    for lo hi st ohN vm cal cp fs nevts reg ultra ext ch xs
  proof -
    have "24 * (ch + 1) \<le> 24 * 128" using ch by (intro mult_le_mono2) simp
    then have "24 * (ch + 1) * scan_steps lo hi st \<le> 24 * 128 * scan_steps lo hi st" by (rule mult_le_mono1)
    then have room: "ch * 24 * scan_steps lo hi st + 24 * scan_steps lo hi st \<le> 128 * 24 * scan_steps lo hi st"
      by (simp add: add_mult_distrib mult.commute mult.left_commute)
    have pos: "unat (scan_len (ch * 24) lo hi st) = ch * 24 * scan_steps lo hi st"
      using fits ch by (intro scan_len_value [of "128 * 24"]) (simp_all add: scan_fits_def)
    have f24: "scan_fits 24 lo hi st" by (rule scan_fits_le [OF fits]) simp
    have gen: "ends (asks rq) (\<lambda>ys. length ys = length (drop (ch * 24 * scan_steps lo hi st) xs))
        (genScanLocal la (drop (ch * 24 * scan_steps lo hi st) xs) ohN vm (of_nat ch) cal cp fs nevts lo hi st reg ultra ext)"
      by (rule ends_genScanLocal [OF assms(1) f24]) (unfold length_drop, use room xs in linarith)
    have "\<not> length xs < ch * 24 * scan_steps lo hi st" using room xs by linarith
    then show ?thesis
      unfolding scan_channel_def Let_def pos using scan_fits_step [OF fits] xs
      by (simp only: if_False) (rule ends_bind [OF gen], rule ends_ret, simp)
  qed
  have run: "sound (asks rq) (bindM (scan_array la (128 * 24) lo hi st) (\<lambda>outData.
     bindM (foldM (scan_channel la ohN vm cal cp fs nevts lo hi st reg ultra ext) [0..<128] outData) (\<lambda>outData.
       set_word_array ''data'' outData)))"
    if fits: "scan_fits (128 * 24) lo hi st" for lo hi st ohN vm cal cp fs nevts reg ultra ext
  proof (rule sound_after [OF ends_scan_array [OF fits order.refl]])
    fix xs :: "u32 list"
    assume xs: "length xs = 128 * 24 * scan_steps lo hi st"
    have "ends (asks rq) (\<lambda>ys. length ys = 128 * 24 * scan_steps lo hi st)
        (foldM (scan_channel la ohN vm cal cp fs nevts lo hi st reg ultra ext) [0..<128] xs)"
      by (rule ends_fold, rule one [OF fits]) (use xs in \<open>simp_all del: upt_rec_numeral\<close>)
    then show "sound (asks rq) (bindM (foldM (scan_channel la ohN vm cal cp fs nevts lo hi st reg ultra ext) [0..<128] xs)
        (\<lambda>outData. set_word_array ''data'' outData))"
      by (rule sound_bind [OF ends_sound]) (intro sounds)
  qed
  have n: "128 * 24 = (3072 :: nat)" by simp
  show ?thesis
    unfolding genChannelScan_def
    using assms(2) by (auto intro!: sound_get_word sound_get_string run [unfolded n] simp: scan_request_fits_def simp del: upt_rec_numeral)
qed

section \<open>The rate scan\<close>

lemma dec_short: "n < 24 \<Longrightarrow> length (dec n) \<le> 2"
proof -
  have "list_all (\<lambda>n. length (dec n) \<le> 2) [0..<24]" by code_simp
  then show "n < 24 \<Longrightarrow> length (dec n) \<le> 2" by (simp add: list_all_iff)
qed

lemma fmt_i_short: "n < 12 \<Longrightarrow> length (fmt_i (of_nat n)) \<le> 2"
proof -
  have "list_all (\<lambda>n. length (fmt_i (of_nat n)) \<le> 2) [0..<12]" by code_simp
  then show "n < 12 \<Longrightarrow> length (fmt_i (of_nat n)) \<le> 2" by (simp add: list_all_iff)
qed

text \<open>A name of this length fits with its prefix into the buffer of 200 characters.\<close>

definition short_name :: "rpc_request \<Rightarrow> bool" where
  "short_name rq \<longleftrightarrow> (\<forall>r. rq_string rq ''scanReg'' = Inr r \<longrightarrow> length r \<le> 168)"

lemma cfg_reg_short:
  assumes "n < 12" "v < 24" "length r \<le> 168"
  shows "length (cfg_reg (of_nat n) v r) < 200"
proof -
  have "length (c_str r) \<le> length r" by (simp add: c_str_def length_takeWhile_le)
  then show ?thesis
    using dec_short [OF assms(2)] fmt_i_short [OF assms(1)] assms(3) by (simp add: cfg_reg_def vfat_reg_def oh_base_def)
qed

text \<open>The arrays for the values and the rates, over the steps of the scan.\<close>

definition rates_sized :: "nat \<Rightarrow> rate_data \<Rightarrow> bool" where
  "rates_sized M d \<longleftrightarrow> length (dac_vals d) = 12 * M \<and> length (oh_rates d) = 12 * M \<and> length (vfat_rates d) = 12 * 24 * M"

lemma ends_rate_slot:
  assumes "scan_fits (12 * 24) lo hi st" "n < 12" "v < 24" "lo \<le> d" "d \<le> hi"
  shows "ends E (\<lambda>i. i < 12 * 24 * scan_steps lo hi st) (rate_slot n v lo hi st d)"
proof -
  let ?M = "scan_steps lo hi st"
  have fits: "12 * 24 * (unat (hi - lo) + 1) < 2 ^ 32" "unat st dvd unat (hi - lo) + 1"
    using assms(1) unfolding scan_fits_def by blast+
  have "n * 24 \<le> 12 * 24" using assms(2) by simp
  note len = scan_len_value [OF fits this]
  have idx: "unat (scan_idx v lo hi st d) < 24 * ?M"
    using scan_fits_le [OF assms(1), of 24] assms(3-5) by (intro scan_idx_less(2)) (auto simp: scan_fits_def)
  have "n * 24 * ?M + 24 * ?M = (n + 1) * 24 * ?M" by (simp only: add_mult_distrib mult_1)
  also have "\<dots> \<le> 12 * 24 * ?M" using assms(2) by (intro mult_le_mono1) simp
  finally have sum: "unat (scan_len (n * 24) lo hi st) + unat (scan_idx v lo hi st d) < 12 * 24 * ?M"
    using idx len by linarith
  have "12 * 24 * ?M \<le> 12 * 24 * (unat (hi - lo) + 1)" by (intro mult_le_mono2 div_le_dividend)
  then have "unat (scan_len (n * 24) lo hi st + scan_idx v lo hi st d) < 12 * 24 * ?M"
    using sum fits(1) by (simp add: unat_word_ariths)
  then show ?thesis
    using scan_fits_step [OF assms(1)] by (simp add: rate_slot_def ends_ret)
qed

lemma ends_read_rates:
  assumes fits: "scan_fits (12 * 24) lo hi st" and d: "lo \<le> x" "x \<le> hi" and n: "n < 12" and sized: "rates_sized (scan_steps lo hi st) d"
  shows "ends E (rates_sized (scan_steps lo hi st)) (read_rates la m lo hi st x as n d)"
proof -
  let ?M = "scan_steps lo hi st"
  have f12: "scan_fits 12 lo hi st" by (rule scan_fits_le [OF fits]) simp
  have set: "ends E (\<lambda>ys. length ys = k) (arr_set xs i w)" if "length xs = k" "i < k" for xs :: "u32 list" and i w k
    using ends_arr_set [of i xs E w] that by simp
  have vfats: "ends E (\<lambda>r. length r = 12 * 24 * ?M) (foldM (\<lambda>vfat rates.
         if \<not> bit m vfat then ret rates
         else
           bindM (rate_slot n vfat lo hi st x) (\<lambda>idx.
           bindM (readRawAddress la (as ! vfat)) (\<lambda>w. arr_set rates idx w))) [0..<24] (vfat_rates d))"
  proof (rule ends_fold)
    fix v and r :: "u32 list"
    assume v: "v \<in> set [0..<24]" and r: "length r = 12 * 24 * ?M"
    have v24: "v < 24" using v by simp
    show "ends E (\<lambda>r. length r = 12 * 24 * ?M) (if \<not> bit m v then ret r
         else bindM (rate_slot n v lo hi st x) (\<lambda>idx. bindM (readRawAddress la (as ! v)) (\<lambda>w. arr_set r idx w)))"
      by (intro ends_if ends_bind [OF ends_rate_slot [OF fits n v24 d]] ends_after sounds set r ends_ret) assumption
  qed (use sized in \<open>simp add: rates_sized_def\<close>)
  show ?thesis
    unfolding read_rates_def
    using sized
    by (intro ends_bind [OF ends_scan_slot [OF f12 n d]] ends_bind [OF set [of _ "12 * ?M"]] ends_after [OF right_sound [OF right_raw(1)]]
        ends_bind [OF vfats] ends_ret) (auto simp: rates_sized_def)
qed

lemma sound_rate_setup:
  assumes "wf_db la"
  shows "sound E (setSingleChanMask ohN v ch la)" "sound E (applyChanMask m la)" "sound E (prepare_oh la ch n)"
    "sound E (rate_addresses la n)" "sound E (set_persist la n)"
  unfolding setSingleChanMask_def applyChanMask_def prepare_oh_def rate_addresses_def set_persist_def Let_def
  using assms by (auto intro!: sounds sound_access sound_oh_mask simp del: upt_rec_numeral)

lemma ends_sbit_rates_dac:
  assumes wf: "wf_db la" and fits: "scan_fits (12 * 24) lo hi st" and d: "lo \<le> x" "x \<le> hi" and ohs: "set ohs \<subseteq> {..<12}"
    and reg: "length reg \<le> 168" and sized: "rates_sized (scan_steps lo hi st) d"
  shows "ends E (case_sum (\<lambda>_. True) (rates_sized (scan_steps lo hi st))) (sbit_rates_dac la ohs nm lo hi st reg as x d)"
proof -
  have name: "sound E (sprintf_200 (cfg_reg (of_nat n) v reg))" if "n \<in> set ohs" "v \<in> set [0..<24]" for n v
  proof -
    have "n < 12" "v < 24" using that ohs by auto
    then show ?thesis using cfg_reg_short [OF _ _ reg] by (simp add: sprintf_200_def sound_ret)
  qed
  have "ends E (rates_sized (scan_steps lo hi st)) (foldM (\<lambda>n. read_rates la (nm n) lo hi st x (as n) n) ohs d)"
    using ohs by (intro ends_fold sized ends_read_rates [OF fits d]) auto
  then have last: "ends E (case_sum (\<lambda>_. True) (rates_sized (scan_steps lo hi st)))
      (bindM (foldM (\<lambda>n. read_rates la (nm n) lo hi st x (as n) n) ohs d) (\<lambda>d. ret (Inr d)))"
    by (rule ends_bind) (simp add: ends_ret)
  show ?thesis
    unfolding sbit_rates_dac_def
    by (intro ends_then last sounds name sound_access wf)
qed

lemma sound_sbitRateScan:
  assumes "wf_db la" "scan_request_fits (12 * 24) rq" "short_name rq"
  shows "sound (asks rq) (sbitRateScan la rq)"
proof -
  have scan: "sound (asks rq) (sbitRateScanParallelLocal la d ch lo hi st reg m)"
    if fits: "scan_fits (12 * 24) lo hi st" and reg: "length reg \<le> 168" and d: "rates_sized (scan_steps lo hi st) d" for lo hi st reg d ch m
  proof -
    have ohs: "set (enabled_ohs m) \<subseteq> {..<12}" by (auto simp: enabled_ohs_def)
    have loop: "ends (asks rq) (case_sum (\<lambda>_. True) (rates_sized (scan_steps lo hi st)))
        (for_step hi st (sbit_rates_dac la (enabled_ohs m) nm lo hi st reg as) lo d)" for nm as
      by (intro ends_scan_loop [OF fits] ends_sbit_rates_dac [OF assms(1) fits _ _ ohs reg] d)
    show ?thesis
      unfolding sbitRateScanParallelLocal_def Let_def
      by (intro sounds sound_rate_setup sound_cal_setup sound_access assms(1) ends_sound [OF loop])
  qed
  have run: "sound (asks rq) (bindM (scan_array la (12 * 24) lo hi st) (\<lambda>perVFAT.
     bindM (scan_array la 12 lo hi st) (\<lambda>perOH.
     bindM (sbitRateScanParallelLocal la \<lparr>dac_vals = perOH, vfat_rates = perVFAT, oh_rates = perOH\<rparr> ch lo hi st reg m) (\<lambda>d.
       seqM [set_word_array ''outDataVFATRate'' (vfat_rates d),
             set_word_array ''outDataDacValue'' (dac_vals d),
             set_word_array ''outDataCTP7Rate'' (oh_rates d)]))))"
    if fits: "scan_fits (12 * 24) lo hi st" and reg: "length reg \<le> 168" for lo hi st reg ch m
    by (rule sound_after [OF ends_scan_array [OF fits order.refl]], rule sound_after [OF ends_scan_array [OF fits]], simp)
      (auto intro!: scan [OF fits reg] sounds simp: rates_sized_def)
  have n: "12 * 24 = (288 :: nat)" by simp
  show ?thesis
    unfolding sbitRateScan_def
    using assms(2,3) by (auto intro!: sound_get_word sound_get_string run [unfolded n seqM.simps] simp: scan_request_fits_def short_name_def)
qed

section \<open>Checks with calibration pulses\<close>

lemma ends_confCalPulse: "wf_db la \<Longrightarrow> ch < 128 \<Longrightarrow> ends E (\<lambda>ok. ok) (confCalPulseLocal la ohN vm ch on cp fs)"
  unfolding confCalPulseLocal_def Let_def
  by (intro ends_if ends_then ends_ret sounds sound_access) (auto intro!: sound_access)

lemma ends_pulse_channel:
  assumes "wf_db la" "chan < 128" "ends E I (body chan a)"
  shows "ends E (case_sum I I) (pulse_channel la ohN v cal cp fs body chan a)"
proof -
  have "(of_nat chan :: u32) < 128" using assms(2) by (simp add: word_less_nat_alt unsigned_of_nat take_bit_nat_eq_self)
  note conf = ends_confCalPulse [OF assms(1) this]
  show ?thesis
    unfolding pulse_channel_def
    by (intro ends_then sounds sound_access assms(1) ends_bind [OF conf] ends_if ends_bind [OF assms(3)] ends_ret) simp_all
qed

lemma sound_pulse_all:
  assumes "wf_db la" "v < 32" "length orig = 3072" "I a"
    and "\<And>c a. c < 128 \<Longrightarrow> I a \<Longrightarrow> ends E (case_sum I I) (channel c a)"
  shows "sound E (pulse_all la ohN v m orig channel a)"
proof -
  have v: "unat v < 32" using assms(2) by (simp add: word_less_nat_alt)
  have loop: "sound E (foldE channel [0..<128] a)"
    by (rule ends_sound [OF ends_foldE [where I = I and J = I]]) (use assms(4,5) in \<open>simp_all del: upt_rec_numeral\<close>)
  show ?thesis
    unfolding pulse_all_def using v assms(1,3)
    by (auto intro!: sounds sound_access loop sound_setChannels sound_cal_setup simp del: upt_rec_numeral)
qed

lemma ends_mapping_pulses:
  assumes "128 * 8 * unat nevts < 2 ^ 32" "chan < 128" "length xs = unat (128 * 8 * nevts)"
  shows "ends E (\<lambda>ys. length ys = unat (128 * 8 * nevts)) (mapping_pulses la v cal nevts pd a1 a2 cs chan xs)"
proof -
  have set: "ends E (\<lambda>ys. length ys = unat (128 * 8 * nevts)) (arr_set ys (mapping_idx nevts chan i c) w)"
    if "length ys = unat (128 * 8 * nevts)" "i \<in> set [0..<unat nevts]" "c \<in> set [0..<8]" for ys :: "u32 list" and i c w
    using ends_arr_set [of "mapping_idx nevts chan i c" ys E w] mapping_idx_value(2) [OF assms(1,2), of i c] that by auto
  show ?thesis
    unfolding mapping_pulses_def
    by (intro ends_fold ends_then ends_after set assms(3) sounds) assumption+
qed

lemma ends_prepare_check:
  assumes "wf_db la"
  shows "ends E (\<lambda>r. case r of None \<Rightarrow> True | Some orig \<Rightarrow> length orig = 3072) (prepare_check la c ohN m cp fs)"
proof -
  have chan: "ends E (\<lambda>d. length d = 3072) (getChannelRegistersVFAT3Local la ohN m (stack_array la 3072))"
    by (rule ends_getChannels [OF assms]) simp
  show ?thesis
    unfolding prepare_check_def
    by (intro ends_after [OF sound_cal_setup(3)] ends_after [OF sound_cal_setup(2)] ends_if ends_bind [OF chan] ends_then
        sound_setChannels ends_ret sounds assms) simp_all
qed

lemma sound_prepared:
  assumes "wf_db la" "\<And>orig. length orig = 3072 \<Longrightarrow> sound E (k orig)"
  shows "sound E (bindM (prepare_check la c ohN m cp fs) (\<lambda>r. case r of None \<Rightarrow> ret x | Some orig \<Rightarrow> k orig))"
  by (rule sound_after [OF ends_prepare_check [OF assms(1)]]) (auto intro: assms(2) sounds split: option.splits)

text \<open>The VFAT that is pulsed has a bit in the mask, and the array for the clusters fits into 32 bits.\<close>

definition vfat_chosen :: "rpc_request \<Rightarrow> bool" where
  "vfat_chosen rq \<longleftrightarrow> (\<forall>v. rq_word rq ''vfatN'' = Inr v \<longrightarrow> v < 32)"

definition clusters_fit :: "rpc_request \<Rightarrow> bool" where
  "clusters_fit rq \<longleftrightarrow> (\<forall>n. rq_word rq ''nevts'' = Inr n \<longrightarrow> 128 * 8 * unat n < 2 ^ 32)"

lemma sound_checkSbitMapping:
  assumes "wf_db la" "vfat_chosen rq" "clusters_fit rq"
  shows "sound (asks rq) (checkSbitMappingWithCalPulse la rq)"
proof -
  have run: "sound (asks rq) (checkSbitMappingWithCalPulseLocal la (stack_array la (unat (128 * 8 * nevts))) ohN v m cal cp fs nevts L1A pd)"
    if "v < 32" "128 * 8 * unat nevts < 2 ^ 32" for ohN v m cal cp fs nevts L1A pd
  proof -
    have pulses: "sound (asks rq) (pulse_all la ohN v m orig (pulse_channel la ohN v cal cp fs
        (mapping_pulses la v cal nevts pd a1 a2 cs)) (stack_array la (unat (128 * 8 * nevts))))" if "length orig = 3072" for orig a1 a2 cs
      using that \<open>v < 32\<close> \<open>128 * 8 * unat nevts < 2 ^ 32\<close>
      by (intro sound_pulse_all [where I = "\<lambda>ys. length ys = unat (128 * 8 * nevts)"] ends_pulse_channel ends_mapping_pulses assms(1))
        simp_all
    show ?thesis
      unfolding checkSbitMappingWithCalPulseLocal_def
      by (intro sound_prepared sounds pulses sound_access sound_cal_setup assms(1)) assumption
  qed
  show ?thesis
    unfolding checkSbitMappingWithCalPulse_def
    by ((rule sound_get_word)+, intro sounds run) (use assms(2,3) in \<open>simp_all add: vfat_chosen_def clusters_fit_def\<close>)
qed

lemma ends_rate_pulse:
  assumes "wf_db la" "c < 128" "length (fst y) = 128 \<and> length (fst (snd y)) = 128 \<and> length (snd (snd y)) = 128"
  shows "ends E (\<lambda>y. length (fst y) = 128 \<and> length (fst (snd y)) = 128 \<and> length (snd (snd y)) = 128)
    (rate_pulse la ohN v wt li pd as a1 a2 a3 a4 c y)"
proof -
  have set: "ends E (\<lambda>ys. length ys = 128) (arr_set xs c w)" if "length xs = 128" for xs :: "u32 list" and w
    using ends_arr_set [of c xs E w] that assms(2) by simp
  show ?thesis
    unfolding rate_pulse_def
    by (intro ends_then ends_after [OF right_sound [OF right_raw(1)]] ends_bind [OF set] ends_ret sounds sound_cal_setup sound_access assms(1))
      (use assms(3) in simp_all)
qed

lemma sound_checkSbitRate:
  assumes "wf_db la" "vfat_chosen rq"
  shows "sound (asks rq) (checkSbitRateWithCalPulse la rq)"
proof -
  let ?out = "(stack_array la 128, stack_array la 128, stack_array la 128)"
  have run: "sound (asks rq) (checkSbitRateWithCalPulseLocal la ?out ohN v m cal cp fs wt pr pd)" if "v < 32" for ohN v m cal cp fs wt pr pd
  proof -
    have pulses: "sound (asks rq) (pulse_all la ohN v m orig (pulse_channel la ohN v cal cp fs
        (rate_pulse la ohN v wt li pd as a1 a2 a3 a4)) ?out)" if "length orig = 3072" for orig li as a1 a2 a3 a4
      using that \<open>v < 32\<close>
      by (intro sound_pulse_all [where I = "\<lambda>y. length (fst y) = 128 \<and> length (fst (snd y)) = 128 \<and> length (snd (snd y)) = 128"]
          ends_pulse_channel ends_rate_pulse assms(1)) simp_all
    show ?thesis
      unfolding checkSbitRateWithCalPulseLocal_def
      by (intro sound_prepared sounds pulses sound_access assms(1)) assumption
  qed
  show ?thesis
    unfolding checkSbitRateWithCalPulse_def
    by ((rule sound_get_word)+, intro sounds run) (use assms(2) in \<open>auto simp: vfat_chosen_def intro!: sounds\<close>)
qed

section \<open>DAC scans\<close>

text \<open>The step is not 0 and divides the number of values of the DAC, as the table has it.\<close>

definition dac_step_divides :: "rpc_request \<Rightarrow> bool" where
  "dac_step_divides rq \<longleftrightarrow> (\<forall>sel st. rq_word rq ''dacSelect'' = Inr sel \<longrightarrow> rq_word rq ''dacStep'' = Inr st \<longrightarrow>
     st \<noteq> 0 \<and> (\<forall>reg lo hi. map_of map_dacInfo sel = Some (reg, lo, hi) \<longrightarrow> unat st dvd unat hi + 1))"

lemma dac_scan_fits_in:
  assumes "map_of map_dacInfo sel = Some (reg, lo, hi)" "unat st dvd unat hi + 1"
  shows "scan_fits 24 lo hi st" "lo \<le> hi"
proof -
  note r = dac_ranges [OF assms(1)]
  have "unat st \<le> unat hi + 1" using assms(2) by (intro dvd_imp_le) simp_all
  then show "scan_fits 24 lo hi st" using r assms(2) by (simp add: scan_fits_def)
  show "lo \<le> hi" using r by simp
qed

lemma ends_dac_step:
  assumes "wf_db la" "scan_fits 24 lo hi st" "lo \<le> d" "d \<le> hi" "length xs = 24 * scan_steps lo hi st"
  shows "ends E (case_sum (\<lambda>_. True) (\<lambda>ys. length ys = 24 * scan_steps lo hi st)) (dac_step la ohN m reg lo hi st adc d xs)"
proof -
  have avg: "sound E (adc_average la c u a)" for c u a
    unfolding adc_average_def by (auto intro!: sounds)
  have one: "ends E (\<lambda>ys. length ys = 24 * scan_steps lo hi st) (dac_step_vfat la ohN m reg lo hi st adc d v ys)"
    if v: "v \<in> set [0..<24]" and ys: "length ys = 24 * scan_steps lo hi st" for v ys
  proof -
    have v24: "v < 24" using v by simp
    have set: "ends E (\<lambda>zs. length zs = 24 * scan_steps lo hi st) (arr_set ys i w)" if "i < 24 * scan_steps lo hi st" for i w
      using ends_arr_set [of i ys E w] that ys by simp
    obtain x1 x2 x3 where adc: "adc = (x1, x2, x3)" by (cases adc)
    show ?thesis
      unfolding dac_step_vfat_def adc prod.case
      by (intro ends_if ends_then ends_after [OF avg] ends_bind [OF ends_scan_slot [OF assms(2) v24 assms(3,4)]] set sound_access assms(1))
        blast+
  qed
  have "ends E (\<lambda>ys. length ys = 24 * scan_steps lo hi st) (foldM (dac_step_vfat la ohN m reg lo hi st adc d) [0..<24] xs)"
    by (intro ends_fold one assms(5))
  then show ?thesis
    unfolding dac_step_def by (rule ends_bind) (simp add: ends_ret)
qed

lemma sound_dacScanLocal:
  assumes "expected_board la" "st \<noteq> 0" "\<And>reg lo hi. map_of map_dacInfo sel = Some (reg, lo, hi) \<Longrightarrow> unat st dvd unat hi + 1"
  shows "sound E (dacScanLocal la ohN sel st m ref)"
proof -
  have wf: "wf_db la" using assms(1) by (simp add: expected_board_def)
  have adc: "sound E (find_adc la ohN nm ref v acc)" for nm v acc
    unfolding find_adc_def Let_def using wf by (auto intro!: sounds sound_access)
  show ?thesis
  proof (cases "map_of map_dacInfo sel")
    case None
    then show ?thesis unfolding dacScanLocal_def by (simp only: option.case) (intro sounds sound_cal_setup wf)
  next
    case (Some p)
    obtain reg lo hi where p: "p = (reg, lo, hi)" by (cases p)
    have fits: "scan_fits 24 lo hi st" and le: "lo \<le> hi"
      using dac_scan_fits_in assms(3) Some p by blast+
    have results: "ends E (\<lambda>d. length d = 24 * scan_steps lo hi st) (dac_results lo hi st)"
    proof -
      have "unat (hi - lo + 1) = unat (hi - lo) + 1" using fits by (simp add: scan_fits_def unat_word_ariths)
      then show ?thesis using assms(2) by (simp add: dac_results_def ends_ret unat_div)
    qed
    have loop: "sound E (for_step hi st (dac_step la ohN nm reg lo hi st adc) lo d)" if "length d = 24 * scan_steps lo hi st" for nm adc d
      by (rule ends_sound [OF ends_scan_loop [OF fits ends_dac_step [OF wf fits]]]) (assumption | rule that)+
    show ?thesis
      unfolding dacScanLocal_def Some p option.case prod.case
      by (intro sound_bind [OF sound_cal_setup(3)] sound_bind [OF sound_sync] sound_bind [OF sound_fold] sound_after [OF results]
          sound_if sound_then loop adc sound_DacMonitorLocal assms(1) wf sounds sound_access)
  qed
qed

lemma sound_dacScan:
  assumes "expected_board la" "dac_step_divides rq"
  shows "sound (asks rq) (dacScan la rq)" "sound (asks rq) (dacScanMultiLink la rq)"
proof -
  have wf: "wf_db la" using assms(1) by (simp add: expected_board_def)
  show "sound (asks rq) (dacScan la rq)"
    unfolding dacScan_def
    by ((rule sound_get_word)+, intro sounds sound_dacScanLocal assms(1)) (use assms(2) in \<open>simp_all add: dac_step_divides_def\<close>)
  have run: "sound (asks rq) (bindM (requested_NOH la rq) (\<lambda>NOH.
     bindM (foldM (\<lambda>ohN dacScanResultsAll.
         bindM (oh_enabled ohMask ohN) (\<lambda>enabled.
         bindM (if \<not> enabled then masked_words sel st
                else bindM (getOHVFATMaskLocal la (of_nat ohN)) (\<lambda>vfatMask.
                       dacScanLocal la (of_nat ohN) sel st vfatMask ref)) (\<lambda>dacScanResults.
           ret (dacScanResultsAll @ dacScanResults)))) [0..<unat NOH] []) (\<lambda>dacScanResultsAll.
       set_word_array ''dacScanResultsAll'' dacScanResultsAll)))"
    if "st \<noteq> 0" "\<And>reg lo hi. map_of map_dacInfo sel = Some (reg, lo, hi) \<Longrightarrow> unat st dvd unat hi + 1" for sel st ohMask ref
  proof (rule sound_after [OF ends_NOH [OF assms(1)]], rule sound_bind [OF sound_fold])
    fix NOH :: u32 and k and acc :: "u32 list"
    assume "NOH \<le> 12" "k \<in> set [0..<unat NOH]"
    then have k: "k < 32" using small_oh [of NOH k] by simp
    have "sound (asks rq) (masked_words sel st)" using that(1) by (simp add: masked_words_def Let_def sound_ret)
    then show "sound (asks rq) (bindM (oh_enabled ohMask k) (\<lambda>enabled.
         bindM (if \<not> enabled then masked_words sel st
                else bindM (getOHVFATMaskLocal la (of_nat k)) (\<lambda>vfatMask.
                       dacScanLocal la (of_nat k) sel st vfatMask ref)) (\<lambda>dacScanResults.
           ret (acc @ dacScanResults))))"
      using k by (intro sounds sound_oh_mask(1) [OF wf] sound_dacScanLocal assms(1) that)
  qed (intro sounds)
  show "sound (asks rq) (dacScanMultiLink la rq)"
    unfolding dacScanMultiLink_def
    by ((rule sound_get_word)+, rule run) (use assms(2) in \<open>simp_all add: dac_step_divides_def\<close>)
qed

end
