(* ===== verification/RamEnds.thy ===== *)
theory RamEnds
  imports MethodEnds
begin

text \<open>
  How the methods on the RAM of the configuration blaster end: the blocks lie inside the arrays, as long as the
  sizes that the firmware tells do not change between two questions.
\<close>

section \<open>The RAM of the configuration blaster\<close>

lemma ends_memhub_read: "ends E (\<lambda>r. case r of None \<Rightarrow> True | Some ws \<Rightarrow> length ws = n) (memhub_read la a n)"
  by (rule ends_right) (auto simp: memhub_read_run intro: right split: option.split)

lemma ends_readBlock:
  assumes "wf_db la"
  shows "ends E (\<lambda>(d, n). (case d of None \<Rightarrow> True | Some ws \<Rightarrow> length ws = unat sz) \<and> n \<le> sz) (readBlock la r sz off)"
proof (cases "db_text la r")
  case None
  then show ?thesis by (simp add: readBlock_def ends_ret)
next
  case (Some db_res)
  obtain n where n: "has_node la r n" by (rule wf_db_text [OF assms Some])
  have err: "ends E (\<lambda>(d, k). (case d of None \<Rightarrow> True | Some ws \<Rightarrow> length ws = unat sz) \<and> k \<le> sz) (thenM (set_error m) (ret (None, sz)))" for m
    by (intro ends_then sounds ends_ret) simp
  show ?thesis
    unfolding block_run(1) [OF n]
  proof (intro ends_if err ends_bind [OF ends_memhub_read])
    fix x
    assume x: "case x of None \<Rightarrow> True | Some ws \<Rightarrow> length ws = unat sz"
    show "ends E (\<lambda>(d, k). (case d of None \<Rightarrow> True | Some ws \<Rightarrow> length ws = unat sz) \<and> k \<le> sz)
        (case x of None \<Rightarrow> bindM (last_error la) (\<lambda>e. thenM (set_error (''Read memsvc error: '' @ e)) (ret (None, sz)))
         | Some ws \<Rightarrow> thenM (set_string ''debug'' ''Block read succeeded.'') (ret (Some ws, sz)))"
      using x by (cases x) (auto intro!: ends_after ends_then sounds ends_ret err)
  qed
qed

lemma ends_read_into:
  assumes "wf_db la" "pos + unat sz \<le> length ws"
  shows "ends E (\<lambda>(ws', n). length ws' = length ws \<and> n \<le> sz) (read_into la reg ws pos sz)"
  unfolding read_into_def
proof (rule ends_bind [OF ends_readBlock [OF assms(1)]])
  fix p :: "u32 list option \<times> u32"
  assume p: "case p of (d, n) \<Rightarrow> (case d of None \<Rightarrow> True | Some ws \<Rightarrow> length ws = unat sz) \<and> n \<le> sz"
  show "ends E (\<lambda>(ws', n). length ws' = length ws \<and> n \<le> sz) (case p of (data, n) \<Rightarrow> (case data of None \<Rightarrow> ret (ws, n)
      | Some xs \<Rightarrow> if pos + length xs \<le> length ws then ret (take pos ws @ xs @ drop (pos + length xs) ws, n) else abortM Undefined))"
    using p assms(2) by (cases p) (auto intro!: ends_ret split: option.splits)
qed

definition one_ram :: "blaster_type \<Rightarrow> bool" where
  "one_ram t \<longleftrightarrow> t = BLASTER_GBT \<or> t = BLASTER_OptoHybrid \<or> t = BLASTER_VFAT"

lemma sound_ram_size:
  assumes "wf_db la"
  shows "one_ram t \<or> t = BLASTER_ALL \<Longrightarrow> sound E (getRAMMaxSize la t)"
    "(\<And>w. E (Throw (Range_error w))) \<Longrightarrow> sound E (getRAMMaxSize la t)"
    "one_ram t \<or> t = BLASTER_ALL \<Longrightarrow> sound E (checkBLOBSize la t n)"
    "(\<And>w. E (Throw (Range_error w))) \<Longrightarrow> sound E (checkBLOBSize la t n)"
proof -
  have throw: "sound E (throwM (Range_error x))" if "\<And>w. E (Throw (Range_error w))" for x
    using that by (simp add: sound_def ends_def throwM_def abortM_def)
  show a: "one_ram t \<or> t = BLASTER_ALL \<Longrightarrow> sound E (getRAMMaxSize la t)"
    and b: "(\<And>w. E (Throw (Range_error w))) \<Longrightarrow> sound E (getRAMMaxSize la t)"
    unfolding getRAMMaxSize_def one_ram_def using assms by (auto intro!: sounds sound_access throw)
  show "one_ram t \<or> t = BLASTER_ALL \<Longrightarrow> sound E (checkBLOBSize la t n)"
    "(\<And>w. E (Throw (Range_error w))) \<Longrightarrow> sound E (checkBLOBSize la t n)"
    unfolding checkBLOBSize_def using a b by (auto intro!: sounds)
qed

abbreviation ram_left :: "nat \<Rightarrow> nat \<Rightarrow> u32 list option \<times> u32 \<Rightarrow> bool" where
  "ram_left k m \<equiv> \<lambda>(b, n). \<exists>ws. b = Some ws \<and> length ws = k \<and> unat n \<le> m"

lemma ends_read_one:
  assumes "wf_db la" "one_ram t" "pos + sz \<le> length ws" "length ws < 2 ^ 32"
  shows "ends E (ram_left (length ws) sz) (readConfRAMLocal la t (Some ws) pos sz)"
proof -
  have sz: "unat (of_nat sz :: u32) = sz" using assms(3,4) by (simp add: unsigned_of_nat take_bit_nat_eq_self)
  have into: "ends E (ram_left (length ws) sz) (bindM (read_into la (conf_ram_reg t) ws pos (of_nat sz)) (\<lambda>(ws', n). ret (Some ws', n)))"
    using assms(3) by (intro ends_bind [OF ends_read_into [OF assms(1)]]) (auto intro!: ends_ret simp: sz word_le_nat_alt)
  have "readConfRAMLocal la t (Some ws) pos sz = bindM (checkBLOBSize la t sz) (\<lambda>valid. if \<not> valid then ret (Some ws, 0)
      else bindM (read_into la (conf_ram_reg t) ws pos (of_nat sz)) (\<lambda>(ws', n). ret (Some ws', n)))"
    using assms(2) by (subst readConfRAMLocal.simps) (simp add: one_ram_def cong: if_cong)
  then show ?thesis
    using assms(2) into by (auto intro!: ends_after [OF sound_ram_size(3) [OF assms(1)]] ends_if ends_ret)
qed

text \<open>The sizes that the firmware tells do not change, and their sum fits into a word.\<close>

definition ram_sizes_fixed :: "localArgs \<Rightarrow> bool" where
  "ram_sizes_fixed la \<longleftrightarrow> (\<exists>sz. (\<forall>t. one_ram t \<longrightarrow> always_reads la (ram_size_reg t) (sz t))
     \<and> unat (sz BLASTER_GBT) + unat (sz BLASTER_OptoHybrid) + unat (sz BLASTER_VFAT) < 2 ^ 32)"

lemma ends_ram_size:
  assumes "wf_db la" "always_reads la (ram_size_reg t) v" "one_ram t"
  shows "ends E (\<lambda>x. x = v) (getRAMMaxSize la t)"
  using assms(3) ends_readReg [OF assms(1) assms(2) [unfolded always_reads_def]] unfolding getRAMMaxSize_def one_ram_def by auto

lemma one_ram_simps [simp]: "one_ram BLASTER_GBT" "one_ram BLASTER_OptoHybrid" "one_ram BLASTER_VFAT" "\<not> one_ram BLASTER_ALL"
  by (simp_all add: one_ram_def blaster_types)

lemma sound_read_all:
  assumes "wf_db la" "\<And>t. one_ram t \<Longrightarrow> always_reads la (ram_size_reg t) (sz t)"
    and "unat (sz BLASTER_GBT) + unat (sz BLASTER_OptoHybrid) + unat (sz BLASTER_VFAT) < 2 ^ 32"
    and "unat (sz BLASTER_GBT) + unat (sz BLASTER_OptoHybrid) + unat (sz BLASTER_VFAT) = length ws"
  shows "sound E (readConfRAMLocal la BLASTER_ALL (Some ws) 0 n)"
proof -
  note size = ends_ram_size [OF assms(1) assms(2)]
  have third: "sound E (bindM (readConfRAMLocal la BLASTER_VFAT (Some b) (unat (n1 + n2)) (unat (sz BLASTER_VFAT))) (\<lambda>(b3, n3). ret (b3, n1 + n2 + n3)))"
    if "length b = length ws" "unat n1 \<le> unat (sz BLASTER_GBT)" "unat n2 \<le> unat (sz BLASTER_OptoHybrid)" for b n1 n2
  proof -
    have "unat (n1 + n2) = unat n1 + unat n2" using that assms(3) by (simp add: unat_add_lem [THEN iffD1])
    then show ?thesis
      using that assms(3,4) by (intro sound_bind ends_sound [OF ends_read_one [OF assms(1)]] sounds) simp_all
  qed
  have second: "sound E (bindM (readConfRAMLocal la BLASTER_OptoHybrid b (unat n1) (unat (sz BLASTER_OptoHybrid))) (\<lambda>(b2, n2).
           bindM (getRAMMaxSize la BLASTER_VFAT) (\<lambda>sz3.
           bindM (readConfRAMLocal la BLASTER_VFAT b2 (unat (n1 + n2)) (unat sz3)) (\<lambda>(b3, n3).
             ret (b3, n1 + n2 + n3)))))" if b: "ram_left (length ws) (unat (sz BLASTER_GBT)) (b, n1)" for b n1
  proof -
    obtain xs where xs: "b = Some xs" "length xs = length ws" "unat n1 \<le> unat (sz BLASTER_GBT)" using b by auto
    have rd: "ends E (ram_left (length xs) (unat (sz BLASTER_OptoHybrid)))
        (readConfRAMLocal la BLASTER_OptoHybrid (Some xs) (unat n1) (unat (sz BLASTER_OptoHybrid)))"
      using xs assms(3,4) by (intro ends_read_one assms(1)) simp_all
    show ?thesis
      unfolding xs(1)
      by (rule sound_after [OF rd]) (use xs third in \<open>auto intro!: sound_after [OF size [of BLASTER_VFAT]]\<close>)
  qed
  have first: "ends E (ram_left (length ws) (unat (sz BLASTER_GBT))) (readConfRAMLocal la BLASTER_GBT (Some ws) 0 (unat (sz BLASTER_GBT)))"
    using assms(3,4) by (intro ends_read_one assms(1)) simp_all
  have all: "BLASTER_ALL \<noteq> BLASTER_GBT" "BLASTER_ALL \<noteq> BLASTER_OptoHybrid" "BLASTER_ALL \<noteq> BLASTER_VFAT"
    by (simp_all add: blaster_types)
  show ?thesis
    by (subst readConfRAMLocal.simps)
      (auto intro!: sound_bind [OF sound_ram_size(3) [OF assms(1)]] sound_ret sound_after [OF size [of BLASTER_GBT]]
        sound_after [OF size [of BLASTER_OptoHybrid]] sound_after [OF first] second simp: all)
qed

lemma sound_set_binarydata [sounds]: "sound E (set_binarydata k bs)"
  unfolding set_binarydata_def by (intro sounds)

lemma sound_read_null: "wf_db la \<Longrightarrow> one_ram t \<or> t = BLASTER_ALL \<Longrightarrow> sound E (readConfRAMLocal la t None pos n)"
  by (subst readConfRAMLocal.simps) (auto intro!: sounds sound_ram_size(3))

lemma ends_total_size:
  assumes wf: "wf_db la" and sz: "\<And>t. one_ram t \<Longrightarrow> always_reads la (ram_size_reg t) (sz t)"
  shows "ends E (\<lambda>x. x = sz BLASTER_GBT + sz BLASTER_OptoHybrid + sz BLASTER_VFAT) (getRAMMaxSize la BLASTER_ALL)"
proof -
  have rd: "ends E (\<lambda>x. x = sz r) (readReg la (ram_size_reg r))" if "one_ram r" for r
    using ends_readReg [OF wf sz [OF that, unfolded always_reads_def]] .
  have "ends E (\<lambda>x. x = sz BLASTER_GBT + sz BLASTER_OptoHybrid + sz BLASTER_VFAT) (bindM (readReg la (ram_size_reg BLASTER_GBT)) (\<lambda>a.
      bindM (readReg la (ram_size_reg BLASTER_OptoHybrid)) (\<lambda>b. bindM (readReg la (ram_size_reg BLASTER_VFAT)) (\<lambda>c. ret (a + b + c)))))"
    by (rule ends_bind [OF rd], simp, rule ends_bind [OF rd], simp, rule ends_bind [OF rd], simp, rule ends_ret, simp)
  then show ?thesis unfolding getRAMMaxSize_def by (simp add: one_ram_def blaster_types)
qed

text \<open>The types for which the methods read or write; the sizes matter only when the size is asked for more than once.\<close>

definition ram_type_known :: "rpc_request \<Rightarrow> bool" where
  "ram_type_known rq \<longleftrightarrow> (\<forall>t. rq_word rq ''type'' = Inr t \<longrightarrow> one_ram t \<or> t = BLASTER_ALL)"

definition ram_in_range :: "localArgs \<Rightarrow> rpc_request \<Rightarrow> bool" where
  "ram_in_range la rq \<longleftrightarrow> ram_type_known rq \<and> (rq_word rq ''type'' = Inr BLASTER_ALL \<longrightarrow> ram_sizes_fixed la)"

lemma sound_readConfRAM:
  assumes wf: "wf_db la" and range: "ram_in_range la rq"
  shows "sound (asks rq) (readConfRAM la rq)"
  unfolding readConfRAM_def
proof (rule sound_get_word)
  fix t
  assume t: "rq_word rq ''type'' = Inr t"
  let ?E = "\<lambda>e. asks rq e \<or> (\<exists>w. e = Throw (Runtime_error w) \<or> e = Throw (Range_error w))"
  have known: "one_ram t \<or> t = BLASTER_ALL" using range t by (simp add: ram_in_range_def ram_type_known_def)
  have null: "sound ?E (readConfRAMLocal la t None 0 k)" for k by (rule sound_read_null [OF wf known])
  show "sound (asks rq) (bindM (getRAMMaxSize la t) (\<lambda>blob_sz.
       let confblob = if blob_sz = 0 then None else Some (stack_array la (unat blob_sz))
       in catch_runtime (bindM (readConfRAMLocal la t confblob 0 (unat blob_sz)) (\<lambda>(blob, nwords).
            set_binarydata ''confblob'' (take (unat nwords) (words_to_bytes (case blob of None \<Rightarrow> [] | Some ws \<Rightarrow> ws)))))
          (\<lambda>w. set_error (''Error reading configuration RAM: '' @ w))))"
  proof (cases "t = BLASTER_ALL")
    case False
    have one: "one_ram t" using known False by simp
    have rd: "sound ?E (readConfRAMLocal la t (Some (stack_array la (unat k))) 0 (unat k))" for k :: u32
    proof -
      have "unat k < 2 ^ 32" using unsigned_less [of k] by simp
      then show ?thesis by (intro ends_sound [OF ends_read_one] wf one) simp_all
    qed
    show ?thesis
      unfolding Let_def by (auto intro!: sound_bind [OF sound_ram_size(1) [OF wf known]] sound_catch sounds null rd)
  next
    case True
    obtain sz where sz: "\<And>t. one_ram t \<Longrightarrow> always_reads la (ram_size_reg t) (sz t)"
      "unat (sz BLASTER_GBT) + unat (sz BLASTER_OptoHybrid) + unat (sz BLASTER_VFAT) < 2 ^ 32"
      using range t True unfolding ram_in_range_def ram_sizes_fixed_def by auto
    let ?sum = "sz BLASTER_GBT + sz BLASTER_OptoHybrid + sz BLASTER_VFAT"
    note size = ends_total_size [OF wf sz(1), of "asks rq"]
    have len: "unat (sz BLASTER_GBT) + unat (sz BLASTER_OptoHybrid) + unat (sz BLASTER_VFAT) = unat ?sum"
      using sz(2) by (simp add: unat_word_ariths)
    have rd: "sound ?E (readConfRAMLocal la t (Some (stack_array la (unat ?sum))) 0 n)" for n
      unfolding True by (rule sound_read_all [OF wf sz]) (assumption, simp add: len)
    show ?thesis
      unfolding True Let_def by (rule sound_after [OF size]) (auto intro!: sound_catch sounds null [unfolded True] rd [unfolded True])
  qed
qed

text \<open>The size is asked for outside the \<^verbatim>\<open>try\<close>, so that an unknown type leaves the method as an exception.\<close>

lemma readConfRAM_unknown_type:
  assumes "rq_word rq ''type'' = Inr t" "\<not> one_ram t" "t \<noteq> BLASTER_ALL"
  shows "readConfRAM la rq s = Some (Abort (Throw (Range_error (invalid_type t))), s)"
  using assms by (simp add: readConfRAM_def get_word_def liftE_def getRAMMaxSize_def one_ram_def throwM_def abortM_def bindM_Abort)

text \<open>Writing: the words of the request are counted as bytes, and a size that has been checked must not change.\<close>

lemma sound_writeBlock:
  assumes "wf_db la" "unat sz \<le> length ws"
  shows "sound E (writeBlock la r ws sz off)"
proof (cases "db_text la r")
  case None
  then show ?thesis by (simp add: writeBlock_def sound_ret)
next
  case (Some db_res)
  obtain n where n: "has_node la r n" by (rule wf_db_text [OF assms(1) Some])
  show ?thesis unfolding block_run(2) [OF n] using assms(2) by (auto intro!: sounds)
qed

lemma sound_throw: "E (Throw x) \<Longrightarrow> sound E (throwM x)"
  by (simp add: sound_def ends_def throwM_def abortM_def)

lemma sound_write_one:
  assumes wf: "wf_db la" and t: "one_ram t" and v: "always_reads la (ram_size_reg t) v" "unat v \<le> length ws"
    and E: "\<And>w. E (Throw (Range_error w))"
  shows "sound E (write_one_ram la t ws)"
proof -
  note size = ends_ram_size [OF wf v(1) t, of E]
  have sz: "of_nat (unat v) = v" by simp
  show ?thesis
    using t unfolding write_one_ram_def one_ram_def
    by (auto intro!: sound_after [OF size] sound_ram_size(1) [OF wf] sounds sound_throw E sound_writeBlock wf v(2)
        simp: writeGBTConfRAMLocal_def writeOptoHybridConfRAMLocal_def writeVFATConfRAMLocal_def)
qed

lemma sound_write_checked:
  assumes wf: "wf_db la" and t: "one_ram t" and v: "always_reads la (ram_size_reg t) v" "n = unat v \<Longrightarrow> unat v \<le> length ws"
    and E: "\<And>w. E (Throw (Range_error w))" "\<And>w. E (Throw (Runtime_error w))"
  shows "sound E (writeConfRAMLocal la t (Some ws) n)"
proof -
  have check: "ends E (\<lambda>b. b \<longrightarrow> n = unat v) (checkBLOBSize la t n)"
    unfolding checkBLOBSize_def by (auto intro!: ends_bind [OF ends_ram_size [OF wf v(1) t]] ends_ret)
  have "writeConfRAMLocal la t (Some ws) n = bindM (checkBLOBSize la t n) (\<lambda>valid.
      if \<not> valid then throwM (Runtime_error (invalid_blob_size n)) else write_one_ram la t ws)"
    using t by (subst writeConfRAMLocal.simps) (simp add: one_ram_def cong: if_cong)
  then show ?thesis
    using v(2) by (auto intro!: sound_after [OF check] sound_if sound_throw E sound_write_one [OF wf t v(1)])
qed

lemma sound_write_all:
  assumes wf: "wf_db la" and sz: "\<And>t. one_ram t \<Longrightarrow> always_reads la (ram_size_reg t) (sz t)"
    "unat (sz BLASTER_GBT) + unat (sz BLASTER_OptoHybrid) + unat (sz BLASTER_VFAT) < 2 ^ 32" and ws: "length ws = n"
    and E: "\<And>w. E (Throw (Range_error w))" "\<And>w. E (Throw (Runtime_error w))"
  shows "sound E (writeConfRAMLocal la BLASTER_ALL (Some ws) n)"
proof -
  let ?sum = "sz BLASTER_GBT + sz BLASTER_OptoHybrid + sz BLASTER_VFAT"
  have len: "unat ?sum = unat (sz BLASTER_GBT) + unat (sz BLASTER_OptoHybrid) + unat (sz BLASTER_VFAT)"
    using sz(2) by (simp add: unat_word_ariths)
  note size = ends_ram_size [OF wf sz(1)]
  have check: "ends E (\<lambda>b. b \<longrightarrow> length ws = unat ?sum) (checkBLOBSize la BLASTER_ALL n)"
    unfolding checkBLOBSize_def using ws by (auto intro!: ends_bind [OF ends_total_size [OF wf sz(1)]] ends_ret)
  note one = sound_write_checked [OF wf _ sz(1) _ E]
  have parts: "sound E (bindM (getRAMMaxSize la BLASTER_GBT) (\<lambda>sz1.
           thenM (writeConfRAMLocal la BLASTER_GBT (Some ws) (unat sz1)) (
           bindM (getRAMMaxSize la BLASTER_GBT) (\<lambda>off2.
           bindM (getRAMMaxSize la BLASTER_OptoHybrid) (\<lambda>sz2.
           thenM (writeConfRAMLocal la BLASTER_OptoHybrid (Some (drop (unat off2) ws)) (unat sz2)) (
           bindM (getRAMMaxSize la BLASTER_GBT) (\<lambda>off3.
           bindM (getRAMMaxSize la BLASTER_OptoHybrid) (\<lambda>off4.
           bindM (getRAMMaxSize la BLASTER_VFAT) (\<lambda>sz3.
             writeConfRAMLocal la BLASTER_VFAT (Some (drop (unat off3 + unat off4) ws)) (unat sz3))))))))))"
    if "length ws = unat ?sum"
    using that len
    by (auto intro!: sound_after [OF size [of BLASTER_GBT]] sound_after [OF size [of BLASTER_OptoHybrid]]
        sound_after [OF size [of BLASTER_VFAT]] sound_then one)
  have all: "BLASTER_ALL \<noteq> BLASTER_GBT" "BLASTER_ALL \<noteq> BLASTER_OptoHybrid" "BLASTER_ALL \<noteq> BLASTER_VFAT"
    by (simp_all add: blaster_types)
  have "writeConfRAMLocal la BLASTER_ALL (Some ws) n = bindM (checkBLOBSize la BLASTER_ALL n) (\<lambda>valid.
      if \<not> valid then throwM (Runtime_error (invalid_blob_size n)) else
        bindM (getRAMMaxSize la BLASTER_GBT) (\<lambda>sz1.
           thenM (writeConfRAMLocal la BLASTER_GBT (Some ws) (unat sz1)) (
           bindM (getRAMMaxSize la BLASTER_GBT) (\<lambda>off2.
           bindM (getRAMMaxSize la BLASTER_OptoHybrid) (\<lambda>sz2.
           thenM (writeConfRAMLocal la BLASTER_OptoHybrid (Some (drop (unat off2) ws)) (unat sz2)) (
           bindM (getRAMMaxSize la BLASTER_GBT) (\<lambda>off3.
           bindM (getRAMMaxSize la BLASTER_OptoHybrid) (\<lambda>off4.
           bindM (getRAMMaxSize la BLASTER_VFAT) (\<lambda>sz3.
             writeConfRAMLocal la BLASTER_VFAT (Some (drop (unat off3 + unat off4) ws)) (unat sz3))))))))))"
    by (subst writeConfRAMLocal.simps) (simp add: all cong: if_cong)
  then show ?thesis
    using parts by (auto intro!: sound_after [OF check] sound_if sound_throw E)
qed

lemma length_bytes: "length (words_to_bytes ws) = 4 * length ws"
  by (induction ws) (simp_all add: words_to_bytes_def word_bytes_def)

lemma length_words: "length bs = 4 * n \<Longrightarrow> length (bytes_to_words bs) = n"
proof (induction bs arbitrary: n rule: bytes_to_words.induct)
  case (1 a b c d bs)
  then have "length bs = 4 * (n - 1)" "0 < n" by auto
  then show ?case using "1.IH" by simp
qed auto

lemma sound_writeConfRAM:
  assumes wf: "wf_db la" and fixed: "ram_sizes_fixed la"
  shows "sound (asks rq) (writeConfRAM la rq)"
proof -
  let ?E = "\<lambda>e. asks rq e \<or> (\<exists>w. e = Throw (Runtime_error w) \<or> e = Throw (Range_error w))"
  obtain sz where sz: "\<And>t. one_ram t \<Longrightarrow> always_reads la (ram_size_reg t) (sz t)"
    "unat (sz BLASTER_GBT) + unat (sz BLASTER_OptoHybrid) + unat (sz BLASTER_VFAT) < 2 ^ 32"
    using fixed unfolding ram_sizes_fixed_def by auto
  have wr: "sound ?E (writeConfRAMLocal la t (Some ws) (length ws))" for t ws
  proof -
    consider "one_ram t" | "t = BLASTER_ALL" | "\<not> one_ram t" "t \<noteq> BLASTER_ALL" by blast
    then show ?thesis
    proof cases
      case 1
      then show ?thesis by (intro sound_write_checked [OF wf _ sz(1)]) auto
    next
      case 2
      then show ?thesis using sound_write_all [OF wf sz refl] by simp
    next
      case 3
      then show ?thesis
        by (subst writeConfRAMLocal.simps) (auto intro!: sounds sound_ram_size(4) [OF wf] sound_throw simp: one_ram_def)
    qed
  qed
  have len: "length (bytes_to_words (bs @ drop (length bs) (words_to_bytes (stack_array la (length bs))))) = length bs" for bs :: "u8 list"
    by (rule length_words) (simp add: length_bytes)
  show ?thesis
    unfolding writeConfRAM_def Let_def
    by (intro sounds sound_catch) (use wr [of _ "bytes_to_words (bs @ drop (length bs) (words_to_bytes (stack_array la (length bs))))" for bs] in \<open>simp add: len\<close>)
qed

end
