(* ===== verification/TableStore.thy ===== *)
theory TableStore
  imports RegisterSpec
begin

text \<open>
  The address table as a file that several server processes share: \<^verbatim>\<open>update_address_table\<close> of \<^verbatim>\<open>src/utils.cpp\<close> step
  by step, with the steps of other processes in between, and \<^verbatim>\<open>getLocalArgs\<close> (the macro \<^verbatim>\<open>GETLOCALARGS\<close> of
  \<^verbatim>\<open>include/utils.h\<close>), with which a method opens the table. A file that was removed lives on for those who
  have it open. LMDB is a parameter, the function that opens a data base; \<open>opens_files\<close> is what the code relies on. A write
  transaction is atomic, and a read transaction sees what was committed when it began. The lock file is left out.
\<close>

section \<open>Files\<close>

type_synonym entries = "(string \<times> node) list"

text \<open>The files with tables, one of which has the name, if there is one with the name.\<close>

record store =
  linked :: "nat option"
  stored :: "nat \<Rightarrow> database"

type_synonym lmdb_open = "store \<Rightarrow> exn + nat \<times> store"

text \<open>\<^verbatim>\<open>env.open\<close>, when it does not throw: the file with the name, or a new one that is empty.\<close>

definition opens_files :: "lmdb_open \<Rightarrow> bool" where
  "opens_files env_open \<longleftrightarrow> (\<forall>st k st'. env_open st = Inr (k, st') \<longrightarrow> (case linked st of
       Some j \<Rightarrow> k = j \<and> st' = st
     | None \<Rightarrow> linked st' = Some k \<and> stored st' = (stored st)(k := Map.empty)))"

text \<open>The table that a process finds which opens it now.\<close>

definition table :: "store \<Rightarrow> database" where
  "table st = (case linked st of None \<Rightarrow> Map.empty | Some k \<Rightarrow> stored st k)"

text \<open>
  \<^verbatim>\<open>getLocalArgs\<close>: the directory comes from the environment (a null pointer when \<^verbatim>\<open>GEM_PATH\<close> is not set).
\<close>

definition getLocalArgs ::
  "string option \<Rightarrow> (string \<Rightarrow> lmdb_open) \<Rightarrow> store \<Rightarrow> localArgs \<Rightarrow> (abort + localArgs) \<times> store" where
  "getLocalArgs gem_path env_open st la =
     (case gem_path of
        None \<Rightarrow> (Inl Undefined, st)
      | Some p \<Rightarrow>
          (let lmdb_data_file = p @ ''/address_table.mdb''
           in case env_open lmdb_data_file st of
                Inl e \<Rightarrow> (Inl (Throw e), st)
              | Inr (k, st') \<Rightarrow> (Inr (la\<lparr>db_get := stored st' k\<rparr>), st')))"

lemma opened_linked:
  assumes "opens_files env_open" "env_open st = Inr (k, st')"
  shows "linked st' = Some k" "table st' = table st" "stored st' k = table st" "linked st = Some j \<Longrightarrow> st' = st \<and> k = j"
  using assms unfolding opens_files_def table_def by (fastforce split: option.splits)+

lemma getLocalArgs_table:
  assumes "\<And>p. opens_files (env_open p)" "getLocalArgs gem_path env_open st la = (Inr la', st')"
  shows "la' = la\<lparr>db_get := table st\<rparr>"
  using assms(2) opened_linked(3) [OF assms(1)]
  by (auto simp: getLocalArgs_def Let_def split: option.splits sum.splits prod.splits)

section \<open>The steps of an update\<close>

definition parsed_entries :: "(string \<Rightarrow> entries option) \<Rightarrow> string \<Rightarrow> entries option" where
  "parsed_entries parse at_xml = map_option (filter (\<lambda>(k, n). k \<noteq> ''top'')) (parse (c_str at_xml))"

definition remove_old :: "store \<Rightarrow> store" where
  "remove_old st = st\<lparr>linked := None\<rparr>"

definition commit_entries :: "nat \<Rightarrow> entries \<Rightarrow> store \<Rightarrow> store" where
  "commit_entries k es st = st\<lparr>stored := (stored st)(k := foldl put_node (stored st k) es)\<rparr>"

datatype stage = Resting | Parsed entries | Removed entries | Opened nat entries

text \<open>
  A process that updates has parsed the file, has removed the old table, or has opened the new one. It may leave
  with an exception, or be killed, at any stage (\<open>Quit\<close>). \<open>Enter\<close> is a method that opens the table, or fails to.
\<close>

datatype store_event = Parse nat string | Remove nat | Open nat | Commit nat | Quit nat | Enter nat

record store_sys =
  files :: store
  stages :: "nat \<Rightarrow> stage"

fun store_step :: "(string \<Rightarrow> entries option) \<Rightarrow> lmdb_open \<Rightarrow> store_event \<Rightarrow> store_sys \<Rightarrow> store_sys option" where
  "store_step parse env_open (Parse i x) y = (case (stages y i, parsed_entries parse x) of
     (Resting, Some es) \<Rightarrow> Some (y\<lparr>stages := (stages y)(i := Parsed es)\<rparr>)
   | (Resting, None) \<Rightarrow> Some y
   | _ \<Rightarrow> None)"
| "store_step parse env_open (Remove i) y = (case stages y i of
     Parsed es \<Rightarrow> Some \<lparr>files = remove_old (files y), stages = (stages y)(i := Removed es)\<rparr>
   | _ \<Rightarrow> None)"
| "store_step parse env_open (Open i) y = (case stages y i of
     Removed es \<Rightarrow> (case env_open (files y) of
         Inl e \<Rightarrow> Some (y\<lparr>stages := (stages y)(i := Resting)\<rparr>)
       | Inr (k, st) \<Rightarrow> Some \<lparr>files = st, stages = (stages y)(i := Opened k es)\<rparr>)
   | _ \<Rightarrow> None)"
| "store_step parse env_open (Commit i) y = (case stages y i of
     Opened k es \<Rightarrow> Some \<lparr>files = commit_entries k es (files y), stages = (stages y)(i := Resting)\<rparr>
   | _ \<Rightarrow> None)"
| "store_step parse env_open (Quit i) y = Some (y\<lparr>stages := (stages y)(i := Resting)\<rparr>)"
| "store_step parse env_open (Enter i) y = (case env_open (files y) of
     Inl e \<Rightarrow> Some y
   | Inr (k, st) \<Rightarrow> Some (y\<lparr>files := st\<rparr>))"

fun store_run :: "(string \<Rightarrow> entries option) \<Rightarrow> lmdb_open \<Rightarrow> store_event list \<Rightarrow> store_sys \<Rightarrow> store_sys option" where
  "store_run parse env_open [] y = Some y"
| "store_run parse env_open (e # es) y = Option.bind (store_step parse env_open e y) (store_run parse env_open es)"

lemma store_run_append: "store_run parse env_open (xs @ ys) y = Option.bind (store_run parse env_open xs y) (store_run parse env_open ys)"
proof (induction xs arbitrary: y)
  case (Cons e xs)
  then show ?case by (cases "store_step parse env_open e y") simp_all
qed simp

text \<open>An invariant of the steps is one of the runs.\<close>

lemma store_run_invariant:
  assumes "\<And>e y y'. e \<in> set es \<Longrightarrow> store_step parse env_open e y = Some y' \<Longrightarrow> I y \<Longrightarrow> I y'" "store_run parse env_open es y = Some y'" "I y"
  shows "I y'"
  using assms
proof (induction es arbitrary: y)
  case (Cons e es)
  then obtain z where "store_step parse env_open e y = Some z" "store_run parse env_open es z = Some y'" by (auto simp: bind_eq_Some_conv)
  then show ?case using Cons by (metis list.set_intros)
qed simp

section \<open>Whatever the interleaving, the entries are well formed\<close>

definition entry_ok :: "string \<Rightarrow> bool" where
  "entry_ok t \<longleftrightarrow> (\<exists>n. wf_node n \<and> node_mask n \<noteq> 0 \<and> t = serialize n)"

definition nodes_ok :: "entries \<Rightarrow> bool" where
  "nodes_ok es \<longleftrightarrow> (\<forall>(k, n) \<in> set es. wf_node n \<and> node_mask n \<noteq> 0)"

definition parser_ok :: "(string \<Rightarrow> entries option) \<Rightarrow> bool" where
  "parser_ok parse \<longleftrightarrow> (\<forall>x es. parse x = Some es \<longrightarrow> nodes_ok es)"

fun stage_ok :: "stage \<Rightarrow> bool" where
  "stage_ok Resting = True"
| "stage_ok (Parsed es) = nodes_ok es"
| "stage_ok (Removed es) = nodes_ok es"
| "stage_ok (Opened k es) = nodes_ok es"

definition store_ok :: "store_sys \<Rightarrow> bool" where
  "store_ok y \<longleftrightarrow> (\<forall>f k t. stored (files y) f k = Some t \<longrightarrow> entry_ok t) \<and>
     (\<forall>i. stage_ok (stages y i))"

lemma commit_ok:
  assumes "\<And>k t. db k = Some t \<Longrightarrow> entry_ok t" "nodes_ok es" "foldl put_node db es k = Some t"
  shows "entry_ok t"
  using assms by (intro put_all_wf [of db entry_ok es, OF _ _ assms(3)]) (auto simp: nodes_ok_def entry_ok_def)

lemma parsed_ok: "parser_ok parse \<Longrightarrow> parsed_entries parse x = Some es \<Longrightarrow> nodes_ok es"
  by (fastforce simp: parsed_entries_def parser_ok_def nodes_ok_def)

lemma open_ok:
  assumes "opens_files env_open" "env_open st = Inr (k, st')" "\<forall>f k t. stored st f k = Some t \<longrightarrow> entry_ok t"
  shows "\<forall>f k t. stored st' f k = Some t \<longrightarrow> entry_ok t"
proof (cases "linked st")
  case None
  then have "stored st' = (stored st)(k := Map.empty)" using assms(1,2) unfolding opens_files_def by fastforce
  then show ?thesis using assms(3) by simp
next
  case (Some j)
  then show ?thesis using opened_linked(4) [OF assms(1,2)] assms(3) by simp
qed

lemma store_step_ok:
  assumes "parser_ok parse" "opens_files env_open" "store_step parse env_open e y = Some y'" "store_ok y"
  shows "store_ok y'"
proof -
  have st: "stage_ok (stages y i)" for i using assms(4) by (simp add: store_ok_def)
  have old: "\<forall>f k t. stored (files y) f k = Some t \<longrightarrow> entry_ok t" using assms(4) by (simp add: store_ok_def)
  show ?thesis
  proof (cases e)
    case (Parse i x)
    then show ?thesis using assms parsed_ok [OF assms(1)] by (auto simp: store_ok_def split: stage.splits option.splits)
  next
    case (Remove i)
    then show ?thesis using assms(3) st [of i] old by (auto simp: store_ok_def remove_old_def intro: st split: stage.splits)
  next
    case (Open i)
    then show ?thesis using assms(3) st [of i] old open_ok [OF assms(2) _ old]
      by (auto simp: store_ok_def intro: st split: stage.splits sum.splits)
  next
    case (Commit i)
    have new: "foldl put_node (stored (files y) f) es k = Some t \<Longrightarrow> nodes_ok es \<Longrightarrow> entry_ok t" for f es k t
      using commit_ok [of "stored (files y) f" es k t] old by blast
    from Commit show ?thesis using assms(3) st [of i] old
      by (auto simp: store_ok_def commit_entries_def split: stage.splits if_splits intro: new st)
  next
    case (Quit i)
    then show ?thesis using assms by (auto simp: store_ok_def)
  next
    case (Enter i)
    then show ?thesis using assms(3,4) open_ok [OF assms(2) _ old] by (auto simp: store_ok_def split: sum.splits)
  qed
qed

lemma store_run_ok:
  assumes "parser_ok parse" "opens_files env_open" "store_run parse env_open es y = Some y'" "store_ok y"
  shows "store_ok y'"
  using store_run_invariant [of es parse env_open store_ok y y'] store_step_ok [OF assms(1,2)] assms(3,4) by blast

lemma table_ok: "store_ok y \<Longrightarrow> wf_db (la\<lparr>db_get := table (files y)\<rparr>)"
  unfolding wf_db_def store_ok_def entry_ok_def table_def by (cases "linked (files y)") auto

section \<open>Examples\<close>

text \<open>A parser that finds one node, with the name of the file, and a system without a table.\<close>

definition two_parse :: "string \<Rightarrow> entries option" where
  "two_parse x = Some [(x, demo_node)]"

definition new_file :: lmdb_open where
  "new_file st = Inr (case linked st of
       Some k \<Rightarrow> (k, st)
     | None \<Rightarrow> (0, st\<lparr>linked := Some 0, stored := (stored st)(0 := Map.empty)\<rparr>))"

definition fresh_sys :: store_sys where
  "fresh_sys = \<lparr>files = \<lparr>linked = None, stored = (\<lambda>k. Map.empty)\<rparr>, stages = (\<lambda>i. Resting)\<rparr>"

definition loaded_sys :: store_sys where
  "loaded_sys = \<lparr>files = \<lparr>linked = Some 0, stored = (\<lambda>k. Map.empty)(0 := [''A'' \<mapsto> serialize demo_node])\<rparr>,
     stages = (\<lambda>i. Resting)\<rparr>"

lemma two_parse_ok: "parser_ok two_parse"
  by (simp add: parser_ok_def nodes_ok_def two_parse_def wf_node_def clean_def demo_node_def)

lemma new_file_opens: "opens_files new_file"
  by (auto simp: opens_files_def new_file_def split: option.split)

lemma fresh_ok: "store_ok fresh_sys"
  by (simp add: store_ok_def fresh_sys_def)

lemma loaded_run:
  "store_run two_parse new_file [Parse 0 ''A'', Enter 1, Remove 0, Open 0, Enter 2, Commit 0] fresh_sys = Some loaded_sys"
  by (simp add: parsed_entries_def two_parse_def fresh_sys_def loaded_sys_def remove_old_def new_file_def commit_entries_def
      put_node_def c_str_def fun_eq_iff)

lemma loaded_table: "table (files loaded_sys) = [''A'' \<mapsto> serialize demo_node]"
  by (simp add: table_def loaded_sys_def)



section \<open>One update at a time\<close>

text \<open>The steps of one process that updates, and of any number that only open the table.\<close>

fun lone :: "nat \<Rightarrow> store_event \<Rightarrow> bool" where
  "lone i (Parse j x) = (j = i)"
| "lone i (Remove j) = (j = i)"
| "lone i (Open j) = (j = i)"
| "lone i (Commit j) = (j = i)"
| "lone i (Quit j) = (j = i)"
| "lone i (Enter j) = True"

definition loaded :: "(string \<Rightarrow> entries option) \<Rightarrow> entries \<Rightarrow> bool" where
  "loaded parse es \<longleftrightarrow> (\<exists>x. parsed_entries parse x = Some es)"

text \<open>The tables that can be seen: the one from before, the empty one, and whole new ones.\<close>

definition whole :: "(string \<Rightarrow> entries option) \<Rightarrow> database \<Rightarrow> database \<Rightarrow> bool" where
  "whole parse db0 db \<longleftrightarrow> db = db0 \<or> db = Map.empty \<or> (\<exists>es. loaded parse es \<and> db = foldl put_node Map.empty es)"

definition lone_ok :: "(string \<Rightarrow> entries option) \<Rightarrow> nat \<Rightarrow> database \<Rightarrow> store_sys \<Rightarrow> bool" where
  "lone_ok parse i db0 y \<longleftrightarrow> whole parse db0 (table (files y)) \<and> (case stages y i of
     Resting \<Rightarrow> True
   | Parsed es \<Rightarrow> loaded parse es
   | Removed es \<Rightarrow> loaded parse es \<and> table (files y) = Map.empty
   | Opened k es \<Rightarrow> loaded parse es \<and> linked (files y) = Some k \<and> stored (files y) k = Map.empty)"

lemma lone_step:
  assumes "store_step parse env_open e y = Some y'" "lone i e" "lone_ok parse i db0 y" "opens_files env_open"
  shows "lone_ok parse i db0 y'"
proof (cases e)
  case (Parse j x)
  then show ?thesis using assms by (auto simp: lone_ok_def loaded_def split: stage.splits option.splits)
next
  case (Remove j)
  then show ?thesis using assms by (auto simp: lone_ok_def remove_old_def table_def whole_def split: stage.splits)
next
  case (Open j)
  then obtain es where es: "stages y i = Removed es" using assms(1,2) by (auto split: stage.splits)
  show ?thesis
  proof (cases "env_open (files y)")
    case (Inl e)
    then show ?thesis using assms(1-3) Open es by (auto simp: lone_ok_def)
  next
    case (Inr p)
    then obtain k st where k: "env_open (files y) = Inr (k, st)" by (cases p) simp
    then show ?thesis using assms(1-3) Open es opened_linked(1-3) [OF assms(4) k] by (auto simp: lone_ok_def)
  qed
next
  case (Commit j)
  then show ?thesis using assms
    by (auto simp: lone_ok_def commit_entries_def table_def whole_def split: stage.splits)
next
  case (Quit j)
  then show ?thesis using assms by (auto simp: lone_ok_def split: stage.splits)
next
  case (Enter j)
  show ?thesis
  proof (cases "env_open (files y)")
    case (Inl e)
    then show ?thesis using assms(1,3) Enter by simp
  next
    case (Inr p)
    then obtain k st where k: "env_open (files y) = Inr (k, st)" by (cases p) simp
    then show ?thesis using assms(1,3) Enter opened_linked [OF assms(4) k] by (auto simp: lone_ok_def split: stage.splits)
  qed
qed

text \<open>
  C9 (no half tables): as long as one process updates at a time, every process that opens the table, at
  any moment, finds the table from before, the empty table, or the whole result of an
  \<^verbatim>\<open>update_address_table\<close>, never a part of one.
\<close>

theorem lone_update_whole:
  assumes "opens_files env_open" "\<And>e. e \<in> set es \<Longrightarrow> lone i e" "stages y i = Resting" "store_run parse env_open es y = Some y'"
  shows "table (files y') = table (files y) \<or> table (files y') = Map.empty
    \<or> (\<exists>x nodes. parse (c_str x) = Some nodes \<and> table (files y') = snd (update_address_table parse x (table (files y))))"
proof -
  have "lone_ok parse i (table (files y)) y" using assms(3) by (simp add: lone_ok_def whole_def)
  then have "lone_ok parse i (table (files y)) y'"
    using store_run_invariant [of es parse env_open "lone_ok parse i (table (files y))" y y'] lone_step assms(1,2,4) by blast
  then show ?thesis
    by (auto simp: lone_ok_def whole_def loaded_def parsed_entries_def update_address_table_def put_node_case)
qed

theorem lone_update_whole_witness:
  "table (files loaded_sys) = table (files fresh_sys) \<or> table (files loaded_sys) = Map.empty
    \<or> (\<exists>x nodes. two_parse (c_str x) = Some nodes
         \<and> table (files loaded_sys) = snd (update_address_table two_parse x (table (files fresh_sys))))"
  by (rule lone_update_whole [where i = 0, OF new_file_opens _ _ loaded_run]) (auto simp: fresh_sys_def)

lemma enter_run:
  assumes "opens_files env_open" "\<And>e. e \<in> set es \<Longrightarrow> \<exists>j. e = Enter j" "store_run parse env_open es y = Some y'"
  shows "stages y' = stages y \<and> table (files y') = table (files y) \<and> (\<forall>k. linked (files y) = Some k \<longrightarrow> files y' = files y)"
  using assms(2,3)
proof (induction es arbitrary: y)
  case (Cons e es)
  obtain j where e: "e = Enter j" using Cons.prems(1) by auto
  show ?case
  proof (cases "env_open (files y)")
    case (Inl x)
    then show ?thesis using Cons e by simp
  next
    case (Inr p)
    then obtain k st where k: "env_open (files y) = Inr (k, st)" by (cases p) simp
    then have run: "store_run parse env_open es (y\<lparr>files := st\<rparr>) = Some y'" using Cons.prems(2) e by simp
    show ?thesis using Cons.IH [OF _ run] Cons.prems(1) opened_linked [OF assms(1) k] by auto
  qed
qed simp

text \<open>
  C8 (the steps of an update): an update that runs to its end, while other processes open the table before and
  after the old one is removed and the new one opened, has the result of
  \<^verbatim>\<open>update_address_table\<close> in one piece, which \<open>AddressTable\<close> describes.
\<close>

theorem update_steps_refine:
  assumes "opens_files env_open" "stages y i = Resting" "parse (c_str x) = Some nodes"
    and "\<And>e. e \<in> set (a @ b @ c) \<Longrightarrow> \<exists>j. e = Enter j"
    and "store_run parse env_open (Parse i x # a @ Remove i # b @ Open i # c @ [Commit i]) y = Some y'"
  shows "table (files y') = snd (update_address_table parse x (table (files y))) \<and> stages y' i = Resting"
proof -
  let ?es = "filter (\<lambda>(k, n). k \<noteq> ''top'') nodes"
  have pe: "parsed_entries parse x = Some ?es" using assms(3) by (simp add: parsed_entries_def)
  obtain y1 where 1: "store_run parse env_open a (y\<lparr>stages := (stages y)(i := Parsed ?es)\<rparr>) = Some y1"
    and r1: "store_run parse env_open (Remove i # b @ Open i # c @ [Commit i]) y1 = Some y'"
    using assms(2,5) pe by (auto simp: store_run_append bind_eq_Some_conv)
  have s1: "stages y1 i = Parsed ?es" using enter_run [OF assms(1) _ 1] assms(4) by auto
  obtain y2 where 2: "store_run parse env_open b \<lparr>files = remove_old (files y1), stages = (stages y1)(i := Removed ?es)\<rparr> = Some y2"
    and r2: "store_run parse env_open (Open i # c @ [Commit i]) y2 = Some y'"
    using r1 s1 by (auto simp: store_run_append bind_eq_Some_conv)
  have s2: "stages y2 i = Removed ?es" "table (files y2) = Map.empty"
    using enter_run [OF assms(1) _ 2] assms(4) by (auto simp: remove_old_def table_def)
  obtain k st where k: "env_open (files y2) = Inr (k, st)"
  proof (cases "env_open (files y2)")
    case (Inl e)
    then obtain y3 where y3: "store_run parse env_open c (y2\<lparr>stages := (stages y2)(i := Resting)\<rparr>) = Some y3"
      and fin: "store_run parse env_open [Commit i] y3 = Some y'"
      using r2 s2(1) by (auto simp: store_run_append bind_eq_Some_conv)
    have "stages y3 i = Resting" using enter_run [OF assms(1) _ y3] assms(4) by auto
    then show thesis using fin by simp
  qed auto
  obtain y3 where 3: "store_run parse env_open c \<lparr>files = st, stages = (stages y2)(i := Opened k ?es)\<rparr> = Some y3"
    and r3: "store_run parse env_open [Commit i] y3 = Some y'"
    using r2 s2(1) k by (auto simp: store_run_append bind_eq_Some_conv)
  have l: "linked st = Some k" "stored st k = Map.empty"
    using opened_linked(1,3) [OF assms(1) k] s2(2) by simp_all
  have s3: "stages y3 i = Opened k ?es" "files y3 = st"
    using enter_run [OF assms(1) _ 3] assms(4) l(1) by auto
  have "y' = \<lparr>files = commit_entries k ?es st, stages = (stages y3)(i := Resting)\<rparr>" using r3 s3 by simp
  then show ?thesis
    using l assms(3) by (simp add: commit_entries_def table_def update_address_table_def put_node_case)
qed

theorem update_steps_refine_witness:
  "table (files loaded_sys) = snd (update_address_table two_parse ''A'' (table (files fresh_sys))) \<and> stages loaded_sys 0 = Resting"
  by (rule update_steps_refine [where env_open = new_file and a = "[Enter 1]" and b = "[]" and c = "[Enter 2]" and nodes = "[(''A'', demo_node)]"
        and parse = two_parse])
    (use loaded_run in \<open>auto simp: new_file_opens fresh_sys_def two_parse_def c_str_def\<close>)

section \<open>What can go wrong\<close>

text \<open>The old table is removed before the new one is there: an update that fails in between leaves none.\<close>

lemma failed_update_empties:
  assumes "stages y i = Resting" "parse (c_str x) = Some nodes"
  shows "\<exists>y'. store_run parse env_open [Parse i x, Remove i, Quit i] y = Some y' \<and> table (files y') = Map.empty"
  using assms by (simp add: parsed_entries_def remove_old_def table_def)

text \<open>Two updates at the same time: the second one writes into the file of the first, and names of both are found.\<close>

lemma concurrent_updates_mix:
  "\<exists>y'. store_run two_parse new_file [Parse 0 ''A'', Parse 1 ''B'', Remove 0, Remove 1, Open 0, Open 1, Commit 0, Commit 1] fresh_sys = Some y'
     \<and> table (files y') ''A'' \<noteq> None \<and> table (files y') ''B'' \<noteq> None"
  by (simp add: parsed_entries_def two_parse_def fresh_sys_def remove_old_def new_file_def commit_entries_def table_def put_node_def
      c_str_def)

end
