(* ===== verification/ServiceSafe.thy ===== *)
theory ServiceSafe
  imports ScanEnds RamEnds TableStore
begin

text \<open>
  What a client of the service can rely on. Every registered method ends normally or with an exception that the
  request itself raises, for a key that is missing or of another type, as long as the request is in
  the range of the method; \<open>in_range\<close> lists these ranges, and most methods have none. Servers call
  methods and reload the address table in any order and at the same time; their state is the store of
  \<open>TableStore\<close> and the history of the device.
\<close>

section \<open>The ranges of the methods\<close>

definition board_methods :: "string list" where
  "board_methods =
    [''getOHVFATMaskMultiLink'', ''getmonTRIGGERmain'', ''getmonTRIGGEROHmain'', ''getmonDAQOHmain'', ''getmonOHmain'',
     ''getmonOHSCAmain'', ''getmonOHSysmon'', ''broadcastRead'', ''configureVFAT3DacMonitor'', ''readVFAT3ADC'',
     ''configureVFAT3DacMonitorMultiLink'', ''readVFAT3ADCMultiLink'']"

definition in_range :: "localArgs \<Rightarrow> rpc_request \<Rightarrow> string \<Rightarrow> bool" where
  "in_range la rq name \<longleftrightarrow>
     (if name \<in> set board_methods then expected_board la
      else if name = ''listread'' then list_read_fits rq
      else if name = ''listwrite'' then list_write_fits rq
      else if name = ''readConfRAM'' then ram_in_range la rq
      else if name = ''writeConfRAM'' then ram_sizes_fixed la
      else if name = ''setChannelRegistersVFAT3'' then channel_arrays_fit rq
      else if name = ''scanGBTPhases'' then phase_step_fits rq
      else if name \<in> {''configureDAQModule'', ''ttcMMCMPhaseShift''} then always_shows la gth_shift_cnt (\<lambda>v. v < 40)
      else if name \<in> {''getUltraScanResults'', ''genScan''} then scan_request_fits 24 rq
      else if name = ''genChannelScan'' then scan_request_fits (128 * 24) rq
      else if name = ''sbitRateScan'' then scan_request_fits (12 * 24) rq \<and> short_name rq
      else if name = ''stopCalPulse2AllChannels'' then rq_word rq ''ch_max'' \<noteq> Inr (- 1)
      else if name = ''checkSbitMappingWithCalPulse'' then vfat_chosen rq \<and> clusters_fit rq
      else if name = ''checkSbitRateWithCalPulse'' then vfat_chosen rq
      else if name \<in> {''dacScan'', ''dacScanMultiLink''} then expected_board la \<and> dac_step_divides rq
      else True)"

section \<open>All methods\<close>

definition all_sound :: "localArgs \<Rightarrow> rpc_request \<Rightarrow> (string \<times> rpc_method) list \<Rightarrow> bool" where
  "all_sound la rq methods \<longleftrightarrow> list_all (\<lambda>(name, f). in_range la rq name \<longrightarrow> sound (asks rq) (f la rq)) methods"

lemmas ranges = all_sound_def in_range_def board_methods_def

lemma raw_sound: "all_sound la rq memory_methods" "all_sound la rq extras_methods" "all_sound la rq rpctest_methods"
  by (simp_all add: ranges memory_methods_def extras_methods_def rpctest_methods_def sound_raw sound_mlistread sound_mlistwrite)

lemma utils_sound: "wf_db la \<Longrightarrow> all_sound la rq utils_methods"
  by (simp add: ranges utils_methods_def sound_readRegFromDB)

lemma gbt_sound: "wf_db la \<Longrightarrow> all_sound la rq gbt_methods"
  by (simp add: ranges gbt_methods_def sound_gbt sound_scanGBTPhases)

lemma amc_sound: "wf_db la \<Longrightarrow> all_sound la rq amc_methods"
  by (simp add: ranges amc_methods_def sound_oh_mask sound_getOHVFATMaskMultiLink sound_daq sound_ttc sound_phase_methods
      sound_sbitReadOut sound_readConfRAM sound_writeConfRAM)

lemma optohybrid_sound: "wf_db la \<Longrightarrow> all_sound la rq optohybrid_methods"
  by (simp add: ranges optohybrid_methods_def sound_optohybrid sound_broadcastRead sound_configure sound_getUltraScanResults
      sound_stopCalPulse2AllChannels)

lemma vfat3_sound: "wf_db la \<Longrightarrow> all_sound la rq (vfat3_methods rm)"
  by (simp add: ranges vfat3_methods_def sound_vfat3 sound_getVFAT3ChipIDs sound_adc sound_readVFAT3ADCMultiLink sound_channels)

lemma daq_monitor_sound: "wf_db la \<Longrightarrow> all_sound la rq daq_monitor_methods"
  by (simp add: ranges daq_monitor_methods_def sound_monitor sound_links)

lemma calibration_sound: "wf_db la \<Longrightarrow> all_sound la rq calibration_routines_methods"
  by (simp add: ranges calibration_routines_methods_def sound_calibration sound_genScan sound_genChannelScan
      sound_sbitRateScan sound_checkSbitMapping sound_checkSbitRate sound_dacScan)

lemma methods_sound:
  assumes "(service, methods) \<in> set (services rm)" "(name, f) \<in> set methods" "wf_db la" "in_range la rq name"
  shows "sound (asks rq) (f la rq)"
proof -
  have "list_all (\<lambda>(service, methods). all_sound la rq methods) (services rm)"
    using assms(3) by (simp add: services_def raw_sound utils_sound gbt_sound amc_sound optohybrid_sound vfat3_sound
        daq_monitor_sound calibration_sound)
  then show ?thesis using assms by (fastforce simp: list_all_iff all_sound_def)
qed

section \<open>The server\<close>

text \<open>
  The state that the servers share, and what changes it: a step of some process with the table of addresses, or the call of a
  registered method, with an empty response, on the table that it opens and the device as it is; the methods of memory, extras and
  rpctest do not open it. A call that does not return is no step.
\<close>

record server =
  tables :: store_sys
  device :: "event list"

definition fresh_call :: "server \<Rightarrow> mach" where
  "fresh_call sv = \<lparr>hist = device sv, resp = Map.empty\<rparr>"

definition opens :: "string \<Rightarrow> (string \<Rightarrow> lmdb_open) \<Rightarrow> localArgs \<Rightarrow> server \<Rightarrow> localArgs \<Rightarrow> bool" where
  "opens gem_path env_open la sv la' \<longleftrightarrow> fst (getLocalArgs (Some gem_path) env_open (files (tables sv)) la) = Inr la'"

definition area_file :: "string \<Rightarrow> string" where
  "area_file gem_path = gem_path @ ''/address_table.mdb''"

inductive serves ::
  "reedmuller \<Rightarrow> (string \<Rightarrow> entries option) \<Rightarrow> string \<Rightarrow> (string \<Rightarrow> lmdb_open) \<Rightarrow> localArgs \<Rightarrow> server \<Rightarrow> server \<Rightarrow> bool"
  for rm parse gem_path env_open la where
  store: "store_step parse (env_open (area_file gem_path)) e (tables sv) = Some y \<Longrightarrow>
    serves rm parse gem_path env_open la sv (sv\<lparr>tables := y\<rparr>)"
| call: "(service, methods) \<in> set (services rm) \<Longrightarrow> module_init opened methods = Some registered \<Longrightarrow>
    (name, f) \<in> set registered \<Longrightarrow> opens gem_path env_open la sv la' \<Longrightarrow>
    store_step parse (env_open (area_file gem_path)) (Enter i) (tables sv) = Some y \<Longrightarrow> f la' rq (fresh_call sv) = Some (r, t) \<Longrightarrow>
    serves rm parse gem_path env_open la sv \<lparr>tables = y, device = hist t\<rparr>"
| raw_call: "methods \<in> {memory_methods, extras_methods, rpctest_methods} \<Longrightarrow> module_init opened methods = Some registered \<Longrightarrow>
    (name, f) \<in> set registered \<Longrightarrow> f la rq (fresh_call sv) = Some (r, t) \<Longrightarrow>
    serves rm parse gem_path env_open la sv (sv\<lparr>device := hist t\<rparr>)"

lemma served_ok:
  assumes "(serves rm parse gem_path env_open la)\<^sup>*\<^sup>* sv0 sv" "parser_ok parse" "\<And>p. opens_files (env_open p)" "store_ok (tables sv0)"
  shows "store_ok (tables sv)"
  using assms
proof (induction rule: rtranclp_induct)
  case (step sv sv')
  note ok = store_step_ok [OF step(4) step(5) [of "area_file gem_path"]] step.IH [OF step(4-6)]
  from step(2) show ?case
    by (cases rule: serves.cases) (use ok in \<open>auto simp del: store_step.simps\<close>)
qed simp

lemma opens_ok:
  assumes "opens gem_path env_open la sv la'" "\<And>p. opens_files (env_open p)" "store_ok (tables sv)"
  shows "wf_db la'"
proof -
  obtain st where "getLocalArgs (Some gem_path) env_open (files (tables sv)) la = (Inr la', st)"
    using assms(1) unfolding opens_def by (metis prod.collapse)
  from getLocalArgs_table [OF assms(2) this] show ?thesis using table_ok [OF assms(3)] by simp
qed


text \<open>A server that has loaded a table and reports on the TTC, and one that scans a register of the board.\<close>

definition table_server :: "store_sys \<Rightarrow> server" where
  "table_server y = \<lparr>tables = y, device = []\<rparr>"

definition board_files :: store_sys where
  "board_files = fresh_sys\<lparr>files := \<lparr>linked = Some 0, stored = (\<lambda>k. db_get board_env)\<rparr>\<rparr>"

lemma board_files_ok: "store_ok board_files"
proof -
  have "wf_db (board_env\<lparr>db_get := db_get board_env\<rparr>)" using flat_wf_db [of board_regs] by (simp add: wf_db_def board_env_def)
  then show ?thesis by (simp add: wf_db_def store_ok_def entry_ok_def board_files_def fresh_sys_def)
qed


end
