(* ===== verification/Keys.thy ===== *)
theory Keys
  imports Ends
begin

text \<open>
  The keys of a response. \<^verbatim>\<open>include/wiscRPCMsg.h\<close> says which characters a key may have, and its
  \<^verbatim>\<open>BadKeyException\<close> calls \<^verbatim>\<open>abort\<close>: a method that sets another key takes its process down. The model of the
  response has no such check, it takes every key; here is why it can do without.
\<close>

section \<open>Characters\<close>

definition key_characters :: string where
  "key_characters = ''ABCDEFGHIJKLMNOPQRSTUVWXYZabcdefghijklmnopqrstuvwxyz0123456789._''"

definition key_char :: "char \<Rightarrow> bool" where
  "key_char c \<longleftrightarrow> c \<in> set key_characters"

definition good_key :: "string \<Rightarrow> bool" where
  "good_key k \<longleftrightarrow> list_all key_char k"

abbreviation well_keyed :: "'a prog \<Rightarrow> bool" where
  "well_keyed \<equiv> preserves (extends (\<lambda>e. True) good_key)"

lemma good_Nil [simp]: "good_key []"
  by (simp add: good_key_def)

lemma good_append [simp]: "good_key (a @ b) \<longleftrightarrow> good_key a \<and> good_key b"
  by (simp add: good_key_def)

lemma good_Cons [simp]: "good_key (c # k) \<longleftrightarrow> key_char c \<and> good_key k"
  by (simp add: good_key_def)

lemma key_chars [simp]:
  "key_char CHR ''A''" "key_char CHR ''B''" "key_char CHR ''C''" "key_char CHR ''D''" "key_char CHR ''E''"
  "key_char CHR ''F''" "key_char CHR ''G''" "key_char CHR ''H''" "key_char CHR ''I''" "key_char CHR ''J''"
  "key_char CHR ''K''" "key_char CHR ''L''" "key_char CHR ''M''" "key_char CHR ''N''" "key_char CHR ''O''"
  "key_char CHR ''P''" "key_char CHR ''Q''" "key_char CHR ''R''" "key_char CHR ''S''" "key_char CHR ''T''"
  "key_char CHR ''U''" "key_char CHR ''V''" "key_char CHR ''W''" "key_char CHR ''X''" "key_char CHR ''Y''"
  "key_char CHR ''Z''" "key_char CHR ''a''" "key_char CHR ''b''" "key_char CHR ''c''" "key_char CHR ''d''"
  "key_char CHR ''e''" "key_char CHR ''f''" "key_char CHR ''g''" "key_char CHR ''h''" "key_char CHR ''i''"
  "key_char CHR ''j''" "key_char CHR ''k''" "key_char CHR ''l''" "key_char CHR ''m''" "key_char CHR ''n''"
  "key_char CHR ''o''" "key_char CHR ''p''" "key_char CHR ''q''" "key_char CHR ''r''" "key_char CHR ''s''"
  "key_char CHR ''t''" "key_char CHR ''u''" "key_char CHR ''v''" "key_char CHR ''w''" "key_char CHR ''x''"
  "key_char CHR ''y''" "key_char CHR ''z''" "key_char CHR ''0''" "key_char CHR ''1''" "key_char CHR ''2''"
  "key_char CHR ''3''" "key_char CHR ''4''" "key_char CHR ''5''" "key_char CHR ''6''" "key_char CHR ''7''"
  "key_char CHR ''8''" "key_char CHR ''9''" "key_char CHR ''.''" "key_char CHR ''_''"
  by (simp_all add: key_char_def key_characters_def)

lemma minus_bad [simp]: "\<not> key_char CHR ''-''"
  by (simp add: key_char_def key_characters_def)

lemma good_dec [simp]: "good_key (dec n)"
proof -
  have "set (dec n) \<subseteq> set ''0123456789abcdef''" unfolding dec_def by (rule set_fmt_nat) simp_all
  moreover have "set ''0123456789abcdef'' \<subseteq> set key_characters" by (simp add: key_characters_def)
  ultimately show ?thesis by (auto simp: good_key_def list_all_iff key_char_def)
qed

lemma good_fmt_u [simp]: "good_key (fmt_u w)"
  by (simp add: fmt_u_def)

text \<open>A number that prints with a sign is no part of a key.\<close>

lemma good_fmt_i: "good_key (fmt_i w) \<longleftrightarrow> 0 \<le> sint w"
  by (simp add: fmt_i_def)

section \<open>Loops\<close>

lemma keyed_waits [keeps]:
  "well_keyed (broadcast_wait la reg)" "well_keyed (cyclic_wait la)" "well_keyed (l1a_wait la a nevts x)"
  "well_keyed (gth_wait la expected x)" "well_keyed (ultra_wait la sr lr lat nt x)" "well_keyed (sbit_acquire la T t0 a d c y)"
  by (auto intro!: bf.loop_keeps cf.loop_keeps lf.loop_keeps gf.loop_keeps uf.loop_keeps af.loop_keeps keeps
      simp: broadcast_turn_def cyclic_turn_def l1a_turn_def gth_turn_def ultra_turn_def acquire_turn_def sbit_turn_def Let_def)

section \<open>The methods\<close>

lemma keyed_each [keeps]: "well_keyed (read_each la as data)" "well_keyed (write_each la ps)"
proof -
  show "well_keyed (read_each la as data)" by (induction as arbitrary: data) (auto simp: raw_error_def intro!: keeps)
  show "well_keyed (write_each la ps)" by (induction ps) (auto simp: raw_error_def intro!: keeps)
qed

lemma keyed_raw:
  "well_keyed (mread la rq)" "well_keyed (mwrite la rq)" "well_keyed (mfiforead la rq)" "well_keyed (mblockread la rq)"
  "well_keyed (mlistread la rq)" "well_keyed (mfifowrite la rq)" "well_keyed (mblockwrite la rq)"
  "well_keyed (mlistwrite la rq)" "well_keyed (rpcmsg_feature rq)" "well_keyed (readRegFromDB la rq)"
  unfolding raw_code by (auto intro!: keeps)

lemma keyed_gbt_steps [keeps]:
  "well_keyed (emit_rpc_error msg x)" "well_keyed (writeGBTRegLocal la ohN gbtN address v)"
  "well_keyed (writeGBTPhaseLocal la ohN vfatN phase)" "well_keyed (checkPhase phase)"
  unfolding writeGBTPhaseLocal_def writeGBTRegLocal_def checkPhase_def ic_write_def emit_rpc_error_def Let_def
  by (auto intro!: keeps)

lemma keyed_gbt: "well_keyed (writeGBTConfig la rq)" "well_keyed (writeGBTPhase la rq)" "well_keyed (scanGBTPhases la rq)"
  unfolding gbt_code scanGBTPhases_def scanGBTPhasesLocal_def scan_loop_def scan_phase_def scan_repetition_def vfat_good_def count_good_def
  by (auto intro!: keeps)

lemma keyed_masks [keeps]: "well_keyed (getOHVFATMask la rq)" "well_keyed (getOHVFATMaskMultiLink la rq)" "well_keyed (getOHVFATMaskLocal la ohN)"
  unfolding oh_masks_code by (auto intro!: keeps)

lemma keyed_daq [keeps]:
  "well_keyed (enableDAQLink la rq)" "well_keyed (disableDAQLink la rq)" "well_keyed (setZS la rq)"
  "well_keyed (resetDAQLink la rq)" "well_keyed (setDAQLinkInputTimeout la rq)"
  "well_keyed (setDAQLinkRunType la rq)" "well_keyed (setDAQLinkRunParameter la rq)"
  "well_keyed (setDAQLinkRunParameters la rq)" "well_keyed (enableDAQModule la rq)"
  unfolding daq_code by (auto intro!: keeps)

lemma keyed_ttc [keeps]:
  "well_keyed (ttcModuleReset la rq)" "well_keyed (ttcMMCMReset la rq)" "well_keyed (checkPLLLock la rq)"
  "well_keyed (getMMCMPhaseMean la rq)" "well_keyed (getMMCMPhaseMedian la rq)" "well_keyed (getGTHPhaseMean la rq)"
  "well_keyed (getGTHPhaseMedian la rq)" "well_keyed (ttcCounterReset la rq)" "well_keyed (getL1AEnable la rq)"
  "well_keyed (setL1AEnable la rq)" "well_keyed (getTTCConfig la rq)" "well_keyed (setTTCConfig la rq)"
  "well_keyed (getTTCStatus la rq)" "well_keyed (getTTCErrorCount la rq)" "well_keyed (getTTCCounter la rq)"
  "well_keyed (getL1AID la rq)" "well_keyed (getL1ARate la rq)" "well_keyed (getTTCSpyBuffer la rq)"
  unfolding ttc_code by (auto simp: ttc_counters_def intro!: keeps)

lemma keyed_checkPLLLockLocal [keeps]: "well_keyed (checkPLLLockLocal la n)"
  unfolding checkPLLLockLocal_def by (auto intro!: keeps)

lemma keyed_shift_turns [keeps]: "well_keyed (shift_turns k la relock bc0 scan n ps)"
  by (induction k arbitrary: ps)
    (auto simp: shift_turn_def shift_look_def mmcm_step_def Let_def split: prod.split intro!: keeps)

lemma keyed_phase_shift [keeps]: "well_keyed (ttcMMCMPhaseShiftLocal la relock bc0 scan)"
  unfolding ttcMMCMPhaseShiftLocal_def write_readback_def finish_search_def by (auto intro!: keeps)

lemma keyed_phase_methods: "well_keyed (ttcMMCMPhaseShift la rq)" "well_keyed (configureDAQModule la rq)"
  unfolding ttcMMCMPhaseShift_def configureDAQModule_def scaHardResetEnableLocal_def ttcCounterResetLocal_def daq_code
  by (auto intro!: keeps)

lemma keyed_sbitReadOut: "well_keyed (sbitReadOut la rq)"
  unfolding sbitReadOut_def sbitReadOutLocal_def by (auto intro!: keeps)

text \<open>The blaster RAM.\<close>

lemma keyed_ram_size [keeps]: "well_keyed (getRAMMaxSize la t)" "well_keyed (checkBLOBSize la t sz)" "well_keyed (read_into la reg blob pos n)"
  unfolding checkBLOBSize_def getRAMMaxSize_def read_into_def by (auto intro!: keeps)

lemma keyed_readConfRAM_one: "t \<noteq> BLASTER_ALL \<Longrightarrow> well_keyed (readConfRAMLocal la t blob pos sz)"
  by (subst readConfRAMLocal.simps) (auto intro!: keeps)

lemma keyed_readConfRAMLocal [keeps]: "well_keyed (readConfRAMLocal la t blob pos sz)"
  by (subst readConfRAMLocal.simps) (auto intro!: keeps keyed_readConfRAM_one simp: blaster_types)

lemma keyed_writeBlast [keeps]:
  "well_keyed (writeGBTConfRAMLocal la b n m)" "well_keyed (writeOptoHybridConfRAMLocal la b n m)" "well_keyed (writeVFATConfRAMLocal la b n m)"
  unfolding writeGBTConfRAMLocal_def writeOptoHybridConfRAMLocal_def writeVFATConfRAMLocal_def write_masked_def
  by (auto intro!: keeps)

lemma keyed_writeConfRAM_one: "t \<noteq> BLASTER_ALL \<Longrightarrow> well_keyed (writeConfRAMLocal la t blob sz)"
  by (subst writeConfRAMLocal.simps) (auto simp: write_one_ram_def Let_def intro!: keeps)

lemma keyed_writeConfRAMLocal [keeps]: "well_keyed (writeConfRAMLocal la t blob sz)"
  by (subst writeConfRAMLocal.simps)
    (auto simp: write_one_ram_def Let_def blaster_types intro!: keeps keyed_writeConfRAM_one)

lemma keyed_ram: "well_keyed (writeConfRAM la rq)" "well_keyed (readConfRAM la rq)"
  unfolding writeConfRAM_def readConfRAM_def set_binarydata_def Let_def by (auto intro!: keeps)

text \<open>The OptoHybrid.\<close>

lemma keyed_broadcast [keeps]: "well_keyed (broadcastWriteLocal la ohN r v m)" "well_keyed (broadcastReadLocal la ohN r m)"
  unfolding broadcastWriteLocal_def broadcastReadLocal_def Let_def by (auto intro!: keeps)

lemma keyed_optohybrid:
  "well_keyed (broadcastRead la rq)" "well_keyed (broadcastWrite la rq)" "well_keyed (configureScanModule la rq)"
  "well_keyed (loadTRIMDAC la rq)" "well_keyed (loadVT1 la rq)" "well_keyed (printScanConfiguration la rq)"
  "well_keyed (startScanModule la rq)" "well_keyed (configureVFATs la rq)"
  unfolding optohybrid_code broadcastWrite_def loadVT1_def loadVT1Local_def configureVFATs_def biasAllVFATsLocal_def
    setAllVFATsToRunModeLocal_def fw_version_check_def optional_string_def optional_word_def
  by (auto intro!: keeps split: option.split list.split)

lemma keyed_scan [keeps]: "well_keyed (configureScanModuleLocal la ohN vfatN scan pulse m ch nevts lo hi st)"
  unfolding configureScanModuleLocal_def Let_def by (auto intro!: keeps)

lemma keyed_ultra [keeps]: "well_keyed (getUltraScanResultsLocal la d ohN nevts lo hi st)"
  unfolding getUltraScanResultsLocal_def ultra_dac_def Let_def by (auto intro!: keeps)

lemma keyed_scan_methods: "well_keyed (getUltraScanResults la rq)" "well_keyed (stopCalPulse2AllChannels la rq)"
  unfolding getUltraScanResults_def stopCalPulse2AllChannels_def stopCalPulse2AllChannelsLocal_def stop_v1_def stop_v3_def
    fw_version_check_def by (auto intro!: keeps)

text \<open>The front ends. The identifiers of the chips go to keys with the number of the OptoHybrid, printed with a sign.\<close>

definition key_range :: "rpc_request \<Rightarrow> string \<Rightarrow> bool" where
  "key_range rq name \<longleftrightarrow> (name = ''getVFAT3ChipIDs'' \<longrightarrow> (\<forall>w. rq_word rq ''ohN'' = Inr w \<longrightarrow> 0 \<le> sint w))"

lemma keyed_get_word:
  "(\<And>w. rq_word rq k = Inr w \<Longrightarrow> well_keyed (f w)) \<Longrightarrow> well_keyed (bindM (get_word rq k) f)"
  by (cases "rq_word rq k") (auto simp: get_word_def liftE_def bindM_def throwM_def abortM_def intro!: preservesI extends_refl)

lemma keyed_sync [keeps]: "well_keyed (vfatSyncCheckLocal la ohN)"
  unfolding vfatSyncCheckLocal_def by (auto intro!: keeps)

lemma keyed_each_channel [keeps]:
  assumes "\<And>v c a. well_keyed (body v c a)"
  shows "well_keyed (each_channel la ohN m body a)"
  unfolding each_channel_def by (auto intro!: keeps assms)

lemma keyed_channel [keeps]: "well_keyed (read_channel la ohN v c d)" "well_keyed (write_channel la ohN d' v c x)" "well_keyed (set_channel la ohN e v c y)"
  unfolding read_channel_def write_channel_def set_channel_def Let_def by (auto intro!: keeps)

lemma keyed_channels [keeps]:
  "well_keyed (getChannelRegistersVFAT3Local la ohN m d)" "well_keyed (setChannelRegistersVFAT3SimpleLocal la ohN m d)"
  "well_keyed (setChannelRegistersVFAT3Local la ohN m e)" "well_keyed (channel_array la rq k)"
  unfolding getChannelRegistersVFAT3Local_def setChannelRegistersVFAT3SimpleLocal_def setChannelRegistersVFAT3Local_def channel_array_def
  by (auto intro!: keeps)

lemma keyed_adc [keeps]: "well_keyed (configureVFAT3DacMonitorLocal la ohN m sel)" "well_keyed (readVFAT3ADCLocal la ohN ext m)"
  unfolding configureVFAT3DacMonitorLocal_def readVFAT3ADCLocal_def by (auto intro!: keeps)

lemma keyed_vfat3:
  "well_keyed (configureVFAT3s la rq)" "well_keyed (configureVFAT3DacMonitor la rq)"
  "well_keyed (configureVFAT3DacMonitorMultiLink la rq)" "well_keyed (getChannelRegistersVFAT3 la rq)"
  "well_keyed (readVFAT3ADC la rq)" "well_keyed (readVFAT3ADCMultiLink la rq)"
  "well_keyed (setChannelRegistersVFAT3 la rq)" "well_keyed (vfatSyncCheck la rq)"
  unfolding configureVFAT3s_def configureVFAT3sLocal_def configureVFAT3DacMonitor_def configureVFAT3DacMonitorMultiLink_def
    requested_NOH_def getChannelRegistersVFAT3_def readVFAT3ADC_def readVFAT3ADCMultiLink_def copy_at_def setChannelRegistersVFAT3_def
    vfatSyncCheck_def Let_def
  by (auto intro!: keeps)

lemma keyed_decodeChipID [keeps]: "well_keyed (decodeChipID rm w)"
  unfolding decodeChipID_def by (auto intro!: keeps split: option.split)

lemma keyed_getVFAT3ChipIDs:
  assumes "\<And>w. rq_word rq ''ohN'' = Inr w \<Longrightarrow> 0 \<le> sint w"
  shows "well_keyed (getVFAT3ChipIDs rm la rq)"
  unfolding getVFAT3ChipIDs_def getVFAT3ChipIDsLocal_def Let_def
  using assms by (auto intro!: keyed_get_word keeps simp: good_fmt_i vfat_reg_def oh_base_def)

text \<open>The monitoring.\<close>

definition good_table :: "(string \<times> string) list \<Rightarrow> bool" where
  "good_table entries \<longleftrightarrow> (\<forall>(k, r) \<in> set entries. good_key k)"

lemma good_oh_key [simp]: "good_key (oh_key ohN leaf) \<longleftrightarrow> good_key leaf"
  by (simp add: oh_key_def)

lemma good_tables:
  "good_table ttc_table" "good_table daq_table" "good_table (trigger_table ohN)" "good_table (daq_oh_table ohN)"
  "good_table (gbt_table ohN gbtN)" "good_table (oh_table ohN)" "good_table (sca_table ohN)"
  by (simp_all add: good_table_def ttc_table_def daq_table_def trigger_table_def trigger_leaves_def daq_oh_table_def daq_leaves_def
      gbt_table_def gbt_leaves_def oh_table_def sca_table_def sca_leaves_def)

lemma good_leaves: "leaf \<in> set alarm_leaves \<Longrightarrow> good_key leaf" "leaf \<in> set core_leaves \<Longrightarrow> good_key leaf"
  by (auto simp: alarm_leaves_def core_leaves_def)

lemma good_core: "k < 3 \<Longrightarrow> good_key (core_leaves ! k)"
  by (rule good_leaves(2), rule nth_mem) (simp add: core_leaves_def)

lemma good_tableD: "good_table entries \<Longrightarrow> (k, r) \<in> set entries \<Longrightarrow> good_key k"
  by (auto simp: good_table_def)

lemma keyed_reports [keeps]:
  "good_key (fst kr) \<Longrightarrow> well_keyed (report la kr)" "good_key k \<Longrightarrow> well_keyed (report_adc la k r)"
  by (auto simp: report_def report_adc_def split: prod.split intro!: keeps)

lemma keyed_tables [keeps]:
  "good_table entries \<Longrightarrow> well_keyed (forM entries (report la))"
  "good_table entries \<Longrightarrow> well_keyed (report_oh la m ohN entries)"
  unfolding report_oh_def good_table_def by (force intro!: keeps)+

lemma keyed_links [keeps]: "well_keyed (local_NOH la n)" "well_keyed (monitored la rq)" "well_keyed (monitored_links la rq)"
  "well_keyed (fw_version_check la)" "well_keyed (fw_version la ohN)"
  unfolding local_NOH_def monitored_def monitored_links_def requested_ohMask_def optional_word_def fw_version_check_def fw_version_def
    read_version_def Let_def by (auto intro!: keeps)

lemma keyed_daq_monitor:
  "well_keyed (getmonTTCmain la rq)" "well_keyed (getmonTRIGGERmain la rq)" "well_keyed (getmonTRIGGEROHmain la rq)"
  "well_keyed (getmonDAQmain la rq)" "well_keyed (getmonDAQOHmain la rq)" "well_keyed (getmonGBTLink la rq)"
  "well_keyed (getmonOHLink la rq)" "well_keyed (getmonOHSCAmain la rq)" "well_keyed (getmonSCA la rq)"
  "well_keyed (getmonVFATLink la rq)"
  unfolding getmonTTCmain_def getmonTTCmainLocal_def getmonTRIGGERmain_def getmonTRIGGERmainLocal_def
    getmonTRIGGEROHmain_def getmonTRIGGEROHmainLocal_def getmonDAQmain_def getmonDAQmainLocal_def
    getmonDAQOHmain_def getmonDAQOHmainLocal_def getmonGBTLink_def getmonGBTLinkLocal_def getmonOHLink_def
    getmonVFATLinkLocal_def vfat_link_def getmonOHSCAmain_def getmonOHSCAmainLocal_def getmonSCA_def getmonSCALocal_def
    getmonVFATLink_def Let_def
  by (auto simp: good_tables intro!: keeps)

lemma keyed_getmonOHmain: "well_keyed (getmonOHmain la rq)"
  unfolding getmonOHmain_def getmonOHmainLocal_def
  by (auto simp: good_tables intro!: keeps) (rule good_tableD [OF good_tables(6)])

lemma keyed_sysmon [keeps]: "well_keyed (sysmon_v3 la doReset ohN)" "well_keyed (sysmon_v2 la ohN)"
  unfolding sysmon_v3_def sysmon_v2_def Let_def
  by (auto simp: good_leaves good_core dest!: set_zip_leftD split: prod.split intro!: keeps)

lemma keyed_getmonOHSysmon: "well_keyed (getmonOHSysmon la rq)"
  unfolding getmonOHSysmon_def getmonOHSysmonLocal_def by (auto simp: good_leaves intro!: keeps)

text \<open>The calibration.\<close>

lemma keyed_ttcGen: "well_keyed (ttcGenConf la rq)" "well_keyed (ttcGenToggle la rq)"
  unfolding calibration_code by (auto intro!: keeps)

lemma keyed_cal_setup [keeps]:
  "well_keyed (confCalPulseLocal la ohN vm ch on cp fs)" "well_keyed (checked_vfats la ohN vm cp fs)"
  "well_keyed (dacMonConfLocal la ohN ch)" "well_keyed (printScanConfigurationLocal la ohN u)"
  "well_keyed (startScanModuleLocal la ohN u)" "well_keyed (trim_pulse la ohN m ch p)" "well_keyed (ttcGenToggleLocal la ohN on)"
  "well_keyed (ttcGenConfLocal la ohN md ty pd li np on)" "well_keyed (setSingleChanMask ohN v ch la)" "well_keyed (applyChanMask x la)"
  unfolding confCalPulseLocal_def checked_vfats_def dacMonConfLocal_def printScanConfigurationLocal_def startScanModuleLocal_def
    trim_pulse_def ttcGenToggleLocal_def ttcGenConfLocal_def t1_set_def setSingleChanMask_def applyChanMask_def Let_def
  by (auto intro!: keeps)

lemma keyed_gen_scan [keeps]:
  "well_keyed (gen_scan_v3 la d ohN vm ch cal cp fs nevts lo hi st reg ext)"
  "well_keyed (gen_scan_v1 la d ohN vm ch cal nevts lo hi st reg ultra)"
  unfolding gen_scan_v3_def gen_scan_v1_def scan_dac_def scan_triggers_def scan_result_def Let_def by (auto intro!: keeps)

lemma keyed_genScanLocal [keeps]: "well_keyed (genScanLocal la d ohN vm ch cal cp fs nevts lo hi st reg ultra ext)"
  unfolding genScanLocal_def by (auto intro!: keeps)

lemma keyed_genScan: "well_keyed (genScan la rq)" "well_keyed (genChannelScan la rq)"
  unfolding genScan_def genChannelScan_def scan_channel_def Let_def by (auto intro!: keeps)

lemma keyed_rate_steps [keeps]:
  "well_keyed (sprintf_200 x)" "well_keyed (rate_slot o1 v1 lo hi st d)" "well_keyed (read_rates la nm lo hi st d as o1 z)"
  "well_keyed (prepare_oh la ch n)" "well_keyed (rate_addresses la n)" "well_keyed (set_persist la n)"
  unfolding sprintf_200_def rate_slot_def read_rates_def prepare_oh_def rate_addresses_def set_persist_def Let_def
  by (auto intro!: keeps)

lemma keyed_sbitRateScan: "well_keyed (sbitRateScan la rq)"
  unfolding sbitRateScan_def sbitRateScanParallelLocal_def sbit_rates_dac_def Let_def
  by (auto intro!: keeps)

lemma keyed_pulses [keeps]:
  "well_keyed (mapping_pulses la v cal ne pd a1 a2 cs c x)" "well_keyed (rate_pulse la ohN v wt li pd as a1 a2 a3 a4 c y)"
  "well_keyed (prepare_check la nm ohN m cp fs)"
  unfolding mapping_pulses_def rate_pulse_def prepare_check_def Let_def by (auto intro!: keeps)

lemma keyed_pulse_all [keeps]:
  "(\<And>c x. well_keyed (body c x)) \<Longrightarrow> well_keyed (pulse_all la ohN v m d (pulse_channel la ohN v cal cp fs body) a)"
  unfolding pulse_all_def pulse_channel_def by (auto intro!: keeps)

lemma keyed_checks: "well_keyed (checkSbitMappingWithCalPulse la rq)" "well_keyed (checkSbitRateWithCalPulse la rq)"
  unfolding checkSbitMappingWithCalPulse_def checkSbitMappingWithCalPulseLocal_def
    checkSbitRateWithCalPulse_def checkSbitRateWithCalPulseLocal_def Let_def
  by (auto intro!: keeps)

lemma keyed_dac_steps [keeps]:
  "well_keyed (find_adc la ohN m ref v acc)" "well_keyed (dac_step la ohN m reg lo hi st adc d x)"
  "well_keyed (dac_results lo hi st)" "well_keyed (masked_words sel st)"
  unfolding find_adc_def dac_step_def dac_step_vfat_def adc_average_def dac_results_def masked_words_def Let_def
  by (auto intro!: keeps)

lemma keyed_dacScanLocal [keeps]: "well_keyed (dacScanLocal la ohN sel st m ref)"
  unfolding dacScanLocal_def by (auto intro!: keeps)

lemma keyed_dacScan: "well_keyed (dacScan la rq)" "well_keyed (dacScanMultiLink la rq)"
  unfolding dacScan_def dacScanMultiLink_def requested_NOH_def by (auto intro!: keeps)

section \<open>All of them\<close>

definition all_keyed :: "localArgs \<Rightarrow> rpc_request \<Rightarrow> (string \<times> rpc_method) list \<Rightarrow> bool" where
  "all_keyed la rq methods \<longleftrightarrow>
     list_all (\<lambda>(name, f). name \<notin> {''statusOH'', ''statusVFAT3s''} \<longrightarrow> key_range rq name \<longrightarrow> well_keyed (f la rq)) methods"

lemma methods_keyed:
  "all_keyed la rq memory_methods" "all_keyed la rq extras_methods" "all_keyed la rq rpctest_methods" "all_keyed la rq utils_methods"
  "all_keyed la rq gbt_methods" "all_keyed la rq amc_methods" "all_keyed la rq optohybrid_methods" "all_keyed la rq (vfat3_methods rm)"
  "all_keyed la rq daq_monitor_methods" "all_keyed la rq calibration_routines_methods"
  by (simp_all add: all_keyed_def key_range_def memory_methods_def extras_methods_def rpctest_methods_def utils_methods_def
      gbt_methods_def amc_methods_def optohybrid_methods_def vfat3_methods_def daq_monitor_methods_def calibration_routines_methods_def
      keyed_raw keyed_gbt keyed_masks keyed_daq keyed_ttc keyed_phase_methods keyed_sbitReadOut keyed_ram keyed_optohybrid
      keyed_scan_methods keyed_vfat3 keyed_getVFAT3ChipIDs keyed_daq_monitor keyed_getmonOHmain keyed_getmonOHSysmon keyed_ttcGen
      keyed_genScan keyed_sbitRateScan keyed_checks keyed_dacScan)



text \<open>
  The status reports do set such a key: the first name in both lists of registers ends in a space.
  Over every well-formed address table the call is reached, for the first link that is enabled.
\<close>

lemma first_key_set:
  assumes "wf_db la"
  shows "\<exists>u w rest. thenM (forM (x # ys) (\<lambda>reg. bindM (readReg la (g reg)) (\<lambda>w. set_word (g reg) w))) further s
    = thenM (set_word (g x) w) rest u"
proof -
  obtain w u where run: "readReg la (g x) s = Some (Val w, u)"
    using ends_normally [OF right_access(5) [OF assms], of "g x" s] returns_access(1) [of la "g x"] by blast
  let ?each = "\<lambda>reg. bindM (readReg la (g reg)) (\<lambda>w. set_word (g reg) w)"
  have "thenM (forM (x # ys) ?each) further s = thenM (set_word (g x) w) (thenM (forM ys ?each) further) u"
    using run by (simp add: thenM_def bindM_cases split: option.split outcome.split)
  then show ?thesis by blast
qed

lemma statusVFAT3s_bad_key:
  assumes "wf_db la"
  shows "\<exists>u w rest. statusVFAT3sLocal la ohN s = thenM (set_word (link_leaf ohN 0 ''CFG_PULSE_STRETCH '') w) rest u
    \<and> \<not> good_key (link_leaf ohN 0 ''CFG_PULSE_STRETCH '')"
proof -
  have regs: "vfat_status_regs = ''CFG_PULSE_STRETCH '' # tl vfat_status_regs" by (simp add: vfat_status_regs_def)
  have first: "forM [0..<24] f = thenM (f 0) (forM [Suc 0..<24] f)" for f :: "nat \<Rightarrow> unit prog"
    by (simp add: upt_conv_Cons del: upt_rec_numeral)
  have "\<not> good_key (link_leaf ohN 0 ''CFG_PULSE_STRETCH '')" by (simp add: link_leaf_def key_char_def key_characters_def)
  then show ?thesis
    using first_key_set [OF assms, of "''CFG_PULSE_STRETCH ''" "tl vfat_status_regs" "link_leaf ohN 0", folded regs]
    unfolding statusVFAT3sLocal_def first by blast
qed

lemma statusOH_bad_key:
  assumes "wf_db la" "ohN < 12" "bit ohEnMask ohN"
  shows "\<exists>n u w rest. statusOHLocal la ohEnMask s = thenM (set_word (''GEM_AMC.OH.OH'' @ dec n @ ''.CFG_PULSE_STRETCH '') w) rest u
    \<and> \<not> good_key (''GEM_AMC.OH.OH'' @ dec n @ ''.CFG_PULSE_STRETCH '')"
proof -
  have regs: "oh_status_regs = ''CFG_PULSE_STRETCH '' # tl oh_status_regs" by (simp add: oh_status_regs_def)
  have "ohN \<in> set (filter (bit ohEnMask) [0..<12])" using assms(2,3) by simp
  then obtain n ns where n: "filter (bit ohEnMask) [0..<12] = n # ns" by (cases "filter (bit ohEnMask) [0..<12]") auto
  have "\<not> good_key (''GEM_AMC.OH.OH'' @ dec n @ ''.CFG_PULSE_STRETCH '')" by (simp add: key_char_def key_characters_def)
  then show ?thesis
    using first_key_set [OF assms(1), of "''CFG_PULSE_STRETCH ''" "tl oh_status_regs" "\<lambda>reg. ''GEM_AMC.OH.OH'' @ dec n @ ''.'' @ reg", folded regs]
    unfolding statusOHLocal_def forM_when n Let_def by fastforce
qed

end
