(* ===== verification/Confined.thy ===== *)
theory Confined
  imports Keys
begin

text \<open>
  Where the methods reach. Apart from the raw access of memory and extras, every access of a registered
  method to the device is at a word that the address table names, or inside a block that it names; or at
  \<^verbatim>\<open>0xdeaddead\<close>, the error value of \<^verbatim>\<open>getAddress\<close>, which no caller looks for.
\<close>

section \<open>Addresses of the table\<close>

definition good_address :: "localArgs \<Rightarrow> u32 \<Rightarrow> bool" where
  "good_address la a \<longleftrightarrow> (\<exists>r n. has_node la r n \<and> real_address n = a) \<or> a = 0xdeaddead"

definition in_block :: "localArgs \<Rightarrow> event \<Rightarrow> bool" where
  "in_block la e \<longleftrightarrow> (\<exists>r n. has_node la r n \<and> within (real_address n) (node_size n) e)"

fun tabled :: "localArgs \<Rightarrow> event \<Rightarrow> bool" where
  "tabled la (MemRead a k x) = (k = 1 \<and> good_address la a \<or> in_block la (MemRead a k x))"
| "tabled la (MemWrite a ws ok) = (length ws = 1 \<and> good_address la a \<or> in_block la (MemWrite a ws ok))"
| "tabled la _ = True"

abbreviation tame :: "localArgs \<Rightarrow> 'a prog \<Rightarrow> bool" where
  "tame la \<equiv> preserves (extends (tabled la) (\<lambda>k. True))"

named_theorems tames "rules: every access of the program is at an address of the table"

lemmas tame_rules [tames] =
  ext.keep_ret ext.keep_abort ext.keep_throw ext.keep_bind ext.keep_then ext.keep_seq ext.keep_when ext.keep_for
  ext.keep_collect ext.keep_fold ext.keep_loop ext.keep_if ext.keep_case_option ext.keep_case_sum ext.keep_case_prod
  ext.keep_copy_into ext.keep_liftE ext.keep_get_hist ext.keep_arr_get ext.keep_arr_set ext.keep_catch keep_for_step
  step_rel_extends keep_foldE keep_request keep_set_key keep_set_string keep_set_word keep_set_word_array keep_sleep_ns
  keep_sleep_us keep_sleep_ms keep_clock keep_last_error keep_field keep_field_word keep_memsvc_error keep_getMask keep_getAddress
  keep_scan keep_oh_enabled

lemma tame_after:
  assumes "tame la m" "ends (\<lambda>e. True) P m" "\<And>x. P x \<Longrightarrow> tame la (k x)"
  shows "tame la (bindM m k)"
proof (rule preservesI)
  fix s r u
  assume "bindM m k s = Some (r, u)"
  then consider x t where "m s = Some (Val x, t)" "k x t = Some (r, u)" | e where "m s = Some (Abort e, u)"
    by (blast dest: bindM_SomeD)
  then show "extends (tabled la) (\<lambda>k. True) s u"
  proof cases
    case (1 x t)
    then have "P x" using assms(2) by (blast dest: endsD)
    then show ?thesis using 1 assms(1,3) by (blast dest: preservesD intro: extends_trans)
  next
    case (2 e)
    then show ?thesis using assms(1) by (blast dest: preservesD)
  qed
qed

lemma sound_any: "sound (\<lambda>e. True) m"
  by (auto simp: sound_def ends_def split: outcome.split)

lemma good_node: "has_node la r n \<Longrightarrow> good_address la (real_address n)"
  by (auto simp: good_address_def)

lemma tame_raw [tames]:
  assumes "good_address la a"
  shows "tame la (readRawAddress la a)" "tame la (writeRawAddress la a v)"
  unfolding readRawAddress_def writeRawAddress_def using assms by (auto intro!: tames bus.keep_rd bus.keep_wr)

lemma tame_retries: "good_address la a \<Longrightarrow> tame la (readAddress_loop la a k)"
proof (induction la a k rule: readAddress_loop.induct)
  case (1 la a k)
  then show ?case
    by (subst readAddress_loop.simps) (auto intro!: tames bus.keep_rd)
qed

lemma tame_access:
  assumes "wf_db la"
  shows "tame la (readReg la r)" "tame la (writeReg la r v)" "tame la (readRawReg la r)" "tame la (writeRawReg la r v)"
proof -
  have "tame la (readReg la r) \<and> tame la (writeReg la r v) \<and> tame la (readRawReg la r) \<and> tame la (writeRawReg la r v)"
  proof (cases "db_text la r")
    case None
    then show ?thesis by (auto simp: readReg_def writeReg_def readRawReg_def writeRawReg_def intro!: tames)
  next
    case (Some db_res)
    then obtain n where n: "has_node la r n" "db_res = serialize n" by (rule wf_db_text [OF assms])
    have w: "wf_node n" using n(1) by (rule has_node_wf)
    have rd: "tame la (memhub_read la (real_address n) (Suc 0))"
      using good_node [OF n(1)] by (auto intro!: bus.keep_rd)
    have wr: "tame la (writeAddress la (serialize n) x)" for x
      using good_node [OF n(1)] unfolding writeAddress_node [OF w] by (auto intro!: tames bus.keep_wr)
    show ?thesis
      unfolding readReg_def writeReg_def readRawReg_def writeRawReg_def Some n(2) Let_def
      by (simp add: readAddress_node node_simps w)
        (auto intro!: tames rd wr tame_retries good_node [OF n(1)])
  qed
  then show "tame la (readReg la r)" "tame la (writeReg la r v)" "tame la (readRawReg la r)" "tame la (writeRawReg la r v)" by blast+
qed

lemma block_in:
  assumes "has_node la r n" "\<not> sz > node_size n"
  shows "tabled la (MemRead (real_address n) (unat sz) x)" "length ws = unat sz \<Longrightarrow> tabled la (MemWrite (real_address n) ws ok)"
proof -
  have "unat (0 :: u32) + unat sz < 2 ^ 32" using unsigned_less [of sz, where 'a = nat] by simp
  then have "unat (real_address n + 0 + of_nat i - real_address n) < unat (node_size n)" if "i < unat sz" for i
    using assms(2) that by (intro offset_within [of 0 sz "node_size n" i]) simp_all
  then have i: "unat (of_nat i :: u32) < unat (node_size n)" if "i < unat sz" for i using that by simp
  have "within (real_address n) (node_size n) (MemRead (real_address n) (unat sz) x)" using i by simp
  then show "tabled la (MemRead (real_address n) (unat sz) x)" using assms(1) unfolding tabled.simps in_block_def by blast
  assume "length ws = unat sz"
  then have "within (real_address n) (node_size n) (MemWrite (real_address n) ws ok)" using i by simp
  then show "tabled la (MemWrite (real_address n) ws ok)" using assms(1) unfolding tabled.simps in_block_def by blast
qed

lemma tame_block [tames]:
  assumes "wf_db la"
  shows "tame la (readBlock la r sz 0)" "tame la (writeBlock la r ws sz 0)"
proof -
  have "tame la (readBlock la r sz 0) \<and> tame la (writeBlock la r ws sz 0)"
  proof (cases "db_text la r")
    case None
    then show ?thesis by (auto simp: readBlock_def writeBlock_def intro!: tames)
  next
    case (Some db_res)
    then obtain n where n: "has_node la r n" by (rule wf_db_text [OF assms])
    show ?thesis
      unfolding block_run [OF n] using block_in [OF n, of sz]
      by (auto intro!: tames bus.keep_rd bus.keep_wr simp del: tabled.simps)
  qed
  then show "tame la (readBlock la r sz 0)" "tame la (writeBlock la r ws sz 0)" by blast+
qed

lemma ends_address:
  assumes "wf_db la"
  shows "ends (\<lambda>e. True) (good_address la) (getAddress la r)"
proof (cases "db_text la r")
  case None
  then show ?thesis by (auto simp: getAddress_def good_address_def intro!: ends_then ends_ret sound_any)
next
  case (Some db_res)
  then obtain n where n: "has_node la r n" by (rule wf_db_text [OF assms])
  then show ?thesis by (simp add: getAddress_node ends_ret good_node)
qed

lemma tame_address:
  "wf_db la \<Longrightarrow> (\<And>a. good_address la a \<Longrightarrow> tame la (k a)) \<Longrightarrow> tame la (bindM (getAddress la r) k)"
  by (rule tame_after [OF _ ends_address]) (auto intro!: tames)

lemma tame_addresses:
  assumes "wf_db la" "\<And>as. length as = length xs \<Longrightarrow> \<forall>a\<in>set as. good_address la a \<Longrightarrow> tame la (k as)"
  shows "tame la (bindM (collectM xs (\<lambda>x. getAddress la (f x))) k)"
  by (rule tame_after [OF _ ends_collect [OF ends_address [OF assms(1)]]]) (auto intro!: tames assms(2))

section \<open>The methods\<close>

lemma tame_waits [tames]:
  assumes "wf_db la"
  shows "tame la (broadcast_wait la reg)" "tame la (cyclic_wait la)" "tame la (gth_wait la expected x)" "tame la (ultra_wait la sr lr lat nt y)"
    "good_address la a \<Longrightarrow> tame la (l1a_wait la a nevts z)"
  using assms
  by (auto intro!: bf.loop_keeps cf.loop_keeps lf.loop_keeps gf.loop_keeps uf.loop_keeps tames tame_access
      simp: broadcast_turn_def cyclic_turn_def l1a_turn_def gth_turn_def ultra_turn_def Let_def)

lemma tame_plain:
  assumes "wf_db la"
  shows "tame la (rpcmsg_feature rq)" "tame la (readRegFromDB la rq)" "tame la (writeGBTConfig la rq)" "tame la (writeGBTPhase la rq)"
    "tame la (scanGBTPhases la rq)" "tame la (getOHVFATMask la rq)" "tame la (getOHVFATMaskMultiLink la rq)"
  unfolding rpcmsg_feature_def readRegFromDB_def set_string_array_def set_binarydata_def gbt_code writeGBTPhaseLocal_def
    writeGBTRegLocal_def checkPhase_def ic_write_def emit_rpc_error_def scanGBTPhases_def scanGBTPhasesLocal_def scan_loop_def
    scan_phase_def scan_repetition_def vfat_good_def count_good_def oh_masks_code
  using assms by (auto intro!: tames tame_access)

lemma tame_daq:
  assumes "wf_db la"
  shows "tame la (enableDAQLink la rq)" "tame la (disableDAQLink la rq)" "tame la (setZS la rq)"
  "tame la (resetDAQLink la rq)" "tame la (setDAQLinkInputTimeout la rq)"
  "tame la (setDAQLinkRunType la rq)" "tame la (setDAQLinkRunParameter la rq)"
  "tame la (setDAQLinkRunParameters la rq)" "tame la (enableDAQModule la rq)"
  unfolding daq_code using assms by (auto intro!: tames tame_access)

lemma tame_ttc:
  assumes "wf_db la"
  shows "tame la (ttcModuleReset la rq)" "tame la (ttcMMCMReset la rq)" "tame la (checkPLLLock la rq)"
  "tame la (getMMCMPhaseMean la rq)" "tame la (getMMCMPhaseMedian la rq)" "tame la (getGTHPhaseMean la rq)"
  "tame la (getGTHPhaseMedian la rq)" "tame la (ttcCounterReset la rq)" "tame la (getL1AEnable la rq)"
  "tame la (setL1AEnable la rq)" "tame la (getTTCConfig la rq)" "tame la (setTTCConfig la rq)"
  "tame la (getTTCStatus la rq)" "tame la (getTTCErrorCount la rq)" "tame la (getTTCCounter la rq)"
  "tame la (getL1AID la rq)" "tame la (getL1ARate la rq)" "tame la (getTTCSpyBuffer la rq)"
  unfolding ttc_code using assms by (auto intro!: tames tame_access)

lemma tame_shift_turns:
  assumes "wf_db la"
  shows "tame la (shift_turns k la relock bc0 scan n ps)"
  using assms
  by (induction k arbitrary: ps)
    (auto simp: shift_turn_def shift_look_def mmcm_step_def checkPLLLockLocal_def Let_def split: prod.split intro!: tames tame_access)

lemma tame_phase_methods:
  assumes "wf_db la"
  shows "tame la (ttcMMCMPhaseShift la rq)" "tame la (configureDAQModule la rq)"
  unfolding ttcMMCMPhaseShift_def ttcMMCMPhaseShiftLocal_def write_readback_def finish_search_def configureDAQModule_def
    scaHardResetEnableLocal_def ttcCounterResetLocal_def checkPLLLockLocal_def daq_code
  using assms by (auto intro!: tames tame_access tame_shift_turns)

text \<open>The acquisition of clusters works on addresses.\<close>

lemma tame_sbitReadOut:
  assumes "wf_db la"
  shows "tame la (sbitReadOut la rq)"
proof -
  have acq: "tame la (sbit_acquire la T t0 a d c x)" if "good_address la a" "good_address la d" "\<forall>a\<in>set c. good_address la a" for T t0 a d c x
    by (rule af.loop_keeps) (use that in \<open>auto simp: acquire_turn_def sbit_turn_def Let_def intro!: tames\<close>)
  show ?thesis
    unfolding sbitReadOut_def sbitReadOutLocal_def
    using assms by (auto intro!: tame_address [OF assms] tame_addresses [OF assms] acq tames tame_access)
qed

text \<open>The blaster RAM.\<close>

lemma tame_ram_size:
  assumes "wf_db la"
  shows "tame la (getRAMMaxSize la t)" "tame la (checkBLOBSize la t sz)" "tame la (read_into la reg blob pos n)"
  unfolding checkBLOBSize_def getRAMMaxSize_def read_into_def using assms by (auto intro!: tames tame_access)

lemma tame_readConfRAM:
  assumes "wf_db la"
  shows "tame la (readConfRAMLocal la t blob pos sz)"
proof -
  have one: "tame la (readConfRAMLocal la t blob pos sz)" if "t \<noteq> BLASTER_ALL" for t blob pos sz
    by (subst readConfRAMLocal.simps) (use assms that in \<open>auto intro!: tames tame_ram_size\<close>)
  show ?thesis
    by (subst readConfRAMLocal.simps) (use assms in \<open>auto intro!: tames tame_ram_size one simp: blaster_types\<close>)
qed

lemma tame_writeConfRAM:
  assumes "wf_db la"
  shows "tame la (writeConfRAMLocal la t blob sz)"
proof -
  note code = write_one_ram_def writeGBTConfRAMLocal_def writeOptoHybridConfRAMLocal_def writeVFATConfRAMLocal_def write_masked_def Let_def
  have one: "tame la (writeConfRAMLocal la t blob sz)" if "t \<noteq> BLASTER_ALL" for t blob sz
    by (subst writeConfRAMLocal.simps) (use assms that in \<open>auto simp: code intro!: tames tame_ram_size\<close>)
  show ?thesis
    by (subst writeConfRAMLocal.simps) (use assms in \<open>auto simp: code blaster_types intro!: tames tame_ram_size one\<close>)
qed

lemma tame_ram:
  assumes "wf_db la"
  shows "tame la (writeConfRAM la rq)" "tame la (readConfRAM la rq)"
  unfolding writeConfRAM_def readConfRAM_def set_binarydata_def Let_def
  using assms by (auto intro!: tames tame_ram_size tame_readConfRAM tame_writeConfRAM)

text \<open>OptoHybrids and VFATs.\<close>

lemma tame_parts:
  assumes "wf_db la"
  shows "tame la (broadcastWriteLocal la ohN r v m)" "tame la (broadcastReadLocal la ohN r m)" "tame la (vfatSyncCheckLocal la ohN)"
    "tame la (fw_version_check la)" "tame la (getOHVFATMaskLocal la ohN)" "tame la (requested_NOH la rq)"
  unfolding broadcastWriteLocal_def broadcastReadLocal_def vfatSyncCheckLocal_def fw_version_check_def getOHVFATMaskLocal_def
    requested_NOH_def Let_def
  using assms by (auto intro!: tames tame_access)

lemma tame_optohybrid:
  assumes "wf_db la"
  shows "tame la (broadcastRead la rq)" "tame la (broadcastWrite la rq)" "tame la (configureScanModule la rq)"
  "tame la (loadTRIMDAC la rq)" "tame la (loadVT1 la rq)" "tame la (printScanConfiguration la rq)"
  "tame la (startScanModule la rq)" "tame la (configureVFATs la rq)" "tame la (statusOH la rq)"
  unfolding optohybrid_code broadcastWrite_def broadcastWriteLocal_def loadVT1_def loadVT1Local_def configureVFATs_def biasAllVFATsLocal_def
    setAllVFATsToRunModeLocal_def fw_version_check_def optional_string_def optional_word_def
  using assms by (auto intro!: tames tame_access split: option.split list.split)

lemma tame_ultra:
  assumes "wf_db la"
  shows "tame la (getUltraScanResultsLocal la d ohN nevts lo hi st)"
  unfolding getUltraScanResultsLocal_def ultra_dac_def Let_def using assms by (auto intro!: tames tame_access)

lemma tame_scan_methods:
  assumes "wf_db la"
  shows "tame la (getUltraScanResults la rq)" "tame la (stopCalPulse2AllChannels la rq)"
  unfolding getUltraScanResults_def stopCalPulse2AllChannels_def stopCalPulse2AllChannelsLocal_def stop_v1_def stop_v3_def
  using assms by (auto intro!: tames tame_access tame_ultra tame_parts)

lemma tame_channels:
  assumes "wf_db la"
  shows "tame la (getChannelRegistersVFAT3Local la ohN m d)" "tame la (setChannelRegistersVFAT3SimpleLocal la ohN m d)"
    "tame la (setChannelRegistersVFAT3Local la ohN m e)" "tame la (channel_array la rq k)"
  unfolding getChannelRegistersVFAT3Local_def setChannelRegistersVFAT3SimpleLocal_def setChannelRegistersVFAT3Local_def channel_array_def
    each_channel_def read_channel_def write_channel_def set_channel_def Let_def
  using assms by (auto intro!: tame_address [OF assms] tames tame_access tame_parts)

lemma tame_adc:
  assumes "wf_db la"
  shows "tame la (configureVFAT3DacMonitorLocal la ohN m sel)" "tame la (readVFAT3ADCLocal la ohN ext m)"
  unfolding configureVFAT3DacMonitorLocal_def readVFAT3ADCLocal_def using assms by (auto intro!: tames tame_access tame_parts)

lemma tame_vfat3:
  assumes "wf_db la"
  shows "tame la (configureVFAT3s la rq)" "tame la (configureVFAT3DacMonitor la rq)"
  "tame la (configureVFAT3DacMonitorMultiLink la rq)" "tame la (getChannelRegistersVFAT3 la rq)"
  "tame la (readVFAT3ADC la rq)" "tame la (readVFAT3ADCMultiLink la rq)" "tame la (getVFAT3ChipIDs rm la rq)" "tame la (statusVFAT3s la rq)"
  "tame la (setChannelRegistersVFAT3 la rq)" "tame la (vfatSyncCheck la rq)"
  unfolding configureVFAT3s_def configureVFAT3sLocal_def configureVFAT3DacMonitor_def configureVFAT3DacMonitorMultiLink_def
    getChannelRegistersVFAT3_def readVFAT3ADC_def readVFAT3ADCMultiLink_def copy_at_def setChannelRegistersVFAT3_def
    vfatSyncCheck_def statusVFAT3s_def statusVFAT3sLocal_def getVFAT3ChipIDs_def getVFAT3ChipIDsLocal_def decodeChipID_def Let_def
  using assms by (auto intro!: tames tame_access tame_parts tame_channels tame_adc split: option.split)

text \<open>The monitoring.\<close>

lemma tame_sca:
  assumes "wf_db la"
  shows "tame la (sendSCACommand la ch cmd len data ohMask)" "tame la (sendSCACommandWithReply la ch cmd len data ohMask)"
  unfolding sendSCACommand_def sendSCACommandWithReply_def using assms by (auto intro!: tames tame_access)

lemma tame_daq_monitor:
  assumes "wf_db la"
  shows "tame la (getmonTTCmain la rq)" "tame la (getmonTRIGGERmain la rq)" "tame la (getmonTRIGGEROHmain la rq)"
  "tame la (getmonDAQmain la rq)" "tame la (getmonDAQOHmain la rq)" "tame la (getmonGBTLink la rq)"
  "tame la (getmonOHLink la rq)" "tame la (getmonOHmain la rq)" "tame la (getmonOHSCAmain la rq)"
  "tame la (getmonOHSysmon la rq)" "tame la (getmonSCA la rq)" "tame la (getmonVFATLink la rq)"
  unfolding daq_monitor_code using assms by (auto intro!: tames tame_access)

text \<open>The calibration: scans read counters at addresses that were looked up before.\<close>

lemma tame_cal_setup:
  assumes "wf_db la"
  shows "tame la (confCalPulseLocal la ohN vm ch on cp fs)" "tame la (checked_vfats la ohN vm cp fs)"
  "tame la (dacMonConfLocal la ohN ch)" "tame la (printScanConfigurationLocal la ohN u)" "tame la (configureScanModuleLocal la ohN vn scan u m ch nevts lo hi st)"
  "tame la (startScanModuleLocal la ohN u)" "tame la (trim_pulse la ohN m ch p)" "tame la (ttcGenToggleLocal la ohN on)"
  "tame la (ttcGenConfLocal la ohN md ty pd li np on)"
  unfolding confCalPulseLocal_def checked_vfats_def dacMonConfLocal_def printScanConfigurationLocal_def startScanModuleLocal_def
    trim_pulse_def ttcGenToggleLocal_def ttcGenConfLocal_def t1_set_def configureScanModuleLocal_def Let_def
  using assms by (auto intro!: tames tame_access tame_parts)

lemma tame_ttcGen:
  assumes "wf_db la"
  shows "tame la (ttcGenConf la rq)" "tame la (ttcGenToggle la rq)"
  unfolding ttcGenConf_def ttcGenToggle_def using assms by (auto intro!: tames tame_cal_setup)

lemma tame_scan_dac:
  assumes "wf_db la" "good_address la a" "length as = 24" "\<forall>a\<in>set as. good_address la a"
  shows "tame la (scan_dac la ohN nm nevts lo hi st reg ext a as v x)"
proof -
  have "good_address la (as ! i)" if "i < 24" for i using assms(3,4) that by simp
  then show ?thesis
    unfolding scan_dac_def scan_triggers_def scan_result_def
    using assms(1,2) by (auto intro!: tames tame_access simp del: upt_rec_numeral)
qed

lemma tame_gen_scan:
  assumes "wf_db la"
  shows "tame la (genScanLocal la d ohN vm ch cal cp fs nevts lo hi st reg ultra ext)"
proof -
  have v3: "tame la (gen_scan_v3 la d ohN vm ch cal cp fs nevts lo hi st reg ext)"
    unfolding gen_scan_v3_def
    using assms by (auto intro!: tame_address [OF assms] tame_addresses [OF assms] tames tame_access tame_cal_setup tame_scan_dac
        simp del: upt_rec_numeral)
  have v1: "tame la (gen_scan_v1 la d ohN vm ch cal nevts lo hi st reg ultra)"
    unfolding gen_scan_v1_def Let_def using assms by (auto intro!: tames tame_cal_setup tame_ultra)
  show ?thesis unfolding genScanLocal_def using assms v1 v3 by (auto intro!: tames tame_parts)
qed

lemma tame_genScan:
  assumes "wf_db la"
  shows "tame la (genScan la rq)" "tame la (genChannelScan la rq)"
  unfolding genScan_def genChannelScan_def scan_channel_def Let_def using assms by (auto intro!: tames tame_gen_scan)

text \<open>The maps of channel masks have addresses for keys.\<close>

definition good_map :: "localArgs \<Rightarrow> (u32 \<times> u32) list \<Rightarrow> bool" where
  "good_map la m \<longleftrightarrow> (\<forall>(a, w) \<in> set m. good_address la a)"

lemma good_put: "good_map la m \<Longrightarrow> good_address la a \<Longrightarrow> good_map la (map_put a w m)"
  by (induction m rule: map_put.induct) (auto simp: good_map_def)

lemma good_iter: "good_map la m \<Longrightarrow> (a, w) \<in> set (map_iter la m) \<Longrightarrow> good_address la a"
  by (auto simp: map_iter_def good_map_def map_filter_def) (fastforce dest: map_of_SomeD)

lemma tame_applyChanMask:
  assumes "wf_db la" "good_map la m"
  shows "tame la (applyChanMask m la)"
  unfolding applyChanMask_def using assms good_iter [OF assms(2)] by (auto intro!: tames)

lemma tame_setSingleChanMask:
  assumes "wf_db la"
  shows "tame la (setSingleChanMask ohN v ch la)" "ends (\<lambda>e. True) (good_map la) (setSingleChanMask ohN v ch la)"
proof -
  show "tame la (setSingleChanMask ohN v ch la)"
    unfolding setSingleChanMask_def Let_def using assms by (auto intro!: tame_address [OF assms] tames tame_access)
  show "ends (\<lambda>e. True) (good_map la) (setSingleChanMask ohN v ch la)"
    unfolding setSingleChanMask_def Let_def
  proof (rule ends_fold)
    show "good_map la []" by (simp add: good_map_def)
    fix c m
    assume "good_map la m"
    then show "ends (\<lambda>e. True) (good_map la) (bindM (getAddress la (chan_mask_reg ohN v c)) (\<lambda>a.
        bindM (readReg la (chan_mask_reg ohN v c)) (\<lambda>w. thenM (writeRawAddress la a (if ch = of_nat c then 0 else 1)) (ret (map_put a w m)))))"
      by (intro ends_bind [OF ends_address [OF assms]] ends_after [OF sound_any] ends_then [OF sound_any] ends_ret good_put)
  qed
qed

text \<open>The rate scan of all OptoHybrids.\<close>

lemma at_oh_in: "length xs = length ohs \<Longrightarrow> ohN \<in> set ohs \<Longrightarrow> at_oh ohs xs ohN \<in> set xs"
  unfolding at_oh_def by (metis map_of_SomeD map_of_zip_is_Some option.sel set_zip_rightD)

definition good_maps :: "localArgs \<Rightarrow> u32 \<times> (u32 \<times> u32) list list \<Rightarrow> bool" where
  "good_maps la p \<longleftrightarrow> length (snd p) = 24 \<and> (\<forall>m \<in> set (snd p). good_map la m)"

definition good_list :: "localArgs \<Rightarrow> nat \<Rightarrow> u32 list \<Rightarrow> bool" where
  "good_list la n as \<longleftrightarrow> length as = n \<and> (\<forall>a \<in> set as. good_address la a)"

lemma ends_addresses:
  assumes "wf_db la"
  shows "ends (\<lambda>e. True) (good_list la (length xs)) (collectM xs (\<lambda>x. getAddress la (f x)))"
proof -
  have "ends (\<lambda>e. True) (\<lambda>ys. length ys = length xs \<and> (\<forall>y\<in>set ys. good_address la y)) (collectM xs (\<lambda>x. getAddress la (f x)))"
    by (rule ends_collect, rule ends_address [OF assms])
  then show ?thesis by (rule ends_mono) (simp_all add: good_list_def)
qed

lemma prepare_oh_good:
  assumes "wf_db la"
  shows "tame la (prepare_oh la ch ohN)" "ends (\<lambda>e. True) (good_maps la) (prepare_oh la ch ohN)"
proof -
  show "tame la (prepare_oh la ch ohN)"
    unfolding prepare_oh_def using assms by (auto intro!: tames tame_parts tame_setSingleChanMask)
  have each: "ends (\<lambda>e. True) (good_map la) (if b then setSingleChanMask o' v ch la else ret [])" for b o' v
    by (auto intro!: ends_ret tame_setSingleChanMask(2) [OF assms] simp: good_map_def)
  have all: "ends (\<lambda>e. True) (\<lambda>ms. length ms = 24 \<and> (\<forall>m\<in>set ms. good_map la m))
      (collectM [0..<24] (\<lambda>v. if bit (not_mask w) v then setSingleChanMask (of_nat ohN) v ch la else ret []))" for w
    using ends_collect [OF each, of "[0..<24]"] by simp
  show "ends (\<lambda>e. True) (good_maps la) (prepare_oh la ch ohN)"
    unfolding prepare_oh_def
    by (intro ends_after [OF sound_any] ends_bind [where P = "\<lambda>ms. length ms = 24 \<and> (\<forall>m\<in>set ms. good_map la m)"] ends_if ends_ret all)
      (auto simp: good_maps_def good_map_def)
qed

lemma rate_addresses_good:
  assumes "wf_db la"
  shows "tame la (rate_addresses la ohN)" "ends (\<lambda>e. True) (good_list la 25) (rate_addresses la ohN)"
proof -
  show "tame la (rate_addresses la ohN)"
    unfolding rate_addresses_def using assms by (auto intro!: tames)
  show "ends (\<lambda>e. True) (good_list la 25) (rate_addresses la ohN)"
    unfolding rate_addresses_def
    by (intro ends_bind [OF ends_address [OF assms]] ends_bind [OF ends_addresses [OF assms]] ends_ret) (auto simp: good_list_def)
qed

lemma tame_prepared:
  assumes "wf_db la"
  shows "(\<And>ps. length ps = length ohs \<and> (\<forall>p\<in>set ps. good_maps la p) \<Longrightarrow> tame la (k ps)) \<Longrightarrow> tame la (bindM (collectM ohs (prepare_oh la ch)) k)"
    and "(\<And>as. length as = length ohs \<and> (\<forall>a\<in>set as. good_list la 25 a) \<Longrightarrow> tame la (h as)) \<Longrightarrow> tame la (bindM (collectM ohs (rate_addresses la)) h)"
proof -
  have "tame la (collectM ohs (prepare_oh la ch))" "tame la (collectM ohs (rate_addresses la))"
    by (auto intro!: tames prepare_oh_good(1) [OF assms] rate_addresses_good(1) [OF assms])
  note after = tame_after [OF this(1) ends_collect [OF prepare_oh_good(2) [OF assms]]]
    tame_after [OF this(2) ends_collect [OF rate_addresses_good(2) [OF assms]]]
  show "(\<And>ps. length ps = length ohs \<and> (\<forall>p\<in>set ps. good_maps la p) \<Longrightarrow> tame la (k ps)) \<Longrightarrow> tame la (bindM (collectM ohs (prepare_oh la ch)) k)"
    by (rule after(1))
  show "(\<And>as. length as = length ohs \<and> (\<forall>a\<in>set as. good_list la 25 a) \<Longrightarrow> tame la (h as)) \<Longrightarrow> tame la (bindM (collectM ohs (rate_addresses la)) h)"
    by (rule after(2))
qed

lemma tame_read_rates:
  assumes "wf_db la" "good_list la 25 as"
  shows "tame la (read_rates la nm lo hi st d as o1 z)"
proof -
  have "good_address la (as ! i)" if "i < 25" for i using assms(2) that by (simp add: good_list_def)
  then show ?thesis
    unfolding read_rates_def rate_slot_def using assms(1) by (auto intro!: tames simp del: upt_rec_numeral)
qed

lemma tame_sbitRateScan:
  assumes "wf_db la"
  shows "tame la (sbitRateScan la rq)"
proof -
  have dac: "tame la (sbit_rates_dac la ohs nm lo hi st reg addrs v x)" if "\<And>k. k \<in> set ohs \<Longrightarrow> good_list la 25 (addrs k)" for ohs nm lo hi st reg addrs v x
    unfolding sbit_rates_dac_def sprintf_200_def
    using assms that by (auto intro!: tames tame_access tame_read_rates)
  have main: "tame la (sbitRateScanParallelLocal la d ch lo hi st reg m)" for d ch lo hi st reg m
  proof -
    let ?ohs = "enabled_ohs m"
    have addrs: "good_list la 25 (at_oh ?ohs as k)" if "length as = length ?ohs \<and> (\<forall>a\<in>set as. good_list la 25 a)" "k \<in> set ?ohs" for as k
      using that at_oh_in [of as ?ohs k] by blast
    have maps: "good_map la (snd (at_oh ?ohs ps k) ! v)"
      if "length ps = length ?ohs \<and> (\<forall>p\<in>set ps. good_maps la p)" "k \<in> set ?ohs" "v < 24" for ps k v
      using that at_oh_in [of ps ?ohs k] by (auto simp: good_maps_def)
    have persist: "tame la (collectM ?ohs (set_persist la))"
      unfolding set_persist_def using assms by (auto intro!: tames tame_access)
    show ?thesis
      unfolding sbitRateScanParallelLocal_def Let_def
      using assms by (auto intro!: tame_prepared [OF assms] tames tame_parts tame_access persist dac addrs maps tame_applyChanMask
          simp del: upt_rec_numeral)
  qed
  show ?thesis
    unfolding sbitRateScan_def by (auto intro!: tames main)
qed

text \<open>The checks with pulses: the VFAT of the request is one of the 24 once the pulses start.\<close>

lemma tame_prepare_check:
  assumes "wf_db la"
  shows "tame la (prepare_check la nm ohN m cp fs)"
  unfolding prepare_check_def Let_def using assms by (auto intro!: tames tame_parts tame_cal_setup tame_channels)

lemma tame_pulse_all:
  assumes "wf_db la" "\<And>c x. unat v < 24 \<Longrightarrow> tame la (body c x)"
  shows "tame la (pulse_all la ohN v m d (pulse_channel la ohN v cal cp fs body) a)"
proof -
  have "tame la (pulse_channel la ohN v cal cp fs body c x)" if "unat v < 24" for c x
    unfolding pulse_channel_def using assms(1) that by (auto intro!: tames tame_access tame_cal_setup assms(2))
  moreover have e: "ends (\<lambda>e. True) (\<lambda>present. present \<longrightarrow> unat v < 24) (oh_enabled (not_mask m) (unat v))"
    by (auto simp: oh_enabled_def not_mask_bit ends_def ret_def abortM_def)
  ultimately show ?thesis
    unfolding pulse_all_def using assms(1)
    by (intro tame_after [OF keep_oh_enabled e]) (auto intro!: tames tame_access tame_cal_setup tame_channels)
qed

lemma tame_checks:
  assumes "wf_db la"
  shows "tame la (checkSbitMappingWithCalPulse la rq)" "tame la (checkSbitRateWithCalPulse la rq)"
proof -
  have map: "tame la (mapping_pulses la v cal ne pd a1 a2 cs c x)"
    if "good_address la a1" "good_address la a2" "length cs = 8" "\<forall>a\<in>set cs. good_address la a" for v cal ne pd a1 a2 cs c x
    unfolding mapping_pulses_def Let_def using assms that by (auto intro!: tames tame_access)
  have rate: "tame la (rate_pulse la ohN v wt li pd as a1 a2 a3 a4 c y)"
    if "good_address la a1" "good_address la a2" "good_address la a3" "good_address la a4" "length as = 26" "\<forall>a\<in>set as. good_address la a" "unat v < 24"
    for ohN v wt li pd as a1 a2 a3 a4 c y
  proof -
    have "good_address la (as ! i)" if "i < 26" for i using that \<open>length as = 26\<close> \<open>\<forall>a\<in>set as. good_address la a\<close> by simp
    then show ?thesis
      unfolding rate_pulse_def using assms that by (auto intro!: tames tame_access tame_cal_setup)
  qed
  show "tame la (checkSbitMappingWithCalPulse la rq)"
    unfolding checkSbitMappingWithCalPulse_def checkSbitMappingWithCalPulseLocal_def Let_def
    using assms by (auto intro!: tame_address [OF assms] tame_addresses [OF assms] map tame_pulse_all tames tame_access tame_parts
        tame_cal_setup tame_prepare_check simp del: upt_rec_numeral)
  show "tame la (checkSbitRateWithCalPulse la rq)"
    unfolding checkSbitRateWithCalPulse_def checkSbitRateWithCalPulseLocal_def Let_def
    using assms by (auto intro!: tame_address [OF assms] tame_addresses [OF assms, where f = "\<lambda>x. x"] rate tame_pulse_all tames tame_access tame_parts
        tame_cal_setup tame_prepare_check simp del: upt_rec_numeral)
qed

section \<open>The scans of the DACs\<close>

text \<open>
  \<^verbatim>\<open>dacScanLocal\<close> looks up the update register only of a VFAT that has a cached ADC, and reads it for every VFAT
  when the last one had it. \<open>same_adc\<close>: the address table has the cached ADC for all VFATs of an OptoHybrid or for none.
\<close>

definition same_adc :: "localArgs \<Rightarrow> bool" where
  "same_adc la \<longleftrightarrow> (\<forall>ohN adc v w. v < 24 \<longrightarrow> w < 24 \<longrightarrow>
     db_get la (vfat_reg ohN v (adc @ ''_CACHED'')) \<noteq> None \<longrightarrow> db_get la (vfat_reg ohN w (adc @ ''_CACHED'')) \<noteq> None)"

definition adc_found :: "localArgs \<Rightarrow> u32 \<Rightarrow> bool \<Rightarrow> nat set \<Rightarrow> u32 list \<times> u32 list \<times> bool \<Rightarrow> bool" where
  "adc_found la notmask cached seen acc \<longleftrightarrow> (case acc of (adcAddr, updateAddr, foundAdcCached) \<Rightarrow>
     length adcAddr = 24 \<and> length updateAddr = 24 \<and> (foundAdcCached \<longrightarrow> cached) \<and>
     (\<forall>v\<in>seen. bit notmask v \<longrightarrow> good_address la (adcAddr ! v) \<and> (cached \<longrightarrow> good_address la (updateAddr ! v))))"

lemma ends_fold_seen:
  "(\<And>x a S. x \<in> set xs \<Longrightarrow> I S a \<Longrightarrow> ends E (I (insert x S)) (f x a)) \<Longrightarrow> I S a \<Longrightarrow> ends E (I (S \<union> set xs)) (foldM f xs a)"
proof (induction xs arbitrary: S a)
  case (Cons x xs)
  have "ends E (I (insert x S \<union> set xs)) (foldM f xs b)" if "I (insert x S) b" for b
    using Cons.prems(1) that by (intro Cons.IH) simp_all
  then show ?case using Cons.prems by (auto intro!: ends_bind [where P = "I (insert x S)"])
qed (simp add: ends_ret)

lemma find_adc_good:
  assumes "wf_db la" "same_adc la" "v < 24"
    and cached: "cached \<longleftrightarrow> db_get la (vfat_reg ohN 0 ((if ref then ''ADC1'' else ''ADC0'') @ ''_CACHED'')) \<noteq> None"
    and acc: "adc_found la nm cached S acc"
  shows "ends (\<lambda>e. True) (adc_found la nm cached (insert v S)) (find_adc la ohN nm ref v acc)"
proof -
  let ?adc = "if ref then ''ADC1'' else ''ADC0''"
  have c: "(db_get la (vfat_reg ohN v (?adc @ ''_CACHED'')) \<noteq> None) = cached"
    using assms(2,3) unfolding cached same_adc_def by (metis zero_less_numeral)
  obtain A U b where a: "acc = (A, U, b)" by (cases acc)
  note I = acc [unfolded a adc_found_def prod.case]
  show ?thesis
  proof (cases "bit nm v")
    case False
    then show ?thesis using I by (auto simp: find_adc_def a adc_found_def intro!: ends_ret)
  next
    case True
    have some: "adc_found la nm cached (insert v S) (A[v := x], U[v := y], True)" if "good_address la x" "good_address la y" "cached" for x y
      using I that assms(3) by (auto simp: adc_found_def nth_list_update)
    have none: "adc_found la nm cached (insert v S) (A[v := x], U, False)" if "good_address la x" "\<not> cached" for x
      using I that assms(3) by (auto simp: adc_found_def nth_list_update)
    show ?thesis
      unfolding find_adc_def a prod.case Let_def c using True some none
      by (auto intro!: ends_if ends_bind [OF ends_address [OF assms(1)]] ends_ret)
  qed
qed

lemma tame_find_adc:
  assumes "wf_db la"
  shows "tame la (foldM (find_adc la ohN nm ref) vs acc)"
  unfolding find_adc_def Let_def using assms by (auto intro!: tames)

lemma ends_find_adc:
  assumes "wf_db la" "same_adc la"
  shows "ends (\<lambda>e. True) (\<lambda>(A, U, b). \<forall>v<24. bit nm v \<longrightarrow> good_address la (A ! v) \<and> (b \<longrightarrow> good_address la (U ! v)))
    (foldM (find_adc la ohN nm ref) [0..<24] (stack_array la 24, stack_array la 24, False))"
proof -
  define cached where "cached \<longleftrightarrow> db_get la (vfat_reg ohN 0 ((if ref then ''ADC1'' else ''ADC0'') @ ''_CACHED'')) \<noteq> None"
  have "adc_found la nm cached {} (stack_array la 24, stack_array la 24, False)"
    by (simp add: adc_found_def stack_array_def del: upt_rec_numeral)
  then have "ends (\<lambda>e. True) (adc_found la nm cached ({} \<union> set [0..<24])) (foldM (find_adc la ohN nm ref) [0..<24] (stack_array la 24, stack_array la 24, False))"
    by (rule ends_fold_seen [rotated]) (rule find_adc_good [OF assms _ cached_def], simp_all)
  then show ?thesis by (rule ends_mono) (auto simp: adc_found_def)
qed

lemma tame_dacScanLocal:
  assumes "wf_db la" "same_adc la"
  shows "tame la (dacScanLocal la ohN sel st m ref)"
proof -
  have avg: "tame la (adc_average la b u a)" if "good_address la a" "b \<longrightarrow> good_address la u" for b u a
    unfolding adc_average_def using that by (auto intro!: tames)
  have step: "tame la (dac_step la ohN nm reg lo hi st (A, U, b) v d)"
    if "\<forall>v<24. bit nm v \<longrightarrow> good_address la (A ! v) \<and> (b \<longrightarrow> good_address la (U ! v))" for nm reg lo hi A U b v d
    unfolding dac_step_def dac_step_vfat_def using assms(1) that
    by (auto intro!: tames tame_access avg simp del: upt_rec_numeral)
  show ?thesis
    unfolding dacScanLocal_def dac_results_def using assms(1)
    by (auto intro!: tame_after [OF tame_find_adc [OF assms(1)] ends_find_adc [OF assms]] tames tame_access tame_parts tame_adc step split: option.split
        simp del: upt_rec_numeral)
qed

lemma tame_dacScan:
  assumes "wf_db la" "same_adc la"
  shows "tame la (dacScan la rq)" "tame la (dacScanMultiLink la rq)"
  unfolding dacScan_def dacScanMultiLink_def masked_words_def Let_def using assms
  by (auto intro!: tames tame_parts tame_dacScanLocal)

section \<open>All of them\<close>

definition all_tame :: "localArgs \<Rightarrow> rpc_request \<Rightarrow> (string \<times> rpc_method) list \<Rightarrow> bool" where
  "all_tame la rq methods \<longleftrightarrow>
     list_all (\<lambda>(name, f). (name \<in> {''dacScan'', ''dacScanMultiLink''} \<longrightarrow> same_adc la) \<longrightarrow> tame la (f la rq)) methods"

lemma methods_tame:
  assumes "wf_db la"
  shows "all_tame la rq rpctest_methods" "all_tame la rq utils_methods" "all_tame la rq gbt_methods" "all_tame la rq amc_methods"
    "all_tame la rq optohybrid_methods" "all_tame la rq (vfat3_methods rm)" "all_tame la rq daq_monitor_methods"
    "all_tame la rq calibration_routines_methods"
  using assms
  by (simp_all add: all_tame_def rpctest_methods_def utils_methods_def gbt_methods_def amc_methods_def optohybrid_methods_def
      vfat3_methods_def daq_monitor_methods_def calibration_routines_methods_def tame_plain tame_daq tame_ttc tame_phase_methods
      tame_sbitReadOut tame_ram tame_optohybrid tame_scan_methods tame_vfat3 tame_daq_monitor tame_ttcGen tame_genScan
      tame_sbitRateScan tame_checks tame_dacScan)



text \<open>With an empty table nothing but the error value is left; and the error value is indeed used.\<close>

lemma tabled_empty:
  assumes "db_get la = (\<lambda>_. None)"
  shows "tabled la (MemRead a k x) \<longleftrightarrow> k = 1 \<and> a = 0xdeaddead" "tabled la (MemWrite a ws ok) \<longleftrightarrow> length ws = 1 \<and> a = 0xdeaddead"
  using assms by (auto simp: good_address_def in_block_def has_node_def)

lemma unknown_register_written:
  assumes "db_text la reg = None"
  shows "\<exists>t. bindM (getAddress la reg) (\<lambda>a. writeRawAddress la a v) s = Some (Val (), t) \<and>
    hist t = hist s @ [MemWrite 0xdeaddead [v] (mem_wr la (hist s) 0xdeaddead [v])]"
  using assms
  by (simp add: getAddress_def writeRawAddress_def memhub_write_def memsvc_error_def set_string_def set_key_def last_error_def
      whenM_def thenM_def bindM_def ret_def Let_def)

end
