(* ===== verification/PhaseLock.thy ===== *)
theory PhaseLock
  imports MethodEnds
begin

text \<open>
  What it means that the phase-shift procedure of \<^verbatim>\<open>src/amc/ttc.cpp\<close> found a lock: the turns of the search, with
  what each of them saw, as a step relation, and invariants that tie the counters of the search to these
  sightings.
\<close>

section \<open>The turns of a search\<close>

definition lock_seen :: "bool \<Rightarrow> bool \<Rightarrow> nat \<Rightarrow> bool" where
  "lock_seen modeBC0 bc0Locked pllLockCnt = (if modeBC0 then bc0Locked else \<not> pllLockCnt < PLL_LOCK_READ_ATTEMPTS)"

text \<open>
  \<open>searched \<dots> ps0 s0 seen ps left s\<close>: from state \<open>ps0\<close>, the turns that saw \<open>seen\<close> (locked or not) led to \<open>ps\<close>; \<open>left\<close>: the last one
  left the loop.
\<close>

inductive searched ::
  "localArgs \<Rightarrow> bool \<Rightarrow> bool \<Rightarrow> bool \<Rightarrow> int \<Rightarrow> phase_search \<Rightarrow> mach \<Rightarrow> bool list \<Rightarrow> phase_search \<Rightarrow> bool \<Rightarrow> mach \<Rightarrow> bool"
  for la relock modeBC0 scan n ps0 s0 where
  begun: "searched la relock modeBC0 scan n ps0 s0 [] ps0 False s0"
| turned: "searched la relock modeBC0 scan n ps0 s0 seen ps False s \<Longrightarrow>
    shift_look la n ps s = Some (Val (ps1, b, c), u) \<Longrightarrow> decide relock modeBC0 scan b c ps1 = (ps2, ws, brk) \<Longrightarrow>
    forM ws (\<lambda>(r, v). writeReg la r v) u = Some (Val (), t) \<Longrightarrow>
    searched la relock modeBC0 scan n ps0 s0 (seen @ [lock_seen modeBC0 b c]) (if brk then ps2 else count_shift ps2) brk t"

lemma shift_turns_searched:
  assumes "shift_turns k la relock modeBC0 scan n ps s = Some (Val ps', t)" "searched la relock modeBC0 scan n ps0 s0 seen ps False s"
  shows "\<exists>more left. searched la relock modeBC0 scan n ps0 s0 (seen @ more) ps' left t \<and> length more \<le> k \<and> (\<not> left \<longrightarrow> length more = k)"
  using assms
proof (induction k arbitrary: ps s seen)
  case 0
  then show ?case by (intro exI [of _ "[]"] exI [of _ False]) (simp add: ret_def)
next
  case (Suc k)
  obtain p x where p: "shift_turn la relock modeBC0 scan n ps s = Some (Val p, x)"
    and go: "(case p of (ps', brk) \<Rightarrow> if brk then ret ps' else shift_turns k la relock modeBC0 scan n (count_shift ps')) x = Some (Val ps', t)"
    using Suc.prems(1) unfolding shift_turns.simps by (rule bindM_ValE)
  from p obtain q u where look: "shift_look la n ps s = Some (Val q, u)"
    and dec: "(case q of (ps2, b, c) \<Rightarrow> let (ps3, ws, brk) = decide relock modeBC0 scan b c ps2
        in thenM (forM ws (\<lambda>(r, v). writeReg la r v)) (ret (ps3, brk))) u = Some (Val p, x)"
    unfolding shift_turn_def by (rule bindM_ValE)
  obtain ps1 b c where q: "q = (ps1, b, c)" by (cases q)
  obtain ps2 ws brk where d: "decide relock modeBC0 scan b c ps1 = (ps2, ws, brk)" by (cases "decide relock modeBC0 scan b c ps1")
  have "bindM (forM ws (\<lambda>(r, v). writeReg la r v)) (\<lambda>_. ret (ps2, brk)) u = Some (Val p, x)"
    using dec by (simp add: q d thenM_def)
  then have w: "forM ws (\<lambda>(r, v). writeReg la r v) u = Some (Val (), x)" and p2: "p = (ps2, brk)"
    by (auto elim!: bindM_ValE simp: ret_def)
  note turn = searched.turned [OF Suc.prems(2) look [unfolded q] d w]
  show ?case
  proof (cases brk)
    case True
    then show ?thesis using turn go p2
      by (intro exI [of _ "[lock_seen modeBC0 b c]"] exI [of _ True]) (simp add: ret_def)
  next
    case False
    then obtain more left where "searched la relock modeBC0 scan n ps0 s0 ((seen @ [lock_seen modeBC0 b c]) @ more) ps' left t"
      "length more \<le> k" "\<not> left \<longrightarrow> length more = k"
      using Suc.IH [of "count_shift ps2" x "seen @ [lock_seen modeBC0 b c]"] go p2 turn by auto
    then show ?thesis by (intro exI [of _ "lock_seen modeBC0 b c # more"] exI [of _ left]) simp
  qed
qed

text \<open>A look changes the shift counts only.\<close>

lemma shift_look_state:
  "shift_look la n ps s = Some (Val (ps1, b, c), u) \<Longrightarrow> \<exists>g m. ps1 = ps\<lparr>gthShiftCnt := g, mmcmShiftCnt := m\<rparr>"
  unfolding shift_look_def mmcm_step_def thenM_def Let_def
  by (auto simp: ret_def abortM_def split: if_splits elim!: bindM_ValE) (metis phase_search.surjective phase_search.update_convs(1,2))+

section \<open>Runs of sightings\<close>

definition tail_run :: "('a \<Rightarrow> bool) \<Rightarrow> 'a list \<Rightarrow> nat" where
  "tail_run P xs = length (takeWhile P (rev xs))"

lemma tail_run_simps [simp]: "tail_run P [] = 0" "tail_run P (xs @ [x]) = (if P x then Suc (tail_run P xs) else 0)"
  by (simp_all add: tail_run_def)

definition had_run :: "('a \<Rightarrow> bool) \<Rightarrow> nat \<Rightarrow> 'a list \<Rightarrow> bool" where
  "had_run P n xs \<longleftrightarrow> (\<exists>as bs. xs = as @ bs \<and> n \<le> tail_run P as)"

lemma had_run_simps: "0 < n \<Longrightarrow> \<not> had_run P n []" "had_run P n (xs @ [x]) \<longleftrightarrow> had_run P n xs \<or> n \<le> tail_run P (xs @ [x])"
proof -
  show "0 < n \<Longrightarrow> \<not> had_run P n []" by (simp add: had_run_def)
  show "had_run P n (xs @ [x]) \<longleftrightarrow> had_run P n xs \<or> n \<le> tail_run P (xs @ [x])" (is "?l \<longleftrightarrow> ?r")
  proof
    assume ?l
    then obtain as bs where "xs @ [x] = as @ bs" "n \<le> tail_run P as" by (auto simp: had_run_def)
    then show ?r by (cases bs rule: rev_cases) (auto simp: had_run_def)
  next
    assume ?r
    then show ?l unfolding had_run_def by (metis append.assoc append_Nil2)
  qed
qed

text \<open>The last \<open>k\<close> turns came after a turn without a lock, which came after a run of \<open>n\<close> of them.\<close>

definition since_unlock :: "nat \<Rightarrow> bool list \<Rightarrow> nat \<Rightarrow> bool" where
  "since_unlock n seen k \<longleftrightarrow> (\<exists>as bs. seen = as @ False # bs \<and> had_run Not n as \<and> length bs = k)"

lemma since_unlock_snoc: "since_unlock n seen k \<Longrightarrow> since_unlock n (seen @ [x]) (Suc k)"
  unfolding since_unlock_def by force

lemma since_unlock_start: "had_run Not n seen \<Longrightarrow> since_unlock n (seen @ [False]) 0"
  unfolding since_unlock_def by force

text \<open>\<open>k\<close> turns with a lock came after a run of \<open>n\<close> turns without.\<close>

definition since_locks :: "nat \<Rightarrow> bool list \<Rightarrow> nat \<Rightarrow> bool" where
  "since_locks n seen k \<longleftrightarrow> (\<exists>as bs. seen = as @ bs \<and> n \<le> tail_run Not as \<and> length (filter id bs) = k)"

lemma since_locks_snoc: "since_locks n seen k \<Longrightarrow> since_locks n (seen @ [x]) (if x then Suc k else k)"
  unfolding since_locks_def by force

lemma since_locks_start: "n \<le> tail_run Not seen \<Longrightarrow> since_locks n seen 0"
  unfolding since_locks_def by force

section \<open>A search with relock, by the lock of the PLL\<close>

definition pll_inv :: "bool list \<Rightarrow> phase_search \<Rightarrow> bool" where
  "pll_inv seen ps \<longleftrightarrow> firstUnlockFound ps = had_run Not 501 seen \<and> \<not> bestLockFound ps \<and>
     (if firstUnlockFound ps
      then (if nextLockFound ps then \<exists>k. nShiftsSinceLock ps = Suc k \<and> since_unlock 501 seen k else nShiftsSinceLock ps = 0)
      else \<not> nextLockFound ps \<and> nShiftsSinceLock ps = 0 \<and> nGoodLocks ps = tail_run id seen \<and> nBadLocks ps = tail_run Not seen \<and>
        nGoodLocks ps < 75 \<and> (reversingForLock ps \<longleftrightarrow> 50 \<le> nGoodLocks ps))"

definition pll_found :: "bool list \<Rightarrow> bool" where
  "pll_found seen \<longleftrightarrow> (if had_run Not 501 seen then \<not> last seen \<and> since_unlock 501 seen 1000 else 75 \<le> tail_run id seen)"

lemma pll_inv_start: "pll_inv [] (start_search m g)"
  by (simp add: pll_inv_def start_search_def had_run_simps)

lemma pll_inv_same: "pll_inv seen (ps\<lparr>gthShiftCnt := g, mmcmShiftCnt := m\<rparr>) = pll_inv seen ps"
  by (simp add: pll_inv_def)

lemma tail_runs: "tail_run Not seen = 0 \<or> tail_run id seen = 0"
  by (cases seen rule: rev_cases) auto

lemma pll_turn_before:
  assumes "pll_inv seen ps" "\<not> firstUnlockFound ps" "decide True False False b c ps = (ps2, ws, left)"
  shows "if left then bestLockFound ps2 \<and> pll_found (seen @ [\<not> c < 10]) else pll_inv (seen @ [\<not> c < 10]) (count_shift ps2)"
  using assms tail_runs [of seen]
  by (auto simp: pll_inv_def pll_found_def decide_def decide_pll_def count_locks_def seek_best_def count_shift_def
      had_run_simps PLL_LOCK_READ_ATTEMPTS_def Let_def split: if_splits)

lemma pll_turn_after:
  assumes "pll_inv seen ps" "firstUnlockFound ps" "decide True False False b c ps = (ps2, ws, left)"
  shows "if left then bestLockFound ps2 \<and> pll_found (seen @ [\<not> c < 10]) else pll_inv (seen @ [\<not> c < 10]) (count_shift ps2)"
  using assms
  by (auto simp: pll_inv_def pll_found_def decide_def decide_pll_def count_shift_def had_run_simps PLL_LOCK_READ_ATTEMPTS_def Let_def
      intro: since_unlock_snoc since_unlock_start dest: since_unlock_snoc [where k = 999, simplified] split: if_splits)

lemma pll_turn:
  assumes "pll_inv seen ps" "decide True False False b c ps = (ps2, ws, left)"
  shows "if left then bestLockFound ps2 \<and> pll_found (seen @ [\<not> c < 10]) else pll_inv (seen @ [\<not> c < 10]) (count_shift ps2)"
  by (cases "firstUnlockFound ps") (use pll_turn_before pll_turn_after assms in blast)+

section \<open>The other searches\<close>

definition other_inv :: "bool \<Rightarrow> bool \<Rightarrow> bool list \<Rightarrow> phase_search \<Rightarrow> bool" where
  "other_inv relock modeBC0 seen ps \<longleftrightarrow> \<not> bestLockFound ps \<and>
     (if firstUnlockFound ps then relock \<and> nGoodLocks ps < 1920 \<and> since_locks 101 seen (nGoodLocks ps)
      else nBadLocks ps = tail_run Not seen \<and>
        (modeBC0 \<and> \<not> relock \<longrightarrow> nGoodLocks ps = tail_run id seen \<and> nGoodLocks ps < 300 \<and> (reversingForLock ps \<longleftrightarrow> 200 \<le> nGoodLocks ps)))"

lemma other_inv_start: "other_inv relock modeBC0 [] (start_search m g)"
  by (simp add: other_inv_def start_search_def)

lemma other_inv_same: "other_inv relock modeBC0 seen (ps\<lparr>gthShiftCnt := g, mmcmShiftCnt := m\<rparr>) = other_inv relock modeBC0 seen ps"
  by (simp add: other_inv_def)

lemma pll_turn_forward:
  assumes "other_inv False False seen ps" "decide False False False b c ps = (ps2, ws, left)"
  shows "\<not> left \<and> other_inv False False (seen @ [\<not> c < 10]) (count_shift ps2)"
  using assms by (auto simp: other_inv_def decide_def decide_pll_def count_locks_def count_shift_def PLL_LOCK_READ_ATTEMPTS_def Let_def split: if_splits)

lemma bc0_turn_reversing:
  assumes "other_inv False True seen ps" "decide False True False b c ps = (ps2, ws, left)"
  shows "if left then bestLockFound ps2 \<and> 300 \<le> tail_run id (seen @ [b]) else other_inv False True (seen @ [b]) (count_shift ps2)"
  using assms tail_runs [of seen]
  by (auto simp: other_inv_def decide_def decide_bc0_def count_locks_def seek_best_def count_shift_def Let_def split: if_splits)

lemma bc0_turn_relock:
  assumes "other_inv True True seen ps" "decide True True False b c ps = (ps2, ws, left)"
  shows "if left then bestLockFound ps2 \<and> since_locks 101 (seen @ [b]) 1920 else other_inv True True (seen @ [b]) (count_shift ps2)"
proof (cases "firstUnlockFound ps")
  case True
  then have "since_locks 101 (seen @ [b]) (if b then Suc (nGoodLocks ps) else nGoodLocks ps)"
    using assms(1) by (intro since_locks_snoc) (simp add: other_inv_def)
  then show ?thesis using assms True
    by (auto simp: other_inv_def decide_def decide_bc0_def count_shift_def Let_def split: if_splits)
next
  case False
  then show ?thesis using assms
    by (auto simp: other_inv_def decide_def decide_bc0_def count_locks_def count_shift_def Let_def intro!: since_locks_start split: if_splits)
qed

section \<open>What a found lock means\<close>

definition lock_found :: "bool \<Rightarrow> bool \<Rightarrow> bool list \<Rightarrow> bool" where
  "lock_found relock modeBC0 seen \<longleftrightarrow>
     (if modeBC0 then if relock then since_locks 101 seen 1920 else 300 \<le> tail_run id seen
      else relock \<and> pll_found seen)"

definition search_inv :: "bool \<Rightarrow> bool \<Rightarrow> bool list \<Rightarrow> phase_search \<Rightarrow> bool" where
  "search_inv relock modeBC0 seen ps = (if relock \<and> \<not> modeBC0 then pll_inv seen ps else other_inv relock modeBC0 seen ps)"

lemma search_turn:
  assumes "search_inv relock modeBC0 seen ps" "decide relock modeBC0 False b c ps = (ps2, ws, left)"
  shows "if left then bestLockFound ps2 \<and> lock_found relock modeBC0 (seen @ [lock_seen modeBC0 b c])
    else search_inv relock modeBC0 (seen @ [lock_seen modeBC0 b c]) (count_shift ps2)"
proof (cases modeBC0)
  case True
  then show ?thesis using assms bc0_turn_reversing [of seen ps b c ps2 ws left] bc0_turn_relock [of seen ps b c ps2 ws left]
    by (cases relock) (simp_all add: search_inv_def lock_found_def lock_seen_def split: if_splits)
next
  case False
  then show ?thesis using assms pll_turn [of seen ps b c ps2 ws left] pll_turn_forward [of seen ps b c ps2 ws left]
    by (cases relock) (simp_all add: search_inv_def lock_found_def lock_seen_def PLL_LOCK_READ_ATTEMPTS_def split: if_splits)
qed

lemma searched_inv:
  assumes "searched la relock modeBC0 False n (start_search m g) s0 seen ps left s"
  shows "if left then bestLockFound ps \<and> lock_found relock modeBC0 seen else search_inv relock modeBC0 seen ps"
  using assms
proof (induction rule: searched.induct)
  case begun
  then show ?case by (simp add: search_inv_def pll_inv_start other_inv_start)
next
  case (turned seen ps s ps1 b c u ps2 ws brk t)
  have "search_inv relock modeBC0 seen ps1"
    using turned.IH shift_look_state [OF turned.hyps(2)] by (auto simp: search_inv_def pll_inv_same other_inv_same)
  from search_turn [OF this turned.hyps(3)] show ?case by (simp split: if_splits)
qed

text \<open>
  C28 (what a found lock means): when the search of \<^verbatim>\<open>ttcMMCMPhaseShiftLocal\<close> (not as a scan) ends with a lock, its turns tell
  why. With BC0: the last 300 turns saw the lock, or, with \<^verbatim>\<open>relock\<close>, 1920 turns saw it after 101 in a row that did not. With
  the PLL (and \<^verbatim>\<open>relock\<close>): the last 75 turns saw all ten locks; but once 501 turns in a row were without a lock, the search
  ends in a turn without a lock, 1000 turns after another one.
\<close>

theorem found_lock_seen:
  assumes "shift_turns k la relock modeBC0 False n (start_search m g) s = Some (Val ps, t)" "bestLockFound ps"
  shows "\<exists>seen. searched la relock modeBC0 False n (start_search m g) s seen ps True t \<and> length seen \<le> k \<and>
    (if modeBC0 then if relock then since_locks 101 seen 1920 else 300 \<le> tail_run id seen
     else relock \<and> (if had_run Not 501 seen then \<not> last seen \<and> since_unlock 501 seen 1000 else 75 \<le> tail_run id seen))"
proof -
  obtain seen left where run: "searched la relock modeBC0 False n (start_search m g) s seen ps left t" "length seen \<le> k"
    using shift_turns_searched [OF assms(1) searched.begun] by auto
  have "left" using searched_inv [OF run(1)] assms(2)
    by (auto simp: search_inv_def pll_inv_def other_inv_def split: if_splits)
  then show ?thesis using searched_inv [OF run(1)] run by (auto simp: lock_found_def pll_found_def)
qed

section \<open>A steady lock is found\<close>

lemma ends_lock_count:
  assumes "wf_db la" "always_shows la ''GEM_AMC.TTC.STATUS.CLK.PHASE_LOCKED'' (\<lambda>v. v \<noteq> 0)"
  shows "ends E (\<lambda>c. c = nat n) (checkPLLLockLocal la n)"
proof -
  have "ends E (\<lambda>c. c = a + length xs) (foldM (\<lambda>i lockCnt.
       thenM (writeReg la ''GEM_AMC.TTC.CTRL.PA_MANUAL_PLL_RESET'' 0x1) (
       thenM (sleep_us 100) (
       bindM (readReg la ''GEM_AMC.TTC.STATUS.CLK.PHASE_LOCKED'') (\<lambda>locked.
         ret (if locked \<noteq> 0 then lockCnt + 1 else lockCnt))))) xs a)" for xs :: "nat list" and a
  proof (induction xs arbitrary: a)
    case (Cons x xs)
    show ?case
      unfolding foldM.simps
    proof (rule ends_bind [where P = "\<lambda>c. c = Suc a"])
      show "ends E (\<lambda>c. c = Suc a) (thenM (writeReg la ''GEM_AMC.TTC.CTRL.PA_MANUAL_PLL_RESET'' 0x1) (
       thenM (sleep_us 100) (
       bindM (readReg la ''GEM_AMC.TTC.STATUS.CLK.PHASE_LOCKED'') (\<lambda>locked. ret (if locked \<noteq> 0 then a + 1 else a)))))"
        by (intro ends_then sounds sound_access assms(1) ends_bind [OF ends_readReg [OF assms]] ends_ret) simp
    qed (use Cons.IH [of "Suc a"] in simp)
  qed (simp add: ends_ret)
  from this [of 0 "[0..<nat n]"] show ?thesis by (simp add: checkPLLLockLocal_def)
qed

lemma look_locked:
  assumes "wf_db la" "always_shows la ''GEM_AMC.TTC.STATUS.CLK.PHASE_LOCKED'' (\<lambda>v. v \<noteq> 0)"
    and "shift_look la n ps s = Some (Val (ps1, b, c), u)"
  shows "c = nat n"
proof -
  obtain v w where "checkPLLLockLocal la n v = Some (Val c, w)"
    using assms(3) unfolding shift_look_def thenM_def Let_def by (auto simp: ret_def elim!: bindM_ValE)
  then show ?thesis using ends_lock_count [OF assms(1,2), where n = n] by (blast dest: endsD)
qed

lemma searched_locked:
  assumes "wf_db la" "always_shows la ''GEM_AMC.TTC.STATUS.CLK.PHASE_LOCKED'' (\<lambda>v. v \<noteq> 0)"
    and "searched la relock False scan 10 ps0 s0 seen ps left s"
  shows "\<forall>x\<in>set seen. x"
  using assms(3)
proof (induction rule: searched.induct)
  case (turned seen ps s ps1 b c u ps2 ws brk t)
  then show ?case using look_locked [OF assms(1,2) turned.hyps(2)] by (simp add: lock_seen_def PLL_LOCK_READ_ATTEMPTS_def)
qed simp

lemma tail_run_all: "\<forall>x\<in>set xs. P x \<Longrightarrow> tail_run P xs = length xs"
  unfolding tail_run_def by (subst takeWhile_all) auto

lemma tail_run_none: "\<forall>x\<in>set xs. \<not> P x \<Longrightarrow> tail_run P xs = 0"
  by (cases xs rule: rev_cases) auto

theorem steady_lock_found:
  assumes "wf_db la" "shifts_round la K" "always_shows la ''GEM_AMC.TTC.STATUS.CLK.PHASE_LOCKED'' (\<lambda>v. v \<noteq> 0)"
    and "g < 40" "75 \<le> k"
  shows "\<exists>ps t. shift_turns k la True False False 10 (start_search m g) s = Some (Val ps, t) \<and> bestLockFound ps"
proof -
  have small: "gthShiftCnt (start_search m g) < 40" using assms(4) by (simp add: start_search_def)
  obtain r t where "shift_turns k la True False False 10 (start_search m g) s = Some (r, t)"
    using returnsD [OF returns_shift_turns [OF assms(2) small]] by blast
  moreover have "sound (\<lambda>e. False) (shift_turns k la True False False 10 (start_search m g))"
    by (rule ends_shift_turns [OF assms(1) small])
  ultimately obtain ps where run: "shift_turns k la True False False 10 (start_search m g) s = Some (Val ps, t)"
    by (cases r) (auto simp: sound_def dest: endsD)
  obtain seen left where seen: "searched la True False False 10 (start_search m g) s seen ps left t" "\<not> left \<longrightarrow> length seen = k"
    using shift_turns_searched [OF run searched.begun] by auto
  have locked: "\<forall>x\<in>set seen. x" by (rule searched_locked [OF assms(1,3) seen(1)])
  have "tail_run Not as = 0" if "seen = as @ bs" for as bs using locked that by (intro tail_run_none) auto
  then have had: "\<not> had_run Not 501 seen" unfolding had_run_def by fastforce
  have "tail_run id seen = length seen" using locked by (simp add: tail_run_all)
  moreover have "bestLockFound ps" if left using searched_inv [OF seen(1)] that by simp
  moreover have "length seen < 75" if "\<not> left" "tail_run id seen = length seen"
    using searched_inv [OF seen(1)] that had by (auto simp: search_inv_def pll_inv_def split: if_splits)
  ultimately have "bestLockFound ps" using seen(2) assms(5) by fastforce
  then show ?thesis using run by blast
qed

text \<open>The board of \<open>Waiting\<close> is locked always.\<close>

lemma board_wf: "wf_db board_env"
  using flat_wf_db [of board_regs] by (simp add: wf_db_def board_env_def)

theorem found_lock_seen_witness:
  "\<exists>ps t seen. shift_turns 75 board_env True False False 10 (start_search 0 0) start_mach = Some (Val ps, t) \<and>
     searched board_env True False False 10 (start_search 0 0) start_mach seen ps True t \<and> length seen = 75 \<and> 75 \<le> tail_run id seen"
proof -
  obtain ps t where run: "shift_turns 75 board_env True False False 10 (start_search 0 0) start_mach = Some (Val ps, t)" "bestLockFound ps"
    using steady_lock_found [OF board_wf board_shifts_round board_locked, where g = 0 and k = 75 and m = 0 and s = start_mach] by auto
  from found_lock_seen [OF this] obtain seen where seen: "searched board_env True False False 10 (start_search 0 0) start_mach seen ps True t"
    "length seen \<le> 75" "if had_run Not 501 seen then \<not> last seen \<and> since_unlock 501 seen 1000 else 75 \<le> tail_run id seen" by auto
  have "\<not> since_unlock 501 seen 1000" using seen(2) by (auto simp: since_unlock_def)
  then have "75 \<le> tail_run id seen" using seen(3) by (simp split: if_splits)
  moreover have "tail_run id seen \<le> length seen" unfolding tail_run_def by (metis length_rev length_takeWhile_le)
  ultimately show ?thesis using run(1) seen(1,2) by auto
qed

end
