(* ===== verification/Settings.thy ===== *)
theory Settings
  imports ScanEnds
begin

text \<open>
  Postconditions of programs over the settings of the registers: which settings the registers hold, and what the history of accesses
  shows about the settings at earlier moments. The rules for the scans of \<open>ScanPoints\<close> are built from them.
\<close>

section \<open>Programs with a postcondition\<close>

definition yields :: "(mach \<Rightarrow> bool) \<Rightarrow> 'a prog \<Rightarrow> ('a \<Rightarrow> mach \<Rightarrow> bool) \<Rightarrow> bool" where
  "yields P m Q \<longleftrightarrow> (\<forall>s x t. P s \<longrightarrow> m s = Some (Val x, t) \<longrightarrow> Q x t)"

lemma yieldsI: "(\<And>s x t. P s \<Longrightarrow> m s = Some (Val x, t) \<Longrightarrow> Q x t) \<Longrightarrow> yields P m Q"
  by (simp add: yields_def)

lemma yieldsD: "yields P m Q \<Longrightarrow> P s \<Longrightarrow> m s = Some (Val x, t) \<Longrightarrow> Q x t"
  by (simp add: yields_def)

lemma yields_bind: "yields P m Q \<Longrightarrow> (\<And>x. yields (Q x) (k x) S) \<Longrightarrow> yields P (bindM m k) S"
  unfolding yields_def by (blast elim!: bindM_ValE)

lemma yields_then: "yields P m (\<lambda>_. Q) \<Longrightarrow> yields Q n S \<Longrightarrow> yields P (thenM m n) S"
  unfolding thenM_def by (rule yields_bind)

lemma yields_ret: "(\<And>s. P s \<Longrightarrow> Q x s) \<Longrightarrow> yields P (ret x) Q"
  by (simp add: yields_def ret_def)

lemma yields_when: "(b \<Longrightarrow> yields P m (\<lambda>_. Q)) \<Longrightarrow> (\<not> b \<Longrightarrow> (\<And>s. P s \<Longrightarrow> Q s)) \<Longrightarrow> yields P (whenM b m) (\<lambda>_. Q)"
  by (auto simp: whenM_def intro: yields_ret)

text \<open>Loops under an invariant that knows which elements were done.\<close>

lemma yields_fold:
  "(\<And>x a S. x \<in> set xs \<Longrightarrow> yields (I S a) (f x a) (I (insert x S))) \<Longrightarrow> yields (I S a) (foldM f xs a) (I (S \<union> set xs))"
proof (induction xs arbitrary: S a)
  case (Cons x xs)
  have "yields (I (insert x S) b) (foldM f xs b) (I (S \<union> set (x # xs)))" for b
    using Cons.IH [of "insert x S" b] Cons.prems by simp
  then show ?case using Cons.prems [of x S a] by (simp add: yields_bind)
qed (simp add: yields_ret)

lemma yields_for:
  "(\<And>x S. x \<in> set xs \<Longrightarrow> yields (I S) (f x) (\<lambda>_. I (insert x S))) \<Longrightarrow> yields (I S) (forM xs f) (\<lambda>_. I (S \<union> set xs))"
proof (induction xs arbitrary: S)
  case (Cons x xs)
  have "yields (I (insert x S)) (forM xs f) (\<lambda>_. I (S \<union> set (x # xs)))" using Cons.IH [of "insert x S"] Cons.prems by simp
  then show ?case using Cons.prems [of x S] by (simp add: yields_then)
qed (simp add: yields_ret)

lemma yields_for_step:
  fixes lo hi step i :: "'w::len word"
  assumes "step \<noteq> 0" "unat hi + unat step < 2 ^ LENGTH('w)"
    and body: "\<And>n i x. unat i = unat lo + n * unat step \<Longrightarrow> i \<le> hi \<Longrightarrow>
       yields (J n x) (body i x) (\<lambda>r s. \<exists>y. r = Inr y \<and> J (Suc n) y s)"
  shows "unat i = unat lo + n * unat step \<Longrightarrow>
    yields (J n x) (for_step hi step body i x) (\<lambda>r s. \<exists>y m. r = Inr y \<and> unat hi < unat lo + m * unat step \<and> J m y s)"
proof (induction i arbitrary: n x rule: step_induct [OF assms(1,2)])
  case (1 i)
  then have "unat hi < unat lo + n * unat step" by (simp add: word_le_nat_alt)
  then show ?case using 1 by (intro yieldsI) (auto simp: for_step_done ret_def)
next
  case (2 i)
  have "unat (i + step) = unat lo + Suc n * unat step" using 2 by simp
  note rest = "2.IH" [OF this]
  show ?case
    unfolding for_step_go [OF "2.hyps"(1)]
  proof (rule yields_bind [OF body [OF "2.prems" "2.hyps"(1)]])
    fix r
    show "yields (\<lambda>s. \<exists>y. r = Inr y \<and> J (Suc n) y s) (case r of Inl e \<Rightarrow> ret (Inl e) | Inr y \<Rightarrow> for_step hi step body (i + step) y)
      (\<lambda>r s. \<exists>y m. r = Inr y \<and> unat hi < unat lo + m * unat step \<and> J m y s)"
      using rest by (cases r) (auto intro!: yieldsI dest: yieldsD)
  qed
qed

lemma yields_weaken: "yields P m Q \<Longrightarrow> (\<And>x s. Q x s \<Longrightarrow> S x s) \<Longrightarrow> yields P m S"
  unfolding yields_def by blast

lemma yields_pre: "yields P m Q \<Longrightarrow> (\<And>s. S s \<Longrightarrow> P s) \<Longrightarrow> yields S m Q"
  unfolding yields_def by blast

lemma yields_if: "(b \<Longrightarrow> yields P m Q) \<Longrightarrow> (\<not> b \<Longrightarrow> yields P n Q) \<Longrightarrow> yields P (if b then m else n) Q"
  by simp

section \<open>Measured words\<close>

definition setting :: "(string \<Rightarrow> node) \<Rightarrow> (u32 \<Rightarrow> u32) \<Rightarrow> string \<Rightarrow> event list \<Rightarrow> u32" where
  "setting nd v0 r h = applyMask (cell (real_address (nd r)) (v0 (real_address (nd r))) h) (node_mask (nd r))"

lemma reg_val_setting: "reg_val nd v0 r s = setting nd v0 r (hist s)"
  by (simp add: reg_val_def setting_def)

definition set_at :: "(string \<Rightarrow> node) \<Rightarrow> (u32 \<Rightarrow> u32) \<Rightarrow> (string \<times> u32) set \<Rightarrow> event list \<Rightarrow> bool" where
  "set_at nd v0 F h \<longleftrightarrow> (\<forall>(c, v)\<in>F. setting nd v0 c h = reg_fits nd c v)"

text \<open>After \<open>A\<close> held, register \<open>r\<close> was set to \<open>w\<close> while the registers had the settings \<open>F\<close>.\<close>

definition struck ::
  "(string \<Rightarrow> node) \<Rightarrow> (u32 \<Rightarrow> u32) \<Rightarrow> (event list \<Rightarrow> bool) \<Rightarrow> (string \<times> u32) set \<Rightarrow> string \<Rightarrow> u32 \<Rightarrow> event list \<Rightarrow> bool" where
  "struck nd v0 A F r w h \<longleftrightarrow> (\<exists>h0 e h1. h = h0 @ e # h1 \<and> writes_at (real_address (nd r)) e \<and>
     setting nd v0 r (h0 @ [e]) = reg_fits nd r w \<and> A h0 \<and> set_at nd v0 F h0)"

abbreviation daq_reset :: string where "daq_reset \<equiv> daq_mon @ ''CTRL.RESET''"

abbreviation daq_enable :: string where "daq_enable \<equiv> daq_mon @ ''CTRL.ENABLE''"

text \<open>With the settings \<open>F\<close>, the counters were reset and enabled, and then the triggers started with register \<open>r\<close>.\<close>

definition fired :: "(string \<Rightarrow> node) \<Rightarrow> (u32 \<Rightarrow> u32) \<Rightarrow> (string \<times> u32) set \<Rightarrow> string \<Rightarrow> event list \<Rightarrow> bool" where
  "fired nd v0 F r = struck nd v0 (struck nd v0 (\<lambda>h. True) F daq_reset 1) (insert (daq_enable, 1) F) r 1"

text \<open>The word \<open>w\<close> was read at \<open>a\<close> after that, with the same settings and stopped counters, or this reading failed.\<close>

definition measured ::
  "(string \<Rightarrow> node) \<Rightarrow> (u32 \<Rightarrow> u32) \<Rightarrow> (string \<times> u32) set \<Rightarrow> string \<Rightarrow> u32 \<Rightarrow> u32 \<Rightarrow> event list \<Rightarrow> bool" where
  "measured nd v0 F r a w h \<longleftrightarrow> (\<exists>h1 x h2. h = h1 @ MemRead a 1 x # h2 \<and> (x = Some [w] \<or> x = None \<and> w = 0xdeaddead) \<and>
     fired nd v0 F r h1 \<and> set_at nd v0 (insert (daq_enable, 0) F) h1)"

lemma set_at_sub: "set_at nd v0 F h \<Longrightarrow> G \<subseteq> F \<Longrightarrow> set_at nd v0 G h"
  unfolding set_at_def by blast

lemma fired_sub: "fired nd v0 F r h \<Longrightarrow> G \<subseteq> F \<Longrightarrow> fired nd v0 G r h"
  unfolding fired_def struck_def by (blast intro: set_at_sub)

section \<open>What stays true\<close>

definition past :: "(event list \<Rightarrow> bool) \<Rightarrow> bool" where
  "past A \<longleftrightarrow> (\<forall>h g. A h \<longrightarrow> A (h @ g))"

named_theorems pasts

lemma past_plain [pasts]: "past (\<lambda>h. True)" "past A \<Longrightarrow> past B \<Longrightarrow> past (\<lambda>h. A h \<and> B h)"
  by (simp_all add: past_def)

lemma past_all [pasts]: "(\<And>x. P x \<Longrightarrow> past (A x)) \<Longrightarrow> past (\<lambda>h. \<forall>x. P x \<longrightarrow> A x h)" "(\<And>x. x \<in> S \<Longrightarrow> past (B x)) \<Longrightarrow> past (\<lambda>h. \<forall>x\<in>S. B x h)"
  by (simp_all add: past_def)

lemma past_struck: "past (struck nd v0 A F r w)"
  unfolding past_def struck_def by force

lemma past_fired [pasts]: "past (fired nd v0 F r)"
  unfolding fired_def by (rule past_struck)

lemma past_measured [pasts]: "past (measured nd v0 F r a w)"
  unfolding past_def measured_def by force

text \<open>The registers have the settings \<open>F\<close>, and the history shows \<open>A\<close>.\<close>

definition held ::
  "(string \<Rightarrow> node) \<Rightarrow> localArgs \<Rightarrow> string set \<Rightarrow> (u32 \<Rightarrow> u32) \<Rightarrow> (string \<times> u32) set \<Rightarrow> (event list \<Rightarrow> bool) \<Rightarrow> mach \<Rightarrow> bool" where
  "held nd la R v0 F A s \<longleftrightarrow> reg_ok la nd R v0 s \<and> fst ` F \<subseteq> R \<and> set_at nd v0 F (hist s) \<and> A (hist s)"

lemma heldD: "held nd la R v0 F A s \<Longrightarrow> A (hist s)"
  by (simp add: held_def)

lemma held_sub: "held nd la R v0 F A s \<Longrightarrow> G \<subseteq> F \<Longrightarrow> (\<And>h. A h \<Longrightarrow> B h) \<Longrightarrow> held nd la R v0 G B s"
  unfolding held_def by (blast intro: set_at_sub)

lemma held_quiet:
  assumes "extends no_write K s t" "held nd la R v0 F A s" "past A"
  shows "held nd la R v0 F A t"
proof -
  have s: "reg_ok la nd R v0 s" "fst ` F \<subseteq> R" "set_at nd v0 F (hist s)" "A (hist s)" using assms(2) by (simp_all add: held_def)
  obtain g where g: "hist t = hist s @ g" using assms(1) by (auto simp: extends_def)
  have "reg_ok la nd R v0 t \<and> (\<forall>q\<in>R. reg_val nd v0 q t = reg_val nd v0 q s)" by (rule reg_quiet [OF assms(1) s(1)])
  moreover have "A (hist t)" using s(4) g assms(3) by (simp add: past_def)
  ultimately show ?thesis
    using s(2,3) unfolding held_def set_at_def reg_val_setting by (force simp: image_subset_iff)
qed

lemma yields_quiet:
  "preserves (extends no_write (\<lambda>k. True)) m \<Longrightarrow> past A \<Longrightarrow> yields (held nd la R v0 F A) m (\<lambda>_. held nd la R v0 F A)"
  by (rule yieldsI) (blast dest: preservesD held_quiet)

lemma yields_struck:
  assumes "r \<in> R" "\<And>v. (r, v) \<in> F \<Longrightarrow> v = w" "past A"
  shows "yields (held nd la R v0 F A) (writeReg la r w)
    (\<lambda>_. held nd la R v0 (insert (r, w) F) (\<lambda>h. A h \<and> struck nd v0 A F r w h))"
proof (rule yieldsI)
  fix s x t
  assume s: "held nd la R v0 F A s" and run: "writeReg la r w s = Some (Val x, t)"
  then have ok: "reg_ok la nd R v0 s" by (simp add: held_def)
  obtain t' where "writeReg la r w s = Some (Val (), t')" "reg_ok la nd R v0 t'"
    "\<forall>q\<in>R. reg_val nd v0 q t' = (if q = r then reg_fits nd r w else reg_val nd v0 q s)"
    using reg_write [OF assms(1) ok] by blast
  then have t: "reg_ok la nd R v0 t" "\<And>q. q \<in> R \<Longrightarrow> reg_val nd v0 q t = (if q = r then reg_fits nd r w else reg_val nd v0 q s)"
    using run by auto
  obtain u v where u: "extends no_write no_key s u" "hist t = hist u @ [MemWrite (real_address (nd r)) [v] True]"
    using reg_write_wrote [OF assms(1) ok, of w] run unfolding wrote_def by auto
  have hu: "held nd la R v0 F A u" by (rule held_quiet [OF u(1) s assms(3)])
  have "setting nd v0 r (hist u @ [MemWrite (real_address (nd r)) [v] True]) = reg_fits nd r w"
    using t(2) [OF assms(1)] u(2) by (simp flip: reg_val_setting add: setting_def reg_val_def)
  then have "struck nd v0 A F r w (hist t)"
    using hu u(2) unfolding struck_def held_def by force
  moreover have "A (hist t)" using hu u(2) assms(3) by (simp add: held_def past_def)
  moreover have "set_at nd v0 (insert (r, w) F) (hist t)"
    unfolding set_at_def
  proof (intro ballI, clarify)
    fix c v
    assume c: "(c, v) \<in> insert (r, w) F"
    have "c \<in> R" "c = r \<longrightarrow> v = w" using s c assms(1,2) by (auto simp: held_def)
    moreover have "(c, v) \<in> F \<Longrightarrow> setting nd v0 c (hist s) = reg_fits nd c v" using s by (auto simp: held_def set_at_def)
    ultimately show "setting nd v0 c (hist t) = reg_fits nd c v"
      using t(2) [of c] c by (auto simp: reg_val_setting split: if_splits)
  qed
  ultimately show "held nd la R v0 (insert (r, w) F) (\<lambda>h. A h \<and> struck nd v0 A F r w h) t"
    using s t(1) assms(1) by (simp add: held_def)
qed

lemma yields_add:
  "r \<in> R \<Longrightarrow> (\<And>v. (r, v) \<in> F \<Longrightarrow> v = w) \<Longrightarrow> past A \<Longrightarrow> yields (held nd la R v0 F A) (writeReg la r w) (\<lambda>_. held nd la R v0 (insert (r, w) F) A)"
  by (rule yields_weaken [OF yields_struck]) (auto elim: held_sub)

lemma yields_keep:
  "r \<in> R \<Longrightarrow> (\<And>v. (r, v) \<in> F \<Longrightarrow> v = w) \<Longrightarrow> past A \<Longrightarrow> yields (held nd la R v0 F A) (writeReg la r w) (\<lambda>_. held nd la R v0 F A)"
  by (rule yields_weaken [OF yields_struck]) (auto elim: held_sub)

end
