(* ===== verification/ScanPoints.thy ===== *)
theory ScanPoints
  imports Settings Configure
begin

text \<open>
  What the points of a scan are. \<^verbatim>\<open>genScanLocal\<close> of \<^verbatim>\<open>src/calibration_routines.cpp\<close>, third firmware: the word in the place of a VFAT
  and a value of the scanned register was read from the counter of the VFAT with the registers set as the call asks for, and
  with the counters stopped, after a reset of the counters and a start of the triggers with the same settings.
\<close>

section \<open>One turn\<close>

abbreviation unmasked :: "u32 \<Rightarrow> nat set" where
  "unmasked nm \<equiv> {v. v < 24 \<and> bit nm v}"

lemma yields_settings:
  assumes "c ` unmasked nm \<subseteq> R" "c ` unmasked nm \<inter> fst ` F = {}" "past A"
  shows "yields (held nd la R v0 F A) (forM [0..<24] (\<lambda>v. whenM (bit nm v) (writeReg la (c v) d)))
    (\<lambda>_. held nd la R v0 (F \<union> (\<lambda>v. (c v, d)) ` unmasked nm) A)"
proof -
  let ?I = "\<lambda>S. held nd la R v0 (F \<union> (\<lambda>v. (c v, d)) ` (S \<inter> unmasked nm)) A"
  have one: "yields (?I S) (whenM (bit nm v) (writeReg la (c v) d)) (\<lambda>_. ?I (insert v S))" if v: "v \<in> set [0..<24]" for v S
  proof (rule yields_when)
    assume b: "bit nm v"
    with v have V: "v \<in> unmasked nm" by simp
    then have "c v \<notin> fst ` F" "c v \<in> R" using assms(1,2) by blast+
    then have "yields (?I S) (writeReg la (c v) d) (\<lambda>_. held nd la R v0 (insert (c v, d) (F \<union> (\<lambda>v. (c v, d)) ` (S \<inter> unmasked nm))) A)"
      by (intro yields_add assms(3)) (auto simp: image_iff)
    then show "yields (?I S) (writeReg la (c v) d) (\<lambda>_. ?I (insert v S))" using V by simp
  qed simp
  have "yields (?I {}) (forM [0..<24] (\<lambda>v. whenM (bit nm v) (writeReg la (c v) d))) (\<lambda>_. ?I ({} \<union> set [0..<24]))"
    by (rule yields_for) (rule one)
  moreover have "set [0..<24] \<inter> unmasked nm = unmasked nm" by auto
  ultimately show ?thesis by (simp del: upt_rec_numeral set_upt)
qed

text \<open>The register that starts the triggers, and all that a scan writes to for them.\<close>

definition trigger_reg :: "bool \<Rightarrow> string" where
  "trigger_reg useExtTrig = (if useExtTrig then ''GEM_AMC.TTC.CTRL.L1A_ENABLE'' else ttc_gen @ ''CYCLIC_START'')"

definition trigger_regs :: "bool \<Rightarrow> string set" where
  "trigger_regs useExtTrig = (if useExtTrig then {''GEM_AMC.TTC.CTRL.CNT_RESET'', trigger_reg True} else {trigger_reg False, ttc_gen @ ''SINGLE_RESYNC''})"

lemma quiet_waits:
  "preserves (extends no_write (\<lambda>k. True)) (l1a_wait la a n c)" "preserves (extends no_write (\<lambda>k. True)) (cyclic_wait la)"
  by (auto intro!: keeps cf.loop_keeps lf.loop_keeps simp: cyclic_turn_def l1a_turn_def)

lemma yields_triggers:
  assumes R: "trigger_regs ext \<subseteq> R - fst ` F" and A: "past A"
  shows "yields (held nd la R v0 F A) (scan_triggers la ext a nevts) (\<lambda>_. held nd la R v0 F (struck nd v0 A F (trigger_reg ext) 1))"
proof -
  let ?r = "trigger_reg ext"
  have r: "?r \<in> R" "\<And>v. (?r, v) \<notin> F" using R by (cases ext; force simp: trigger_regs_def)+
  have fire: "yields (held nd la R v0 F A) (writeReg la ?r 1) (\<lambda>_. held nd la R v0 F (struck nd v0 A F ?r 1))"
    using r A by (intro yields_weaken [OF yields_struck]) (auto elim: held_sub)
  have after: "yields (held nd la R v0 F (struck nd v0 A F ?r 1)) m (\<lambda>_. held nd la R v0 F (struck nd v0 A F ?r 1))"
    if "preserves (extends no_write (\<lambda>k. True)) m" for m :: "unit prog"
    using that by (rule yields_quiet) (rule past_struck)
  have read: "preserves (extends no_write (\<lambda>k. True)) (bindM (readReg la q) (\<lambda>e. whenM (e \<noteq> 0) (cyclic_wait la)))"
    "preserves (extends no_write (\<lambda>k. True)) (bindM (readRawAddress la a) (\<lambda>_. ret ()))" for q
    by (auto intro!: keeps quiet_waits)
  show ?thesis
  proof (cases ext)
    case True
    have reset: "yields (held nd la R v0 F A) (writeReg la ''GEM_AMC.TTC.CTRL.CNT_RESET'' 1) (\<lambda>_. held nd la R v0 F A)"
      using R True A by (intro yields_keep) (force simp: trigger_regs_def)+
    have stop: "yields (held nd la R v0 F (struck nd v0 A F ?r 1)) (writeReg la ?r 0) (\<lambda>_. held nd la R v0 F (struck nd v0 A F ?r 1))"
      using r by (intro yields_keep past_struck) auto
    have "?r = ''GEM_AMC.TTC.CTRL.L1A_ENABLE''" using True by (simp add: trigger_reg_def)
    note reg = this [symmetric]
    show ?thesis unfolding scan_triggers_def if_P [OF True] seqM.simps reg
      by (rule yields_then [OF reset yields_then [OF fire yields_then [OF after [OF quiet_waits(1)]
            yields_then [OF stop yields_then [OF after [OF read(2)] yields_ret]]]]])
  next
    case False
    then have "ttc_gen @ ''CYCLIC_START'' = ?r" by (simp add: trigger_reg_def)
    show ?thesis unfolding scan_triggers_def if_not_P [OF False] \<open>ttc_gen @ ''CYCLIC_START'' = ?r\<close>
      by (rule yields_then [OF fire after [OF read(1)]])
  qed
qed

lemma yields_raw_read:
  assumes "past A" "\<And>h. A h \<Longrightarrow> fired nd v0 U r h" "F \<subseteq> U"
  shows "yields (held nd la R v0 (insert (daq_enable, 0) U) A) (readRawAddress la a)
    (\<lambda>w. held nd la R v0 (insert (daq_enable, 0) U) (\<lambda>h. A h \<and> measured nd v0 F r a w h))"
proof (rule yieldsI)
  fix s w t
  assume s: "held nd la R v0 (insert (daq_enable, 0) U) A s" and run: "readRawAddress la a s = Some (Val w, t)"
  obtain x where x: "hist t = hist s @ [MemRead a 1 x]" "x = Some [w] \<or> x = None \<and> w = 0xdeaddead"
    using run
    by (auto simp: readRawAddress_def memhub_read_def memsvc_error_def last_error_def set_string_def prog_simps Let_def
        split: option.splits)
  have "fired nd v0 F r (hist s)" "set_at nd v0 (insert (daq_enable, 0) F) (hist s)"
    using s assms(2,3) by (auto simp: held_def intro: fired_sub elim: set_at_sub)
  then have "measured nd v0 F r a w (hist t)" unfolding measured_def using x by blast
  moreover have quiet: "preserves (extends no_write (\<lambda>k. True)) (readRawAddress la a)" by (auto intro!: keeps)
  ultimately show "held nd la R v0 (insert (daq_enable, 0) U) (\<lambda>h. A h \<and> measured nd v0 F r a w h) t"
    using yieldsD [OF yields_quiet [OF quiet assms(1)] s run] by (simp add: held_def)
qed

text \<open>The words of the VFATs \<open>S\<close> are in their places, the words outside of the places of this turn are as before.\<close>

definition pointed ::
  "(string \<Rightarrow> node) \<Rightarrow> (u32 \<Rightarrow> u32) \<Rightarrow> (nat \<Rightarrow> (string \<times> u32) set) \<Rightarrow> string \<Rightarrow> u32 list \<Rightarrow> (nat \<Rightarrow> nat) \<Rightarrow> nat set \<Rightarrow> nat set \<Rightarrow>
     u32 list \<Rightarrow> u32 list \<Rightarrow> event list \<Rightarrow> bool" where
  "pointed nd v0 F r as slot V S xs0 xs h \<longleftrightarrow> (\<forall>v\<in>S \<inter> V. measured nd v0 (F v) r (as ! v) (xs ! slot v) h) \<and>
     (\<forall>i. i \<notin> slot ` V \<longrightarrow> xs ! i = xs0 ! i)"

lemma past_pointed [pasts]: "past (pointed nd v0 F r as slot V S xs0 xs)"
  using past_measured unfolding pointed_def past_def by blast

lemma pointed_set:
  assumes "pointed nd v0 F r as slot V S xs0 xs h" "measured nd v0 (F v) r (as ! v) w h" "inj_on slot V" "v \<in> V" "slot v < length xs"
  shows "pointed nd v0 F r as slot V (insert v S) xs0 (xs[slot v := w]) h"
  unfolding pointed_def
proof (intro conjI ballI allI impI)
  fix u
  assume u: "u \<in> insert v S \<inter> V"
  show "measured nd v0 (F u) r (as ! u) (xs[slot v := w] ! slot u) h"
  proof (cases "u = v")
    case False
    then have "slot v \<noteq> slot u" using u assms(3,4) by (auto dest: inj_onD)
    then show ?thesis using False u assms(1) by (simp add: pointed_def)
  qed (use assms(2,5) in simp)
next
  fix i
  assume "i \<notin> slot ` V"
  then show "xs[slot v := w] ! i = xs0 ! i" using assms(1,4) unfolding pointed_def by (metis imageI nth_list_update_neq)
qed

lemma yields_result:
  assumes slot: "\<And>v. v < 24 \<Longrightarrow> unat (scan_idx v lo hi st d) = slot v" "inj_on slot (unmasked nm)" and v: "v < 24"
    and B: "past B" "\<And>h. B h \<Longrightarrow> fired nd v0 U r h" and F: "\<And>v. v \<in> unmasked nm \<Longrightarrow> F v \<subseteq> U"
  shows "yields (held nd la R v0 (insert (daq_enable, 0) U) (\<lambda>h. B h \<and> pointed nd v0 F r as slot (unmasked nm) S xs0 xs h))
    (scan_result la ohN nm lo hi st reg as d v xs)
    (\<lambda>ys. held nd la R v0 (insert (daq_enable, 0) U) (\<lambda>h. B h \<and> pointed nd v0 F r as slot (unmasked nm) (insert v S) xs0 ys h))"
proof (rule yieldsI)
  let ?V = "unmasked nm" and ?U = "insert (daq_enable, 0) U"
  let ?A = "\<lambda>S xs h. B h \<and> pointed nd v0 F r as slot ?V S xs0 xs h"
  fix s ys t
  assume s: "held nd la R v0 ?U (?A S xs) s" and run: "scan_result la ohN nm lo hi st reg as d v xs s = Some (Val ys, t)"
  show "held nd la R v0 ?U (?A (insert v S) ys) t"
  proof (cases "bit nm v")
    case False
    then have "ys = xs \<and> t = s" "insert v S \<inter> ?V = S \<inter> ?V" using run by (auto simp: scan_result_def ret_def)
    then show ?thesis using s by (simp add: pointed_def)
  next
    case True
    then have vV: "v \<in> ?V" using v by simp
    obtain w u where w: "readRawAddress la (as ! v) s = Some (Val w, u)" "slot v < length xs" "ys = xs[slot v := w]"
      and rest: "forM [cfg_reg ohN v reg, daq_mon @ ''VFAT'' @ dec v @ ''.CHANNEL_FIRE_COUNT'',
          daq_mon @ ''VFAT'' @ dec v @ ''.GOOD_EVENTS_COUNT'', cfg_reg ohN v ''THR_ARM_DAC'']
          (\<lambda>r. bindM (readReg la r) (\<lambda>_. ret ())) u = Some (Val (), t)"
      using run True slot(1) [OF v]
      by (auto simp: scan_result_def scan_slot_def arr_set_def thenM_def ret_def abortM_def simp del: forM.simps
          elim!: bindM_ValE split: if_splits)
    have past: "past (?A S xs)" for S xs by (intro pasts B)
    have fire: "?A S xs h \<Longrightarrow> fired nd v0 U r h" for h using B(2) by blast
    have "held nd la R v0 ?U (\<lambda>h. ?A S xs h \<and> measured nd v0 (F v) r (as ! v) w h) u"
      by (rule yieldsD [OF yields_raw_read [OF past fire F [OF vV]] s w(1)])
    then have u: "held nd la R v0 ?U (?A (insert v S) ys) u"
      unfolding w(3) by (rule held_sub) (blast intro: pointed_set [where F = F, OF _ _ slot(2) vV w(2)])+
    have "preserves (extends no_write (\<lambda>k. True)) (forM rs (\<lambda>r. bindM (readReg la r) (\<lambda>_. ret ())))" for rs
      by (auto intro!: keeps)
    from preservesD [OF this rest] u past show ?thesis by (rule held_quiet)
  qed
qed

lemma struck_past: "struck nd v0 A F r w h \<Longrightarrow> past A \<Longrightarrow> A h"
  unfolding struck_def past_def by blast

lemma struck_sub: "struck nd v0 A F r w h \<Longrightarrow> (\<And>h. A h \<Longrightarrow> B h) \<Longrightarrow> struck nd v0 B F r w h"
  unfolding struck_def by blast

lemma yields_dac:
  assumes F_def: "F = (\<lambda>v. insert (cfg_reg ohN v reg, d) (G v))" and GG_def: "GG = \<Union> (G ` unmasked nm)"
    and U_def: "U = \<Union> (F ` unmasked nm)"
    and slot: "\<And>v. v < 24 \<Longrightarrow> unat (scan_idx v lo hi st d) = slot v" "inj_on slot (unmasked nm)"
    and cfg: "(\<lambda>v. cfg_reg ohN v reg) ` unmasked nm \<subseteq> R" "(\<lambda>v. cfg_reg ohN v reg) ` unmasked nm \<inter> fst ` GG = {}"
    and regs: "trigger_regs ext \<union> {daq_reset, daq_enable} \<subseteq> R - fst ` U" and B: "past B"
  shows "yields (held nd la R v0 GG B) (scan_dac la ohN nm nevts lo hi st reg ext a as d xs)
    (\<lambda>r s. \<exists>ys. r = Inr ys \<and>
       held nd la R v0 GG (\<lambda>h. B h \<and> pointed nd v0 F (trigger_reg ext) as slot (unmasked nm) {..<24} xs ys h) s)"
proof -
  let ?A1 = "\<lambda>h. B h \<and> struck nd v0 (\<lambda>h. True) U daq_reset 1 h" and ?A2 = "\<lambda>h. B h \<and> fired nd v0 U (trigger_reg ext) h"
  let ?on = "insert (daq_enable, 1) U" and ?off = "insert (daq_enable, 0) U"
  let ?P = "\<lambda>S ys. pointed nd v0 F (trigger_reg ext) as slot (unmasked nm) S xs ys"
  have U: "GG \<union> (\<lambda>v. (cfg_reg ohN v reg, d)) ` unmasked nm = U" by (auto simp: U_def GG_def F_def)
  have fresh: "daq_reset \<in> R" "daq_enable \<in> R" "\<And>v. (daq_reset, v) \<notin> U" "\<And>v. (daq_enable, v) \<notin> U" using regs by force+
  have trig: "trigger_regs ext \<subseteq> R - fst ` ?on"
    using regs by (cases ext) (auto simp: trigger_regs_def trigger_reg_def)
  have set: "yields (held nd la R v0 GG B) (forM [0..<24] (\<lambda>v. whenM (bit nm v) (writeReg la (cfg_reg ohN v reg) d))) (\<lambda>_. held nd la R v0 U B)"
    using yields_settings [OF cfg B, of nd la v0 d] unfolding U .
  have past1: "past ?A1" by (intro pasts B past_struck)
  have reset: "yields (held nd la R v0 U B) (writeReg la daq_reset 1) (\<lambda>_. held nd la R v0 U ?A1)"
    using fresh B by (intro yields_weaken [OF yields_struck]) (auto elim!: held_sub struck_sub)
  have on: "yields (held nd la R v0 U ?A1) (writeReg la daq_enable 1) (\<lambda>_. held nd la R v0 ?on ?A1)"
    using fresh by (intro yields_add past1) auto
  have fire: "?A2 h" if "struck nd v0 ?A1 ?on (trigger_reg ext) 1 h" for h
    using struck_past [OF that past1] struck_sub [OF that] by (simp add: fired_def)
  have wait: "yields (held nd la R v0 ?on ?A1) (scan_triggers la ext a nevts) (\<lambda>_. held nd la R v0 U ?A2)"
    by (rule yields_weaken [OF yields_triggers [OF trig past1]]) (erule held_sub, blast, rule fire)
  have past2: "past ?A2" by (intro pasts B)
  have "yields (held nd la R v0 U ?A2) (writeReg la daq_enable 0) (\<lambda>_. held nd la R v0 ?off ?A2)"
    using fresh by (intro yields_add past2) auto
  then have off: "yields (held nd la R v0 U ?A2) (writeReg la daq_enable 0) (\<lambda>_. held nd la R v0 ?off (\<lambda>h. ?A2 h \<and> ?P {} xs h))"
    by (rule yields_weaken) (simp add: pointed_def)
  have fold: "yields (held nd la R v0 ?off (\<lambda>h. ?A2 h \<and> ?P {} xs h)) (foldM (scan_result la ohN nm lo hi st reg as d) [0..<24] xs)
      (\<lambda>ys. held nd la R v0 ?off (\<lambda>h. ?A2 h \<and> ?P ({} \<union> set [0..<24]) ys h))"
  proof (rule yields_fold)
    fix v ys S
    assume "v \<in> set [0..<24]"
    then have v: "v < 24" by simp
    show "yields (held nd la R v0 ?off (\<lambda>h. ?A2 h \<and> ?P S ys h)) (scan_result la ohN nm lo hi st reg as d v ys)
      (\<lambda>zs. held nd la R v0 ?off (\<lambda>h. ?A2 h \<and> ?P (insert v S) zs h))"
      by (rule yields_result [OF slot v past2]) (auto simp: U_def)
  qed
  have all: "{} \<union> set [0..<24] = {..<24 :: nat}" by (simp add: atLeast0LessThan del: upt_rec_numeral)
  show ?thesis
    unfolding scan_dac_def
    by (rule yields_then [OF set yields_then [OF reset yields_then [OF on yields_then [OF wait yields_then [OF off
          yields_bind [OF fold [unfolded all] yields_ret]]]]]])
      (use U in \<open>auto elim!: held_sub\<close>)
qed

section \<open>The scan\<close>

text \<open>The settings of turn \<open>k\<close>, and the points of the first \<open>n\<close> turns.\<close>

abbreviation turn_settings :: "u32 \<Rightarrow> string \<Rightarrow> u32 \<Rightarrow> u32 \<Rightarrow> (nat \<Rightarrow> (string \<times> u32) set) \<Rightarrow> nat \<Rightarrow> nat \<Rightarrow> (string \<times> u32) set" where
  "turn_settings ohN reg lo st G k v \<equiv> insert (cfg_reg ohN v reg, lo + of_nat k * st) (G v)"

definition points ::
  "(string \<Rightarrow> node) \<Rightarrow> (u32 \<Rightarrow> u32) \<Rightarrow> (nat \<Rightarrow> nat \<Rightarrow> (string \<times> u32) set) \<Rightarrow> string \<Rightarrow> u32 list \<Rightarrow> nat \<Rightarrow> nat set \<Rightarrow> nat \<Rightarrow> u32 list \<Rightarrow>
     event list \<Rightarrow> bool" where
  "points nd v0 F r as M V n xs h \<longleftrightarrow> (\<forall>k<n. \<forall>v\<in>V. measured nd v0 (F k v) r (as ! v) (xs ! (v * M + k)) h)"

lemma past_points [pasts]: "past (points nd v0 F r as M V n xs)"
  unfolding points_def by (intro pasts)

lemma points_le: "points nd v0 F r as M V m xs h \<Longrightarrow> n \<le> m \<Longrightarrow> points nd v0 F r as M V n xs h"
  by (simp add: points_def)

lemma points_none: "points nd v0 F r as M V 0 xs h"
  by (simp add: points_def)

lemma points_next:
  assumes "points nd v0 F r as M V n xs h" "pointed nd v0 (F n) r as (\<lambda>v. v * M + n) V S xs ys h" "V \<subseteq> S" "n < M"
  shows "points nd v0 F r as M V (Suc n) ys h"
  unfolding points_def
proof (intro allI impI ballI)
  fix k v
  assume k: "k < Suc n" and v: "v \<in> V"
  show "measured nd v0 (F k v) r (as ! v) (ys ! (v * M + k)) h"
  proof (cases "k = n")
    case False
    then have "k < n" using k by simp
    have "v * M + k \<noteq> u * M + n" for u
    proof
      assume "v * M + k = u * M + n"
      then have "(v * M + k) mod M = (u * M + n) mod M" by simp
      then show False using \<open>k < n\<close> assms(4) by simp
    qed
    then have "ys ! (v * M + k) = xs ! (v * M + k)" using assms(2) unfolding pointed_def by (simp add: image_iff)
    then show ?thesis using assms(1) \<open>k < n\<close> v by (simp add: points_def)
  qed (use assms(2,3) v in \<open>auto simp: pointed_def\<close>)
qed

lemma cfg_reg_other: "hd (drop 8 r) \<noteq> CHR ''O'' \<Longrightarrow> r \<noteq> cfg_reg ohN v reg"
  by (auto simp: cfg_reg_def vfat_reg_def oh_base_def)

lemma yields_scan_loop:
  assumes fits: "scan_fits 24 lo hi st" and le: "lo \<le> hi"
    and GG_def: "GG = \<Union> (G ` unmasked nm)"
    and cfg: "(\<lambda>v. cfg_reg ohN v reg) ` unmasked nm \<subseteq> R" "(\<lambda>v. cfg_reg ohN v reg) ` unmasked nm \<inter> fst ` GG = {}"
    and regs: "trigger_regs ext \<union> {daq_reset, daq_enable} \<subseteq> R - fst ` GG"
  shows "yields (held nd la R v0 GG (\<lambda>h. True)) (for_step hi st (scan_dac la ohN nm nevts lo hi st reg ext a as) lo xs)
    (\<lambda>r s. \<exists>ys. r = Inr ys \<and>
       points nd v0 (turn_settings ohN reg lo st G) (trigger_reg ext) as (scan_steps lo hi st) (unmasked nm) (scan_steps lo hi st) ys (hist s))"
proof -
  let ?M = "scan_steps lo hi st" and ?F = "turn_settings ohN reg lo st G" and ?V = "unmasked nm" and ?r = "trigger_reg ext"
  let ?J = "\<lambda>n ys. held nd la R v0 GG (points nd v0 ?F ?r as ?M ?V n ys)"
  have st: "st \<noteq> 0" "unat hi + unat st < 2 ^ LENGTH(32)" using fits scan_fits_step [OF fits] by (simp_all add: scan_fits_def)
  have dvd: "unat st dvd unat (hi - lo) + 1" and wide: "24 * (unat (hi - lo) + 1) < 2 ^ 32" using fits unfolding scan_fits_def by blast+
  have turn: "yields (?J n ys) (scan_dac la ohN nm nevts lo hi st reg ext a as d ys) (\<lambda>r s. \<exists>zs. r = Inr zs \<and> ?J (Suc n) zs s)"
    if d: "unat d = unat lo + n * unat st" "d \<le> hi" for n d ys
  proof -
    have "(of_nat (unat d) :: u32) = of_nat (unat lo + n * unat st)" using d(1) by simp
    then have d_eq: "d = lo + of_nat n * st" by simp
    have lo: "lo \<le> d" using d(1) by (simp add: word_le_nat_alt)
    then have "unat (d - lo) = n * unat st" using d(1) by (simp add: unat_sub)
    then have n: "unat (d - lo) div unat st = n" using scan_steps_pos [OF dvd] by simp
    have nM: "n < ?M" using scan_step_less [OF dvd lo d(2)] n by simp
    have slot: "unat (scan_idx v lo hi st d) = v * ?M + n" if "v < 24" for v
      using scan_idx_less(1) [OF wide dvd that lo d(2)] n by simp
    have inj: "inj_on (\<lambda>v. v * ?M + n) ?V" using nM by (intro inj_onI) auto
    have U: "\<Union> (?F n ` ?V) = GG \<union> (\<lambda>v. (cfg_reg ohN v reg, lo + of_nat n * st)) ` ?V" by (auto simp: GG_def)
    have "q \<noteq> cfg_reg ohN v reg" if "q \<in> trigger_regs ext \<union> {daq_reset, daq_enable}" for q v
      using that by (intro cfg_reg_other) (auto simp: trigger_regs_def trigger_reg_def split: if_splits)
    then have "trigger_regs ext \<union> {daq_reset, daq_enable} \<subseteq> R - fst ` \<Union> (?F n ` ?V)"
      using regs unfolding U by force
    have F: "?F n = (\<lambda>v. insert (cfg_reg ohN v reg, d) (G v))" by (simp add: d_eq)
    note dac = yields_dac [OF F GG_def refl slot inj cfg \<open>trigger_regs ext \<union> _ \<subseteq> R - fst ` \<Union> (?F n ` ?V)\<close> past_points]
    have V: "?V \<subseteq> {..<24}" by auto
    show ?thesis
      by (rule yields_weaken [OF dac], assumption, elim exE conjE, rule exI, rule conjI, assumption, erule held_sub, rule subset_refl)
        (blast intro: points_next [OF _ _ V nM])
  qed
  have loop: "yields (?J 0 xs) (for_step hi st (scan_dac la ohN nm nevts lo hi st reg ext a as) lo xs)
      (\<lambda>r s. \<exists>y m. r = Inr y \<and> unat hi < unat lo + m * unat st \<and> ?J m y s)"
    by (rule yields_for_step [where J = ?J, OF st turn]) auto
  have "?M \<le> m" if "unat hi < unat lo + m * unat st" for m
  proof -
    have "unat (hi - lo) + 1 \<le> m * unat st" using that le by (simp add: unat_sub word_le_nat_alt)
    then show ?thesis using scan_steps_pos [OF dvd] by (metis div_le_mono nonzero_mult_div_cancel_right less_not_refl)
  qed
  then show ?thesis
    by (intro yields_weaken [OF yields_pre [OF loop]]) (blast intro: held_sub points_none, blast intro: points_le dest: heldD)
qed

section \<open>The settings of a scan\<close>

text \<open>The calibration pulse, as \<^verbatim>\<open>confCalPulseLocal\<close> switches it on.\<close>

definition pulse_at :: "u32 \<Rightarrow> nat \<Rightarrow> u32 \<Rightarrow> bool \<Rightarrow> u32 \<Rightarrow> (string \<times> u32) set" where
  "pulse_at ohN v ch currentPulse calScaleFactor =
     insert (calpulse_reg ohN v ch, 1)
       (if currentPulse
        then {(vfat_reg ohN v ''CFG_CAL_MODE'', 2), (vfat_reg ohN v ''CFG_CAL_FS'', calScaleFactor), (vfat_reg ohN v ''CFG_CAL_DUR'', 0)}
        else {(vfat_reg ohN v ''CFG_CAL_MODE'', 1)})"

text \<open>The counters look at this OptoHybrid and channel.\<close>

definition monitor_at :: "u32 \<Rightarrow> u32 \<Rightarrow> (string \<times> u32) set" where
  "monitor_at ohN ch = insert (daq_mon @ ''CTRL.OH_SELECT'', ohN)
     (if ch > 127 then {(daq_mon @ ''CTRL.VFAT_CHANNEL_GLOBAL_OR'', 1)}
      else {(daq_mon @ ''CTRL.VFAT_CHANNEL_SELECT'', ch), (daq_mon @ ''CTRL.VFAT_CHANNEL_GLOBAL_OR'', 0)})"

definition scan_settings :: "u32 \<Rightarrow> nat \<Rightarrow> u32 \<Rightarrow> bool \<Rightarrow> bool \<Rightarrow> u32 \<Rightarrow> u32 \<Rightarrow> bool \<Rightarrow> (string \<times> u32) set" where
  "scan_settings ohN v ch useCalPulse currentPulse calScaleFactor nevts useExtTrig =
     monitor_at ohN ch \<union> (if useExtTrig then {} else {(ttc_gen @ ''CYCLIC_L1A_COUNT'', nevts)}) \<union>
     (if useCalPulse then pulse_at ohN v ch currentPulse calScaleFactor else {})"

lemma pulse_at_unique: "(q, x) \<in> pulse_at ohN v ch cur fs \<Longrightarrow> (q, y) \<in> pulse_at ohN u ch cur fs \<Longrightarrow> x = y"
  by (auto simp: pulse_at_def calpulse_reg_def vfat_reg_inj split: if_splits)

lemma yields_pulse:
  assumes R: "\<And>v. v < 24 \<Longrightarrow> \<not> bit vm v \<Longrightarrow> fst ` pulse_at ohN v ch cur fs \<subseteq> R"
  shows "yields (held nd la R v0 {} (\<lambda>h. True)) (confCalPulseLocal la ohN vm ch True cur fs)
    (\<lambda>ok s. if ok then held nd la R v0 (\<Union>v\<in>unmasked (not_mask vm). pulse_at ohN v ch cur fs) (\<lambda>h. True) s else \<not> ch < 128)"
proof (cases "ch \<ge> 128")
  case True
  then show ?thesis by (auto intro!: yieldsI simp: confCalPulseLocal_def Let_def thenM_def ret_def elim!: bindM_ValE)
next
  case False
  let ?p = "\<lambda>v. pulse_at ohN v ch cur fs" and ?nm = "not_mask vm"
  let ?I = "\<lambda>S. held nd la R v0 (\<Union> (?p ` (S \<inter> unmasked ?nm))) (\<lambda>h. True)"
  let ?w = "\<lambda>v. thenM (writeReg la (calpulse_reg ohN v ch) 0x1)
     (if cur then seqM [writeReg la (vfat_reg ohN v ''CFG_CAL_MODE'') 0x2, writeReg la (vfat_reg ohN v ''CFG_CAL_FS'') fs,
                        writeReg la (vfat_reg ohN v ''CFG_CAL_DUR'') 0x0]
      else writeReg la (vfat_reg ohN v ''CFG_CAL_MODE'') 0x1)"
  have one: "yields (?I S) (whenM (bit ?nm v) (?w v)) (\<lambda>_. ?I (insert v S))" if v: "v \<in> set [0..<24]" for v S
  proof (rule yields_when)
    assume b: "bit ?nm v"
    let ?D = "\<Union> (?p ` (S \<inter> unmasked ?nm))"
    have V: "v \<in> unmasked ?nm" using b v by simp
    then have r: "fst ` ?p v \<subseteq> R" using R [of v] by (simp add: not_mask_bit)
    have add: "yields (held nd la R v0 (E \<union> ?D) (\<lambda>h. True)) (writeReg la q x) (\<lambda>_. held nd la R v0 (insert (q, x) E \<union> ?D) (\<lambda>h. True))"
      if "(q, x) \<in> ?p v" "E \<subseteq> ?p v" for q x E
    proof -
      have "y = x" if "(q, y) \<in> E \<union> ?D" for y using that \<open>(q, x) \<in> ?p v\<close> \<open>E \<subseteq> ?p v\<close> pulse_at_unique by blast
      moreover have "q \<in> R" using r that(1) by force
      ultimately show ?thesis using yields_add [of q R "E \<union> ?D" x "\<lambda>h. True"] by (simp add: past_plain)
    qed
    have "yields (held nd la R v0 ({} \<union> ?D) (\<lambda>h. True)) (?w v) (\<lambda>_. held nd la R v0 (?p v \<union> ?D) (\<lambda>h. True))"
    proof (cases cur)
      case True
      have p: "?p v = {(vfat_reg ohN v ''CFG_CAL_DUR'', 0), (vfat_reg ohN v ''CFG_CAL_FS'', fs), (vfat_reg ohN v ''CFG_CAL_MODE'', 2), (calpulse_reg ohN v ch, 1)}"
        using True by (auto simp: pulse_at_def)
      show ?thesis
        unfolding if_P [OF True] seqM.simps
        by (rule yields_then [OF add yields_then [OF add yields_then [OF add yields_then [OF add yields_ret]]]])
          (auto simp: p)
    next
      case False
      have p: "?p v = {(vfat_reg ohN v ''CFG_CAL_MODE'', 1), (calpulse_reg ohN v ch, 1)}" using False by (auto simp: pulse_at_def)
      show ?thesis unfolding if_not_P [OF False] by (rule yields_weaken [OF yields_then [OF add add]]) (auto simp: p)
    qed
    moreover have "?p v \<union> ?D = \<Union> (?p ` (insert v S \<inter> unmasked ?nm))" using V by auto
    ultimately show "yields (?I S) (?w v) (\<lambda>_. ?I (insert v S))" by simp
  qed simp
  have all: "set [0..<24] \<inter> unmasked ?nm = unmasked ?nm" by auto
  have "yields (?I {}) (forM [0..<24] (\<lambda>v. whenM (bit ?nm v) (?w v))) (\<lambda>_. ?I ({} \<union> set [0..<24]))"
    by (rule yields_for) (rule one)
  then have "yields (held nd la R v0 {} (\<lambda>h. True)) (thenM (forM [0..<24] (\<lambda>v. whenM (bit ?nm v) (?w v))) (ret True))
      (\<lambda>ok s. if ok then held nd la R v0 (\<Union> (?p ` unmasked ?nm)) (\<lambda>h. True) s else \<not> ch < 128)"
    unfolding Un_empty_left all by (intro yields_then [OF _ yields_ret]) auto
  moreover have "confCalPulseLocal la ohN vm ch True cur fs = thenM (forM [0..<24] (\<lambda>v. whenM (bit ?nm v) (?w v))) (ret True)"
    using False by (simp add: confCalPulseLocal_def Let_def del: upt_rec_numeral)
  ultimately show ?thesis by simp
qed

lemma yields_fw:
  assumes "always_reads la release_major 3" "past A"
  shows "yields (held nd la R v0 F A) (fw_version_check la) (\<lambda>w s. w = 3 \<and> held nd la R v0 F A s)"
proof (rule yieldsI)
  fix s w t
  assume s: "held nd la R v0 F A s" and run: "fw_version_check la s = Some (Val w, t)"
  have "w = 3"
    using run always_reads_run [OF assms(1)]
    by (auto simp: fw_version_check_def thenM_def ret_def split: if_splits elim!: bindM_ValE)
  moreover have "preserves (extends no_write (\<lambda>k. True)) (fw_version_check la)"
    unfolding fw_version_check_def by (auto intro!: keeps)
  from yieldsD [OF yields_quiet [OF this assms(2)] s run] have "held nd la R v0 F A t" .
  ultimately show "w = 3 \<and> held nd la R v0 F A t" by blast
qed

lemma yields_monitor:
  assumes fw: "always_reads la release_major 3" and R: "fst ` monitor_at ohN ch \<union> {daq_reset, daq_enable} \<subseteq> R"
    and F: "fst ` F \<inter> (fst ` monitor_at ohN ch \<union> {daq_reset, daq_enable}) = {}" and A: "past A"
  shows "yields (held nd la R v0 F A) (dacMonConfLocal la ohN ch) (\<lambda>_. held nd la R v0 (monitor_at ohN ch \<union> F) A)"
proof -
  have keep: "yields (held nd la R v0 F A) (writeReg la q x) (\<lambda>_. held nd la R v0 F A)" if "q \<in> {daq_reset, daq_enable}" for q x
  proof -
    have "q \<in> R" "q \<notin> fst ` F" using that R F by blast+
    then show ?thesis by (intro yields_keep A) (auto simp: image_iff)
  qed
  have add: "yields (held nd la R v0 (E \<union> F) A) (writeReg la q x) (\<lambda>_. held nd la R v0 (insert (q, x) E \<union> F) A)"
    if "(q, x) \<in> monitor_at ohN ch" "E \<subseteq> monitor_at ohN ch" for q x E
  proof -
    have one: "x = y" if "(q, x) \<in> monitor_at ohN ch" "(q, y) \<in> monitor_at ohN ch" for q x y
      using that by (auto simp: monitor_at_def split: if_splits)
    have "q \<in> fst ` monitor_at ohN ch" using that(1) by force
    then have "q \<notin> fst ` F" using F by blast
    then have "(q, y) \<notin> F" for y by (auto simp: image_iff)
    then have "y = x" if "(q, y) \<in> E \<union> F" for y
      using that one [OF \<open>(q, x) \<in> monitor_at ohN ch\<close>, of y] \<open>E \<subseteq> monitor_at ohN ch\<close> by blast
    moreover have "q \<in> R" using R that(1) by force
    ultimately show ?thesis using yields_add [of q R "E \<union> F" x A] A by simp
  qed
  have select: "yields (held nd la R v0 F A) (writeReg la (daq_mon @ ''CTRL.OH_SELECT'') ohN)
      (\<lambda>_. held nd la R v0 ({(daq_mon @ ''CTRL.OH_SELECT'', ohN)} \<union> F) A)"
    using add [of _ _ "{}"] by (simp add: monitor_at_def)
  have channel: "yields (held nd la R v0 ({(daq_mon @ ''CTRL.OH_SELECT'', ohN)} \<union> F) A)
     (if ch > 127 then writeReg la (daq_mon @ ''CTRL.VFAT_CHANNEL_GLOBAL_OR'') 0x1
      else thenM (writeReg la (daq_mon @ ''CTRL.VFAT_CHANNEL_SELECT'') ch)
             (writeReg la (daq_mon @ ''CTRL.VFAT_CHANNEL_GLOBAL_OR'') 0x0))
     (\<lambda>_. held nd la R v0 (monitor_at ohN ch \<union> F) A)"
  proof (cases "ch > 127")
    case True
    show ?thesis unfolding if_P [OF True]
      by (rule yields_weaken [OF add]) (use True in \<open>auto simp: monitor_at_def elim: held_sub\<close>)
  next
    case False
    show ?thesis unfolding if_not_P [OF False]
      by (rule yields_weaken [OF yields_then [OF add add]]) (use False in \<open>auto simp: monitor_at_def elim: held_sub\<close>)
  qed
  have all: "yields (\<lambda>s. w = 3 \<and> held nd la R v0 F A s)
     (if w = 3 then
       seqM [writeReg la (daq_mon @ ''CTRL.ENABLE'') 0x0,
             writeReg la (daq_mon @ ''CTRL.RESET'') 0x1,
             writeReg la (daq_mon @ ''CTRL.OH_SELECT'') ohN,
             (if ch > 127 then writeReg la (daq_mon @ ''CTRL.VFAT_CHANNEL_GLOBAL_OR'') 0x1
              else thenM (writeReg la (daq_mon @ ''CTRL.VFAT_CHANNEL_SELECT'') ch)
                     (writeReg la (daq_mon @ ''CTRL.VFAT_CHANNEL_GLOBAL_OR'') 0x0))]
     else set_error ''dacMonConf is only supported in V3 electronics'')
     (\<lambda>_. held nd la R v0 (monitor_at ohN ch \<union> F) A)" for w
  proof (cases "w = 3")
    case True
    have "yields (\<lambda>s. w = 3 \<and> held nd la R v0 F A s) (writeReg la daq_enable 0) (\<lambda>_. held nd la R v0 F A)"
      by (rule yields_pre [OF keep]) auto
    then show ?thesis unfolding if_P [OF True] seqM.simps
      by (rule yields_then, intro yields_then [OF keep yields_then [OF select yields_then [OF channel yields_ret]]]) auto
  qed (simp add: yields_def)
  show ?thesis
    unfolding dacMonConfLocal_def by (rule yields_bind [OF yields_fw [OF fw A] all])
qed

text \<open>What the history shows is still shown after any program.\<close>

lemma yields_shown:
  assumes "preserves (extends (\<lambda>e. True) (\<lambda>k. True)) m" "past A"
  shows "yields (\<lambda>s. A (hist s)) m (\<lambda>x s. A (hist s))"
proof (rule yieldsI)
  fix s x t
  assume "A (hist s)" "m s = Some (Val x, t)"
  moreover from preservesD [OF assms(1) this(2)] obtain g where "hist t = hist s @ g" by (auto simp: extends_def)
  ultimately show "A (hist t)" using assms(2) by (simp add: past_def)
qed

lemma collect_addresses:
  "(\<And>v. v \<in> set xs \<Longrightarrow> has_node la (f v) (c v)) \<Longrightarrow>
     collectM xs (\<lambda>v. getAddress la (f v)) = ret (map (\<lambda>v. real_address (c v)) xs)"
proof (induction xs)
  case (Cons x xs)
  have "getAddress la (f x) = ret (real_address (c x))" using Cons.prems [of x] by (intro getAddress_node) simp
  then show ?case using Cons by simp
qed simp

text \<open>All registers that a scan of the third firmware writes to, but for the end of the calibration pulse.\<close>

definition scan_regs ::
  "u32 \<Rightarrow> u32 \<Rightarrow> u32 \<Rightarrow> bool \<Rightarrow> bool \<Rightarrow> u32 \<Rightarrow> u32 \<Rightarrow> string \<Rightarrow> bool \<Rightarrow> string set" where
  "scan_regs ohN vmask ch useCalPulse currentPulse calScaleFactor nevts scanReg useExtTrig =
     (\<Union>v\<in>unmasked (not_mask vmask). insert (cfg_reg ohN v scanReg)
        (fst ` scan_settings ohN v ch useCalPulse currentPulse calScaleFactor nevts useExtTrig)) \<union>
     trigger_regs useExtTrig \<union> {daq_reset, daq_enable}"

lemma fst_free: "q \<notin> fst ` F \<Longrightarrow> (q, v) \<notin> F"
  by force

lemma vfat_reg_other: "hd (drop 8 r) \<noteq> CHR ''O'' \<Longrightarrow> r \<noteq> vfat_reg ohN v q"
  by (auto simp: vfat_reg_def oh_base_def)

lemma pulse_regs_vfat: "q \<in> fst ` pulse_at ohN v ch cur fs \<Longrightarrow> \<exists>p. q = vfat_reg ohN v p"
  by (auto simp: pulse_at_def calpulse_reg_def split: if_splits)

lemma scan_reg_names:
  "q \<in> fst ` monitor_at ohN ch \<union> trigger_regs ext \<union> {daq_reset, daq_enable, ttc_gen @ ''CYCLIC_L1A_COUNT''} \<Longrightarrow> hd (drop 8 q) \<noteq> CHR ''O''"
  by (auto simp: monitor_at_def trigger_regs_def trigger_reg_def split: if_splits)

lemma cfg_reg_free:
  assumes "cal \<Longrightarrow> c_str reg \<notin> {''CAL_MODE'', ''CAL_FS'', ''CAL_DUR''}"
  shows "cfg_reg ohN u reg \<notin> fst ` scan_settings ohN v ch cal cur fs nevts ext"
proof
  assume q: "cfg_reg ohN u reg \<in> fst ` scan_settings ohN v ch cal cur fs nevts ext"
  have "cfg_reg ohN u reg \<notin> fst ` monitor_at ohN ch \<union> {ttc_gen @ ''CYCLIC_L1A_COUNT''}"
    using cfg_reg_other scan_reg_names by blast
  then have "cal" "cfg_reg ohN u reg \<in> fst ` pulse_at ohN v ch cur fs" using q by (auto simp: scan_settings_def split: if_splits)
  then show False using assms by (auto simp: pulse_at_def cfg_reg_def calpulse_reg_def vfat_reg_inj split: if_splits)
qed

text \<open>The settings before the loop.\<close>

lemma yields_before:
  assumes fw: "always_reads la release_major 3" and v: "v \<in> unmasked (not_mask vm)"
    and regs: "scan_regs ohN vm ch cal cur fs nevts reg ext \<subseteq> R"
  shows "yields (held nd la R v0 (\<Union>v\<in>unmasked (not_mask vm). if cal then pulse_at ohN v ch cur fs else {}) (\<lambda>h. True))
    (thenM (if ext
            then thenM (writeReg la ''GEM_AMC.TTC.CTRL.L1A_ENABLE'' 0x0) (writeReg la ''GEM_AMC.TTC.CTRL.CNT_RESET'' 0x1)
            else thenM (writeReg la (ttc_gen @ ''CYCLIC_L1A_COUNT'') nevts) (writeReg la (ttc_gen @ ''SINGLE_RESYNC'') 0x1))
      (dacMonConfLocal la ohN ch))
    (\<lambda>_. held nd la R v0 (\<Union>v\<in>unmasked (not_mask vm). scan_settings ohN v ch cal cur fs nevts ext) (\<lambda>h. True))"
proof -
  let ?V = "unmasked (not_mask vm)"
  let ?P = "\<Union>v\<in>?V. if cal then pulse_at ohN v ch cur fs else {}"
  let ?N = "if ext then {} else {(ttc_gen @ ''CYCLIC_L1A_COUNT'', nevts)}"
  have R: "fst ` monitor_at ohN ch \<union> fst ` ?N \<union> trigger_regs ext \<union> {daq_reset, daq_enable} \<subseteq> R"
    using regs v by (force simp: scan_regs_def scan_settings_def)
  have P: "q \<notin> fst ` ?P" if "hd (drop 8 q) \<noteq> CHR ''O''" for q
  proof
    assume "q \<in> fst ` ?P"
    then obtain v where "q \<in> fst ` pulse_at ohN v ch cur fs" by (auto split: if_splits)
    then show False using vfat_reg_other [OF that] pulse_regs_vfat by blast
  qed
  have count: "yields (held nd la R v0 ?P (\<lambda>h. True))
     (if ext
      then thenM (writeReg la ''GEM_AMC.TTC.CTRL.L1A_ENABLE'' 0x0) (writeReg la ''GEM_AMC.TTC.CTRL.CNT_RESET'' 0x1)
      else thenM (writeReg la (ttc_gen @ ''CYCLIC_L1A_COUNT'') nevts) (writeReg la (ttc_gen @ ''SINGLE_RESYNC'') 0x1))
     (\<lambda>_. held nd la R v0 (?N \<union> ?P) (\<lambda>h. True))"
  proof (cases ext)
    case True
    have keep: "yields (held nd la R v0 ?P (\<lambda>h. True)) (writeReg la q x) (\<lambda>_. held nd la R v0 ?P (\<lambda>h. True))"
      if "q \<in> trigger_regs ext" for q x
    proof -
      have "q \<in> R" "q \<notin> fst ` ?P" using P [OF scan_reg_names [of q ohN ch ext]] R that by blast+
      then show ?thesis by (intro yields_keep past_plain) (blast dest: fst_free)+
    qed
    show ?thesis using True yields_then [OF keep keep] by (simp add: trigger_regs_def trigger_reg_def)
  next
    case False
    have "ttc_gen @ ''CYCLIC_L1A_COUNT'' \<in> R" "ttc_gen @ ''SINGLE_RESYNC'' \<in> R" using R False by (auto simp: trigger_regs_def)
    moreover have "ttc_gen @ ''CYCLIC_L1A_COUNT'' \<notin> fst ` ?P" "ttc_gen @ ''SINGLE_RESYNC'' \<notin> fst ` ?P" by (rule P, simp)+
    ultimately show ?thesis unfolding if_not_P [OF False]
      by (intro yields_then [OF yields_add yields_weaken [OF yields_keep]] past_plain) (auto dest: fst_free)
  qed
  have "q \<notin> fst ` (?N \<union> ?P)" if q: "q \<in> fst ` monitor_at ohN ch \<union> {daq_reset, daq_enable}" for q
  proof -
    have "q \<notin> fst ` ?P" using P scan_reg_names q by blast
    moreover have "q \<noteq> ttc_gen @ ''CYCLIC_L1A_COUNT''" using q by (auto simp: monitor_at_def split: if_splits)
    ultimately show ?thesis by (auto split: if_splits)
  qed
  then have "fst ` (?N \<union> ?P) \<inter> (fst ` monitor_at ohN ch \<union> {daq_reset, daq_enable}) = {}" by blast
  then have mon: "yields (held nd la R v0 (?N \<union> ?P) (\<lambda>h. True)) (dacMonConfLocal la ohN ch)
      (\<lambda>_. held nd la R v0 (monitor_at ohN ch \<union> (?N \<union> ?P)) (\<lambda>h. True))"
    using R by (intro yields_monitor fw past_plain) auto
  have settings: "monitor_at ohN ch \<union> (?N \<union> ?P) = (\<Union>v\<in>?V. scan_settings ohN v ch cal cur fs nevts ext)"
    unfolding scan_settings_def using v by auto
  show ?thesis by (rule yields_then [OF count mon [unfolded settings]])
qed

lemma yields_gen_scan:
  fixes xs :: "u32 list"
  defines "pts \<equiv> \<lambda>nd v0 ohN vm ch cal cur fs nevts lo hi st reg ext cnt.
    points nd v0 (turn_settings ohN reg lo st (\<lambda>v. scan_settings ohN v ch cal cur fs nevts ext)) (trigger_reg ext)
      (map (\<lambda>v. real_address (cnt v)) [0..<24]) (scan_steps lo hi st) (unmasked (not_mask vm)) (scan_steps lo hi st)"
  assumes fw: "always_reads la release_major 3" and v: "v \<in> unmasked (not_mask vm)"
    and regs: "scan_regs ohN vm ch cal cur fs nevts reg ext \<subseteq> R" and free: "cal \<Longrightarrow> c_str reg \<notin> {''CAL_MODE'', ''CAL_FS'', ''CAL_DUR''}"
    and counters: "\<And>v. v < 24 \<Longrightarrow> has_node la (daq_mon @ ''VFAT'' @ dec v @ ''.GOOD_EVENTS_COUNT'') (cnt v)"
    and fits: "scan_fits 24 lo hi st" "lo \<le> hi" and ch: "cal \<Longrightarrow> ch < 128"
  shows "yields (\<lambda>s. held nd la R v0 {} (\<lambda>h. True) s \<and> (\<exists>u. checked_vfats la ohN vm cur fs s = Some (Val True, u)))
    (gen_scan_v3 la xs ohN vm ch cal cur fs nevts lo hi st reg ext)
    (\<lambda>ys s. pts nd v0 ohN vm ch cal cur fs nevts lo hi st reg ext cnt ys (hist s))"
    (is "yields ?Checked _ ?Done")
proof -
  let ?V = "unmasked (not_mask vm)" and ?as = "map (\<lambda>v. real_address (cnt v)) [0..<24]"
  let ?P = "\<Union>v\<in>?V. if cal then pulse_at ohN v ch cur fs else {}"
  let ?G = "\<lambda>v. scan_settings ohN v ch cal cur fs nevts ext"
  let ?D = "pts nd v0 ohN vm ch cal cur fs nevts lo hi st reg ext cnt"
  have past: "past (?D ys)" for ys unfolding pts_def by (intro pasts)
  have quiet: "preserves (extends no_write (\<lambda>k. True)) (checked_vfats la ohN vm cur fs)"
    unfolding checked_vfats_def vfatSyncCheckLocal_def by (auto intro!: keeps)
  have good: "yields ?Checked (checked_vfats la ohN vm cur fs) (\<lambda>good s. good \<and> held nd la R v0 {} (\<lambda>h. True) s)"
    using yieldsD [OF yields_quiet [OF quiet past_plain(1)]] by (intro yieldsI) auto
  have conf: "yields (held nd la R v0 {} (\<lambda>h. True)) (if cal then confCalPulseLocal la ohN vm ch True cur fs else ret True)
      (\<lambda>ok s. ok \<and> held nd la R v0 ?P (\<lambda>h. True) s)"
  proof (cases cal)
    case True
    have "fst ` pulse_at ohN v ch cur fs \<subseteq> R" if "v < 24" "\<not> bit vm v" for v
    proof -
      have "v \<in> ?V" using that by (simp add: not_mask_bit)
      then show ?thesis using regs True by (force simp: scan_regs_def scan_settings_def)
    qed
    from yields_pulse [OF this] show ?thesis unfolding if_P [OF True] by (rule yields_weaken) (use ch [OF True] in \<open>auto split: if_splits\<close>)
  qed (auto intro: yields_ret)
  have cfg: "(\<lambda>v. cfg_reg ohN v reg) ` ?V \<subseteq> R" "(\<lambda>v. cfg_reg ohN v reg) ` ?V \<inter> fst ` \<Union> (?G ` ?V) = {}"
    using regs cfg_reg_free [of cal reg, OF free] by (auto simp: scan_regs_def) (blast dest: fst_free)+
  have "q \<in> R - fst ` \<Union> (?G ` ?V)" if q: "q \<in> trigger_regs ext \<union> {daq_reset, daq_enable}" for q
  proof -
    have "q \<noteq> vfat_reg ohN v p" for v p using vfat_reg_other scan_reg_names q by blast
    then have "q \<notin> fst ` pulse_at ohN v ch cur fs" for v using pulse_regs_vfat by blast
    moreover have "q \<notin> fst ` monitor_at ohN ch" "q \<noteq> ttc_gen @ ''CYCLIC_L1A_COUNT''"
      using q by (auto simp: monitor_at_def trigger_regs_def trigger_reg_def split: if_splits)
    ultimately have "q \<notin> fst ` ?G v" for v by (auto simp: scan_settings_def)
    moreover have "q \<in> R" using q regs by (auto simp: scan_regs_def)
    ultimately show ?thesis by auto
  qed
  then have free_regs: "trigger_regs ext \<union> {daq_reset, daq_enable} \<subseteq> R - fst ` \<Union> (?G ` ?V)" by blast
  have off: "yields (\<lambda>s. ?D ys (hist s)) (bindM (if cal then confCalPulseLocal la ohN vm ch False cur fs else ret True)
      (\<lambda>ok. thenM (whenM (\<not> ok) (set_error (calpulse_error ''OFF'' ohN vm ch))) (ret ys))) ?Done" for ys
  proof -
    have "preserves (extends (\<lambda>e. True) (\<lambda>k. True)) (bindM (if cal then confCalPulseLocal la ohN vm ch False cur fs else ret True)
        (\<lambda>ok. whenM (\<not> ok) (set_error (calpulse_error ''OFF'' ohN vm ch))))"
      unfolding confCalPulseLocal_def Let_def by (auto intro!: keeps)
    from yields_then [OF yields_shown [OF this past [of ys]] yields_ret [where x = ys and Q = ?Done]]
    show ?thesis by (simp add: thenM_def)
  qed
  have loop: "yields (held nd la R v0 (\<Union> (?G ` ?V)) (\<lambda>h. True))
     (bindM (for_step hi st (scan_dac la ohN (not_mask vm) nevts lo hi st reg ext a ?as) lo xs) (\<lambda>r.
         bindM (ret (case r of Inl _ \<Rightarrow> xs | Inr d \<Rightarrow> d)) (\<lambda>outData.
         bindM (if cal then confCalPulseLocal la ohN vm ch False cur fs else ret True) (\<lambda>conf.
         thenM (whenM (\<not> conf) (set_error (calpulse_error ''OFF'' ohN vm ch)))
           (ret outData))))) ?Done" for a
  proof (rule yields_bind [OF yields_scan_loop [OF fits refl cfg free_regs]])
    fix r
    show "yields (\<lambda>s. \<exists>ys. r = Inr ys \<and> points nd v0 (turn_settings ohN reg lo st ?G) (trigger_reg ext) ?as (scan_steps lo hi st) ?V
         (scan_steps lo hi st) ys (hist s))
      (bindM (ret (case r of Inl _ \<Rightarrow> xs | Inr d \<Rightarrow> d)) (\<lambda>outData.
         bindM (if cal then confCalPulseLocal la ohN vm ch False cur fs else ret True) (\<lambda>conf.
         thenM (whenM (\<not> conf) (set_error (calpulse_error ''OFF'' ohN vm ch)))
           (ret outData)))) ?Done"
      using off by (cases r) (simp_all add: yields_def pts_def)
  qed
  have addr: "yields (held nd la R v0 ?P (\<lambda>h. True)) (getAddress la r) (\<lambda>_. held nd la R v0 ?P (\<lambda>h. True))" for r
    by (rule yields_quiet [OF _ past_plain(1)]) (auto intro!: keeps)
  have as: "collectM [0..<24] (\<lambda>v. getAddress la (daq_mon @ ''VFAT'' @ dec v @ ''.GOOD_EVENTS_COUNT'')) = ret ?as"
    by (rule collect_addresses, rule counters) simp
  note before = yields_then [OF yields_before [OF fw v regs] loop, unfolded thenM_assoc bindM_ret]
  show ?thesis
    unfolding gen_scan_v3_def
    by (rule yields_bind [OF good], rule yields_if, simp add: yields_def, rule yields_bind [OF yields_pre [OF conf]], blast,
        rule yields_if, simp add: yields_def, rule yields_bind [OF yields_pre [OF addr]], blast, subst as, unfold bindM_ret, rule before)
qed

text \<open>
  C11 (a scan measures what it was asked for): after a scan of the third firmware, the word in the place of every
  unmasked VFAT and every value of the scanned register was read from the counter of the VFAT, with
  the register at this value, the monitor at the requested OptoHybrid and channel, the number of triggers and the
  calibration pulse as requested, and with stopped counters, after the counters were reset, enabled and the triggers started with
  the same settings.
\<close>

theorem scan_points_measured:
  assumes ok: "reg_ok la nd R v0 s" and regs: "scan_regs ohN vm ch cal cur fs nevts reg ext \<subseteq> R"
    and fw: "always_reads la release_major 3"
    and counters: "\<And>v. v < 24 \<Longrightarrow> has_node la (daq_mon @ ''VFAT'' @ dec v @ ''.GOOD_EVENTS_COUNT'') (cnt v)"
    and fits: "scan_fits 24 lo hi st" "lo \<le> hi"
    and pulse: "cal \<Longrightarrow> ch < 128 \<and> c_str reg \<notin> {''CAL_MODE'', ''CAL_FS'', ''CAL_DUR''}"
    and synced: "thenM (bindM (fw_version_check la) (\<lambda>_. ret ())) (checked_vfats la ohN vm cur fs) s = Some (Val True, u)"
    and run: "genScanLocal la xs ohN vm ch cal cur fs nevts lo hi st reg ultra ext s = Some (Val ys, t)"
    and point: "v < 24" "\<not> bit vm v" "k < scan_steps lo hi st"
  shows "measured nd v0 (insert (cfg_reg ohN v reg, lo + of_nat k * st) (scan_settings ohN v ch cal cur fs nevts ext))
    (trigger_reg ext) (real_address (cnt v)) (ys ! (v * scan_steps lo hi st + k)) (hist t)"
proof -
  have V: "v \<in> unmasked (not_mask vm)" using point by (simp add: not_mask_bit)
  have s: "held nd la R v0 {} (\<lambda>h. True) s" using ok by (simp add: held_def set_at_def)
  obtain w s' where w: "fw_version_check la s = Some (Val w, s')"
    and rest: "(if w = 3 then gen_scan_v3 la xs ohN vm ch cal cur fs nevts lo hi st reg ext
       else if w = 1 then gen_scan_v1 la xs ohN vm ch cal nevts lo hi st reg ultra else ret xs) s' = Some (Val ys, t)"
    using run unfolding genScanLocal_def by (auto elim!: bindM_ValE)
  have s': "w = 3" "held nd la R v0 {} (\<lambda>h. True) s'" using yieldsD [OF yields_fw [OF fw past_plain(1)] s w] by blast+
  have check: "checked_vfats la ohN vm cur fs s' = Some (Val True, u)"
    using synced w by (simp add: thenM_def bindM_cases ret_def)
  have free: "cal \<Longrightarrow> c_str reg \<notin> {''CAL_MODE'', ''CAL_FS'', ''CAL_DUR''}" and ch: "cal \<Longrightarrow> ch < 128" using pulse by blast+
  have "points nd v0 (turn_settings ohN reg lo st (\<lambda>v. scan_settings ohN v ch cal cur fs nevts ext)) (trigger_reg ext)
      (map (\<lambda>v. real_address (cnt v)) [0..<24]) (scan_steps lo hi st) (unmasked (not_mask vm)) (scan_steps lo hi st) ys (hist t)"
    using yieldsD [OF yields_gen_scan [OF fw V regs free counters fits ch]] s'(2) check rest [unfolded if_P [OF s'(1)]] by blast
  then have "measured nd v0 (turn_settings ohN reg lo st (\<lambda>v. scan_settings ohN v ch cal cur fs nevts ext) k v) (trigger_reg ext)
      (map (\<lambda>v. real_address (cnt v)) [0..<24] ! v) (ys ! (v * scan_steps lo hi st + k)) (hist t)"
    using V point(3) unfolding points_def by blast
  moreover have "map (\<lambda>v. real_address (cnt v)) [0..<24] ! v = real_address (cnt v)" using point(1) by (simp del: upt_rec_numeral)
  ultimately show ?thesis by simp
qed

text \<open>
  A test bench for the example: VFAT 0 of OptoHybrid 0 is in sync, the firmware (word 1) is the third, the
  generator (word 2) has sent its triggers at once, and the counter of VFAT 0 (word 3) shows 77.
\<close>

definition bench_special :: "string list" where
  "bench_special = [release_major, ttc_gen @ ''CYCLIC_RUNNING'', daq_mon @ ''VFAT0.GOOD_EVENTS_COUNT'']"

definition bench_links :: "string list" where
  "bench_links = map (\<lambda>v. link_leaf 0 v ''LINK_GOOD'') [1..<24] @ map (\<lambda>v. link_leaf 0 v ''SYNC_ERR_CNT'') [0..<24]"

definition bench_scan :: "string list" where
  "bench_scan = [cfg_reg 0 0 ''CAL_DAC'', calpulse_reg 0 0 5, vfat_reg 0 0 ''CFG_CAL_MODE'', daq_mon @ ''CTRL.OH_SELECT'',
     daq_mon @ ''CTRL.VFAT_CHANNEL_SELECT'', daq_mon @ ''CTRL.VFAT_CHANNEL_GLOBAL_OR'', ttc_gen @ ''CYCLIC_L1A_COUNT'',
     ttc_gen @ ''CYCLIC_START'', ttc_gen @ ''SINGLE_RESYNC'', daq_reset, daq_enable]"

definition bench_regs :: "string list" where
  "bench_regs = link_leaf 0 0 ''LINK_GOOD'' # bench_special @ bench_links @ bench_scan"

definition bench_word :: "event list \<Rightarrow> u32 \<Rightarrow> u32" where
  "bench_word h a = (if a = 1 then 3 else if a = 2 then 0 else if a = 3 then 77 else cell a 0 h)"

definition bench_env :: localArgs where
  "bench_env = (flat_env bench_regs)\<lparr>mem_rd := (\<lambda>h a n. Some (\<lambda>i. bench_word h (a + of_nat i)))\<rparr>"

lemma bench_node: "CHR 0x00 \<notin> set r \<Longrightarrow> has_node bench_env r (flat_node bench_regs r)"
  by (simp add: has_node_def bench_env_def flat_env_def ram_env_db c_str_id wf_node_def clean_def flat_node_def)

lemma bench_fields:
  "real_address (flat_node bench_regs release_major) = 1" "real_address (flat_node bench_regs ''GEM_AMC.TTC.GENERATOR.CYCLIC_RUNNING'') = 2"
  "real_address (flat_node bench_regs ''GEM_AMC.GEM_TESTS.VFAT_DAQ_MONITOR.VFAT0.GOOD_EVENTS_COUNT'') = 3"
  "node_mask (flat_node bench_regs r) = 0xFFFFFFFF" "CHR ''r'' \<in> set (permission (flat_node bench_regs r))"
  by (simp_all add: flat_node_def bench_regs_def bench_special_def place_def link_leaf_def)

abbreviation bench_ram :: "string set" where
  "bench_ram \<equiv> set bench_regs - set bench_special"

lemma bench_ok: "reg_ok bench_env (flat_node bench_regs) bench_ram (\<lambda>a. 0) s"
proof -
  have clean: "CHR 0x00 \<notin> set r" if "r \<in> set bench_regs" for r
    using that
    by (auto simp: bench_regs_def bench_special_def bench_links_def bench_scan_def link_leaf_def cfg_reg_def calpulse_reg_def vfat_reg_def
        oh_base_def fmt_i_no_nul dec_no_nul c_str_def dest: set_takeWhileD)
  have flat: "wf_table (flat_env bench_regs) (flat_node bench_regs) (set bench_regs)"
    using flat_ok [of bench_regs, OF _ clean] by (simp add: reg_ok_def bench_regs_def bench_special_def bench_links_def bench_scan_def)
  have special: "real_address (flat_node bench_regs r) \<notin> {1, 2, 3}" if r: "r \<in> bench_ram" for r
  proof -
    have "real_address (flat_node bench_regs r) \<noteq> real_address (flat_node bench_regs q)" if "q \<in> set bench_special" for q
    proof -
      have "r \<in> set bench_regs" "q \<in> set bench_regs" "r \<noteq> q" using r that by (auto simp: bench_regs_def)
      then show ?thesis using flat by (fastforce simp: wf_table_def bench_fields(4))
    qed
    then show ?thesis using bench_fields(1-3) by (force simp: bench_special_def)
  qed
  then have "ram_on bench_env (real_address ` flat_node bench_regs ` bench_ram) (\<lambda>a. 0)"
    by (force simp: ram_on_def bench_env_def bench_word_def flat_env_def ram_env_def)
  moreover have "wf_table bench_env (flat_node bench_regs) bench_ram"
    using flat by (auto simp: wf_table_def bench_env_def has_node_def)
  ultimately show ?thesis by (simp add: reg_ok_def guarded_def bench_fields(4))
qed

lemma bench_shows: "shows_at bench_env a P = (\<lambda>h. P (bench_word h a))"
  by (simp add: shows_at_def bench_env_def fun_eq_iff)

lemma bench_v3: "always_reads bench_env release_major 3"
  unfolding always_reads_def always_shows_def
  by (intro exI [of _ "flat_node bench_regs release_major"])
    (simp add: bench_node bench_fields bench_shows applyMask_full bench_word_def)

lemma bench_generator: "settles_reg bench_env 1 (ttc_gen @ ''CYCLIC_RUNNING'') (\<lambda>v. v = 0)"
  unfolding settles_reg_def settles_def
  by (intro exI [of _ "flat_node bench_regs ''GEM_AMC.TTC.GENERATOR.CYCLIC_RUNNING''"])
    (auto simp: bench_node bench_fields bench_shows applyMask_full bench_word_def)

lemma bench_wf: "wf_db bench_env"
  using flat_wf_db [of bench_regs] by (simp add: wf_db_def bench_env_def)

lemma bench_mask: "not_mask 0xFFFFFE = 1"
  unfolding not_mask_def by code_simp

lemma bench_synced:
  "\<exists>u. thenM (bindM (fw_version_check bench_env) (\<lambda>_. ret ())) (checked_vfats bench_env 0 0xFFFFFE False 0) chan_start = Some (Val True, u)"
proof -
  let ?nd = "flat_node bench_regs" and ?v0 = "\<lambda>a :: u32. 0 :: u32"
  obtain r s where r: "fw_version_check bench_env chan_start = Some (r, s)" using returnsD [OF returns_cal_setup(3)] by blast
  have "case r of Val w \<Rightarrow> True | Abort e \<Rightarrow> False"
    using sound_cal_setup(3) [OF bench_wf, of "\<lambda>e. False"] r unfolding sound_def ends_def by blast
  then obtain w where fw: "fw_version_check bench_env chan_start = Some (Val w, s)" using r by (cases r) auto
  have "preserves (extends no_write (\<lambda>k. True)) (fw_version_check bench_env)"
    unfolding fw_version_check_def by (auto intro!: keeps)
  note s = reg_quiet [OF preservesD [OF this fw] bench_ok]
  have links: "link_leaf 0 v ''LINK_GOOD'' \<in> bench_ram \<and> link_leaf 0 v ''SYNC_ERR_CNT'' \<in> bench_ram" if v: "v < 24" for v
  proof -
    have "link_leaf 0 v ''LINK_GOOD'' \<in> set bench_regs" using v
      by (cases "v = 0") (auto simp: bench_regs_def bench_links_def simp del: upt_rec_numeral)
    moreover have "link_leaf 0 v ''SYNC_ERR_CNT'' \<in> set bench_regs" using v
      by (auto simp: bench_regs_def bench_links_def simp del: upt_rec_numeral)
    ultimately show ?thesis by (simp add: bench_special_def link_leaf_def)
  qed
  then obtain good t where good: "vfatSyncCheckLocal bench_env 0 s = Some (Val good, t)" "\<forall>v<24. bit good v \<longleftrightarrow> in_sync ?nd ?v0 0 s v"
    using vfatSyncCheckLocal_run [OF conjunct1 [OF s]] by blast
  have "in_sync ?nd ?v0 0 chan_start 0"
    using links [of 0]
    by (intro first_in_sync) (auto simp: bench_regs_def bench_special_def bench_links_def bench_scan_def simp del: upt_rec_numeral)
  then have "in_sync ?nd ?v0 0 s 0" using s links [of 0] by (simp add: in_sync_def)
  then have "bit good 0" using good(2) by simp
  then have "1 AND good = 1" by (simp add: one_and_eq odd_iff_mod_2_eq_one bit_0)
  then have "checked_vfats bench_env 0 0xFFFFFE False 0 s = Some (Val True, t)"
    using good(1) by (simp add: checked_vfats_def bench_mask bindM_Val ret_def)
  then show ?thesis using fw by (simp add: thenM_def bindM_cases ret_def)
qed

theorem scan_points_measured_witness:
  "\<exists>ys t. genScanLocal bench_env (replicate 96 0) 0 0xFFFFFE 5 True False 0 100 0 3 1 ''CAL_DAC'' False False chan_start = Some (Val ys, t)
     \<and> measured (flat_node bench_regs) (\<lambda>a. 0)
         (insert (cfg_reg 0 0 ''CAL_DAC'', 2) (scan_settings 0 0 5 True False 0 100 False)) (trigger_reg False) 3 (ys ! 2) (hist t)"
proof -
  let ?run = "genScanLocal bench_env (replicate 96 0) 0 0xFFFFFE 5 True False 0 100 0 3 1 ''CAL_DAC'' False False"
  have fits: "scan_fits 24 0 3 1" by (simp add: scan_fits_def)
  have "scan_waits bench_env 1 0 100 False" using bench_v3 bench_generator by (simp add: scan_waits_def)
  then have "returns ?run" by (rule returns_genScanLocal) simp_all
  then obtain r t where r: "?run chan_start = Some (r, t)" by (blast dest: returnsD)
  have room: "24 * scan_steps 0 3 1 \<le> length (replicate 96 (0 :: u32))" by simp
  note val = ends_genScanLocal [where E = "\<lambda>e. False", OF bench_wf fits room, unfolded ends_def, rule_format, OF r]
  then obtain ys where run: "?run chan_start = Some (Val ys, t)" using r by (cases r) auto
  obtain u where synced: "thenM (bindM (fw_version_check bench_env) (\<lambda>_. ret ())) (checked_vfats bench_env 0 0xFFFFFE False 0) chan_start = Some (Val True, u)"
    using bench_synced by blast
  have "unmasked (not_mask 0xFFFFFE) = {0}" by (auto simp: bench_mask bit_1_iff)
  then have regs: "scan_regs 0 0xFFFFFE 5 True False 0 100 ''CAL_DAC'' False \<subseteq> bench_ram"
    by (simp add: scan_regs_def scan_settings_def monitor_at_def pulse_at_def trigger_regs_def trigger_reg_def bench_regs_def bench_scan_def
        bench_special_def cfg_reg_def calpulse_reg_def vfat_reg_def oh_base_def)
  have counters: "has_node bench_env (daq_mon @ ''VFAT'' @ dec v @ ''.GOOD_EVENTS_COUNT'')
      (flat_node bench_regs (daq_mon @ ''VFAT'' @ dec v @ ''.GOOD_EVENTS_COUNT''))" for v
    by (rule bench_node) (simp add: dec_no_nul)
  have "dec 0 = ''0''" by code_simp
  then have "real_address (flat_node bench_regs (daq_mon @ ''VFAT'' @ dec 0 @ ''.GOOD_EVENTS_COUNT'')) = 3" using bench_fields(3) by simp
  moreover have "c_str ''CAL_DAC'' = ''CAL_DAC''" by (rule c_str_id) simp
  then have "measured (flat_node bench_regs) (\<lambda>a. 0) (insert (cfg_reg 0 0 ''CAL_DAC'', 0 + of_nat 2 * 1) (scan_settings 0 0 5 True False 0 100 False))
      (trigger_reg False) (real_address (flat_node bench_regs (daq_mon @ ''VFAT'' @ dec 0 @ ''.GOOD_EVENTS_COUNT'')))
      (ys ! (0 * scan_steps 0 3 1 + 2)) (hist t)"
    by (intro scan_points_measured [OF bench_ok regs bench_v3 counters fits _ _ synced run]) (simp_all add: mask_one_bit)
  ultimately show ?thesis using run by (auto simp: numeral_2_eq_2)
qed

end
