(* ===== verification/Lmdb.thy ===== *)
theory Lmdb
  imports TableStore
begin

text \<open>
  The C++ classes of \<^verbatim>\<open>include/lmdb_cpp_wrapper.h\<close> through which the modules use LMDB: return codes that become
  exceptions, and objects for an environment, a transaction and a data base that release their handles when
  they go out of scope. The C library is a parameter (\<open>lmdb\<close>): what it returns depends on the calls before. Its calls
  are recorded, and \<open>orderly\<close> says which sequences the documentation of LMDB allows.
\<close>

section \<open>The C library\<close>

type_synonym handle = nat

text \<open>A handle that is 0 is the null pointer.\<close>

datatype mdb_code = MDB_SUCCESS | MDB_KEYEXIST | MDB_NOTFOUND | MDB_CORRUPTED | MDB_PANIC | MDB_VERSION_MISMATCH
  | MDB_MAP_FULL | MDB_BAD_DBI | MDB_other int

datatype mdb_call =
    Env_create | Env_set_flags handle u32 bool | Env_set_mapsize handle nat | Env_set_maxreaders handle u32
  | Env_set_maxdbs handle u32 | Env_open handle string u32 u32 | Env_sync handle bool | Env_close handle
  | Txn_begin handle handle u32 | Txn_commit handle | Txn_abort handle | Txn_reset handle | Txn_renew handle
  | Dbi_open handle "string option" u32 | Dbi_drop handle nat bool
  | Mdb_get handle nat string | Mdb_put handle nat string string u32 | Mdb_del handle nat string

text \<open>A call with its return code and the handle that it made.\<close>

type_synonym mdb_log = "(mdb_call \<times> mdb_code \<times> handle) list"

record lmdb =
  mdb_rc :: "mdb_log \<Rightarrow> mdb_call \<Rightarrow> mdb_code"
  mdb_handle :: "mdb_log \<Rightarrow> mdb_call \<Rightarrow> handle"
  mdb_data :: "mdb_log \<Rightarrow> mdb_call \<Rightarrow> string"

section \<open>Exceptions\<close>

datatype lmdb_class = Key_exist_error | Not_found_error | Corrupted_error | Panic_error | Version_mismatch_error
  | Map_full_error | Bad_dbi_error | Plain_runtime_error

text \<open>An exception of the wrapper with its origin and code, or one of the code that uses it.\<close>

datatype db_error = Lmdb_error lmdb_class string mdb_code | Foreign_error exn

text \<open>\<^verbatim>\<open>lmdb::error::raise\<close>.\<close>

fun lmdb_raise :: "string \<Rightarrow> mdb_code \<Rightarrow> db_error" where
  "lmdb_raise origin MDB_KEYEXIST = Lmdb_error Key_exist_error origin MDB_KEYEXIST"
| "lmdb_raise origin MDB_NOTFOUND = Lmdb_error Not_found_error origin MDB_NOTFOUND"
| "lmdb_raise origin MDB_CORRUPTED = Lmdb_error Corrupted_error origin MDB_CORRUPTED"
| "lmdb_raise origin MDB_PANIC = Lmdb_error Panic_error origin MDB_PANIC"
| "lmdb_raise origin MDB_VERSION_MISMATCH = Lmdb_error Version_mismatch_error origin MDB_VERSION_MISMATCH"
| "lmdb_raise origin MDB_MAP_FULL = Lmdb_error Map_full_error origin MDB_MAP_FULL"
| "lmdb_raise origin MDB_BAD_DBI = Lmdb_error Bad_dbi_error origin MDB_BAD_DBI"
| "lmdb_raise origin rc = Lmdb_error Plain_runtime_error origin rc"

text \<open>The base classes: \<^verbatim>\<open>fatal_error\<close> or \<^verbatim>\<open>runtime_error\<close>.\<close>

fun is_fatal :: "lmdb_class \<Rightarrow> bool" where
  "is_fatal Corrupted_error = True"
| "is_fatal Panic_error = True"
| "is_fatal Version_mismatch_error = True"
| "is_fatal _ = False"

section \<open>Programs over the objects in scope\<close>

text \<open>The handles of the three objects; a method has one of each.\<close>

record db_scope =
  db_log :: mdb_log
  env_obj :: handle
  txn_obj :: handle
  dbi_obj :: nat

type_synonym 'a db_prog = "db_scope \<Rightarrow> (db_error + 'a) \<times> db_scope"

definition retD :: "'a \<Rightarrow> 'a db_prog" where
  "retD x s = (Inr x, s)"

definition throwD :: "db_error \<Rightarrow> 'a db_prog" where
  "throwD e s = (Inl e, s)"

definition bindD :: "'a db_prog \<Rightarrow> ('a \<Rightarrow> 'b db_prog) \<Rightarrow> 'b db_prog" where
  "bindD m k s = (case m s of (Inl e, t) \<Rightarrow> (Inl e, t) | (Inr x, t) \<Rightarrow> k x t)"

definition thenD :: "unit db_prog \<Rightarrow> 'b db_prog \<Rightarrow> 'b db_prog" where
  "thenD m n = bindD m (\<lambda>_. n)"

fun forD :: "'x list \<Rightarrow> ('x \<Rightarrow> unit db_prog) \<Rightarrow> unit db_prog" where
  "forD [] f = retD ()"
| "forD (x # xs) f = thenD (f x) (forD xs f)"

definition catchD :: "'a db_prog \<Rightarrow> (db_error \<Rightarrow> 'a db_prog) \<Rightarrow> 'a db_prog" where
  "catchD m h s = (case m s of (Inl e, t) \<Rightarrow> h e t | (Inr x, t) \<Rightarrow> (Inr x, t))"

text \<open>The end of the scope of an object: its destructor runs, on every path.\<close>

definition finallyD :: "'a db_prog \<Rightarrow> (db_scope \<Rightarrow> db_scope) \<Rightarrow> 'a db_prog" where
  "finallyD m dtor s = (case m s of (r, t) \<Rightarrow> (r, dtor t))"

definition mdb :: "lmdb \<Rightarrow> mdb_call \<Rightarrow> (mdb_code \<times> handle \<times> string) db_prog" where
  "mdb L c s =
     (let rc = mdb_rc L (db_log s) c; h = mdb_handle L (db_log s) c
      in (Inr (rc, h, mdb_data L (db_log s) c), s\<lparr>db_log := db_log s @ [(c, rc, h)]\<rparr>))"

text \<open>The functions of the procedural interface that throw: every code but success is an exception.\<close>

definition checked :: "lmdb \<Rightarrow> string \<Rightarrow> mdb_call \<Rightarrow> handle db_prog" where
  "checked L origin c =
     bindD (mdb L c) (\<lambda>(rc, h, _). if rc \<noteq> MDB_SUCCESS then throwD (lmdb_raise origin rc) else retD h)"

definition checked0 :: "lmdb \<Rightarrow> string \<Rightarrow> mdb_call \<Rightarrow> unit db_prog" where
  "checked0 L origin c = bindD (checked L origin c) (\<lambda>_. retD ())"

text \<open>Those that cannot fail.\<close>

definition plain :: "lmdb \<Rightarrow> mdb_call \<Rightarrow> unit db_prog" where
  "plain L c = bindD (mdb L c) (\<lambda>_. retD ())"

section \<open>The procedural interface\<close>

definition env_create :: "lmdb \<Rightarrow> handle db_prog" where
  "env_create L = checked L ''mdb_env_create'' Env_create"

definition env_open :: "lmdb \<Rightarrow> handle \<Rightarrow> string \<Rightarrow> u32 \<Rightarrow> u32 \<Rightarrow> unit db_prog" where
  "env_open L env path flags md = checked0 L ''mdb_env_open'' (Env_open env path flags md)"

definition env_sync :: "lmdb \<Rightarrow> handle \<Rightarrow> bool \<Rightarrow> unit db_prog" where
  "env_sync L env force = checked0 L ''mdb_env_sync'' (Env_sync env force)"

definition env_close :: "lmdb \<Rightarrow> handle \<Rightarrow> unit db_prog" where
  "env_close L env = plain L (Env_close env)"

definition env_set_flags :: "lmdb \<Rightarrow> handle \<Rightarrow> u32 \<Rightarrow> bool \<Rightarrow> unit db_prog" where
  "env_set_flags L env flags onoff = checked0 L ''mdb_env_set_flags'' (Env_set_flags env flags onoff)"

definition env_set_mapsize :: "lmdb \<Rightarrow> handle \<Rightarrow> nat \<Rightarrow> unit db_prog" where
  "env_set_mapsize L env sz = checked0 L ''mdb_env_set_mapsize'' (Env_set_mapsize env sz)"

definition env_set_max_readers :: "lmdb \<Rightarrow> handle \<Rightarrow> u32 \<Rightarrow> unit db_prog" where
  "env_set_max_readers L env n = checked0 L ''mdb_env_set_maxreaders'' (Env_set_maxreaders env n)"

definition env_set_max_dbs :: "lmdb \<Rightarrow> handle \<Rightarrow> u32 \<Rightarrow> unit db_prog" where
  "env_set_max_dbs L env n = checked0 L ''mdb_env_set_maxdbs'' (Env_set_maxdbs env n)"

definition txn_begin :: "lmdb \<Rightarrow> handle \<Rightarrow> handle \<Rightarrow> u32 \<Rightarrow> handle db_prog" where
  "txn_begin L env parent flags = checked L ''mdb_txn_begin'' (Txn_begin env parent flags)"

definition txn_commit :: "lmdb \<Rightarrow> handle \<Rightarrow> unit db_prog" where
  "txn_commit L txn = checked0 L ''mdb_txn_commit'' (Txn_commit txn)"

definition txn_abort :: "lmdb \<Rightarrow> handle \<Rightarrow> unit db_prog" where
  "txn_abort L txn = plain L (Txn_abort txn)"

definition txn_reset :: "lmdb \<Rightarrow> handle \<Rightarrow> unit db_prog" where
  "txn_reset L txn = plain L (Txn_reset txn)"

definition txn_renew :: "lmdb \<Rightarrow> handle \<Rightarrow> unit db_prog" where
  "txn_renew L txn = checked0 L ''mdb_txn_renew'' (Txn_renew txn)"

definition dbi_open :: "lmdb \<Rightarrow> handle \<Rightarrow> string option \<Rightarrow> u32 \<Rightarrow> handle db_prog" where
  "dbi_open L txn name flags = checked L ''mdb_dbi_open'' (Dbi_open txn name flags)"

definition dbi_drop :: "lmdb \<Rightarrow> handle \<Rightarrow> nat \<Rightarrow> bool \<Rightarrow> unit db_prog" where
  "dbi_drop L txn dbi del = checked0 L ''mdb_drop'' (Dbi_drop txn dbi del)"

text \<open>Lookups, insertions and deletions give a Boolean for one of the codes besides success.\<close>

definition dbi_get :: "lmdb \<Rightarrow> handle \<Rightarrow> nat \<Rightarrow> string \<Rightarrow> string option db_prog" where
  "dbi_get L txn dbi key =
     bindD (mdb L (Mdb_get txn dbi key)) (\<lambda>(rc, _, d).
       if rc \<noteq> MDB_SUCCESS \<and> rc \<noteq> MDB_NOTFOUND then throwD (lmdb_raise ''mdb_get'' rc)
       else retD (if rc = MDB_SUCCESS then Some d else None))"

definition dbi_put :: "lmdb \<Rightarrow> handle \<Rightarrow> nat \<Rightarrow> string \<Rightarrow> string \<Rightarrow> u32 \<Rightarrow> bool db_prog" where
  "dbi_put L txn dbi key data flags =
     bindD (mdb L (Mdb_put txn dbi key data flags)) (\<lambda>(rc, _, _).
       if rc \<noteq> MDB_SUCCESS \<and> rc \<noteq> MDB_KEYEXIST then throwD (lmdb_raise ''mdb_put'' rc)
       else retD (rc = MDB_SUCCESS))"

definition dbi_del :: "lmdb \<Rightarrow> handle \<Rightarrow> nat \<Rightarrow> string \<Rightarrow> bool db_prog" where
  "dbi_del L txn dbi key =
     bindD (mdb L (Mdb_del txn dbi key)) (\<lambda>(rc, _, _).
       if rc \<noteq> MDB_SUCCESS \<and> rc \<noteq> MDB_NOTFOUND then throwD (lmdb_raise ''mdb_del'' rc)
       else retD (rc = MDB_SUCCESS))"

section \<open>The classes\<close>

text \<open>\<^verbatim>\<open>lmdb::env\<close>. The object exists once \<^verbatim>\<open>create\<close> has returned; \<^verbatim>\<open>close\<close> may be called again.\<close>

definition env_create_obj :: "lmdb \<Rightarrow> u32 \<Rightarrow> unit db_prog" where
  "env_create_obj L flags =
     bindD (env_create L) (\<lambda>h.
     thenD (if flags \<noteq> 0 then catchD (env_set_flags L h flags True) (\<lambda>e. thenD (env_close L h) (throwD e)) else retD ())
       (\<lambda>s. (Inr (), s\<lparr>env_obj := h\<rparr>)))"

definition env_close_obj :: "lmdb \<Rightarrow> db_scope \<Rightarrow> db_scope" where
  "env_close_obj L s = (if env_obj s \<noteq> 0 then (snd (env_close L (env_obj s) s))\<lparr>env_obj := 0\<rparr> else s)"

definition env_dtor :: "lmdb \<Rightarrow> db_scope \<Rightarrow> db_scope" where
  "env_dtor L = env_close_obj L"

definition env_open_obj :: "lmdb \<Rightarrow> string \<Rightarrow> u32 \<Rightarrow> u32 \<Rightarrow> unit db_prog" where
  "env_open_obj L path flags md s = env_open L (env_obj s) path flags md s"

definition env_set_mapsize_obj :: "lmdb \<Rightarrow> nat \<Rightarrow> unit db_prog" where
  "env_set_mapsize_obj L sz s = env_set_mapsize L (env_obj s) sz s"

definition env_sync_obj :: "lmdb \<Rightarrow> bool \<Rightarrow> unit db_prog" where
  "env_sync_obj L force s = env_sync L (env_obj s) force s"

definition env_set_flags_obj :: "lmdb \<Rightarrow> u32 \<Rightarrow> bool \<Rightarrow> unit db_prog" where
  "env_set_flags_obj L flags onoff s = env_set_flags L (env_obj s) flags onoff s"

definition env_set_max_readers_obj :: "lmdb \<Rightarrow> u32 \<Rightarrow> unit db_prog" where
  "env_set_max_readers_obj L n s = env_set_max_readers L (env_obj s) n s"

definition env_set_max_dbs_obj :: "lmdb \<Rightarrow> u32 \<Rightarrow> unit db_prog" where
  "env_set_max_dbs_obj L n s = env_set_max_dbs L (env_obj s) n s"

text \<open>\<^verbatim>\<open>lmdb::txn\<close>. The commit of LMDB frees the transaction also when it fails, but then the object keeps its handle.\<close>

definition txn_begin_obj :: "lmdb \<Rightarrow> handle \<Rightarrow> u32 \<Rightarrow> unit db_prog" where
  "txn_begin_obj L parent flags s =
     bindD (txn_begin L (env_obj s) parent flags) (\<lambda>h t. (Inr (), t\<lparr>txn_obj := h\<rparr>)) s"

definition txn_commit_obj :: "lmdb \<Rightarrow> unit db_prog" where
  "txn_commit_obj L s = thenD (txn_commit L (txn_obj s)) (\<lambda>t. (Inr (), t\<lparr>txn_obj := 0\<rparr>)) s"

definition txn_abort_obj :: "lmdb \<Rightarrow> unit db_prog" where
  "txn_abort_obj L s = thenD (txn_abort L (txn_obj s)) (\<lambda>t. (Inr (), t\<lparr>txn_obj := 0\<rparr>)) s"

definition txn_reset_obj :: "lmdb \<Rightarrow> unit db_prog" where
  "txn_reset_obj L s = txn_reset L (txn_obj s) s"

definition txn_renew_obj :: "lmdb \<Rightarrow> unit db_prog" where
  "txn_renew_obj L s = txn_renew L (txn_obj s) s"

definition txn_dtor :: "lmdb \<Rightarrow> db_scope \<Rightarrow> db_scope" where
  "txn_dtor L s = (if txn_obj s \<noteq> 0 then (snd (txn_abort_obj L s))\<lparr>txn_obj := 0\<rparr> else s)"

text \<open>\<^verbatim>\<open>lmdb::dbi\<close>; its destructor does nothing. A key given as \<^verbatim>\<open>const char*\<close> ends at the first NUL.\<close>

definition dbi_open_obj :: "lmdb \<Rightarrow> string option \<Rightarrow> u32 \<Rightarrow> unit db_prog" where
  "dbi_open_obj L name flags s =
     bindD (dbi_open L (txn_obj s) name flags) (\<lambda>h t. (Inr (), t\<lparr>dbi_obj := h\<rparr>)) s"

definition val_assign_c :: "string \<Rightarrow> string" where
  "val_assign_c data = c_str data"

definition val_assign :: "string \<Rightarrow> string" where
  "val_assign data = data"

definition dbi_get_obj :: "lmdb \<Rightarrow> string \<Rightarrow> string option db_prog" where
  "dbi_get_obj L key s = dbi_get L (txn_obj s) (dbi_obj s) key s"

definition dbi_put_obj :: "lmdb \<Rightarrow> string \<Rightarrow> string \<Rightarrow> u32 \<Rightarrow> bool db_prog" where
  "dbi_put_obj L key data flags s = dbi_put L (txn_obj s) (dbi_obj s) key data flags s"

definition dbi_del_obj :: "lmdb \<Rightarrow> string \<Rightarrow> bool db_prog" where
  "dbi_del_obj L key s = dbi_del L (txn_obj s) (dbi_obj s) key s"

definition dbi_drop_obj :: "lmdb \<Rightarrow> bool \<Rightarrow> unit db_prog" where
  "dbi_drop_obj L del s = dbi_drop L (txn_obj s) (dbi_obj s) del s"

section \<open>The use of the classes\<close>

text \<open>Objects are destroyed in the opposite order; one that was not constructed is not.\<close>

definition with_env :: "lmdb \<Rightarrow> 'a db_prog \<Rightarrow> 'a db_prog" where
  "with_env L body = thenD (env_create_obj L 0) (finallyD body (env_dtor L))"

definition with_txn :: "lmdb \<Rightarrow> u32 \<Rightarrow> 'a db_prog \<Rightarrow> 'a db_prog" where
  "with_txn L flags body = thenD (txn_begin_obj L 0 flags) (finallyD body (txn_dtor L))"

definition MDB_RDONLY :: u32 where "MDB_RDONLY = 0x20000"

definition LMDB_SIZE :: nat where "LMDB_SIZE = 1 * 1024 * 1024 * 50"

text \<open>\<^verbatim>\<open>GETLOCALARGS\<close> of \<^verbatim>\<open>include/utils.h\<close>, with the rest of the method as body.\<close>

definition with_local_args :: "lmdb \<Rightarrow> string \<Rightarrow> 'a db_prog \<Rightarrow> 'a db_prog" where
  "with_local_args L gem_path body =
     with_env L (
       thenD (env_set_mapsize_obj L LMDB_SIZE) (
       thenD (env_open_obj L (gem_path @ ''/address_table.mdb'') 0 436) (
       with_txn L MDB_RDONLY (
         thenD (dbi_open_obj L None 0) body))))"

text \<open>\<^verbatim>\<open>update_address_table\<close>, from the environment on; the Boolean of \<^verbatim>\<open>put\<close> is ignored, and after the commit comes an \<^verbatim>\<open>abort\<close>.\<close>

definition write_table :: "lmdb \<Rightarrow> string \<Rightarrow> (string \<times> node) list \<Rightarrow> unit db_prog" where
  "write_table L gem_path m_parsed_at =
     with_env L (
       thenD (env_set_mapsize_obj L LMDB_SIZE) (
       thenD (env_open_obj L (gem_path @ ''/address_table.mdb'') 0 436) (
       with_txn L 0 (
         thenD (dbi_open_obj L None 0) (
         thenD (forD m_parsed_at (\<lambda>(k, n). bindD (dbi_put_obj L (val_assign k) (val_assign (serialize n)) 0) (\<lambda>_. retD ()))) (
         thenD (txn_commit_obj L)
           (txn_abort_obj L)))))))"

section \<open>What the documentation of LMDB allows\<close>

text \<open>
  The handles that are in use. A commit frees the transaction, whatever it returns. (For \<^verbatim>\<open>mdb_txn_abort\<close>
  the null pointer is let through, as the library does.)
\<close>

datatype in_use = Env handle | Txn handle

fun after_call :: "in_use set \<Rightarrow> mdb_call \<times> mdb_code \<times> handle \<Rightarrow> in_use set" where
  "after_call U (Env_create, rc, h) = (if rc = MDB_SUCCESS then insert (Env h) U else U)"
| "after_call U (Env_close e, rc, h) = U - {Env e}"
| "after_call U (Txn_begin e p f, rc, h) = (if rc = MDB_SUCCESS then insert (Txn h) U else U)"
| "after_call U (Txn_commit t, rc, h) = U - {Txn t}"
| "after_call U (Txn_abort t, rc, h) = U - {Txn t}"
| "after_call U _ = U"

definition used :: "mdb_log \<Rightarrow> in_use set" where
  "used cs = foldl after_call {} cs"

fun allowed :: "in_use set \<Rightarrow> mdb_call \<Rightarrow> bool" where
  "allowed U Env_create = True"
| "allowed U (Env_set_flags e f b) = (Env e \<in> U)"
| "allowed U (Env_set_mapsize e n) = (Env e \<in> U)"
| "allowed U (Env_set_maxreaders e n) = (Env e \<in> U)"
| "allowed U (Env_set_maxdbs e n) = (Env e \<in> U)"
| "allowed U (Env_open e p f m) = (Env e \<in> U)"
| "allowed U (Env_sync e b) = (Env e \<in> U)"
| "allowed U (Env_close e) = (Env e \<in> U \<and> (\<forall>t. Txn t \<notin> U))"
| "allowed U (Txn_begin e p f) = (Env e \<in> U \<and> (p = 0 \<or> Txn p \<in> U))"
| "allowed U (Txn_commit t) = (Txn t \<in> U)"
| "allowed U (Txn_abort t) = (t = 0 \<or> Txn t \<in> U)"
| "allowed U (Txn_reset t) = (Txn t \<in> U)"
| "allowed U (Txn_renew t) = (Txn t \<in> U)"
| "allowed U (Dbi_open t n f) = (Txn t \<in> U)"
| "allowed U (Dbi_drop t d b) = (Txn t \<in> U)"
| "allowed U (Mdb_get t d k) = (Txn t \<in> U)"
| "allowed U (Mdb_put t d k v f) = (Txn t \<in> U)"
| "allowed U (Mdb_del t d k) = (Txn t \<in> U)"

definition orderly :: "mdb_log \<Rightarrow> bool" where
  "orderly cs = snd (foldl (\<lambda>(U, ok) e. (after_call U e, ok \<and> allowed U (fst e))) ({}, True) cs)"

text \<open>What the library promises of the handles it makes.\<close>

definition makes_handles :: "lmdb \<Rightarrow> bool" where
  "makes_handles L \<longleftrightarrow> (\<forall>cs c. mdb_rc L cs c = MDB_SUCCESS \<longrightarrow> mdb_handle L cs c \<noteq> 0)"

lemma orderly_used: "foldl (\<lambda>(U, ok) e. (after_call U e, ok \<and> allowed U (fst e))) ({}, True) cs = (used cs, orderly cs)"
proof -
  have "fst (foldl (\<lambda>(U, ok) e. (after_call U e, ok \<and> allowed U (fst e))) (U, b) cs) = foldl after_call U cs" for U b
    by (induction cs arbitrary: U b) simp_all
  then show ?thesis by (simp add: orderly_def used_def prod_eq_iff)
qed

lemma used_simps [simp]: "used [] = {}" "used (cs @ [e]) = after_call (used cs) e"
  by (simp_all add: used_def)

lemma orderly_simps [simp]: "orderly []" "orderly (cs @ [e]) \<longleftrightarrow> orderly cs \<and> allowed (used cs) (fst e)"
  by (simp add: orderly_def) (simp only: orderly_def [of "cs @ [e]"] foldl_append foldl.simps orderly_used prod.case snd_conv)

section \<open>Triples\<close>

definition triple :: "(db_scope \<Rightarrow> bool) \<Rightarrow> 'a db_prog \<Rightarrow> ('a \<Rightarrow> db_scope \<Rightarrow> bool) \<Rightarrow> (db_scope \<Rightarrow> bool) \<Rightarrow> bool" where
  "triple P m Q E \<longleftrightarrow> (\<forall>s. P s \<longrightarrow> (case m s of (Inl e, t) \<Rightarrow> E t | (Inr x, t) \<Rightarrow> Q x t))"

lemma triple_bind: "triple P m Q E \<Longrightarrow> (\<And>x. triple (Q x) (k x) R E) \<Longrightarrow> triple P (bindD m k) R E"
  unfolding triple_def bindD_def by (fastforce split: prod.splits sum.splits)

lemma triple_then: "triple P m (\<lambda>_. Q) E \<Longrightarrow> triple Q n R E \<Longrightarrow> triple P (thenD m n) R E"
  unfolding thenD_def by (rule triple_bind)

lemma triple_ret: "(\<And>s. P s \<Longrightarrow> Q x s) \<Longrightarrow> triple P (retD x) Q E"
  by (simp add: triple_def retD_def)

lemma triple_throw: "(\<And>s. P s \<Longrightarrow> E s) \<Longrightarrow> triple P (throwD e) Q E"
  by (simp add: triple_def throwD_def)

lemma triple_for:
  assumes "\<And>ys x zs. xs = ys @ x # zs \<Longrightarrow> triple (I ys) (f x) (\<lambda>_. I (ys @ [x])) E"
  shows "triple (I []) (forD xs f) (\<lambda>_. I xs) E"
proof -
  have "triple (I ys) (forD zs f) (\<lambda>_. I xs) E" if "xs = ys @ zs" for ys zs
    using that
  proof (induction zs arbitrary: ys)
    case Nil
    then show ?case by (simp add: triple_ret)
  next
    case (Cons z zs)
    have "triple (I (ys @ [z])) (forD zs f) (\<lambda>_. I xs) E" using Cons.prems by (intro Cons.IH) simp
    then show ?case using assms [OF Cons.prems] by (simp add: triple_then)
  qed
  from this [of "[]" xs] show ?thesis by simp
qed

lemma triple_finally:
  "triple P m Q E \<Longrightarrow> (\<And>x s. Q x s \<Longrightarrow> Q' x (d s)) \<Longrightarrow> (\<And>s. E s \<Longrightarrow> E' (d s)) \<Longrightarrow> triple P (finallyD m d) Q' E'"
  unfolding triple_def finallyD_def by (fastforce split: prod.splits sum.splits)

lemma triple_weaken:
  "triple P m Q E \<Longrightarrow> (\<And>s. P' s \<Longrightarrow> P s) \<Longrightarrow> (\<And>x s. Q x s \<Longrightarrow> Q' x s) \<Longrightarrow> (\<And>s. E s \<Longrightarrow> E' s) \<Longrightarrow> triple P' m Q' E'"
  unfolding triple_def by (fastforce split: prod.splits sum.splits)

lemma tripleD: "triple P m Q E \<Longrightarrow> P s \<Longrightarrow> m s = (r, t) \<Longrightarrow> (case r of Inl e \<Rightarrow> E t | Inr x \<Rightarrow> Q x t)"
  unfolding triple_def by (auto split: sum.splits)

text \<open>A call: what holds of the log with the call in it.\<close>

lemma triple_checked:
  assumes "\<And>s rc h. P s \<Longrightarrow> rc = mdb_rc L (db_log s) c \<Longrightarrow> h = mdb_handle L (db_log s) c \<Longrightarrow>
     (if rc = MDB_SUCCESS then Q h (s\<lparr>db_log := db_log s @ [(c, rc, h)]\<rparr>) else E (s\<lparr>db_log := db_log s @ [(c, rc, h)]\<rparr>))"
  shows "triple P (checked L origin c) Q E"
  using assms unfolding triple_def checked_def bindD_def mdb_def retD_def throwD_def Let_def by (fastforce split: if_splits)

lemma triple_checked0:
  assumes "\<And>s rc h. P s \<Longrightarrow> rc = mdb_rc L (db_log s) c \<Longrightarrow> h = mdb_handle L (db_log s) c \<Longrightarrow>
     (if rc = MDB_SUCCESS then Q (s\<lparr>db_log := db_log s @ [(c, rc, h)]\<rparr>) else E (s\<lparr>db_log := db_log s @ [(c, rc, h)]\<rparr>))"
  shows "triple P (checked0 L origin c) (\<lambda>_. Q) E"
proof -
  have "triple P (checked L origin c) (\<lambda>_. Q) E" by (rule triple_checked) (rule assms)
  then show ?thesis unfolding checked0_def by (rule triple_bind) (simp add: triple_ret)
qed

text \<open>The handles of the objects are parts of the state that the calls do not change.\<close>

lemma triple_obj: "(\<And>h. triple (\<lambda>s. P s \<and> f s = h) (m h) Q E) \<Longrightarrow> triple P (\<lambda>s. m (f s) s) Q E"
  unfolding triple_def by simp

section \<open>Every handle is given back once\<close>

fun failing_commit :: "mdb_call \<times> mdb_code \<times> handle \<Rightarrow> bool" where
  "failing_commit (Txn_commit t, rc, h) = (rc \<noteq> MDB_SUCCESS)"
| "failing_commit _ = False"

definition commit_failed :: "mdb_log \<Rightarrow> bool" where
  "commit_failed cs = list_ex failing_commit cs"

lemma commit_failed_simps [simp]: "\<not> commit_failed []" "commit_failed (cs @ [e]) \<longleftrightarrow> commit_failed cs \<or> failing_commit e"
  by (simp_all add: commit_failed_def)

text \<open>The handles in use are those of the objects: of the environment (\<open>e\<close>), of the transaction (\<open>t\<close>).\<close>

definition holds :: "bool \<Rightarrow> bool \<Rightarrow> db_scope \<Rightarrow> bool" where
  "holds e t s \<longleftrightarrow> orderly (db_log s) \<and> \<not> commit_failed (db_log s) \<and> (env_obj s \<noteq> 0) = e \<and> (txn_obj s \<noteq> 0) = t \<and>
     used (db_log s) = (if e then {Env (env_obj s)} else {}) \<union> (if t then {Txn (txn_obj s)} else {})"

lemmas db_code = bindD_def thenD_def retD_def throwD_def catchD_def checked_def checked0_def plain_def mdb_def Let_def
  env_create_def env_open_def env_close_def env_set_flags_def env_set_mapsize_def txn_begin_def txn_commit_def txn_abort_def
  dbi_open_def dbi_get_def dbi_put_def env_create_obj_def env_close_obj_def env_dtor_def env_open_obj_def env_set_mapsize_obj_def
  txn_begin_obj_def txn_commit_obj_def txn_abort_obj_def txn_dtor_def dbi_open_obj_def dbi_get_obj_def dbi_put_obj_def

lemma holds_ops:
  "triple (holds True t) (env_set_mapsize_obj L n) (\<lambda>_. holds True t) (holds True t)"
  "triple (holds True t) (env_open_obj L p f m) (\<lambda>_. holds True t) (holds True t)"
  "triple (holds e True) (dbi_open_obj L name f) (\<lambda>_. holds e True) (holds e True)"
  "triple (holds e True) (dbi_get_obj L k) (\<lambda>_. holds e True) (holds e True)"
  "triple (holds e True) (dbi_put_obj L k v f) (\<lambda>_. holds e True) (holds e True)"
  by (auto simp: triple_def holds_def db_code split: if_splits)

lemma holds_makes:
  assumes "makes_handles L"
  shows "triple (holds False False) (env_create_obj L 0) (\<lambda>_. holds True False) (holds False False)"
    and "triple (holds True False) (txn_begin_obj L 0 f) (\<lambda>_. holds True True) (holds True False)"
  using assms by (auto simp: triple_def holds_def db_code makes_handles_def split: if_splits)

lemma holds_dtors:
  "holds True t s \<Longrightarrow> holds True False (txn_dtor L s)"
  "holds e False s \<Longrightarrow> holds False False (env_dtor L s)"
  by (auto simp: holds_def db_code split: if_splits)

lemma holds_abort: "triple (holds True t) (txn_abort_obj L) (\<lambda>_. holds True False) (holds True False)"
  by (auto simp: triple_def holds_def db_code split: if_splits)

text \<open>What is left of a commit that failed: a transaction object with a handle that is free already.\<close>

definition half_freed :: "db_scope \<Rightarrow> bool" where
  "half_freed s \<longleftrightarrow> commit_failed (db_log s) \<and> txn_obj s \<noteq> 0 \<and> Txn (txn_obj s) \<notin> used (db_log s)"

definition spoilt :: "db_scope \<Rightarrow> bool" where
  "spoilt s \<longleftrightarrow> commit_failed (db_log s) \<and> \<not> orderly (db_log s)"

lemma holds_commit: "triple (holds True True) (txn_commit_obj L) (\<lambda>_. holds True False) half_freed"
  by (auto simp: triple_def holds_def half_freed_def db_code split: if_splits)

lemma spoilt_dtors:
  "half_freed s \<Longrightarrow> spoilt (txn_dtor L s)"
  "spoilt s \<Longrightarrow> spoilt (env_dtor L s)"
  by (auto simp: half_freed_def spoilt_def db_code split: if_splits)

text \<open>The body of a method: it looks up keys in its transaction, and may fail.\<close>

definition only_reads :: "'a db_prog \<Rightarrow> bool" where
  "only_reads m \<longleftrightarrow> (\<forall>s. env_obj (snd (m s)) = env_obj s \<and> txn_obj (snd (m s)) = txn_obj s \<and>
     (\<exists>h. db_log (snd (m s)) = db_log s @ h \<and> (\<forall>x\<in>set h. \<exists>d k. fst x = Mdb_get (txn_obj s) d k)))"

lemma only_reads_get: "only_reads (dbi_get_obj L k)"
  by (auto simp: only_reads_def db_code)

lemma only_reads_basic: "only_reads (retD x)" "only_reads (throwD e)"
  by (simp_all add: only_reads_def db_code)

lemma only_reads_bind:
  assumes "only_reads m" "\<And>x. only_reads (k x)"
  shows "only_reads (bindD m k)"
  unfolding only_reads_def
proof
  fix s
  obtain r t where m: "m s = (r, t)" by (cases "m s")
  obtain h where h: "db_log t = db_log s @ h" "\<forall>x\<in>set h. \<exists>d k. fst x = Mdb_get (txn_obj s) d k"
    "env_obj t = env_obj s" "txn_obj t = txn_obj s"
    using assms(1) m unfolding only_reads_def by (metis snd_conv)
  show "env_obj (snd (bindD m k s)) = env_obj s \<and> txn_obj (snd (bindD m k s)) = txn_obj s \<and>
    (\<exists>h. db_log (snd (bindD m k s)) = db_log s @ h \<and> (\<forall>x\<in>set h. \<exists>d k. fst x = Mdb_get (txn_obj s) d k))"
  proof (cases r)
    case (Inl e)
    then show ?thesis using h by (simp add: bindD_def m)
  next
    case (Inr x)
    obtain g where "db_log (snd (k x t)) = db_log t @ g" "\<forall>y\<in>set g. \<exists>d k. fst y = Mdb_get (txn_obj t) d k"
      "env_obj (snd (k x t)) = env_obj t" "txn_obj (snd (k x t)) = txn_obj t"
      using assms(2) unfolding only_reads_def by blast
    then show ?thesis using h Inr by (auto simp: bindD_def m intro!: exI [of _ "h @ g"])
  qed
qed

lemma holds_gets:
  assumes "holds e True s" "\<forall>x\<in>set h. \<exists>d k. fst x = Mdb_get (txn_obj s) d k"
  shows "holds e True (s\<lparr>db_log := db_log s @ h\<rparr>)"
  using assms(2)
proof (induction h rule: rev_induct)
  case Nil
  then show ?case using assms(1) by simp
next
  case (snoc x h)
  then obtain d k where x: "fst x = Mdb_get (txn_obj s) d k" by auto
  then obtain y where "x = (Mdb_get (txn_obj s) d k, y)" by (cases x) simp
  moreover obtain rc g where "y = (rc, g)" by (cases y)
  ultimately show ?case using snoc by (simp add: holds_def flip: append_assoc)
qed

lemma holds_body:
  assumes "only_reads m"
  shows "triple (holds True True) m (\<lambda>_. holds True True) (holds True True)"
proof -
  have "holds True True t" if s: "holds True True s" "m s = (r, t)" for s r t
  proof -
    obtain h where h: "db_log t = db_log s @ h" "\<forall>x\<in>set h. \<exists>d k. fst x = Mdb_get (txn_obj s) d k"
      "env_obj t = env_obj s" "txn_obj t = txn_obj s"
      using assms s(2) unfolding only_reads_def by (metis snd_conv)
    show ?thesis using holds_gets [OF s(1) h(2)] h by (simp add: holds_def)
  qed
  then show ?thesis by (auto simp: triple_def split: prod.split sum.split)
qed

lemma holds_local_args:
  assumes "makes_handles L" "triple (holds True True) body (\<lambda>_. holds True t) (holds True True)"
  shows "triple (holds False False) (with_local_args L p body) (\<lambda>_. holds False False) (holds False False)"
proof -
  have "triple (holds True False) (with_txn L MDB_RDONLY (thenD (dbi_open_obj L None 0) body)) (\<lambda>_. holds True False) (holds True False)"
    unfolding with_txn_def
    by (rule triple_then [OF holds_makes(2) [OF assms(1)]], rule triple_finally [OF triple_then [OF holds_ops(3) assms(2)]])
      (auto intro: holds_dtors)
  then have "triple (holds True False) (thenD (env_set_mapsize_obj L LMDB_SIZE) (thenD (env_open_obj L (p @ ''/address_table.mdb'') 0 436)
      (with_txn L MDB_RDONLY (thenD (dbi_open_obj L None 0) body)))) (\<lambda>_. holds True False) (holds True False)"
    by (intro triple_then [OF holds_ops(1)] triple_then [OF holds_ops(2)])
  then show ?thesis
    unfolding with_local_args_def with_env_def
    by (intro triple_then [OF holds_makes(1) [OF assms(1)]]) (erule triple_finally; rule holds_dtors)
qed

definition fresh_scope :: db_scope where
  "fresh_scope = \<lparr>db_log = [], env_obj = 0, txn_obj = 0, dbi_obj = 0\<rparr>"

lemma fresh_holds: "holds False False fresh_scope"
  by (simp add: holds_def fresh_scope_def)

text \<open>
  C14 (the handles of a method): whatever LMDB returns, a method that opens the table with \<^verbatim>\<open>GETLOCALARGS\<close>, looks keys up and
  leaves, with or without \<^verbatim>\<open>rtxn.abort()\<close> or by an exception anywhere, uses no handle that is not in use, and
  gives back every handle that it got.
\<close>

theorem method_handles_orderly:
  assumes "makes_handles L" "only_reads m" "with_local_args L p (if aborts then bindD m (\<lambda>_. txn_abort_obj L) else bindD m (\<lambda>_. retD ())) fresh_scope = (r, t)"
  shows "orderly (db_log t) \<and> used (db_log t) = {}"
proof -
  have "triple (holds True True) (if aborts then bindD m (\<lambda>_. txn_abort_obj L) else bindD m (\<lambda>_. retD ()))
    (\<lambda>_. holds True (\<not> aborts)) (holds True True)"
  proof (cases aborts)
    case True
    have "triple (holds True True) (txn_abort_obj L) (\<lambda>_. holds True False) (holds True True)"
      by (auto simp: triple_def holds_def db_code split: if_splits)
    with holds_body [OF assms(2)] show ?thesis using True by (simp add: triple_bind)
  next
    case False
    then show ?thesis using holds_body [OF assms(2)] by (auto intro: triple_bind triple_ret)
  qed
  from tripleD [OF holds_local_args [OF assms(1) this] fresh_holds assms(3)] show ?thesis
    by (auto simp: holds_def split: sum.splits)
qed

lemma holds_write_table:
  assumes "makes_handles L"
  shows "triple (holds False False) (write_table L p m_parsed_at) (\<lambda>_. holds False False) (\<lambda>s. holds False False s \<or> spoilt s)"
proof -
  let ?E = "\<lambda>s. holds True True s \<or> half_freed s"
  have put: "triple (holds True True) (bindD (dbi_put_obj L k v 0) (\<lambda>_. retD ())) (\<lambda>_. holds True True) (holds True True)" for k v
    by (rule triple_bind [OF holds_ops(5)]) (rule triple_ret)
  have puts: "triple (holds True True) (forD m_parsed_at (\<lambda>(k, n). bindD (dbi_put_obj L (val_assign k) (val_assign (serialize n)) 0) (\<lambda>_. retD ())))
    (\<lambda>_. holds True True) (holds True True)"
    by (rule triple_for [where I = "\<lambda>_. holds True True"]) (auto intro: put split: prod.split)
  have commit: "triple (holds True True) (thenD (txn_commit_obj L) (txn_abort_obj L)) (\<lambda>_. holds True False) half_freed"
    by (rule triple_then [OF holds_commit]) (auto simp: triple_def holds_def db_code split: if_splits)
  have body: "triple (holds True True) (thenD (dbi_open_obj L None 0) (
         thenD (forD m_parsed_at (\<lambda>(k, n). bindD (dbi_put_obj L (val_assign k) (val_assign (serialize n)) 0) (\<lambda>_. retD ()))) (
         thenD (txn_commit_obj L) (txn_abort_obj L)))) (\<lambda>_. holds True False) ?E"
    by (intro triple_then [where Q = "holds True True"] triple_weaken [OF holds_ops(3)] triple_weaken [OF puts] triple_weaken [OF commit]) auto
  let ?F = "\<lambda>s. holds True False s \<or> spoilt s"
  have "triple (holds True False) (with_txn L 0 (thenD (dbi_open_obj L None 0) (
         thenD (forD m_parsed_at (\<lambda>(k, n). bindD (dbi_put_obj L (val_assign k) (val_assign (serialize n)) 0) (\<lambda>_. retD ()))) (
         thenD (txn_commit_obj L) (txn_abort_obj L))))) (\<lambda>_. holds True False) ?F"
    unfolding with_txn_def
    by (rule triple_then [OF triple_weaken [OF holds_makes(2) [OF assms]]]; (rule triple_finally [OF body])?)
      (auto intro: holds_dtors spoilt_dtors)
  then show ?thesis
    unfolding write_table_def with_env_def
    by (intro triple_then [OF triple_weaken [OF holds_makes(1) [OF assms]]] triple_finally [where Q = "\<lambda>_. holds True False" and E = ?F]
        triple_then [OF triple_weaken [OF holds_ops(1)]] triple_then [OF triple_weaken [OF holds_ops(2)]])
      (auto intro: holds_dtors spoilt_dtors)
qed

text \<open>
  C15 (a commit that fails): the update of the address table uses its handles in order and gives them back, exactly
  when no commit fails. When \<^verbatim>\<open>mdb_txn_commit\<close> returns an error, the transaction is freed, but \<^verbatim>\<open>commit\<close> throws before
  it clears the handle, and the destructor frees the transaction a second time.
\<close>

theorem update_handles_orderly:
  assumes "makes_handles L" "write_table L p m_parsed_at fresh_scope = (r, t)"
  shows "orderly (db_log t) \<and> used (db_log t) = {} \<longleftrightarrow> \<not> commit_failed (db_log t)"
  using tripleD [OF holds_write_table [OF assms(1)] fresh_holds assms(2)]
  by (auto simp: holds_def spoilt_def split: sum.splits)

section \<open>What is committed\<close>

text \<open>
  The documented effect of the calls on the data base: operations of a transaction are kept apart until it
  commits, then they take effect at once. The state has, for each transaction, what it makes of the data base, and the data base.
\<close>

fun db_effect :: "(handle \<Rightarrow> database \<Rightarrow> database) \<times> database \<Rightarrow> mdb_call \<times> mdb_code \<times> handle \<Rightarrow> (handle \<Rightarrow> database \<Rightarrow> database) \<times> database" where
  "db_effect x (Txn_begin e p f, rc, h) = (if rc = MDB_SUCCESS then ((fst x)(h := id), snd x) else x)"
| "db_effect x (Mdb_put t d k v f, rc, h) =
     (if rc = MDB_SUCCESS then ((fst x)(t := (\<lambda>m. m(k \<mapsto> v)) \<circ> fst x t), snd x) else x)"
| "db_effect x (Mdb_del t d k, rc, h) =
     (if rc = MDB_SUCCESS then ((fst x)(t := (\<lambda>m. m(k := None)) \<circ> fst x t), snd x) else x)"
| "db_effect x (Dbi_drop t d del, rc, h) =
     (if rc = MDB_SUCCESS then ((fst x)(t := (\<lambda>m. Map.empty) \<circ> fst x t), snd x) else x)"
| "db_effect x (Txn_commit t, rc, h) = (if rc = MDB_SUCCESS then ((fst x)(t := id), fst x t (snd x)) else x)"
| "db_effect x _ = x"

definition after_log :: "database \<Rightarrow> mdb_log \<Rightarrow> (handle \<Rightarrow> database \<Rightarrow> database) \<times> database" where
  "after_log db cs = foldl db_effect (\<lambda>_. id, db) cs"

definition committed :: "database \<Rightarrow> mdb_log \<Rightarrow> database" where
  "committed db cs = snd (after_log db cs)"

lemma after_log_simps [simp]: "after_log db [] = (\<lambda>_. id, db)" "after_log db (cs @ [e]) = db_effect (after_log db cs) e"
  by (simp_all add: after_log_def)

text \<open>Without \<^verbatim>\<open>MDB_NOOVERWRITE\<close> an insertion never finds that the key exists.\<close>

definition puts_overwrite :: "lmdb \<Rightarrow> bool" where
  "puts_overwrite L \<longleftrightarrow> (\<forall>cs t d k v. mdb_rc L cs (Mdb_put t d k v 0) \<noteq> MDB_KEYEXIST)"

text \<open>The transaction of the object will make \<open>new\<close> of the data base, which is still the old one.\<close>

definition writing :: "database \<Rightarrow> database \<Rightarrow> db_scope \<Rightarrow> bool" where
  "writing db new s \<longleftrightarrow> committed db (db_log s) = db \<and> fst (after_log db (db_log s)) (txn_obj s) db = new"

definition unwritten :: "database \<Rightarrow> db_scope \<Rightarrow> bool" where
  "unwritten db s \<longleftrightarrow> committed db (db_log s) = db"

definition written :: "database \<Rightarrow> database \<Rightarrow> db_scope \<Rightarrow> bool" where
  "written db new s \<longleftrightarrow> committed db (db_log s) = new"

lemmas log_states = writing_def unwritten_def written_def committed_def

lemma unwritten_ops:
  "triple (unwritten db) (env_create_obj L 0) (\<lambda>_. unwritten db) (unwritten db)"
  "triple (unwritten db) (env_set_mapsize_obj L n) (\<lambda>_. unwritten db) (unwritten db)"
  "triple (unwritten db) (env_open_obj L p f m) (\<lambda>_. unwritten db) (unwritten db)"
  "triple (unwritten db) (txn_begin_obj L 0 f) (\<lambda>_. writing db db) (unwritten db)"
  by (auto simp: triple_def log_states db_code split_beta)

lemma writing_ops:
  "triple (writing db new) (dbi_open_obj L name f) (\<lambda>_. writing db new) (unwritten db)"
  "puts_overwrite L \<Longrightarrow> triple (writing db new) (dbi_put_obj L k v 0) (\<lambda>_. writing db (new(k \<mapsto> v))) (unwritten db)"
  "triple (writing db new) (txn_commit_obj L) (\<lambda>_. written db new) (unwritten db)"
  "triple (written db new) (txn_abort_obj L) (\<lambda>_. written db new) (unwritten db)"
  by (auto simp: triple_def log_states db_code puts_overwrite_def split_beta split: prod.splits)

lemma closing_keeps:
  "committed db (db_log (txn_dtor L s)) = committed db (db_log s)"
  "committed db (db_log (env_dtor L s)) = committed db (db_log s)"
  by (auto simp: log_states db_code split_beta split: prod.splits)

lemma written_write_table:
  assumes "puts_overwrite L"
  shows "triple (unwritten db) (write_table L p es) (\<lambda>_. written db (foldl put_node db es)) (unwritten db)"
proof -
  let ?put = "\<lambda>(k, n). bindD (dbi_put_obj L (val_assign k) (val_assign (serialize n)) 0) (\<lambda>_. retD ())"
  have put: "triple (writing db new) (?put kn) (\<lambda>_. writing db (put_node new kn)) (unwritten db)" for new kn
    unfolding split_beta put_node_def val_assign_def by (rule triple_bind [OF writing_ops(2) [OF assms]]) (simp add: triple_ret)
  have puts: "triple (writing db db) (forD es ?put) (\<lambda>_. writing db (foldl put_node db es)) (unwritten db)"
    using triple_for [of es "\<lambda>ys. writing db (foldl put_node db ys)" ?put "unwritten db"] put by simp
  have "triple (unwritten db) (with_txn L 0 (thenD (dbi_open_obj L None 0) (thenD (forD es ?put) (thenD (txn_commit_obj L) (txn_abort_obj L)))))
    (\<lambda>_. written db (foldl put_node db es)) (unwritten db)"
    unfolding with_txn_def
    by (rule triple_then [OF unwritten_ops(4)], rule triple_finally,
        rule triple_then [OF writing_ops(1)], rule triple_then [OF puts], rule triple_then [OF writing_ops(3,4)])
      (simp_all add: written_def unwritten_def closing_keeps)
  then show ?thesis
    unfolding write_table_def with_env_def
    by (intro triple_then [OF unwritten_ops(1)] triple_finally [where Q = "\<lambda>_. written db (foldl put_node db es)" and E = "unwritten db"]
        triple_then [OF unwritten_ops(2)] triple_then [OF unwritten_ops(3)])
      (simp_all add: written_def unwritten_def closing_keeps)
qed

text \<open>
  C13 (an update is written as a whole): run through the classes of the wrapper, call by call, the update of the file \<open>k\<close>
  has one of two results, whatever each call returns: it returns and the file is as after the \<open>Commit\<close> step
  of the store, or it throws and the file is unchanged, as after \<open>Quit\<close>.
\<close>

theorem write_table_commits:
  assumes "puts_overwrite L" "write_table L p es fresh_scope = (r, t)"
  shows "st\<lparr>stored := (stored st)(k := committed (stored st k) (db_log t))\<rparr> =
    (case r of Inr _ \<Rightarrow> commit_entries k es st | Inl _ \<Rightarrow> st)"
proof -
  have "unwritten db fresh_scope" for db by (simp add: log_states fresh_scope_def)
  from tripleD [OF written_write_table [OF assms(1)] this assms(2)] show ?thesis
    by (auto simp: written_def unwritten_def commit_entries_def split: sum.splits)
qed

section \<open>Lookups\<close>

text \<open>The library that serves a read transaction over the table \<open>db\<close>.\<close>

definition serves_table :: "lmdb \<Rightarrow> database \<Rightarrow> bool" where
  "serves_table L db \<longleftrightarrow> (\<forall>cs t d k. case db k of
       None \<Rightarrow> mdb_rc L cs (Mdb_get t d k) = MDB_NOTFOUND
     | Some v \<Rightarrow> mdb_rc L cs (Mdb_get t d k) = MDB_SUCCESS \<and> mdb_data L cs (Mdb_get t d k) = v)"

text \<open>A lookup is what the model of the methods takes it for: the function \<open>db_get\<close>.\<close>

lemma dbi_get_table:
  assumes "serves_table L (db_get la)"
  shows "fst (dbi_get_obj L (val_assign_c r) s) = Inr (db_get la (c_str r))"
proof -
  let ?k = "c_str r"
  have "case db_get la ?k of None \<Rightarrow> mdb_rc L cs (Mdb_get t d ?k) = MDB_NOTFOUND
     | Some v \<Rightarrow> mdb_rc L cs (Mdb_get t d ?k) = MDB_SUCCESS \<and> mdb_data L cs (Mdb_get t d ?k) = v" for cs t d
    using assms unfolding serves_table_def by blast
  then show ?thesis by (cases "db_get la ?k") (simp_all add: db_code val_assign_c_def)
qed

section \<open>Examples\<close>

text \<open>A library in which every call succeeds, and one in which the commit does not.\<close>

definition good_lmdb :: lmdb where
  "good_lmdb = \<lparr>mdb_rc = (\<lambda>cs c. case c of Mdb_get _ _ _ \<Rightarrow> MDB_NOTFOUND | _ \<Rightarrow> MDB_SUCCESS), mdb_handle = (\<lambda>cs c. Suc (length cs)),
     mdb_data = (\<lambda>cs c. [])\<rparr>"

definition full_lmdb :: lmdb where
  "full_lmdb = good_lmdb\<lparr>mdb_rc := (\<lambda>cs c. case c of Txn_commit _ \<Rightarrow> MDB_other 28 | _ \<Rightarrow> MDB_SUCCESS)\<rparr>"

lemma lmdb_handles: "makes_handles good_lmdb" "makes_handles full_lmdb"
  by (simp_all add: makes_handles_def good_lmdb_def full_lmdb_def)

theorem method_handles_orderly_witness:
  "\<exists>r t. with_local_args good_lmdb ''/g'' (bindD (dbi_get_obj good_lmdb ''A'') (\<lambda>_. txn_abort_obj good_lmdb)) fresh_scope = (r, t)
     \<and> orderly (db_log t) \<and> used (db_log t) = {}"
proof -
  obtain r t where run: "with_local_args good_lmdb ''/g'' (bindD (dbi_get_obj good_lmdb ''A'') (\<lambda>_. txn_abort_obj good_lmdb)) fresh_scope = (r, t)"
    by fastforce
  show ?thesis
    using method_handles_orderly [OF lmdb_handles(1) only_reads_get, where aborts = True] run by auto
qed

theorem update_handles_orderly_witness:
  "\<exists>r t u v. write_table good_lmdb ''/g'' [] fresh_scope = (r, t) \<and> orderly (db_log t) \<and> used (db_log t) = {}
     \<and> write_table full_lmdb ''/g'' [] fresh_scope = (u, v) \<and> \<not> (orderly (db_log v) \<and> used (db_log v) = {})"
proof -
  obtain r t where t: "write_table good_lmdb ''/g'' [] fresh_scope = (r, t)" "\<not> commit_failed (db_log t)"
    by (simp add: write_table_def with_env_def with_txn_def finallyD_def db_code good_lmdb_def fresh_scope_def commit_failed_def)
  obtain u v where v: "write_table full_lmdb ''/g'' [] fresh_scope = (u, v)" "commit_failed (db_log v)"
    by (simp add: write_table_def with_env_def with_txn_def finallyD_def db_code good_lmdb_def full_lmdb_def fresh_scope_def commit_failed_def)
  show ?thesis
    using t v update_handles_orderly [OF lmdb_handles(1) t(1)] update_handles_orderly [OF lmdb_handles(2) v(1)] by blast
qed

theorem write_table_commits_witness:
  "\<exists>r t. write_table good_lmdb ''/g'' [(''A'', demo_node)] fresh_scope = (r, t) \<and> committed Map.empty (db_log t) = [''A'' \<mapsto> serialize demo_node]"
proof -
  obtain t where t: "write_table good_lmdb ''/g'' [(''A'', demo_node)] fresh_scope = (Inr (), t)"
    by (simp add: write_table_def with_env_def with_txn_def finallyD_def db_code good_lmdb_def fresh_scope_def)
  have "puts_overwrite good_lmdb" by (simp add: puts_overwrite_def good_lmdb_def)
  from write_table_commits [OF this t, of "\<lparr>linked = Some 0, stored = (\<lambda>_. Map.empty)\<rparr>" 0]
  have "committed Map.empty (db_log t) = [''A'' \<mapsto> serialize demo_node]"
    by (simp add: commit_entries_def put_node_def fun_upd_eqD)
  then show ?thesis using t by blast
qed

end
